(* ===== verification/Prelude.thy ===== *)
theory Prelude
  imports Main "HOL-Library.Word" "HOL-Library.Sublist"
begin

text \<open>
  Shared vocabulary of the development: the machine integer types of the Rust code, its
  saturating operations, the generic facts on lists and words the component theories use, and
  the interfaces (locales) several components implement.

  Integers that the code can wrap or saturate are words of their Rust width (the release profile
  of Cargo.toml leaves overflow checks off, so \<open>+\<close> wraps); sizes and indices that stay below
  the address space are \<open>nat\<close>. Instants and time stamps are integers counting milliseconds.
\<close>

unbundle bit_operations_syntax

named_theorems rust_std \<open>defining equations of the modelled parts of Rust's standard library\<close>
named_theorems frame \<open>fields an operation leaves alone\<close>

type_synonym u8 = "8 word"
type_synonym u16 = "16 word"
type_synonym u32 = "32 word"
type_synonym u64 = "64 word"
type_synonym i32 = int
type_synonym millis = int

section \<open>Integers\<close>

definition sat_sub :: "nat \<Rightarrow> nat \<Rightarrow> nat" where
  [rust_std]: "sat_sub a b = a - b"

definition sat_add_u32 :: "u32 \<Rightarrow> u32 \<Rightarrow> u32" where
  "sat_add_u32 a b = (if unat a + unat b < 2 ^ 32 then a + b else 0xFFFFFFFF)"

definition sat_mul_u64 :: "u64 \<Rightarrow> u64 \<Rightarrow> u64" where
  "sat_mul_u64 a b = (if unat a * unat b < 2 ^ 64 then a * b else 0xFFFFFFFFFFFFFFFF)"

text \<open>\<open>chrono::Duration::num_seconds\<close> of a difference of two instants: truncation towards zero.\<close>

definition num_seconds :: "millis \<Rightarrow> int" where
  "num_seconds d = (if 0 \<le> d then d div 1000 else - ((- d) div 1000))"

lemma num_seconds_nonneg: "0 \<le> d \<Longrightarrow> 0 \<le> num_seconds d"
  by (simp add: num_seconds_def pos_imp_zdiv_nonneg_iff)

lemma num_seconds_mono: "a \<le> b \<Longrightarrow> num_seconds a \<le> num_seconds b"
proof -
  assume "a \<le> b"
  show ?thesis
  proof (cases "0 \<le> a")
    case True
    with \<open>a \<le> b\<close> show ?thesis by (simp add: num_seconds_def zdiv_mono1)
  next
    case False
    then have neg: "num_seconds a \<le> 0"
      by (simp add: num_seconds_def pos_imp_zdiv_nonneg_iff)
    show ?thesis
    proof (cases "0 \<le> b")
      case True
      with neg show ?thesis using num_seconds_nonneg [of b] by linarith
    next
      case False
      with \<open>\<not> 0 \<le> a\<close> \<open>a \<le> b\<close> show ?thesis
        by (simp add: num_seconds_def zdiv_mono1)
    qed
  qed
qed

lemma unat_sat_add_u32: "unat (sat_add_u32 a b) = min (unat a + unat b) (2 ^ 32 - 1)"
proof (cases "unat a + unat b < 2 ^ 32")
  case True
  then have "unat (a + b) = unat a + unat b"
    by (simp add: unat_word_ariths)
  with True show ?thesis by (simp add: sat_add_u32_def)
next
  case False
  then have "\<not> unat a + unat b < 2 ^ 32" .
  moreover have "unat (0xFFFFFFFF :: u32) = 2 ^ 32 - 1" by simp
  ultimately show ?thesis by (simp add: sat_add_u32_def)
qed

lemma unat_sat_mul_u64: "unat (sat_mul_u64 a b) = min (unat a * unat b) (2 ^ 64 - 1)"
proof (cases "unat a * unat b < 2 ^ 64")
  case True
  then have "unat (a * b) = unat a * unat b"
    by (simp add: unat_word_ariths)
  with True show ?thesis by (simp add: sat_mul_u64_def)
next
  case False
  then have "\<not> unat a * unat b < 2 ^ 64" .
  moreover have "unat (0xFFFFFFFFFFFFFFFF :: u64) = 2 ^ 64 - 1" by simp
  ultimately show ?thesis by (simp add: sat_mul_u64_def)
qed

lemma unat_of_nat_small: "n < 2 ^ LENGTH('a) \<Longrightarrow> unat (of_nat n :: 'a::len word) = n"
  by (simp add: unat_of_nat take_bit_nat_eq_self)

lemma unat_Suc_of_nat: "Suc n < 2 ^ LENGTH('a) \<Longrightarrow> unat (1 + of_nat n :: 'a::len word) = Suc n"
  using unat_of_nat_small [of "Suc n", where 'a = 'a] by simp

lemma unat_add_small: "unat a + n < 2 ^ LENGTH('a) \<Longrightarrow> unat (a + of_nat n :: 'a::len word) = unat a + n"
  by (subst unat_add_lem [THEN iffD1]) (simp_all add: unat_of_nat_small)

lemma unat_min_word: "unat (min a b :: 'a::len word) = min (unat a) (unat b)"
  by (simp add: min_def word_le_nat_alt)

lemma unat_max_word: "unat (max a b :: 'a::len word) = max (unat a) (unat b)"
  by (simp add: max_def word_le_nat_alt)

lemma unat_push_bit_small:
  assumes "unat a * 2 ^ k < 2 ^ LENGTH('a)"
  shows "unat (push_bit k a :: 'a::len word) = unat a * 2 ^ k"
  unfolding unsigned_push_bit_eq using assms by (simp add: push_bit_eq_mult take_bit_nat_eq_self)

section \<open>Outcomes\<close>

text \<open>
  What a call can do besides returning: panic (the release profile has \<open>panic = "abort"\<close>, so the
  whole process ends) or never return.
\<close>

datatype 'a outcome = Returns 'a | Panics | Diverges

section \<open>Lists\<close>

text \<open>The last \<open>n\<close> elements: what a queue that drops its oldest entries keeps.\<close>

definition last_n :: "nat \<Rightarrow> 'a list \<Rightarrow> 'a list" where
  "last_n n xs = drop (length xs - n) xs"

lemma length_last_n [simp]: "length (last_n n xs) = min n (length xs)"
  by (simp add: last_n_def)

lemma last_n_all [simp]: "length xs \<le> n \<Longrightarrow> last_n n xs = xs"
  by (simp add: last_n_def)

lemma last_n_append_right: "n \<le> length ys \<Longrightarrow> last_n n (xs @ ys) = last_n n ys"
  by (simp add: last_n_def)

lemma set_last_n_subset: "set (last_n n xs) \<subseteq> set xs"
  by (simp add: last_n_def set_drop_subset)

lemma last_n_absorb: "last_n n (last_n n xs @ ys) = last_n n (xs @ ys)"
proof (cases "length xs \<le> n")
  case True
  then show ?thesis by simp
next
  case False
  then have len: "length (last_n n xs) = n" by simp
  have "last_n n (last_n n xs @ ys) = drop (length ys) (last_n n xs @ ys)"
    using len by (simp add: last_n_def)
  also have "\<dots> = drop (length ys) (drop (length xs - n) (xs @ ys))"
    using False by (simp add: last_n_def)
  also have "\<dots> = drop (length ys + (length xs - n)) (xs @ ys)"
    by simp
  also have "length ys + (length xs - n) = length (xs @ ys) - n"
    using False by simp
  finally show ?thesis by (simp add: last_n_def)
qed

lemma last_n_suffix: "suffix (last_n n xs) xs"
  by (simp add: last_n_def suffix_drop)

lemma last_n_tl: "xs \<noteq> [] \<Longrightarrow> length xs = Suc n \<Longrightarrow> last_n n xs = tl xs"
  by (cases xs) (simp_all add: last_n_def)

text \<open>\<open>pop_front\<close> while a queue is longer than its capacity.\<close>

fun pop_while_over :: "nat \<Rightarrow> 'a list \<Rightarrow> 'a list" where
  "pop_while_over cap [] = []"
| "pop_while_over cap (x # xs) =
     (if cap < length (x # xs) then pop_while_over cap xs else x # xs)"

lemma pop_while_over_last_n: "pop_while_over cap xs = last_n cap xs"
  by (induction xs) (auto simp: last_n_def Suc_diff_le)

text \<open>The first element with a property, and the list with the first such element rewritten.\<close>

fun update_first :: "('a \<Rightarrow> bool) \<Rightarrow> ('a \<Rightarrow> 'a) \<Rightarrow> 'a list \<Rightarrow> 'a list" where
  "update_first p f [] = []"
| "update_first p f (x # xs) = (if p x then f x # xs else x # update_first p f xs)"

lemma length_update_first [simp]: "length (update_first p f xs) = length xs"
  by (induction xs) auto

lemma update_first_none: "\<forall>x \<in> set xs. \<not> p x \<Longrightarrow> update_first p f xs = xs"
  by (induction xs) auto

lemma update_first_map: "(\<And>x. g (f x) = g x) \<Longrightarrow> map g (update_first p f xs) = map g xs"
  by (induction xs) auto

lemma update_first_split:
  assumes "\<exists>x \<in> set xs. p x"
  obtains ys x zs where "xs = ys @ x # zs" "p x" "\<forall>y \<in> set ys. \<not> p y"
    "update_first p f xs = ys @ f x # zs"
  using assms
proof (induction xs arbitrary: thesis)
  case Nil
  then show ?case by simp
next
  case (Cons a xs)
  show ?case
  proof (cases "p a")
    case True
    then show ?thesis by (intro Cons.prems(1) [of "[]" a xs]) auto
  next
    case False
    with Cons.prems(2) obtain ys x zs where "xs = ys @ x # zs" "p x" "\<forall>y \<in> set ys. \<not> p y"
      "update_first p f xs = ys @ f x # zs"
      using Cons.IH by auto
    with False show ?thesis by (intro Cons.prems(1) [of "a # ys" x zs]) auto
  qed
qed

lemma find_update_first:
  "(\<And>x. p x \<Longrightarrow> p (f x)) \<Longrightarrow>
   List.find p (update_first p f xs) = map_option f (List.find p xs)"
  by (induction xs) auto

lemma find_update_other:
  "(\<And>x. p x \<Longrightarrow> \<not> q x) \<Longrightarrow> (\<And>x. p x \<Longrightarrow> \<not> q (f x)) \<Longrightarrow>
   List.find q (update_first p f xs) = List.find q xs"
  by (induction xs) auto

lemma find_append: "List.find p (xs @ ys) =
    (case List.find p xs of None \<Rightarrow> List.find p ys | Some x \<Rightarrow> Some x)"
  by (induction xs) auto

text \<open>How many of the last entries are \<open>x\<close>: what a counter of consecutive results counts.\<close>

definition trailing :: "'a \<Rightarrow> 'a list \<Rightarrow> nat" where
  "trailing x ys = length (takeWhile (\<lambda>y. y = x) (rev ys))"

lemma trailing_simps [simp]:
  "trailing x [] = 0" "trailing x (ys @ [x]) = Suc (trailing x ys)"
  "y \<noteq> x \<Longrightarrow> trailing x (ys @ [y]) = 0"
  by (simp_all add: trailing_def)

lemma trailing_le: "trailing x ys \<le> length ys"
  using length_takeWhile_le [of "\<lambda>y. y = x" "rev ys"] by (simp add: trailing_def)

text \<open>Selecting and converting at once (\<open>Iterator::filter_map\<close>).\<close>

lemma map_filter_Nil [simp]: "List.map_filter f [] = []"
  by (simp add: List.map_filter_def)

lemma map_filter_Cons [simp]: "List.map_filter f (x # xs) =
    (case f x of None \<Rightarrow> List.map_filter f xs | Some y \<Rightarrow> y # List.map_filter f xs)"
  by (simp add: List.map_filter_def split: option.split)

lemma in_map_filter [simp]: "y \<in> set (List.map_filter f xs) \<longleftrightarrow> (\<exists>x \<in> set xs. f x = Some y)"
  by (induction xs) (auto split: option.splits)

lemma map_filter_filter:
  assumes "\<And>x r. f x = Some r \<Longrightarrow> P x \<longleftrightarrow> Q r"
  shows "List.map_filter f (filter P xs) = filter Q (List.map_filter f xs)"
  by (induction xs) (auto simp: assms split: option.split)

lemma filter_drop_keep:
  assumes "distinct (map f xs)"
  shows "filter (\<lambda>x. f x \<notin> f ` set (drop k xs)) xs = take k xs"
proof -
  from assms have "distinct (map f (take k xs @ drop k xs))" by simp
  then have "f ` set (take k xs) \<inter> f ` set (drop k xs) = {}"
    unfolding map_append distinct_append by simp
  then have "filter (\<lambda>x. f x \<notin> f ` set (drop k xs)) (take k xs @ drop k xs) = take k xs"
    unfolding filter_append by (auto simp: filter_id_conv filter_empty_conv)
  then show ?thesis by simp
qed

text \<open>Counting below and up to the element at a position of a sorted list.\<close>

lemma sorted_count_le:
  assumes "sorted s" "i < length s"
  shows "Suc i \<le> length (filter (\<lambda>x. x \<le> s ! i) s)"
proof -
  have "list_all (\<lambda>x. x \<le> s ! i) (take (Suc i) s)"
    using assms by (auto simp: list_all_length sorted_nth_mono)
  then have "filter (\<lambda>x. x \<le> s ! i) (take (Suc i) s) = take (Suc i) s"
    by (simp add: filter_id_conv list_all_iff)
  then have "length (take (Suc i) s) \<le> length (filter (\<lambda>x. x \<le> s ! i) (take (Suc i) s @ drop (Suc i) s))"
    unfolding filter_append length_append by simp
  then show ?thesis using assms(2) by simp
qed

lemma sorted_count_less:
  assumes "sorted s" "i < length s"
  shows "length (filter (\<lambda>x. x < s ! i) s) \<le> i"
proof -
  have "list_all (\<lambda>x. \<not> x < s ! i) (drop i s)"
    using assms by (auto simp: list_all_length not_less intro!: sorted_nth_mono)
  then have "filter (\<lambda>x. x < s ! i) (drop i s) = []"
    by (simp add: filter_empty_conv list_all_iff)
  then have "length (filter (\<lambda>x. x < s ! i) (take i s @ drop i s)) \<le> length (take i s)"
    unfolding filter_append using length_filter_le [of _ "take i s"] by simp
  then show ?thesis using assms(2) by simp
qed

section \<open>Interfaces\<close>

text \<open>
  A queue that keeps the newest \<open>cap\<close> entries: the contract of the log tail
  (\<open>stormlog/src/lib.rs\<close>), of the latency window (\<open>apihealth.rs\<close>) and of the event store
  (\<open>k8sevents.rs\<close>).
\<close>

locale bounded_queue =
  fixes push :: "'q \<Rightarrow> 'a \<Rightarrow> 'q"
    and items :: "'q \<Rightarrow> 'a list"
    and cap :: nat
  assumes items_push: "length (items q) \<le> cap \<Longrightarrow> items (push q x) = last_n cap (items q @ [x])"
begin

lemma push_bounded: "length (items q) \<le> cap \<Longrightarrow> length (items (push q x)) \<le> cap"
  by (simp add: items_push)

lemma pushes_items:
  "length (items q) \<le> cap \<Longrightarrow> items (foldl push q xs) = last_n cap (items q @ xs)"
proof (induction xs arbitrary: q)
  case Nil
  then show ?case by simp
next
  case (Cons x xs)
  have "items (foldl push (push q x) xs) = last_n cap (items (push q x) @ xs)"
    by (rule Cons.IH) (rule push_bounded [OF Cons.prems])
  also have "\<dots> = last_n cap ((items q @ [x]) @ xs)"
    by (simp only: items_push [OF Cons.prems] last_n_absorb)
  finally show ?case by simp
qed

lemma newest_kept:
  "0 < cap \<Longrightarrow> length (items q) \<le> cap \<Longrightarrow> last (items (push q x)) = x \<and> items (push q x) \<noteq> []"
  by (auto simp: items_push last_n_def last_drop)

end

text \<open>
  A restart delay: never shorter than \<open>lo\<close>, never longer than \<open>hi\<close>, and not decreasing in the
  number of attempts. Both restart policies of the supervisor have it.
\<close>

locale delay_policy =
  fixes delay :: "nat \<Rightarrow> nat"
    and lo hi :: nat
  assumes delay_lo: "lo \<le> delay n"
    and delay_hi: "delay n \<le> hi"
    and delay_step: "delay n \<le> delay (Suc n)"
begin

lemma delay_mono: "m \<le> n \<Longrightarrow> delay m \<le> delay n"
  by (rule lift_Suc_mono_le [of delay]) (rule delay_step)

lemma total_lo: "n * lo \<le> (\<Sum>k<n. delay k)"
  using sum_bounded_below [of "{..<n}" lo delay] by (simp add: delay_lo)

lemma total_hi: "(\<Sum>k<n. delay k) \<le> n * hi"
  using sum_bounded_above [of "{..<n}" delay hi] by (simp add: delay_hi)

lemma attempts_bounded: "(\<Sum>k<n. delay k) \<le> window \<Longrightarrow> n * lo \<le> window"
  using total_lo [of n] by linarith

end

text \<open>An encoder and a decoder that reads back what it wrote, on the values \<open>ok\<close> accepts.\<close>

locale codec =
  fixes enc :: "'a \<Rightarrow> 'b"
    and dec :: "'b \<Rightarrow> 'a option"
    and ok :: "'a \<Rightarrow> bool"
  assumes dec_enc: "ok x \<Longrightarrow> dec (enc x) = Some x"
begin

lemma enc_inj: "ok x \<Longrightarrow> ok y \<Longrightarrow> enc x = enc y \<Longrightarrow> x = y"
  by (metis dec_enc option.inject)

end

text \<open>A transition system with an invariant, and one with a quantity no step decreases.\<close>

locale step_invariant =
  fixes start :: "'s \<Rightarrow> bool"
    and step :: "'s \<Rightarrow> 's \<Rightarrow> bool"
    and inv :: "'s \<Rightarrow> bool"
  assumes start_inv: "start s \<Longrightarrow> inv s"
    and step_inv: "inv s \<Longrightarrow> step s t \<Longrightarrow> inv t"
begin

lemma steps_inv: "step\<^sup>*\<^sup>* s t \<Longrightarrow> inv s \<Longrightarrow> inv t"
  by (induction rule: rtranclp_induct) (auto intro: step_inv)

lemma reachable_inv: "start s \<Longrightarrow> step\<^sup>*\<^sup>* s t \<Longrightarrow> inv t"
  by (rule steps_inv) (auto intro: start_inv)

end

locale step_monotone =
  fixes step :: "'s \<Rightarrow> 's \<Rightarrow> bool"
    and level :: "'s \<Rightarrow> 'b::order"
  assumes step_level: "step s t \<Longrightarrow> level s \<le> level t"
begin

lemma steps_level: "step\<^sup>*\<^sup>* s t \<Longrightarrow> level s \<le> level t"
  by (induction rule: rtranclp_induct) (auto intro: order_trans step_level)

end

end
