(* ===== verification/Probes.thy ===== *)
theory Probes
  imports RustStr
begin

text \<open>
  \<open>crates/stormd/src/probes.rs\<close>: the Kubernetes-shaped probes. The configuration of a probe and
  its checks, one try of each action (the network and the child process are parameters), the gRPC
  health frame written and read byte by byte, and the counter of consecutive results.
\<close>

section \<open>Configuration\<close>

record header =
  hd_name :: string
  hd_value :: string

record http_get_cfg =
  hg_path :: string
  hg_port :: u16
  hg_host :: string
  hg_scheme :: string
  hg_headers :: "header list"

record tcp_socket_cfg =
  ts_port :: u16
  ts_host :: string

record exec_cfg =
  ex_command :: "string list"

record grpc_cfg =
  gr_port :: u16
  gr_service :: "string option"

record probe =
  http_get :: "http_get_cfg option"
  tcp_socket :: "tcp_socket_cfg option"
  exec :: "exec_cfg option"
  grpc :: "grpc_cfg option"
  initial_delay_seconds :: u64
  period_seconds :: u64
  timeout_seconds :: u64
  success_threshold :: u32
  failure_threshold :: u32

definition d_period :: u64 where "d_period = 10"
definition d_timeout :: u64 where "d_timeout = 1"
definition d_one :: u32 where "d_one = 1"
definition d_three :: u32 where "d_three = 3"
definition d_path :: string where "d_path = ''/''"
definition d_host :: string where "d_host = ''127.0.0.1''"
definition d_scheme :: string where "d_scheme = ''HTTP''"

text \<open>What a table with no keys but its action reads as.\<close>

definition default_probe :: probe where
  "default_probe = \<lparr>http_get = None, tcp_socket = None, exec = None, grpc = None,
     initial_delay_seconds = 0, period_seconds = d_period, timeout_seconds = d_timeout,
     success_threshold = d_one, failure_threshold = d_three\<rparr>"

datatype probe_error =
    NeedsOneAction
  | ZeroNumber
  | SuccessThresholdNotOne string
  | ExecCommandEmpty
  | SchemeUnknown string

definition probe_actions :: "probe \<Rightarrow> nat" where
  "probe_actions p =
     length (filter id [http_get p \<noteq> None, tcp_socket p \<noteq> None, exec p \<noteq> None, grpc p \<noteq> None])"

definition probe_check :: "probe \<Rightarrow> string \<Rightarrow> probe_error + unit" where
  "probe_check p kind =
     (if probe_actions p \<noteq> 1 then Inl NeedsOneAction
      else if period_seconds p = 0 \<or> timeout_seconds p = 0 \<or> failure_threshold p = 0
              \<or> success_threshold p = 0 then Inl ZeroNumber
      else if kind \<noteq> ''readiness'' \<and> success_threshold p \<noteq> 1
        then Inl (SuccessThresholdNotOne kind)
      else if (case exec p of Some e \<Rightarrow> ex_command e = [] | None \<Rightarrow> False) then Inl ExecCommandEmpty
      else case http_get p of
          Some h \<Rightarrow>
            if \<not> eq_ignore_ascii_case (hg_scheme h) ''http''
               \<and> \<not> eq_ignore_ascii_case (hg_scheme h) ''https''
            then Inl (SchemeUnknown (hg_scheme h)) else Inr ()
        | None \<Rightarrow> Inr ())"

section \<open>For people\<close>

definition url_scheme :: "http_get_cfg \<Rightarrow> string" where
  "url_scheme h = (if eq_ignore_ascii_case (hg_scheme h) ''https'' then ''https'' else ''http'')"

definition show_port :: "u16 \<Rightarrow> string" where
  "show_port p = show_nat (unat p)"

definition probe_describe :: "probe \<Rightarrow> string" where
  "probe_describe p =
     (case http_get p of
        Some h \<Rightarrow> ''http GET '' @ url_scheme h @ ''://'' @ hg_host h @ '':'' @ show_port (hg_port h) @ hg_path h
      | None \<Rightarrow>
     (case tcp_socket p of
        Some t \<Rightarrow> ''tcp '' @ ts_host t @ '':'' @ show_port (ts_port t)
      | None \<Rightarrow>
     (case exec p of
        Some x \<Rightarrow> ''exec '' @ join '' '' (ex_command x)
      | None \<Rightarrow>
     (case grpc p of
        Some g \<Rightarrow>
          (case gr_service g of
             Some s \<Rightarrow> ''grpc 127.0.0.1:'' @ show_port (gr_port g) @ '' service '' @ s
           | None \<Rightarrow> ''grpc 127.0.0.1:'' @ show_port (gr_port g))
      | None \<Rightarrow> ''no action''))))"

definition probe_timing :: "probe \<Rightarrow> string" where
  "probe_timing p =
     (let t = ''every '' @ show_nat (unat (period_seconds p)) @ ''s, timeout ''
            @ show_nat (unat (timeout_seconds p)) @ ''s, failures ''
            @ show_nat (unat (failure_threshold p)) @ '', delay ''
            @ show_nat (unat (initial_delay_seconds p)) @ ''s''
      in if success_threshold p \<noteq> 1
         then t @ '', successes '' @ show_nat (unat (success_threshold p)) else t)"

section \<open>The gRPC health frame\<close>

function put_varint :: "u64 \<Rightarrow> u8 list" where
  "put_varint v =
     (if 0x80 \<le> v then ((ucast v :: u8) OR 0x80) # put_varint (drop_bit 7 v) else [ucast v])"
  by pat_completeness auto
termination
proof (relation "measure unat")
  fix v :: u64
  assume "0x80 \<le> v"
  then have "128 \<le> unat v" by (simp add: word_le_nat_alt)
  then show "(drop_bit 7 v, v) \<in> measure unat"
    by (simp add: unat_div drop_bit_eq_div)
qed simp

declare put_varint.simps [simp del]

fun varint_from :: "nat \<Rightarrow> u64 \<Rightarrow> u8 list \<Rightarrow> (u64 \<times> nat) option" where
  "varint_from i v [] = None"
| "varint_from i v (b # bs) =
     (if 10 \<le> i then None
      else let v' = v OR push_bit (7 * i) (ucast (b AND 0x7f))
           in if b AND 0x80 = 0 then Some (v', i + 1) else varint_from (i + 1) v' bs)"

definition varint :: "u8 list \<Rightarrow> (u64 \<times> nat) option" where
  "varint bs = varint_from 0 0 bs"

definition be32 :: "u32 \<Rightarrow> u8 list" where
  "be32 n = [ucast (drop_bit 24 n), ucast (drop_bit 16 n), ucast (drop_bit 8 n), ucast n]"

definition from_be32 :: "u8 \<Rightarrow> u8 \<Rightarrow> u8 \<Rightarrow> u8 \<Rightarrow> u32" where
  "from_be32 a b c d =
     push_bit 24 (ucast a) OR push_bit 16 (ucast b) OR push_bit 8 (ucast c) OR ucast d"

definition grpc_request :: "u8 list \<Rightarrow> u8 list" where
  "grpc_request service =
     (let msg = (if service = [] then []
                 else 0x0a # put_varint (of_nat (length service)) @ service)
      in 0 # be32 (of_nat (length msg)) @ msg)"

text \<open>
  The field loop of \<open>grpc_serving_status\<close>. The index is a \<open>usize\<close> and \<open>i += n + l as usize\<close> wraps
  in the release build, so nothing makes the loop end by itself: the outer \<open>None\<close> is "does not
  return", the inner one is the function's own \<open>None\<close>.
\<close>

partial_function (option) grpc_fields :: "u8 list \<Rightarrow> u64 \<Rightarrow> u64 \<Rightarrow> u64 option option" where
  "grpc_fields msg i status =
     (if unat i < length msg then
        (case varint (drop (unat i) msg) of
           None \<Rightarrow> Some None
         | Some (tag, n) \<Rightarrow>
             if tag AND 7 = 0 then
               (case varint (drop (unat (i + of_nat n)) msg) of
                  None \<Rightarrow> Some None
                | Some (v, n2) \<Rightarrow>
                    grpc_fields msg (i + of_nat n + of_nat n2)
                      (if drop_bit 3 tag = 1 then v else status))
             else if tag AND 7 = 2 then
               (case varint (drop (unat (i + of_nat n)) msg) of
                  None \<Rightarrow> Some None
                | Some (l, n2) \<Rightarrow> grpc_fields msg (i + of_nat n + (of_nat n2 + l)) status)
             else Some None)
      else Some (Some status))"

definition grpc_serving_status :: "u8 list \<Rightarrow> u64 option option" where
  "grpc_serving_status frame =
     (case frame of
        f0 # f1 # f2 # f3 # f4 # rest \<Rightarrow>
          if f0 \<noteq> 0 then Some None
          else (let len = unat (from_be32 f1 f2 f3 f4)
                in if len \<le> length rest then grpc_fields (take len rest) 0 0 else Some None)
      | _ \<Rightarrow> Some None)"

definition serving_name :: "u64 \<Rightarrow> string" where
  "serving_name s =
     (if s = 0 then ''UNKNOWN'' else if s = 1 then ''SERVING''
      else if s = 2 then ''NOT_SERVING'' else if s = 3 then ''SERVICE_UNKNOWN'' else ''?'')"

lemma bit_u8_masks: "bit (0x7f :: int) n \<longleftrightarrow> n < 7" "bit (0x80 :: int) n \<longleftrightarrow> n = 7"
proof -
  have "(0x7f :: int) = mask 7" by (simp add: mask_eq_exp_minus_1)
  then show "bit (0x7f :: int) n \<longleftrightarrow> n < 7" by (simp only: bit_mask_iff) auto
  have "(0x80 :: int) = 2 ^ 7" by simp
  then show "bit (0x80 :: int) n \<longleftrightarrow> n = 7" by (simp only: bit_exp_iff) auto
qed

lemma take_bit_small: "unat (v :: 'a::len word) < 2 ^ k \<Longrightarrow> take_bit k v = v"
  by (simp add: word_unat_eq_iff unsigned_take_bit_eq take_bit_nat_eq_self)

lemma varint_byte_more:
  fixes v :: u64
  shows "((ucast v :: u8) OR 0x80) AND 0x7f = ucast v AND 0x7f"
  by (rule bit_word_eqI) (auto simp: bit_simps bit_u8_masks)

lemma varint_byte_cont:
  fixes v :: u64
  shows "((ucast v :: u8) OR 0x80) AND 0x80 \<noteq> 0"
proof -
  have "bit (((ucast v :: u8) OR 0x80) AND 0x80) 7"
    by (simp add: bit_simps bit_u8_masks)
  then show ?thesis by auto
qed

lemma varint_join:
  fixes v :: u64
  assumes "k + 7 \<le> 64"
  shows "push_bit k (ucast ((ucast v :: u8) AND 0x7f)) OR push_bit (k + 7) (drop_bit 7 v) = push_bit k v"
proof (rule bit_word_eqI)
  fix n
  have "7 + (n - (k + 7)) = n - k" if "\<not> n - k < 7"
    using that by linarith
  then show "bit (push_bit k (ucast ((ucast v :: u8) AND 0x7f)) OR push_bit (k + 7) (drop_bit 7 v)) n
      = bit (push_bit k v) n"
    by (cases "n - k < 7") (auto simp: bit_simps bit_u8_masks)
qed

lemma varint_last:
  fixes v :: u64
  assumes "v < 0x80"
  shows "(ucast ((ucast v :: u8) AND 0x7f) :: u64) = v" "((ucast v :: u8) AND 0x80) = 0"
proof -
  have v: "take_bit 7 v = v"
    using assms by (intro take_bit_small) (simp add: word_less_nat_alt)
  have "(ucast ((ucast v :: u8) AND 0x7f) :: u64) = take_bit 7 v"
    by (rule bit_word_eqI) (auto simp: bit_simps bit_u8_masks)
  with v show "(ucast ((ucast v :: u8) AND 0x7f) :: u64) = v" by simp
  have "(ucast (take_bit 7 v) :: u8) AND 0x80 = 0"
    by (rule bit_word_eqI) (auto simp: bit_simps bit_u8_masks)
  with v show "((ucast v :: u8) AND 0x80) = 0" by simp
qed

lemma unat_drop7: "unat (v :: u64) < 2 ^ (64 - 7 * i) \<Longrightarrow> 7 * Suc i \<le> 64 \<Longrightarrow> unat (drop_bit 7 v) < 2 ^ (64 - 7 * Suc i)"
proof -
  assume v: "unat v < 2 ^ (64 - 7 * i)" and i: "7 * Suc i \<le> 64"
  have "64 - 7 * i = 7 + (64 - 7 * Suc i)" using i by simp
  with v have "unat v < 128 * 2 ^ (64 - 7 * Suc i)" by (simp only: power_add) simp
  then show ?thesis by (simp add: unat_div drop_bit_eq_div less_mult_imp_div_less mult.commute)
qed

lemma varint_from_cont:
  fixes v :: u64
  assumes "i < 10"
  shows "varint_from i acc (((ucast v :: u8) OR 0x80) # bs)
    = varint_from (i + 1) (acc OR push_bit (7 * i) (ucast ((ucast v :: u8) AND 0x7f))) bs"
  using assms varint_byte_cont [of v]
  by (simp only: varint_from.simps Let_def varint_byte_more not_le [symmetric] if_False if_cancel)

lemma varint_from_put:
  "unat v < 2 ^ (64 - 7 * i) \<Longrightarrow> i < 10 \<Longrightarrow>
   varint_from i acc (put_varint v @ rest)
     = Some (acc OR push_bit (7 * i) v, i + length (put_varint v))"
proof (induction v arbitrary: i acc rule: put_varint.induct)
  case (1 v)
  show ?case
  proof (cases "0x80 \<le> v")
    case True
    have "2 ^ 7 \<le> unat v" using True by (simp add: word_le_nat_alt)
    with "1.prems"(1) have "(2::nat) ^ 7 < 2 ^ (64 - 7 * i)" by linarith
    then have "7 < 64 - 7 * i" by (rule power_less_imp_less_exp [rotated]) simp
    then have i: "i + 1 < 10" "7 * i + 7 \<le> 64" "7 * Suc i \<le> 64" by simp_all
    let ?acc = "acc OR push_bit (7 * i) (ucast ((ucast v :: u8) AND 0x7f))"
    have put: "put_varint v = ((ucast v :: u8) OR 0x80) # put_varint (drop_bit 7 v)"
      using True by (subst put_varint.simps) simp
    have "unat (drop_bit 7 v) < 2 ^ (64 - 7 * (i + 1))"
      using unat_drop7 [OF "1.prems"(1) i(3)] by simp
    then have "varint_from (i + 1) ?acc (put_varint (drop_bit 7 v) @ rest)
        = Some (?acc OR push_bit (7 * (i + 1)) (drop_bit 7 v), i + 1 + length (put_varint (drop_bit 7 v)))"
      by (rule "1.IH" [OF True _ i(1)])
    moreover have "?acc OR push_bit (7 * (i + 1)) (drop_bit 7 v) = acc OR push_bit (7 * i) v"
      using varint_join [OF i(2), of v] by (simp only: or.assoc distrib_left mult_1_right)
    ultimately show ?thesis
      unfolding put append_Cons using "1.prems"(2) by (simp only: varint_from_cont) simp
  next
    case False
    then have v: "v < 0x80" by simp
    have put: "put_varint v = [ucast v]"
      using False by (subst put_varint.simps) simp
    show ?thesis unfolding put append_Cons append_Nil using "1.prems"(2)
      using varint_last [OF v] by simp
  qed
qed

lemma varint_put: "varint (put_varint v @ rest) = Some (v, length (put_varint v))"
  using varint_from_put [of v 0 0 rest] unsigned_less [of v] by (simp add: varint_def)

lemma varint_from_length: "varint_from i v bs = Some (w, n) \<Longrightarrow> i < n \<and> n \<le> i + length bs \<and> n \<le> 10"
  by (induction i v bs rule: varint_from.induct) (fastforce simp: Let_def split: if_splits)+

lemma or_push_bound:
  fixes v x :: u64
  assumes "unat v < 2 ^ k" "unat x < 2 ^ 7"
  shows "unat (v OR push_bit k x) < 2 ^ (k + 7)"
proof -
  have v: "bit v n \<Longrightarrow> n < k" for n
    using take_bit_small [OF assms(1)] by (metis bit_take_bit_iff)
  have x: "bit x n \<Longrightarrow> n < 7" for n
    using take_bit_small [OF assms(2)] by (metis bit_take_bit_iff)
  have "take_bit (k + 7) (v OR push_bit k x) = v OR push_bit k x"
    by (rule bit_word_eqI) (auto simp: bit_take_bit_iff bit_or_iff bit_push_bit_iff dest: v x)
  then have "unat (v OR push_bit k x) = take_bit (k + 7) (unat (v OR push_bit k x))"
    by (metis unsigned_take_bit_eq)
  then show ?thesis by (metis take_bit_nat_less_exp)
qed

lemma low7_bound: "unat (ucast ((b :: u8) AND 0x7f) :: u64) < 2 ^ 7"
proof -
  have "take_bit 7 (ucast (b AND 0x7f) :: u64) = ucast (b AND 0x7f)"
    by (rule bit_word_eqI) (auto simp: bit_simps bit_u8_masks)
  then show ?thesis by (metis unsigned_take_bit_eq take_bit_nat_less_exp)
qed

lemma varint_from_bound:
  "varint_from i v bs = Some (w, n) \<Longrightarrow> unat v < 2 ^ (7 * i) \<Longrightarrow> unat w < 2 ^ (7 * n)"
proof (induction i v bs rule: varint_from.induct)
  case (2 i v b bs)
  have "unat (v OR push_bit (7 * i) (ucast (b AND 0x7f))) < 2 ^ (7 * (i + 1))"
    using or_push_bound [OF "2.prems"(2) low7_bound, of b] by (simp add: add.commute)
  with 2 show ?case by (auto simp: Let_def split: if_splits)
qed simp

section \<open>One try\<close>

text \<open>
  What the network and the kernel answer is a parameter: one function per kind of request
  (\<open>reqwest\<close>, \<open>tokio::net\<close>, \<open>tokio::process\<close>), given what \<open>run\<close> asks of it.
\<close>

datatype http_reply = HttpUnbuilt string | HttpReply nat | HttpTimedOut | HttpError string

datatype tcp_reply = TcpConnected | TcpError string | TcpTimedOut

datatype exec_reply = ExecOutput bool "i32 option" string string | ExecError string | ExecTimedOut

datatype grpc_reply =
    GrpcUnbuilt string
  | GrpcTimedOut
  | GrpcError string
  | GrpcReply "string option" "string option" "string + u8 list"

record probe_io =
  io_http :: "string \<Rightarrow> header list \<Rightarrow> u64 \<Rightarrow> http_reply"
  io_tcp :: "string \<Rightarrow> u64 \<Rightarrow> tcp_reply"
  io_exec :: "string \<Rightarrow> string list \<Rightarrow> u64 \<Rightarrow> exec_reply"
  io_grpc :: "string \<Rightarrow> u8 list \<Rightarrow> u64 \<Rightarrow> grpc_reply"

datatype probe_failure =
    ClientUnbuilt string
  | HttpStatus nat
  | HttpDeadline string
  | HttpGetFailed string string
  | DialFailed string string
  | DialTimeout string
  | CommandExited "string list" string string
  | CommandFailed "string list" string
  | CommandTimeout "string list" u64
  | GrpcConnectTimeout string u64
  | GrpcConnectFailed string string
  | RpcError string string
  | BodyUnread string
  | Unhealthy string
  | NoHealthResponse
  | NoAction

definition bytes_of :: "string \<Rightarrow> u8 list" where
  "bytes_of s = map of_char s"

definition grpc_check :: "probe_io \<Rightarrow> grpc_cfg \<Rightarrow> u64 \<Rightarrow> (probe_failure + unit) outcome" where
  "grpc_check io g timeout =
     (let addr = ''127.0.0.1:'' @ show_port (gr_port g);
          service = (case gr_service g of Some s \<Rightarrow> s | None \<Rightarrow> [])
      in case io_grpc io (''http://'' @ addr @ ''/grpc.health.v1.Health/Check'')
                (grpc_request (bytes_of service)) timeout of
           GrpcUnbuilt e \<Rightarrow> Returns (Inl (ClientUnbuilt e))
         | GrpcTimedOut \<Rightarrow> Returns (Inl (GrpcConnectTimeout addr timeout))
         | GrpcError e \<Rightarrow> Returns (Inl (GrpcConnectFailed addr e))
         | GrpcReply st msg body \<Rightarrow>
             if (case st of Some s \<Rightarrow> s \<noteq> ''0'' | None \<Rightarrow> False)
             then Returns (Inl (RpcError (the st) (case msg of Some m \<Rightarrow> m | None \<Rightarrow> [])))
             else
               (case body of
                  Inl e \<Rightarrow> Returns (Inl (BodyUnread e))
                | Inr bytes \<Rightarrow>
                    (case grpc_serving_status bytes of
                       None \<Rightarrow> Diverges
                     | Some None \<Rightarrow> Returns (Inl NoHealthResponse)
                     | Some (Some s) \<Rightarrow>
                         Returns (if s = 1 then Inr () else Inl (Unhealthy (serving_name s))))))"

definition command_output :: "string \<Rightarrow> string \<Rightarrow> string" where
  "command_output out err =
     (let o1 = trim out
      in if trim err \<noteq> [] then trim (o1 @ '' '' @ trim err) else o1)"

definition probe_run :: "probe_io \<Rightarrow> probe \<Rightarrow> (probe_failure + unit) outcome" where
  "probe_run io p =
     (let timeout = max (timeout_seconds p) 1 in
      case http_get p of
        Some h \<Rightarrow>
          (let path = (if starts_with (hg_path h) ''/'' then hg_path h else ''/'' @ hg_path h);
               url = url_scheme h @ ''://'' @ hg_host h @ '':'' @ show_port (hg_port h) @ path
           in case io_http io url (hg_headers h) timeout of
                HttpUnbuilt e \<Rightarrow> Returns (Inl (ClientUnbuilt e))
              | HttpReply st \<Rightarrow>
                  Returns (if 200 \<le> st \<and> st < 400 then Inr () else Inl (HttpStatus st))
              | HttpTimedOut \<Rightarrow> Returns (Inl (HttpDeadline url))
              | HttpError e \<Rightarrow> Returns (Inl (HttpGetFailed url e)))
      | None \<Rightarrow>
      (case tcp_socket p of
        Some t \<Rightarrow>
          (let addr = ts_host t @ '':'' @ show_port (ts_port t)
           in case io_tcp io addr timeout of
                TcpConnected \<Rightarrow> Returns (Inr ())
              | TcpError e \<Rightarrow> Returns (Inl (DialFailed addr e))
              | TcpTimedOut \<Rightarrow> Returns (Inl (DialTimeout addr)))
      | None \<Rightarrow>
      (case exec p of
        Some x \<Rightarrow>
          (case ex_command x of
             [] \<Rightarrow> Panics
           | cmd # args \<Rightarrow>
               (case io_exec io cmd args timeout of
                  ExecOutput ok code out err \<Rightarrow>
                    if ok then Returns (Inr ())
                    else Returns (Inl (CommandExited (ex_command x)
                           (case code of Some c \<Rightarrow> show_int c | None \<Rightarrow> ''a signal'')
                           (command_output out err)))
                | ExecError e \<Rightarrow> Returns (Inl (CommandFailed (ex_command x) e))
                | ExecTimedOut \<Rightarrow>
                    Returns (Inl (CommandTimeout (ex_command x) (timeout_seconds p)))))
      | None \<Rightarrow>
      (case grpc p of
        Some g \<Rightarrow> grpc_check io g timeout
      | None \<Rightarrow> Returns (Inl NoAction)))))"

section \<open>Consecutive results\<close>

record counter =
  successes :: u32
  failures :: u32

definition counter_default :: counter where
  "counter_default = \<lparr>successes = 0, failures = 0\<rparr>"

definition counter_record :: "counter \<Rightarrow> bool \<Rightarrow> probe \<Rightarrow> counter \<times> bool option" where
  "counter_record c ok p =
     (if ok then
        (let c' = c\<lparr>failures := 0, successes := successes c + 1\<rparr>
         in (c', if success_threshold p \<le> successes c' then Some True else None))
      else
        (let c' = c\<lparr>successes := 0, failures := failures c + 1\<rparr>
         in (c', if failure_threshold p \<le> failures c' then Some False else None)))"

section \<open>Correctness\<close>

lemma from_be32_be32:
  fixes n :: u32
  shows "from_be32 (ucast (drop_bit 24 n)) (ucast (drop_bit 16 n)) (ucast (drop_bit 8 n)) (ucast n) = n"
    (is "?l = n")
proof (rule bit_word_eqI)
  fix k assume "k < LENGTH(32)"
  then consider "k < 8" | "8 \<le> k" "k < 16" | "16 \<le> k" "k < 24" | "24 \<le> k" "k < 32"
    by (simp, linarith)
  then show "bit ?l k = bit n k"
    unfolding from_be32_def by cases (auto simp: bit_simps)
qed

definition response_frame :: "u64 \<Rightarrow> u8 list" where
  "response_frame v = (let msg = 0x08 # put_varint v in 0 # be32 (of_nat (length msg)) @ msg)"

lemma varint_small: "b AND 0x80 = 0 \<Longrightarrow> varint (b # bs) = Some (ucast (b AND 0x7f), 1)"
  by (simp add: varint_def)

lemma varint_field1: "varint (0x08 # bs) = Some (0x08, 1)"
  by (simp add: varint_def)

lemma put_varint_length: "length (put_varint v) \<le> 10"
  using varint_put [of v "[]"] varint_from_length unfolding varint_def by fastforce

lemma response_fields: "grpc_fields (0x08 # put_varint v) 0 0 = Some (Some v)"
proof -
  let ?n = "length (put_varint v)"
  have n: "?n < 2 ^ 64" "?n \<le> 10" using put_varint_length [of v] by simp_all
  have u: "unat (1 + of_nat ?n :: u64) = Suc ?n"
    by (rule unat_Suc_of_nat) (use n in simp)
  have fin: "grpc_fields (0x08 # put_varint v) (1 + of_nat ?n) w = Some (Some w)" for w
    by (subst grpc_fields.simps) (simp add: u)
  show ?thesis
    using varint_put [of v "[]"]
    by (subst grpc_fields.simps) (simp add: varint_field1 fin)
qed

lemma response_status: "grpc_serving_status (response_frame v) = Some (Some v)"
proof -
  let ?len = "length ((0x08::u8) # put_varint v)"
  have "unat (of_nat ?len :: u32) = ?len"
    by (rule unat_of_nat_small) (use put_varint_length [of v] in simp)
  then show ?thesis
    unfolding grpc_serving_status_def response_frame_def Let_def be32_def
    using response_fields [of v] by (simp add: from_be32_be32 del: of_nat_Suc)
qed

lemma varint_Some:
  assumes "varint bs = Some (w, n)"
  shows "0 < n" "n \<le> length bs" "n \<le> 10" "unat w < 2 ^ (7 * n)"
  using varint_from_length [of 0 0 bs w n] varint_from_bound [of 0 0 bs w n] assms
  by (simp_all add: varint_def)

lemma grpc_fields_short:
  assumes "length msg \<le> 10"
  shows "grpc_fields msg i st \<noteq> None"
proof (induction "length msg - unat i" arbitrary: i st rule: less_induct)
  case less
  show ?case
  proof (cases "unat i < length msg")
    case True
    have advance: "grpc_fields msg j st' \<noteq> None" if "unat i < unat j" for j st'
      using less that True by simp
    show ?thesis
    proof (cases "varint (drop (unat i) msg)")
      case (Some r)
      then obtain tag n where tag: "varint (drop (unat i) msg) = Some (tag, n)" by (cases r) auto
      note n = varint_Some [OF tag]
      have i1: "unat (i + of_nat n) = unat i + n" "0 < n" "unat i + n \<le> length msg"
        using n True assms by (auto intro!: unat_add_small)
      show ?thesis
      proof (cases "varint (drop (unat (i + of_nat n)) msg)")
        case (Some r)
        then obtain l m where l: "varint (drop (unat (i + of_nat n)) msg) = Some (l, m)" by (cases r) auto
        note m = varint_Some [OF l]
        have i2: "unat (i + of_nat n + of_nat m) = unat i + n + m" "n + m \<le> 10"
          using m i1 assms by (subst unat_add_small, simp_all)+
        have "m \<le> 9" using i1 i2 by simp
        then have "(2::nat) ^ (7 * m) \<le> 2 ^ 63" by (intro power_increasing) simp_all
        with m have "unat l < 2 ^ 63" by linarith
        then have i3: "unat (i + of_nat n + of_nat m + l) = unat i + n + m + unat l"
          using i1 i2 assms by (subst unat_add_lem [THEN iffD1]) simp_all
        show ?thesis
          using tag l i1 i2 i3 advance
          by (subst grpc_fields.simps) (auto simp: add.assoc)
      qed (use tag in \<open>subst grpc_fields.simps, auto\<close>)
    qed (subst grpc_fields.simps, auto)
  qed (subst grpc_fields.simps, auto)
qed

definition looping :: "u8 list" where
  "looping = [0x12, 0xF5, 0xFF, 0xFF, 0xFF, 0xFF, 0xFF, 0xFF, 0xFF, 0xFF, 0x01]"

lemma looping_steps: "looping \<noteq> []" "varint looping = Some (0x12, 1)"
  "varint (drop 1 looping) = Some (0xFFFFFFFFFFFFFFF5, 10)"
  "varint (drop (Suc 0) looping) = Some (0xFFFFFFFFFFFFFFF5, 10)"
  by (simp_all add: looping_def varint_def)

lemma wrap_64: "(18446744073709551616 :: u64) = 0"
  by (simp add: word_unat_eq_iff)

lemma looping_stuck: "grpc_fields looping 0 st = None"
proof -
  have "msg = looping \<longrightarrow> i \<noteq> 0" if "grpc_fields msg i s = Some y" for msg i s y
    using that
  proof (induction rule: grpc_fields.raw_induct [rotated, consumes 1, case_names step])
    case (step f msg i s y)
    show ?case
    proof (intro impI notI)
      assume "msg = looping" "i = 0"
      then have "f looping 0 s = Some y"
        using step(2) unfolding \<open>msg = looping\<close> \<open>i = 0\<close> by (simp add: looping_steps wrap_64)
      with step(1) show False by blast
    qed
  qed
  then show ?thesis by (cases "grpc_fields looping 0 st") auto
qed

definition counter_after :: "probe \<Rightarrow> bool list \<Rightarrow> counter" where
  "counter_after p xs = foldl (\<lambda>c ok. fst (counter_record c ok p)) counter_default xs"

lemma counter_after_snoc: "counter_after p (xs @ [ok]) = fst (counter_record (counter_after p xs) ok p)"
  by (simp add: counter_after_def)

lemma counter_after_counts:
  "counter_after p xs = \<lparr>successes = of_nat (trailing True xs), failures = of_nat (trailing False xs)\<rparr>"
proof (induction xs rule: rev_induct)
  case Nil
  then show ?case by (simp add: counter_after_def counter_default_def)
next
  case (snoc ok xs)
  then show ?case
    by (cases ok) (simp_all add: counter_after_snoc counter_record_def)
qed

lemma counter_fires:
  assumes "length xs < 2 ^ 32 - 1"
  shows "snd (counter_record (counter_after p xs) ok p) =
    (if unat (if ok then success_threshold p else failure_threshold p) \<le> trailing ok (xs @ [ok])
     then Some ok else None)"
proof -
  have "unat (1 + of_nat (trailing b xs) :: u32) = Suc (trailing b xs)" for b
    using trailing_le [of b xs] assms unat_Suc_of_nat [of "trailing b xs", where 'a = 32] by simp
  then show ?thesis
    by (cases ok) (simp_all add: counter_after_counts counter_record_def word_le_nat_alt add.commute)
qed

lemma actions_one:
  "probe_actions p = 1 \<Longrightarrow> http_get p = None \<Longrightarrow> tcp_socket p = None \<Longrightarrow> exec p = None \<Longrightarrow>
   grpc p \<noteq> None"
  by (cases "grpc p") (simp_all add: probe_actions_def)

lemma grpc_check_cases:
  "grpc_check io g t \<noteq> Panics" "grpc_check io g t \<noteq> Returns (Inl NoAction)"
  by (auto simp: grpc_check_def Let_def split: grpc_reply.splits option.split sum.splits)

lemma http_never_panics:
  "http_get p = Some h \<Longrightarrow> probe_run io p \<noteq> Panics \<and> probe_run io p \<noteq> Returns (Inl NoAction)"
  by (simp add: probe_run_def Let_def split: http_reply.split)

lemma tcp_never_panics:
  "http_get p = None \<Longrightarrow> tcp_socket p = Some s \<Longrightarrow>
   probe_run io p \<noteq> Panics \<and> probe_run io p \<noteq> Returns (Inl NoAction)"
  by (simp add: probe_run_def Let_def split: tcp_reply.split)

lemma exec_never_panics:
  "http_get p = None \<Longrightarrow> tcp_socket p = None \<Longrightarrow> exec p = Some x \<Longrightarrow> ex_command x \<noteq> [] \<Longrightarrow>
   probe_run io p \<noteq> Panics \<and> probe_run io p \<noteq> Returns (Inl NoAction)"
  by (simp add: probe_run_def Let_def split: exec_reply.split list.split)

lemma grpc_never_panics:
  "http_get p = None \<Longrightarrow> tcp_socket p = None \<Longrightarrow> exec p = None \<Longrightarrow> grpc p = Some g \<Longrightarrow>
   probe_run io p \<noteq> Panics \<and> probe_run io p \<noteq> Returns (Inl NoAction)"
  by (simp add: probe_run_def Let_def grpc_check_cases)

lemmas never_panics = http_never_panics tcp_never_panics exec_never_panics grpc_never_panics

lemma checked_probe:
  assumes "probe_check p kind = Inr ()"
  shows "probe_actions p = 1" "exec p = Some x \<Longrightarrow> ex_command x \<noteq> []"
  using assms by (auto simp: probe_check_def split: if_splits option.splits)

interpretation varint_codec: codec put_varint "\<lambda>bs. map_option fst (varint bs)" "\<lambda>_. True"
  using varint_put [of _ "[]"] by unfold_locales simp

section \<open>Properties\<close>

text \<open>The varint a gRPC request carries is read back whole by the parser whatever follows it,
  is at most ten bytes long (so the parser's limit of ten never cuts one), and two numbers never
  share an encoding.\<close>

theorem varint_roundtrip:
  "varint (put_varint v @ rest) = Some (v, length (put_varint v))
   \<and> length (put_varint v) \<le> 10
   \<and> (put_varint v = put_varint w \<longleftrightarrow> v = w)"
  using varint_put put_varint_length varint_codec.enc_inj by blast

text \<open>A well-formed health response frame is read as exactly the status it carries, so the
  probe passes on 1 (SERVING) and on nothing else.\<close>

theorem grpc_check_response:
  "io_grpc io (''http://127.0.0.1:'' @ show_port (gr_port g) @ ''/grpc.health.v1.Health/Check'')
      (grpc_request (bytes_of (case gr_service g of Some s \<Rightarrow> s | None \<Rightarrow> []))) t
     = GrpcReply None m (Inr (response_frame v)) \<Longrightarrow>
   grpc_check io g t = Returns (if v = 1 then Inr () else Inl (Unhealthy (serving_name v)))"
  by (simp add: grpc_check_def response_status)

definition serving_io :: probe_io where
  "serving_io = \<lparr>io_http = (\<lambda>_ _ _. HttpReply 200), io_tcp = (\<lambda>_ _. TcpConnected),
     io_exec = (\<lambda>_ _ _. ExecOutput True (Some 0) [] []),
     io_grpc = (\<lambda>_ _ _. GrpcReply None None (Inr (response_frame 1)))\<rparr>"

theorem grpc_check_response_witness:
  "grpc_check serving_io \<lparr>gr_port = 2379, gr_service = Some ''etcd''\<rparr> 1 = Returns (Inr ())"
  using grpc_check_response [of serving_io "\<lparr>gr_port = 2379, gr_service = Some ''etcd''\<rparr>" 1 None 1]
  by (simp add: serving_io_def)

text \<open>C26: A health response whose length field wraps the index of the field loop back to its
  start (eleven bytes are enough) makes the probe's parser run for ever; no message of ten bytes
  or fewer can.\<close>

theorem grpc_serving_status_may_loop:
  "grpc_serving_status (0 # be32 (of_nat (length looping)) @ looping) = None
   \<and> (length msg \<le> 10 \<longrightarrow> grpc_fields msg 0 0 \<noteq> None)"
proof
  have "grpc_serving_status (0 # be32 11 @ looping) = grpc_fields (take 11 looping) 0 0"
    by (simp add: grpc_serving_status_def be32_def from_be32_be32 looping_def)
       (simp add: from_be32_def)
  then show "grpc_serving_status (0 # be32 (of_nat (length looping)) @ looping) = None"
    using looping_stuck by (simp add: looping_def)
qed (use grpc_fields_short in blast)

theorem grpc_serving_status_may_loop_witness:
  "grpc_serving_status (0 # be32 (of_nat (length looping)) @ looping) = None
   \<and> grpc_fields [0x08, 1] 0 0 \<noteq> None"
  using grpc_serving_status_may_loop [of "[0x08, 1]"] by simp

text \<open>A probe that passed \<open>Probe::check\<close> never panics when it is tried, whatever the network
  and the child processes answer, and it does have an action.\<close>

theorem checked_probe_never_panics:
  "probe_check p kind = Inr () \<Longrightarrow> probe_run io p \<noteq> Panics \<and> probe_run io p \<noteq> Returns (Inl NoAction)"
  using checked_probe [of p kind] actions_one [of p] never_panics [of p]
  by (metis option.exhaust)

definition etcd_probe :: probe where
  "etcd_probe = default_probe\<lparr>tcp_socket := Some \<lparr>ts_port = 2379, ts_host = d_host\<rparr>\<rparr>"

theorem checked_probe_never_panics_witness:
  "probe_run serving_io etcd_probe \<noteq> Panics
   \<and> probe_run serving_io etcd_probe \<noteq> Returns (Inl NoAction)"
  by (rule checked_probe_never_panics [of _ "''liveness''"])
     (simp add: probe_check_def etcd_probe_def default_probe_def probe_actions_def d_period_def
        d_timeout_def d_one_def d_three_def)

text \<open>C27: A counter that has seen any run of results (fewer than \<open>2 ^ 32 - 1\<close>, ages at one try a
  second) fires exactly when the results now being repeated have reached the probe's threshold:
  one result of the other kind starts the count again.\<close>

theorem counter_fires_on_consecutive:
  "length xs < 2 ^ 32 - 1 \<Longrightarrow>
   snd (counter_record (counter_after p xs) ok p) =
     (if unat (if ok then success_threshold p else failure_threshold p) \<le> trailing ok (xs @ [ok])
      then Some ok else None)"
  by (rule counter_fires)

theorem counter_fires_on_consecutive_witness:
  "snd (counter_record (counter_after default_probe [False, True, False, False]) False default_probe)
     = Some False"
  by (subst counter_fires_on_consecutive)
     (simp_all add: default_probe_def d_three_def trailing_def)

end
