(* ===== verification/LogTypes.thy ===== *)
theory LogTypes
  imports RustStr "HOL-Library.List_Lexorder" "HOL-Library.Char_ord"
begin

text \<open>
  \<open>crates/stormlog/src/types.rs\<close>: the log entry, the streams and severities it is written with,
  a query, and the configuration of the log store. Severities are ordered as their discriminants
  are: 0 (Emergency) is the least and the worst.
\<close>

datatype log_stream = Stdout | Stderr | Syslog | Ingest

definition show_stream :: "log_stream \<Rightarrow> string" where
  "show_stream s =
     (case s of Stdout \<Rightarrow> ''stdout'' | Stderr \<Rightarrow> ''stderr'' | Syslog \<Rightarrow> ''syslog'' | Ingest \<Rightarrow> ''ingest'')"

datatype severity = Emergency | Alert | Critical | Error | Warning | Notice | Info | Debug

primrec severity_code :: "severity \<Rightarrow> nat" where
  "severity_code Emergency = 0"
| "severity_code Alert = 1"
| "severity_code Critical = 2"
| "severity_code Error = 3"
| "severity_code Warning = 4"
| "severity_code Notice = 5"
| "severity_code Info = 6"
| "severity_code Debug = 7"

lemma severity_code_inject: "severity_code a = severity_code b \<longleftrightarrow> a = b"
  by (cases a; cases b) simp_all

instantiation severity :: linorder
begin

definition less_eq_severity :: "severity \<Rightarrow> severity \<Rightarrow> bool" where
  "less_eq_severity a b \<longleftrightarrow> severity_code a \<le> severity_code b"

definition less_severity :: "severity \<Rightarrow> severity \<Rightarrow> bool" where
  "less_severity a b \<longleftrightarrow> severity_code a < severity_code b"

instance
  by standard (auto simp: less_eq_severity_def less_severity_def severity_code_inject)

end

definition from_syslog_priority :: "u8 \<Rightarrow> severity" where
  "from_syslog_priority priority =
     (let k = priority AND 7 in
      if k = 0 then Emergency else if k = 1 then Alert else if k = 2 then Critical
      else if k = 3 then Error else if k = 4 then Warning else if k = 5 then Notice
      else if k = 6 then Info else Debug)"

definition show_severity :: "severity \<Rightarrow> string" where
  "show_severity s =
     (case s of Emergency \<Rightarrow> ''emerg'' | Alert \<Rightarrow> ''alert'' | Critical \<Rightarrow> ''crit'' | Error \<Rightarrow> ''error''
      | Warning \<Rightarrow> ''warn'' | Notice \<Rightarrow> ''notice'' | Info \<Rightarrow> ''info'' | Debug \<Rightarrow> ''debug'')"

record log_entry =
  le_id :: string
  le_timestamp :: millis
  le_process :: string
  le_stream :: log_stream
  le_line :: string
  le_severity :: severity
  le_run_id :: "string option"

text \<open>\<open>LogEntry::new\<close>: the random id and the clock are arguments.\<close>

definition log_entry_new :: "string \<Rightarrow> millis \<Rightarrow> string \<Rightarrow> log_stream \<Rightarrow> string \<Rightarrow> log_entry" where
  "log_entry_new uid now process stream line =
     \<lparr>le_id = uid, le_timestamp = now, le_process = process, le_stream = stream, le_line = line,
      le_severity = Info, le_run_id = None\<rparr>"

definition with_severity :: "severity \<Rightarrow> log_entry \<Rightarrow> log_entry" where
  "with_severity s e = e\<lparr>le_severity := s\<rparr>"

definition with_run_id :: "string \<Rightarrow> log_entry \<Rightarrow> log_entry" where
  "with_run_id r e = e\<lparr>le_run_id := Some r\<rparr>"

record log_query =
  lq_process :: "string option"
  lq_stream :: "log_stream option"
  lq_severity_min :: "severity option"
  lq_since :: "millis option"
  lq_until :: "millis option"
  lq_search :: "string option"
  lq_tail :: "nat option"
  lq_run_id :: "string option"

record file_config =
  fc_log_dir :: string
  fc_max_size_bytes :: u64
  fc_max_files :: u32
  fc_max_runs :: nat

definition default_max_size_bytes :: u64 where "default_max_size_bytes = 100 * 1024 * 1024"
definition default_max_files :: u32 where "default_max_files = 10"
definition default_max_runs :: nat where "default_max_runs = 10"

definition file_config_default :: file_config where
  "file_config_default = \<lparr>fc_log_dir = ''/var/log/stormd'', fc_max_size_bytes = default_max_size_bytes,
     fc_max_files = default_max_files, fc_max_runs = default_max_runs\<rparr>"

record terminal_config =
  tc_rows :: u16
  tc_cols :: u16
  tc_scrollback :: nat

definition terminal_config_default :: terminal_config where
  "terminal_config_default = \<lparr>tc_rows = 24, tc_cols = 80, tc_scrollback = 1000\<rparr>"

record mcast_config =
  mc_group :: "string option"
  mc_host :: "string option"

definition mcast_config_default :: mcast_config where
  "mcast_config_default = \<lparr>mc_group = None, mc_host = None\<rparr>"

record stormlog_config =
  slc_file :: file_config
  slc_terminal :: terminal_config
  slc_mcast :: mcast_config

definition stormlog_config_default :: stormlog_config where
  "stormlog_config_default = \<lparr>slc_file = file_config_default,
     slc_terminal = terminal_config_default, slc_mcast = mcast_config_default\<rparr>"

text \<open>The names of streams and severities hold no space, so a line's fields split back.\<close>

lemma show_stream_no_space: "CHR '' '' \<notin> set (show_stream s)"
  by (cases s) (simp_all add: show_stream_def)

lemma show_severity_no_space: "CHR '' '' \<notin> set (show_severity s)"
  by (cases s) (simp_all add: show_severity_def)

lemma severity_bounds: "Emergency \<le> s" "s \<le> Debug"
  by (cases s; simp add: less_eq_severity_def)+

end
