(* ===== verification/LogStore.thy ===== *)
theory LogStore
  imports LogTypes
begin

text \<open>
  \<open>crates/stormlog/src/store.rs\<close>: the line format of the log files, and the log directory read back.
  A directory is the list of its files, name and text, in the order \<open>read_dir\<close> gives them. What
  \<open>chrono\<close>, \<open>uuid\<close>, \<open>stormcast\<close> and Unicode lower-casing answer is the parameter \<open>log_io\<close>.
\<close>

datatype wire_severity =
    WireEmergency | WireAlert | WireCritical | WireError | WireWarning | WireNotice | WireInfo | WireDebug

record log_io =
  fmt_ts :: "millis \<Rightarrow> string"
  parse_ts :: "string \<Rightarrow> millis option"
  wire_severity_of :: "string \<Rightarrow> wire_severity"
  lowercase :: "string \<Rightarrow> string"
  uuid :: string
  now_ts :: millis

section \<open>One line\<close>

definition format_line :: "log_io \<Rightarrow> log_entry \<Rightarrow> string" where
  "format_line io e =
     fmt_ts io (le_timestamp e) @ '' '' @ show_stream (le_stream e) @ '' '' @
     show_severity (le_severity e) @ '' '' @ le_line e @ [newline]"

definition parse_stream :: "string \<Rightarrow> log_stream" where
  "parse_stream s =
     (if s = ''stderr'' then Stderr else if s = ''syslog'' then Syslog
      else if s = ''ingest'' then Ingest else Stdout)"

definition parse_severity :: "string \<Rightarrow> severity" where
  "parse_severity s =
     (if s = ''emerg'' then Emergency else if s = ''alert'' then Alert
      else if s = ''crit'' then Critical else if s = ''error'' then Error
      else if s = ''warn'' then Warning else if s = ''notice'' then Notice
      else if s = ''debug'' then Debug else Info)"

definition severity_of :: "log_io \<Rightarrow> string \<Rightarrow> severity" where
  "severity_of io line =
     (case wire_severity_of io line of
        WireEmergency \<Rightarrow> Emergency | WireAlert \<Rightarrow> Alert | WireCritical \<Rightarrow> Critical
      | WireError \<Rightarrow> Error | WireWarning \<Rightarrow> Warning | WireNotice \<Rightarrow> Notice
      | WireInfo \<Rightarrow> Info | WireDebug \<Rightarrow> Debug)"

definition parse_line :: "log_io \<Rightarrow> string \<Rightarrow> string \<Rightarrow> log_entry" where
  "parse_line io process raw =
     (let other = (log_entry_new (uuid io) (now_ts io) process Stdout raw)
                    \<lparr>le_severity := severity_of io raw, le_timestamp := 0\<rparr>
      in case splitn 4 (CHR '' '') raw of
           [ts, stream, sev, msg] \<Rightarrow>
             (case parse_ts io ts of
                Some t \<Rightarrow> (log_entry_new (uuid io) (now_ts io) process (parse_stream stream) msg)
                            \<lparr>le_timestamp := t, le_severity := parse_severity sev\<rparr>
              | None \<Rightarrow> other)
         | _ \<Rightarrow> other)"

section \<open>The directory\<close>

type_synonym log_dir = "(string \<times> string) list"

definition dir_remove :: "string \<Rightarrow> log_dir \<Rightarrow> log_dir" where
  "dir_remove n d = filter (\<lambda>(k, _). k \<noteq> n) d"

definition dir_rename :: "string \<Rightarrow> string \<Rightarrow> log_dir \<Rightarrow> log_dir" where
  "dir_rename a b d =
     (case map_of d a of None \<Rightarrow> d
      | Some t \<Rightarrow> (b, t) # dir_remove b (dir_remove a d))"

definition dir_append :: "string \<Rightarrow> string \<Rightarrow> log_dir \<Rightarrow> log_dir" where
  "dir_append n t d =
     (case map_of d n of None \<Rightarrow> (n, t) # d
      | Some old \<Rightarrow> (n, old @ t) # dir_remove n d)"

definition sort_desc :: "('a \<Rightarrow> 'k::linorder) \<Rightarrow> 'a list \<Rightarrow> 'a list" where
  "sort_desc f xs = rev (sort_key f (rev xs))"

definition live_name :: "string \<Rightarrow> string" where
  "live_name process = process @ ''.log''"

text \<open>What stands between \<open>process.\<close> and \<open>.log\<close> in a file name.\<close>

definition own_part :: "string \<Rightarrow> string \<Rightarrow> string option" where
  "own_part process name =
     (case strip_prefix (process @ ''.'') name of
        None \<Rightarrow> None | Some rest \<Rightarrow> strip_suffix ''.log'' rest)"

definition parse_u32 :: "string \<Rightarrow> nat option" where
  "parse_u32 s = parse_unsigned (2 ^ 32) s"

definition files_for :: "log_dir \<Rightarrow> string \<Rightarrow> string list" where
  "files_for d process =
     (let own = List.map_filter (\<lambda>(name, _). case own_part process name of
                   None \<Rightarrow> None
                 | Some rest \<Rightarrow> if rest = [] then None else Some (rest, name)) d;
          rotated = List.map_filter (\<lambda>(rest, name). map_option (\<lambda>n. (n, name)) (parse_u32 rest)) own;
          archived = filter (\<lambda>(rest, _). parse_u32 rest = None) own
      in map snd (sort_key fst archived) @ map snd (sort_desc fst rotated)
         @ (if map_of d (live_name process) \<noteq> None then [live_name process] else []))"

definition processes :: "log_dir \<Rightarrow> string list" where
  "processes d =
     sort (foldl (\<lambda>names (name, _). case strip_suffix ''.log'' name of
                    None \<Rightarrow> names
                  | Some stem \<Rightarrow>
                      (let base = hd (split_char (CHR ''.'') stem)
                       in if base \<noteq> [] \<and> base \<notin> set names then names @ [base] else names))
             [] d)"

definition matches :: "log_io \<Rightarrow> log_entry \<Rightarrow> log_query \<Rightarrow> bool" where
  "matches io e q \<longleftrightarrow>
     (case lq_stream q of Some s \<Rightarrow> le_stream e = s | None \<Rightarrow> True) \<and>
     (case lq_severity_min q of Some m \<Rightarrow> \<not> m < le_severity e | None \<Rightarrow> True) \<and>
     (case lq_since q of Some t \<Rightarrow> \<not> le_timestamp e < t | None \<Rightarrow> True) \<and>
     (case lq_until q of Some t \<Rightarrow> \<not> t < le_timestamp e | None \<Rightarrow> True) \<and>
     (case lq_search q of Some n \<Rightarrow> contains (lowercase io (le_line e)) (lowercase io n) | None \<Rightarrow> True)"

definition default_tail :: nat where
  "default_tail = 1000"

definition query_file :: "log_io \<Rightarrow> log_query \<Rightarrow> log_dir \<Rightarrow> string \<Rightarrow> string \<Rightarrow> log_entry list" where
  "query_file io q d process name =
     (if (case lq_run_id q of
            Some want \<Rightarrow> \<not> contains name (''.'' @ want @ ''.'') \<and> name \<noteq> live_name process
          | None \<Rightarrow> False)
      then []
      else case map_of d name of
             None \<Rightarrow> []
           | Some text \<Rightarrow>
               filter (\<lambda>e. matches io e q)
                 (map (parse_line io process) (filter (\<lambda>raw. raw \<noteq> []) (lines text))))"

definition log_query_run :: "log_io \<Rightarrow> log_dir \<Rightarrow> log_query \<Rightarrow> log_entry list" where
  "log_query_run io d q =
     (let ps = (case lq_process q of Some p \<Rightarrow> [p] | None \<Rightarrow> processes d);
          out = concat (map (\<lambda>p. concat (map (query_file io q d p) (files_for d p))) ps);
          tail = (case lq_tail q of Some n \<Rightarrow> n | None \<Rightarrow> default_tail)
      in last_n tail (sort_key le_timestamp out))"

section \<open>Runs\<close>

record run_info =
  ri_run_id :: string
  ri_process :: string
  ri_date :: string
  ri_size_bytes :: nat
  ri_outcome :: string

definition pretty_run_id :: "string \<Rightarrow> string" where
  "pretty_run_id r =
     (if length r \<noteq> 15 \<or> r ! 8 \<noteq> CHR ''T'' then r
      else take 4 r @ ''-'' @ take 2 (drop 4 r) @ ''-'' @ take 2 (drop 6 r) @ '' '' @
           take 2 (drop 9 r) @ '':'' @ take 2 (drop 11 r) @ '':'' @ take 2 (drop 13 r))"

definition run_of :: "string \<Rightarrow> string \<times> string \<Rightarrow> run_info option" where
  "run_of process = (\<lambda>(name, text).
     (case own_part process name of
        None \<Rightarrow> None
      | Some rest \<Rightarrow>
          (case rsplit_once_char (CHR ''.'') rest of
             None \<Rightarrow> None
           | Some (run_id, outcome) \<Rightarrow>
               if parse_u32 run_id \<noteq> None then None
               else Some \<lparr>ri_run_id = run_id, ri_process = process, ri_date = pretty_run_id run_id,
                          ri_size_bytes = length text, ri_outcome = outcome\<rparr>)))"

definition runs :: "log_dir \<Rightarrow> string \<Rightarrow> run_info list" where
  "runs d process =
     (case map_of d (live_name process) of
        Some text \<Rightarrow> [\<lparr>ri_run_id = ''current'', ri_process = process, ri_date = ''running'',
                       ri_size_bytes = length text, ri_outcome = ''current''\<rparr>]
      | None \<Rightarrow> [])
     @ sort_desc ri_run_id (List.map_filter (run_of process) d)"

definition run_file :: "string \<Rightarrow> run_info \<Rightarrow> string" where
  "run_file process r = process @ ''.'' @ ri_run_id r @ ''.'' @ ri_outcome r @ ''.log''"

definition prune :: "log_dir \<Rightarrow> string \<Rightarrow> nat \<Rightarrow> log_dir \<times> nat" where
  "prune d process keep =
     foldl (\<lambda>(d', n) r. if map_of d' (run_file process r) \<noteq> None
                       then (dir_remove (run_file process r) d', n + 1) else (d', n))
       (d, 0) (drop keep (filter (\<lambda>r. ri_outcome r \<noteq> ''current'') (runs d process)))"

section \<open>Correctness\<close>

lemma parse_stream_show [simp]: "parse_stream (show_stream s) = s"
  by (cases s) (simp_all add: parse_stream_def show_stream_def)

lemma parse_severity_show [simp]: "parse_severity (show_severity s) = s"
  by (cases s) (simp_all add: parse_severity_def show_severity_def)

interpretation stream_codec: codec show_stream "\<lambda>s. Some (parse_stream s)" "\<lambda>_. True"
  by unfold_locales simp

interpretation severity_codec: codec show_severity "\<lambda>s. Some (parse_severity s)" "\<lambda>_. True"
  by unfold_locales simp

lemma splitn_fields:
  "d \<notin> set a \<Longrightarrow> d \<notin> set b \<Longrightarrow> d \<notin> set c \<Longrightarrow> splitn 4 d (a @ d # b @ d # c @ d # r) = [a, b, c, r]"
  by (simp add: numeral_eq_Suc)

lemma parse_format:
  assumes "parse_ts io (fmt_ts io (le_timestamp e)) = Some t" "CHR '' '' \<notin> set (fmt_ts io (le_timestamp e))"
  shows "parse_line io (le_process e) (butlast (format_line io e))
    = e\<lparr>le_id := uuid io, le_timestamp := t, le_run_id := None\<rparr>"
proof -
  have "butlast (format_line io e) = fmt_ts io (le_timestamp e) @ CHR '' '' # show_stream (le_stream e) @ CHR '' '' #
     show_severity (le_severity e) @ CHR '' '' # le_line e"
    by (simp add: format_line_def butlast_append)
  then show ?thesis using assms
    by (simp add: parse_line_def splitn_fields show_stream_no_space show_severity_no_space log_entry_new_def)
qed

lemma splitn_contents: "splitn 4 d s = [a, b, c, r] \<Longrightarrow> s = a @ d # b @ d # c @ d # r"
  by (auto simp: numeral_eq_Suc split: option.splits dest!: split_once_append)

lemma parse_line_keeps: "\<exists>p. raw = p @ le_line (parse_line io process raw)"
proof (cases "le_line (parse_line io process raw) = raw")
  case False
  then obtain a b c r where "splitn 4 (CHR '' '') raw = [a, b, c, r]" "le_line (parse_line io process raw) = r"
    by (auto simp: parse_line_def Let_def log_entry_new_def split: list.splits option.splits)
  then show ?thesis using splitn_contents [of "CHR '' ''" raw a b c r]
    by (intro exI [of _ "a @ [CHR '' ''] @ b @ [CHR '' ''] @ c @ [CHR '' '']"]) simp
qed (intro exI [of _ "[]"], simp)

lemma sort_desc_set [simp]: "set (sort_desc f xs) = set xs" by (simp add: sort_desc_def)
lemma sort_desc_filter: "filter p (sort_desc f xs) = sort_desc f (filter p xs)"
  by (simp add: sort_desc_def rev_filter [symmetric] filter_sort)
lemma sort_desc_distinct: "distinct (map g (sort_desc f xs)) = distinct (map g xs)"
  by (simp add: sort_desc_def distinct_map)

lemma sort_desc_sorted: "sorted (rev (map f (sort_desc f xs)))"
  by (simp add: sort_desc_def rev_map)

lemma parse_line_process [simp]: "le_process (parse_line io p raw) = p"
  by (auto simp: parse_line_def Let_def log_entry_new_def split: list.split option.split)

lemma query_entries: "e \<in> set (query_file io q d p n) \<Longrightarrow> matches io e q \<and> le_process e = p"
  by (auto simp: query_file_def split: if_splits option.splits)

lemma last_n_sorted: "sorted (map f xs) \<Longrightarrow> sorted (map f (last_n n xs))"
  by (simp add: last_n_def drop_map [symmetric] sorted_wrt_drop)

lemma run_of_file: "run_of p (name, text) = Some r \<Longrightarrow> run_file p r = name"
  by (auto simp: run_of_def own_part_def run_file_def strip_prefix_Some strip_suffix_Some rsplit_once_char_Some split: option.splits if_splits)

lemma run_file_not_live: "run_file p r \<noteq> live_name p"
  by (simp add: run_file_def live_name_def)

definition archived :: "log_dir \<Rightarrow> string \<Rightarrow> run_info list" where
  "archived d p = filter (\<lambda>r. ri_outcome r \<noteq> ''current'') (runs d p)"

lemma archived_alt: "archived d p = sort_desc ri_run_id
   (filter (\<lambda>r. ri_outcome r \<noteq> ''current'') (List.map_filter (run_of p) d))"
  by (simp add: archived_def runs_def sort_desc_filter split: option.split)


lemma dir_remove_absent: "map_of d n = None \<Longrightarrow> dir_remove n d = d"
  by (force simp: dir_remove_def map_of_eq_None_iff filter_id_conv)

lemma prune_fold:
  "fst (foldl (\<lambda>(d', n) r. if map_of d' (f r) \<noteq> None then (dir_remove (f r) d', n + 1) else (d', n)) (d, k) rs)
    = filter (\<lambda>(name, _). name \<notin> f ` set rs) d" (is "fst (foldl ?step _ _) = _")
proof (induction rs arbitrary: d k)
  case Nil
  then show ?case by (simp add: case_prod_beta)
next
  case (Cons r rs)
  have "filter (\<lambda>(name, _). name \<notin> f ` set rs) (dir_remove (f r) d)
      = filter (\<lambda>(name, _). name \<notin> f ` set (r # rs)) d"
    by (auto simp: dir_remove_def intro: filter_cong)
  moreover have "fst (foldl ?step (?step (d, k) r) rs) = filter (\<lambda>(name, _). name \<notin> f ` set rs) (dir_remove (f r) d)"
  proof (cases "map_of d (f r) = None")
    case True
    then have "?step (d, k) r = (d, k)" "dir_remove (f r) d = d" by (simp_all add: dir_remove_absent)
    then show ?thesis by (simp only: Cons.IH)
  next
    case False
    then have "?step (d, k) r = (dir_remove (f r) d, k + 1)" by simp
    then show ?thesis by (simp only: Cons.IH)
  qed
  ultimately show ?case by (simp only: foldl_Cons)
qed

lemma map_of_filter_other: "n \<notin> A \<Longrightarrow> map_of (filter (\<lambda>(k, _). k \<notin> A) d) n = map_of d n"
  by (induction d) auto

lemma prune_dir: "fst (prune d p keep) = filter (\<lambda>(name, _). name \<notin> run_file p ` set (drop keep (archived d p))) d"
  unfolding prune_def archived_def by (rule prune_fold)

lemma archived_files: "r \<in> set (archived d p) \<Longrightarrow> \<exists>text. (run_file p r, text) \<in> set d"
  by (fastforce simp: archived_alt dest: run_of_file)

lemma archived_distinct: "distinct (map fst d) \<Longrightarrow> distinct (map (run_file p) (archived d p))"
proof -
  assume "distinct (map fst d)"
  then have "distinct (map (run_file p) (List.map_filter (run_of p) d))"
  proof (induction d)
    case Nil
    then show ?case by simp
  next
    case (Cons x d)
    obtain n t where x: "x = (n, t)" by (cases x)
    have "run_file p r \<noteq> n" if "r \<in> set (List.map_filter (run_of p) d)" for r
      using that Cons.prems by (force simp: x dest: run_of_file)
    then have "n \<notin> run_file p ` set (List.map_filter (run_of p) d)" by blast
    moreover have "run_file p a = n" if "run_of p x = Some a" for a
      using that by (simp add: x run_of_file)
    ultimately show ?case using Cons
      by (simp split: option.split)
  qed
  then show ?thesis
    unfolding archived_alt sort_desc_distinct by (rule distinct_map_filter)
qed

lemma prune_archived:
  assumes "distinct (map fst d)"
  shows "archived (fst (prune d p keep)) p = take keep (archived d p)"
proof -
  let ?gone = "run_file p ` set (drop keep (archived d p))"
  have "List.map_filter (run_of p) (fst (prune d p keep))
      = filter (\<lambda>r. run_file p r \<notin> ?gone) (List.map_filter (run_of p) d)"
    unfolding prune_dir by (rule map_filter_filter) (auto dest: run_of_file)
  then have "archived (fst (prune d p keep)) p = filter (\<lambda>r. run_file p r \<notin> ?gone) (archived d p)"
    by (simp add: archived_alt sort_desc_filter conj_commute)
  also have "\<dots> = take keep (archived d p)"
    by (rule filter_drop_keep) (rule archived_distinct [OF assms])
  finally show ?thesis .
qed

lemma prune_others:
  assumes "\<not> starts_with name (p @ ''.'') \<or> name = live_name p"
  shows "map_of (fst (prune d p keep)) name = map_of d name"
proof -
  have "name \<notin> range (run_file p)"
    using assms by (auto simp: starts_with_iff run_file_def live_name_def)
  then have "name \<notin> run_file p ` set (drop keep (archived d p))" by auto
  then show ?thesis unfolding prune_dir by (rule map_of_filter_other)
qed

lemma lines_line: "newline \<notin> set l \<Longrightarrow> strip_cr l = l \<Longrightarrow> lines (l @ newline # s) = l # lines s"
  by (simp add: lines_def split_char_append Let_def)

definition readable_entry :: "log_io \<Rightarrow> string \<Rightarrow> log_entry \<Rightarrow> bool" where
  "readable_entry io p e \<longleftrightarrow>
     parse_ts io (fmt_ts io (le_timestamp e)) = Some (le_timestamp e) \<and>
     CHR '' '' \<notin> set (fmt_ts io (le_timestamp e)) \<and> newline \<notin> set (fmt_ts io (le_timestamp e)) \<and>
     le_process e = p \<and> newline \<notin> set (le_line e) \<and> (le_line e = [] \<or> last (le_line e) \<noteq> carriage)"

lemma strip_cr_noop: "s = [] \<or> last s \<noteq> carriage \<Longrightarrow> strip_cr s = s"
  by (auto simp: strip_cr_def strip_suffix_Some split: option.split)

lemma no_newline: "newline \<notin> set (show_stream s)" "newline \<notin> set (show_severity v)"
  by (cases s; simp add: show_stream_def newline_def) (cases v; simp add: show_severity_def newline_def)

lemma lines_of_file:
  assumes "\<forall>e \<in> set es. readable_entry io p e"
  shows "lines (concat (map (format_line io) es)) = map (butlast \<circ> format_line io) es"
  using assms
proof (induction es)
  case Nil
  then show ?case by (simp add: lines_def)
next
  case (Cons e es)
  let ?l = "butlast (format_line io e)"
  have fmt: "format_line io e = ?l @ [newline]" by (simp add: format_line_def butlast_append)
  have l: "newline \<notin> set ?l" "strip_cr ?l = ?l"
    using Cons.prems no_newline by (auto simp: format_line_def butlast_append readable_entry_def newline_def carriage_def intro!: strip_cr_noop split: if_splits)
  have "lines (concat (map (format_line io) (e # es))) = ?l # lines (concat (map (format_line io) es))"
    using lines_line [OF l] fmt by (metis append.assoc append_Cons append_Nil concat.simps(2) list.map(2))
  with Cons show ?case by simp
qed

lemma parse_written: "readable_entry io p e \<Longrightarrow>
    parse_line io p (butlast (format_line io e)) = e\<lparr>le_id := uuid io, le_run_id := None\<rparr>"
  using parse_format [of io e "le_timestamp e"] by (simp add: readable_entry_def)

section \<open>Properties\<close>

text \<open>What the file logger writes is what the store reads back: every entry of a file comes
  back with its time, stream, severity and text (the run id is in the file name, and the id is
  new), as long as \<open>chrono\<close> reads back the time it printed and the text is one line.\<close>

theorem log_files_read_back:
  assumes "\<forall>e \<in> set es. readable_entry io p e"
  shows "map (parse_line io p) (lines (concat (map (format_line io) es)))
    = map (\<lambda>e. e\<lparr>le_id := uuid io, le_run_id := None\<rparr>) es"
  using assms unfolding lines_of_file [OF assms] by (auto simp: parse_written)

definition plain_io :: log_io where
  "plain_io = \<lparr>fmt_ts = (\<lambda>t. show_nat (nat t)), parse_ts = (\<lambda>s. map_option int (parse_digits 0 s)),
     wire_severity_of = (\<lambda>_. WireInfo), lowercase = (\<lambda>s. s), uuid = ''id'', now_ts = 0\<rparr>"

theorem log_files_read_back_witness:
  "map le_line (map (parse_line plain_io ''etcd'') (lines (concat (map (format_line plain_io)
     [log_entry_new ''a'' 7 ''etcd'' Stderr ''no space left'', log_entry_new ''b'' 9 ''etcd'' Stdout ''up'']))))
     = [''no space left'', ''up'']"
  by (subst log_files_read_back)
     (simp_all add: readable_entry_def plain_io_def log_entry_new_def parse_digits_show
        show_nat.simps digit_def newline_def carriage_def char_of_def digit_val_def bit_Suc_0_iff)

text \<open>The answer to a query holds only entries that match it, in order of time, and never more
  than the tail asked for (1000 when none was).\<close>

theorem query_newest_matching:
  "list_all (\<lambda>e. matches io e q) (log_query_run io d q)
   \<and> sorted (map le_timestamp (log_query_run io d q))
   \<and> length (log_query_run io d q) \<le> (case lq_tail q of Some n \<Rightarrow> n | None \<Rightarrow> 1000)"
proof -
  have "e \<in> set (last_n k (sort_key le_timestamp (concat (map (\<lambda>p. concat (map (query_file io q d p) (files_for d p))) ps)))) \<Longrightarrow>
     matches io e q" for e k ps
    using query_entries by (fastforce dest: set_last_n_subset [THEN subsetD])
  then show ?thesis
    by (auto simp: log_query_run_def Let_def default_tail_def list_all_iff intro: last_n_sorted
        split: option.splits)
qed

text \<open>Pruning leaves exactly the newest \<open>keep\<close> archived runs of a process, and no file outside
  the process's name space: neither its live file nor a file of a name not extending \<open>process.\<close>.\<close>

theorem prune_keeps_newest:
  assumes "distinct (map fst d)"
  shows "archived (fst (prune d p keep)) p = take keep (archived d p)
    \<and> sorted (rev (map ri_run_id (archived d p)))
    \<and> (\<not> starts_with name (p @ ''.'') \<or> name = live_name p \<longrightarrow> map_of (fst (prune d p keep)) name = map_of d name)"
proof (intro conjI impI)
  show "archived (fst (prune d p keep)) p = take keep (archived d p)"
    by (rule prune_archived [OF assms])
  show "sorted (rev (map ri_run_id (archived d p)))"
    unfolding archived_alt by (rule sort_desc_sorted)
qed (rule prune_others)

definition shared_dir :: log_dir where
  "shared_dir = [(''kube.20260101T000000.exited.log'', ''a''), (''kube.api.20260102T000000.failed.log'', ''b''),
     (''kube.api.1.log'', ''c''), (''kube.api.log'', ''d'')]"

theorem prune_keeps_newest_witness:
  "archived (fst (prune shared_dir ''kube.api'' 0)) ''kube.api'' = []"
  using prune_keeps_newest [of shared_dir "''kube.api''" 0 "''x''"] by (simp add: shared_dir_def)

text \<open>A process whose name is a dotted prefix of another's prunes the other's files: closing a
  run of \<open>kube\<close> deletes the archive and the rotated log of \<open>kube.api\<close>.\<close>

theorem prune_deletes_other_process:
  "map_of shared_dir ''kube.api.20260102T000000.failed.log'' = Some ''b''
  \<and> map_of (fst (prune shared_dir ''kube'' 0)) ''kube.api.20260102T000000.failed.log'' = None
  \<and> map_of (fst (prune shared_dir ''kube'' 0)) ''kube.api.1.log'' = None"
  by (simp add: prune_dir archived_alt shared_dir_def sort_desc_def run_of_def own_part_def run_file_def
     strip_suffix_def rsplit_once_char_def parse_u32_def parse_unsigned_def digit_val_def)

end
