(* ===== verification/LogFile.thy ===== *)
theory LogFile
  imports LogStore
begin

text \<open>
  \<open>crates/stormlog/src/file.rs\<close>: one file per process, appended to, rotated at a size, renamed when
  a run ends. What the kernel answers to an open, a directory creation and a write is the argument
  \<open>append_fault\<close> of the call; a failed write may have written a part. Line and byte counts are
  \<open>nat\<close> (the code's \<open>u64\<close> counts what was really printed and cannot reach its bound). A rename of a
  file that is there succeeds, and a rename of one that is not changes nothing.
\<close>

record failing =
  fl_since :: millis
  fl_next_try :: millis
  fl_last_said :: millis
  fl_error :: string
  fl_lost :: nat

record process_writer =
  pw_path :: string
  pw_current_size :: nat
  pw_failing :: "failing option"

record file_logger =
  fg_config :: file_config
  fg_writers :: "string \<Rightarrow> process_writer option"

definition retry_ms :: millis where "retry_ms = 1000"
definition remind_ms :: millis where "remind_ms = 60000"

definition file_logger_new :: "file_config \<Rightarrow> file_logger" where
  "file_logger_new cfg = \<lparr>fg_config = cfg, fg_writers = (\<lambda>_. None)\<rparr>"

section \<open>Appending\<close>

datatype open_result = Opened | OpenNotFound string | OpenFailed string

record append_fault =
  af_open :: open_result
  af_mkdir :: "string option"
  af_reopen :: "string option"
  af_write :: "(nat \<times> string) option"

definition append_write :: "append_fault \<Rightarrow> string \<Rightarrow> string \<Rightarrow> log_dir \<Rightarrow> log_dir \<times> string option" where
  "append_write ft name text d =
     (case af_write ft of
        None \<Rightarrow> (dir_append name text d, None)
      | Some (k, e) \<Rightarrow> (dir_append name (take k text) d, Some e))"

definition append_file :: "append_fault \<Rightarrow> string \<Rightarrow> string \<Rightarrow> log_dir \<Rightarrow> log_dir \<times> string option" where
  "append_file ft name text d =
     (case af_open ft of
        Opened \<Rightarrow> append_write ft name text d
      | OpenFailed e \<Rightarrow> (d, Some e)
      | OpenNotFound e \<Rightarrow>
          (case af_mkdir ft of Some e' \<Rightarrow> (d, Some e')
           | None \<Rightarrow> (case af_reopen ft of Some e' \<Rightarrow> (d, Some e')
                      | None \<Rightarrow> append_write ft name text d)))"

section \<open>Rotation\<close>

definition generation :: "string \<Rightarrow> nat \<Rightarrow> string" where
  "generation stem i = stem @ ''.'' @ show_nat i @ ''.log''"

definition rotate_file :: "u32 \<Rightarrow> string \<Rightarrow> log_dir \<Rightarrow> log_dir" where
  "rotate_file max_files stem d =
     (let m = unat max_files;
          d1 = dir_remove (generation stem m) d;
          d2 = foldl (\<lambda>d i. dir_rename (generation stem i) (generation stem (i + 1)) d) d1
                 (rev [1..<m])
      in dir_rename (live_name stem) (generation stem 1) d2)"

section \<open>Writing\<close>

datatype said = SaidCannotWrite string | SaidStillFailing nat string | SaidWritableAgain nat

definition new_writer :: "log_dir \<Rightarrow> string \<Rightarrow> process_writer" where
  "new_writer d process = \<lparr>pw_path = live_name process,
     pw_current_size = (case map_of d (live_name process) of Some t \<Rightarrow> length t | None \<Rightarrow> 0),
     pw_failing = None\<rparr>"

definition gap_entry :: "log_io \<Rightarrow> millis \<Rightarrow> string \<Rightarrow> failing \<Rightarrow> log_entry" where
  "gap_entry io now process f =
     log_entry_new (uuid io) (now_ts io) process Stderr
       (''--- stormd: '' @ show_nat (fl_lost f) @ '' line(s) not written to this file over ''
        @ show_int (num_seconds (now - fl_since f)) @ '' s ('' @ fl_error f @ '') ---'')"

text \<open>The part of \<open>write_at\<close> that tries the file, once it is due.\<close>

definition write_due ::
    "log_io \<Rightarrow> file_config \<Rightarrow> append_fault \<Rightarrow> millis \<Rightarrow> log_entry \<Rightarrow> process_writer \<Rightarrow> log_dir
     \<Rightarrow> process_writer \<times> log_dir \<times> said list" where
  "write_due io cfg ft now e w d =
     (let full = unat (fc_max_size_bytes cfg) \<le> pw_current_size w;
          d1 = (if full then rotate_file (fc_max_files cfg) (le_process e) d else d);
          size = (if full then 0 else pw_current_size w);
          text = (case pw_failing w of
                    Some f \<Rightarrow> format_line io (gap_entry io now (le_process e) f) | None \<Rightarrow> [])
                 @ format_line io e
      in case append_file ft (pw_path w) text d1 of
           (d2, None) \<Rightarrow>
             (w\<lparr>pw_current_size := size + length text, pw_failing := None\<rparr>, d2,
              case pw_failing w of Some f \<Rightarrow> [SaidWritableAgain (fl_lost f)] | None \<Rightarrow> [])
         | (d2, Some err) \<Rightarrow>
             (case pw_failing w of
                Some f \<Rightarrow>
                  (w\<lparr>pw_current_size := size,
                     pw_failing := Some (f\<lparr>fl_next_try := now + retry_ms, fl_lost := fl_lost f + 1,
                                           fl_error := err\<rparr>)\<rparr>, d2, [])
              | None \<Rightarrow>
                  (w\<lparr>pw_current_size := size,
                     pw_failing := Some \<lparr>fl_since = now, fl_next_try = now + retry_ms,
                       fl_last_said = now, fl_error = err, fl_lost = 1\<rparr>\<rparr>, d2,
                   [SaidCannotWrite err])))"

definition write_writer ::
    "log_io \<Rightarrow> file_config \<Rightarrow> append_fault \<Rightarrow> millis \<Rightarrow> log_entry \<Rightarrow> process_writer \<Rightarrow> log_dir
     \<Rightarrow> process_writer \<times> log_dir \<times> said list" where
  "write_writer io cfg ft now e w d =
     (case pw_failing w of
        Some f \<Rightarrow>
          if now < fl_next_try f then
            (let f' = f\<lparr>fl_lost := fl_lost f + 1\<rparr>
             in if remind_ms \<le> now - fl_last_said f
                then (w\<lparr>pw_failing := Some (f'\<lparr>fl_last_said := now\<rparr>)\<rparr>, d,
                      [SaidStillFailing (fl_lost f') (fl_error f)])
                else (w\<lparr>pw_failing := Some f'\<rparr>, d, []))
          else write_due io cfg ft now e w d
      | None \<Rightarrow> write_due io cfg ft now e w d)"

definition write_at ::
    "log_io \<Rightarrow> append_fault \<Rightarrow> millis \<Rightarrow> log_entry \<Rightarrow> file_logger \<times> log_dir
     \<Rightarrow> (file_logger \<times> log_dir) \<times> said list" where
  "write_at io ft now e = (\<lambda>(g, d).
     (let p = le_process e;
          w = (case fg_writers g p of Some w \<Rightarrow> w | None \<Rightarrow> new_writer d p)
      in case write_writer io (fg_config g) ft now e w d of
           (w', d', says) \<Rightarrow> ((g\<lparr>fg_writers := (fg_writers g)(p \<mapsto> w')\<rparr>, d'), says)))"

section \<open>The end of a run\<close>

definition take_file ::
    "bool \<Rightarrow> string \<Rightarrow> string \<Rightarrow> bool \<Rightarrow> file_logger \<times> log_dir \<Rightarrow> (file_logger \<times> log_dir) \<times> string option" where
  "take_file can_rename process run_id failed = (\<lambda>(g, d).
     (let g' = g\<lparr>fg_writers := (fg_writers g)(process := None)\<rparr>;
          src = live_name process;
          dest = process @ ''.'' @ run_id @ ''.'' @ (if failed then ''failed'' else ''exited'') @ ''.log''
      in case map_of d src of
           None \<Rightarrow> ((g', d), None)
         | Some t \<Rightarrow>
             if t = [] then ((g', dir_remove src d), None)
             else if can_rename then ((g', dir_rename src dest d), Some dest)
             else ((g', d), Some src)))"

definition cleanup_rotated :: "file_config \<Rightarrow> string \<Rightarrow> log_dir \<Rightarrow> log_dir" where
  "cleanup_rotated cfg process d =
     foldl (\<lambda>d i. dir_remove (generation process i) d) d [1..<unat (fc_max_files cfg) + 1]"

section \<open>Correctness\<close>

lemma map_of_dir_remove [simp]: "map_of (dir_remove n d) k = (if k = n then None else map_of d k)"
  by (induction d) (auto simp: dir_remove_def)

lemma map_of_dir_rename: "a \<noteq> b \<Longrightarrow> map_of (dir_rename a b d) n =
    (if map_of d a = None then map_of d n else if n = b then map_of d a else if n = a then None else map_of d n)"
  by (auto simp: dir_rename_def split: option.split)

lemma map_of_dir_append [simp]: "map_of (dir_append n t d) k =
    (if k = n then Some ((case map_of d n of Some old \<Rightarrow> old | None \<Rightarrow> []) @ t) else map_of d k)"
  by (auto simp: dir_append_def split: option.split)

lemma generation_inject [simp]: "generation s i = generation s j \<longleftrightarrow> i = j"
  by (simp add: generation_def show_nat_inj)

lemma generation_not_live [simp]: "generation s i \<noteq> live_name s" "live_name s \<noteq> generation s i"
  by (simp_all add: generation_def live_name_def)

definition shift_up :: "string \<Rightarrow> nat \<Rightarrow> log_dir \<Rightarrow> log_dir" where
  "shift_up s m d = foldl (\<lambda>d i. dir_rename (generation s i) (generation s (i + 1)) d) d (rev [1..<m])"

lemma shift_up_Suc: "1 \<le> m \<Longrightarrow> shift_up s (Suc m) d = shift_up s m (dir_rename (generation s m) (generation s (m + 1)) d)"
  by (simp add: shift_up_def)

lemma shift_up_slots:
  assumes "1 \<le> m" "map_of d (generation s m) = None"
  shows "map_of (shift_up s m d) (generation s 1) = None"
    and "1 \<le> i \<Longrightarrow> i < m \<Longrightarrow> map_of (shift_up s m d) (generation s (i + 1)) = map_of d (generation s i)"
    and "\<forall>i. 1 \<le> i \<longrightarrow> i \<le> m \<longrightarrow> n \<noteq> generation s i \<Longrightarrow> map_of (shift_up s m d) n = map_of d n"
  using assms
proof (induction m arbitrary: d i n rule: nat_induct_at_least)
  case base
  { case 1 then show ?case by (simp add: shift_up_def)
  next case 2 then show ?case by simp
  next case 3 then show ?case by (simp add: shift_up_def) }
next
  case (Suc m)
  let ?d = "\<lambda>d. dir_rename (generation s m) (generation s (m + 1)) d"
  have free: "map_of d (generation s (Suc m)) = None \<Longrightarrow> map_of (?d d) (generation s m) = None" for d
    by (simp add: map_of_dir_rename)
  have up: "shift_up s (Suc m) d = shift_up s m (?d d)" for d using Suc(1) by (rule shift_up_Suc)
  { case 1 then show ?case using Suc.IH(1) free unfolding up by simp
  next
    case (2 d i)
    show ?case
    proof (cases "i = m")
      case True
      have "map_of (shift_up s m (?d d)) (generation s (m + 1)) = map_of (?d d) (generation s (m + 1))"
        using 2 free by (intro Suc.IH(3)) auto
      then show ?thesis using True 2 unfolding up by (simp add: map_of_dir_rename)
    next
      case False
      with 2 have "map_of (shift_up s m (?d d)) (generation s (i + 1)) = map_of (?d d) (generation s i)"
        using free by (intro Suc.IH(2)) auto
      then show ?thesis using False 2 unfolding up by (simp add: map_of_dir_rename)
    qed
  next
    case (3 d n)
    then have "map_of (shift_up s m (?d d)) n = map_of (?d d) n"
      using free by (intro Suc.IH(3)) auto
    then show ?case using 3 Suc(1) unfolding up by (simp add: map_of_dir_rename) }
qed

lemma rotate_alt: "rotate_file m s d = dir_rename (live_name s) (generation s 1)
    (shift_up s (unat m) (dir_remove (generation s (unat m)) d))"
  by (simp add: rotate_file_def shift_up_def Let_def)

lemma rotate_slots:
  assumes "1 \<le> unat m" "map_of d (live_name s) = Some t"
  shows "map_of (rotate_file m s d) (generation s 1) = Some t"
    and "map_of (rotate_file m s d) (live_name s) = None"
    and "1 \<le> i \<Longrightarrow> i < unat m \<Longrightarrow> map_of (rotate_file m s d) (generation s (i + 1)) = map_of d (generation s i)"
    and "n \<noteq> live_name s \<Longrightarrow> \<forall>i. 1 \<le> i \<longrightarrow> i \<le> unat m \<longrightarrow> n \<noteq> generation s i \<Longrightarrow>
         map_of (rotate_file m s d) n = map_of d n"
proof -
  let ?d = "dir_remove (generation s (unat m)) d"
  note up = shift_up_slots [of "unat m" ?d s, OF assms(1)]
  have live: "map_of (shift_up s (unat m) ?d) (live_name s) = Some t"
    using assms by (subst up(3)) auto
  show "map_of (rotate_file m s d) (generation s 1) = Some t" "map_of (rotate_file m s d) (live_name s) = None"
    using live by (simp_all add: rotate_alt map_of_dir_rename)
  show "map_of (rotate_file m s d) (generation s (i + 1)) = map_of d (generation s i)" if "1 \<le> i" "i < unat m"
    using that live up(2) [of i] by (simp add: rotate_alt map_of_dir_rename)
  show "map_of (rotate_file m s d) n = map_of d n" if "n \<noteq> live_name s" "\<forall>i. 1 \<le> i \<longrightarrow> i \<le> unat m \<longrightarrow> n \<noteq> generation s i"
  proof -
    have "n \<noteq> generation s 1" "n \<noteq> generation s (unat m)" using that(2) assms(1) by auto
    then show ?thesis using that live up(3) [of n] by (simp add: rotate_alt map_of_dir_rename)
  qed
qed

datatype fate = Written | WrittenAfterGap nat | NotWritten

definition fate_of :: "process_writer \<Rightarrow> process_writer \<Rightarrow> fate" where
  "fate_of w w' = (case pw_failing w' of Some _ \<Rightarrow> NotWritten
     | None \<Rightarrow> (case pw_failing w of None \<Rightarrow> Written | Some f \<Rightarrow> WrittenAfterGap (fl_lost f)))"

fun writes :: "log_io \<Rightarrow> file_config \<Rightarrow> (append_fault \<times> millis \<times> log_entry) list
    \<Rightarrow> process_writer \<times> log_dir \<Rightarrow> fate list \<times> process_writer \<times> log_dir" where
  "writes io cfg [] (w, d) = ([], w, d)"
| "writes io cfg ((ft, now, e) # steps) (w, d) =
     (case write_writer io cfg ft now e w d of
        (w', d', _) \<Rightarrow> (case writes io cfg steps (w', d') of (fs, r) \<Rightarrow> (fate_of w w' # fs, r)))"

definition lost_now :: "process_writer \<Rightarrow> nat" where
  "lost_now w = (case pw_failing w of None \<Rightarrow> 0 | Some f \<Rightarrow> fl_lost f)"

fun told :: "fate list \<Rightarrow> nat" where
  "told [] = 0"
| "told (WrittenAfterGap n # fs) = n + told fs"
| "told (_ # fs) = told fs"

definition in_file :: "fate list \<Rightarrow> nat" where
  "in_file fs = length (filter (\<lambda>f. f \<noteq> NotWritten) fs)"

lemma fate_count:
  assumes "write_writer io cfg ft now e w d = (w', d', says)"
  shows "lost_now w + 1 = told [fate_of w w'] + in_file [fate_of w w'] + lost_now w'"
  using assms
  by (auto simp: write_writer_def write_due_def Let_def lost_now_def fate_of_def in_file_def
      split: option.splits prod.splits if_splits)

lemma told_Cons: "told (f # fs) = told [f] + told fs"
  by (cases f) simp_all

lemma in_file_Cons: "in_file (f # fs) = in_file [f] + in_file fs"
  by (simp add: in_file_def)

lemma writes_account:
  "writes io cfg steps (w, d) = (fs, w', d') \<Longrightarrow>
   lost_now w + length steps = told fs + in_file fs + lost_now w'"
proof (induction steps arbitrary: w d fs)
  case Nil
  then show ?case by (simp add: in_file_def)
next
  case (Cons st steps)
  obtain ft now e where st: "st = (ft, now, e)" by (cases st)
  obtain w1 d1 says where w1: "write_writer io cfg ft now e w d = (w1, d1, says)"
    by (cases "write_writer io cfg ft now e w d")
  obtain fs1 r where fs1: "writes io cfg steps (w1, d1) = (fs1, r)"
    by (cases "writes io cfg steps (w1, d1)")
  with Cons.prems st w1 have fs: "fs = fate_of w w1 # fs1" "r = (w', d')" by simp_all
  have "lost_now w1 + length steps = told fs1 + in_file fs1 + lost_now w'"
    using Cons.IH fs1 fs by simp
  with fate_count [OF w1] show ?case
    unfolding fs told_Cons [of _ fs1] in_file_Cons [of _ fs1] by simp
qed

lemma append_file_ok:
  "append_file ft n t d = (d', None) \<Longrightarrow>
   map_of d' n = Some ((case map_of d n of Some old \<Rightarrow> old | None \<Rightarrow> []) @ t)"
  by (auto simp: append_file_def append_write_def split: open_result.splits option.splits)

lemma written_in_file:
  assumes "write_writer io cfg ft now e w d = (w', d', says)" "pw_failing w' = None"
  shows "\<exists>t. map_of d' (pw_path w) = Some t \<and> suffix (format_line io e) t"
  using assms append_file_ok [of ft "pw_path w"]
  by (auto simp: write_writer_def write_due_def Let_def suffix_def split: option.splits prod.splits if_splits)

section \<open>Properties\<close>


definition works :: append_fault where
  "works = \<lparr>af_open = Opened, af_mkdir = None, af_reopen = None, af_write = None\<rparr>"

definition read_only :: append_fault where
  "read_only = works\<lparr>af_open := OpenFailed ''Read-only file system''\<rparr>"


text \<open>Rotation moves the live file to generation 1 and every generation one up, drops only the
  oldest, and touches no other file.\<close>

theorem rotation_shifts_generations:
  "1 \<le> unat m \<Longrightarrow> map_of d (live_name s) = Some t \<Longrightarrow>
   map_of (rotate_file m s d) (generation s 1) = Some t
   \<and> map_of (rotate_file m s d) (live_name s) = None
   \<and> (1 \<le> i \<longrightarrow> i < unat m \<longrightarrow>
        map_of (rotate_file m s d) (generation s (i + 1)) = map_of d (generation s i))
   \<and> (n \<noteq> live_name s \<and> (\<forall>i. 1 \<le> i \<longrightarrow> i \<le> unat m \<longrightarrow> n \<noteq> generation s i) \<longrightarrow>
        map_of (rotate_file m s d) n = map_of d n)"
  using rotate_slots by blast

theorem rotation_shifts_generations_witness:
  "map_of (rotate_file 2 ''app'' [(live_name ''app'', ''new''), (generation ''app'' 1, ''old'')])
     (generation ''app'' 2) = Some ''old''"
  using rotation_shifts_generations [of 2 "[(live_name ''app'', ''new''), (generation ''app'' 1, ''old'')]"
      "''app''" "''new''" 1 "''x''"]
  by (simp del: One_nat_def)

text \<open>A run that ends while its file cannot be written takes the count of its missing lines with
  it: the file of the next run starts without the gap line, and nothing says the file works again.\<close>

theorem take_file_forgets_gap:
  assumes "fg_writers g p = Some w" "pw_failing w = Some f" "le_process e = p"
    and "map_of d (live_name p) = None" "0 < fc_max_size_bytes (fg_config g)"
  shows "case write_at io works now e (fst (take_file can p r failed (g, d))) of
     ((g', d'), says) \<Rightarrow> says = [] \<and> map_of d' (live_name p) = Some (format_line io e)"
  using assms
  by (simp add: take_file_def write_at_def write_writer_def write_due_def new_writer_def works_def
      append_file_def append_write_def Let_def word_less_nat_alt)

theorem take_file_forgets_gap_witness:
  "case write_at plain_io works 9 (log_entry_new ''i'' 9 ''app'' Stdout ''up'')
      (fst (take_file True ''app'' ''r'' True
        ((file_logger_new file_config_default)\<lparr>fg_writers := [''app'' \<mapsto>
            \<lparr>pw_path = ''app.log'', pw_current_size = 0,
             pw_failing = Some \<lparr>fl_since = 0, fl_next_try = 9, fl_last_said = 0, fl_error = ''full'',
                               fl_lost = 5\<rparr>\<rparr>]\<rparr>, []))) of
     ((g', d'), says) \<Rightarrow> says = [] \<and>
       map_of d' (live_name ''app'') = Some (format_line plain_io (log_entry_new ''i'' 9 ''app'' Stdout ''up''))"
  by (rule take_file_forgets_gap [where w = "\<lparr>pw_path = ''app.log'', pw_current_size = 0,
        pw_failing = Some \<lparr>fl_since = 0, fl_next_try = 9, fl_last_said = 0, fl_error = ''full'',
          fl_lost = 5\<rparr>\<rparr>" and f = "\<lparr>fl_since = 0, fl_next_try = 9, fl_last_said = 0,
        fl_error = ''full'', fl_lost = 5\<rparr>"])
     (simp_all add: log_entry_new_def file_logger_new_def file_config_default_def default_max_size_bytes_def)

end
