(* ===== verification/StormLog.thy ===== *)
theory StormLog
  imports LogFile
begin

text \<open>
  \<open>crates/stormlog/src/lib.rs\<close>, \<open>mcast.rs\<close> and \<open>stream.rs\<close>: every line to the process's file, to
  the fleet's group through a limiter, and to whoever follows. The limiter is \<open>stormcast\<close>'s and a
  parameter: what it says to an offered line and what a flush gives back.
\<close>

section \<open>The group\<close>

datatype verdict = VEmit | VDropped | VOther string

record 'l limiter =
  lim_new :: 'l
  lim_offer :: "'l \<Rightarrow> string \<Rightarrow> millis \<Rightarrow> 'l \<times> string list \<times> verdict"
  lim_flush :: "'l \<Rightarrow> 'l \<times> string option"

type_synonym 'l gate = "string \<Rightarrow> 'l option"

definition gate_offer ::
    "'l limiter \<Rightarrow> log_entry \<Rightarrow> millis \<Rightarrow> 'l gate \<Rightarrow> 'l gate \<times> (severity \<times> string) list" where
  "gate_offer lim e now per =
     (let l = (case per (le_process e) of Some l \<Rightarrow> l | None \<Rightarrow> lim_new lim)
      in case lim_offer lim l (le_line e) now of
           (l', notices, v) \<Rightarrow>
             (per(le_process e \<mapsto> l'),
              map (\<lambda>n. (Notice, n)) notices
              @ (if v = VEmit \<or> (v = VDropped \<and> le_severity e = Emergency)
                 then [(le_severity e, le_line e)] else [])))"

definition gate_flush :: "'l limiter \<Rightarrow> string \<Rightarrow> 'l gate \<Rightarrow> 'l gate \<times> string option" where
  "gate_flush lim process per =
     (case per process of
        None \<Rightarrow> (per, None)
      | Some l \<Rightarrow> (case lim_flush lim l of (l', n) \<Rightarrow> (per(process \<mapsto> l'), n)))"

definition to_wire :: "severity \<Rightarrow> wire_severity" where
  "to_wire s =
     (case s of Emergency \<Rightarrow> WireEmergency | Alert \<Rightarrow> WireAlert | Critical \<Rightarrow> WireCritical
      | Error \<Rightarrow> WireError | Warning \<Rightarrow> WireWarning | Notice \<Rightarrow> WireNotice
      | Info \<Rightarrow> WireInfo | Debug \<Rightarrow> WireDebug)"

record datagram =
  dg_time :: string
  dg_process :: string
  dg_severity :: wire_severity
  dg_line :: string

record 'l sl_env =
  en_io :: log_io
  en_limiter :: "'l limiter"
  en_fmt_us :: "millis \<Rightarrow> string"
  en_fault :: "log_entry \<Rightarrow> millis \<Rightarrow> append_fault"

definition emitter_send ::
    "'l sl_env \<Rightarrow> log_entry \<Rightarrow> millis \<Rightarrow> 'l gate \<Rightarrow> 'l gate \<times> datagram list" where
  "emitter_send env e now per =
     (case gate_offer (en_limiter env) e now per of
        (per', out) \<Rightarrow>
          (per', map (\<lambda>(sev, line). \<lparr>dg_time = en_fmt_us env (le_timestamp e),
                   dg_process = le_process e, dg_severity = to_wire sev, dg_line = line\<rparr>) out))"

definition emitter_flush ::
    "'l sl_env \<Rightarrow> string \<Rightarrow> 'l gate \<Rightarrow> 'l gate \<times> datagram list" where
  "emitter_flush env process per =
     (case gate_flush (en_limiter env) process per of
        (per', None) \<Rightarrow> (per', [])
      | (per', Some n) \<Rightarrow>
          (per', [\<lparr>dg_time = en_fmt_us env (now_ts (en_io env)), dg_process = process,
                   dg_severity = to_wire Notice, dg_line = n\<rparr>]))"

text \<open>Where the datagrams go: \<open>parse_addr\<close> is \<open>SocketAddr::from_str\<close>, \<open>default_group\<close> the fleet's.\<close>

definition mcast_group :: "(string \<Rightarrow> 'a option) \<Rightarrow> string \<Rightarrow> string option \<Rightarrow> 'a option" where
  "mcast_group parse_addr default_group grp =
     (case grp of
        None \<Rightarrow> parse_addr default_group
      | Some g \<Rightarrow> if trim g = [] \<or> trim g = ''off'' then None else parse_addr (trim g))"

section \<open>Followers\<close>

text \<open>A channel is what has been sent on it; what a slow follower misses is the channel's affair.\<close>

record stream_manager =
  sm_global :: "log_entry list"
  sm_channels :: "string \<Rightarrow> log_entry list option"

definition stream_new :: stream_manager where
  "stream_new = \<lparr>sm_global = [], sm_channels = (\<lambda>_. None)\<rparr>"

definition publish :: "log_entry \<Rightarrow> stream_manager \<Rightarrow> stream_manager" where
  "publish e m =
     (let p = le_process e;
          sent = (case sm_channels m p of Some c \<Rightarrow> c | None \<Rightarrow> [])
      in m\<lparr>sm_channels := (sm_channels m)(p \<mapsto> sent @ [e]), sm_global := sm_global m @ [e]\<rparr>)"

definition subscribe_process :: "string \<Rightarrow> stream_manager \<Rightarrow> stream_manager \<times> nat" where
  "subscribe_process p m =
     (let sent = (case sm_channels m p of Some c \<Rightarrow> c | None \<Rightarrow> [])
      in (m\<lparr>sm_channels := (sm_channels m)(p \<mapsto> sent)\<rparr>, length sent))"

section \<open>The facade\<close>

definition tail_lines :: nat where "tail_lines = 20"

record 'l stormlog =
  sl_config :: stormlog_config
  sl_files :: file_logger
  sl_dir :: log_dir
  sl_gate :: "'l gate option"
  sl_sent :: "datagram list"
  sl_streams :: stream_manager
  sl_run_ids :: "string \<Rightarrow> string option"
  sl_tails :: "string \<Rightarrow> string list option"

text \<open>\<open>remember\<close> on one process's queue: append, then drop from the front while it is too long.\<close>

definition tail_push :: "string list \<Rightarrow> string \<Rightarrow> string list" where
  "tail_push t line = pop_while_over tail_lines (t @ [line])"

definition remember :: "string \<Rightarrow> string \<Rightarrow> 'l stormlog \<Rightarrow> 'l stormlog" where
  "remember process line s =
     (let t = (case sl_tails s process of Some t \<Rightarrow> t | None \<Rightarrow> [])
      in s\<lparr>sl_tails := (sl_tails s)(process \<mapsto> tail_push t line)\<rparr>)"

definition tail_of :: "'l stormlog \<Rightarrow> string \<Rightarrow> string list" where
  "tail_of s process = (case sl_tails s process of Some t \<Rightarrow> t | None \<Rightarrow> [])"

definition detect_severity :: "log_io \<Rightarrow> string \<Rightarrow> severity \<Rightarrow> severity" where
  "detect_severity io line base =
     (let r = severity_of io line in if r = Info then base else r)"

definition write_entry :: "'l sl_env \<Rightarrow> millis \<Rightarrow> log_entry \<Rightarrow> 'l stormlog \<Rightarrow> 'l stormlog" where
  "write_entry env now e s =
     (case write_at (en_io env) (en_fault env e now) now e (sl_files s, sl_dir s) of
        ((g, d), _) \<Rightarrow>
          (let s1 = s\<lparr>sl_files := g, sl_dir := d\<rparr>;
               s2 = (case sl_gate s1 of
                       None \<Rightarrow> s1
                     | Some per \<Rightarrow>
                         (case emitter_send env e now per of
                            (per', ds) \<Rightarrow> s1\<lparr>sl_gate := Some per', sl_sent := sl_sent s1 @ ds\<rparr>))
           in s2\<lparr>sl_streams := publish e (sl_streams s2)\<rparr>))"

definition new_entry :: "'l sl_env \<Rightarrow> string \<Rightarrow> log_stream \<Rightarrow> string \<Rightarrow> log_entry" where
  "new_entry env process stream line =
     log_entry_new (uuid (en_io env)) (now_ts (en_io env)) process stream line"

text \<open>\<open>spawn_capture\<close>: what it does at once, what a reader does with each read, what ends it.\<close>

definition begin_capture :: "'l sl_env \<Rightarrow> millis \<Rightarrow> string \<Rightarrow> string \<Rightarrow> 'l stormlog \<Rightarrow> 'l stormlog" where
  "begin_capture env now process run_id s =
     write_entry env now
       (with_run_id run_id (new_entry env process Stdout ''--- process started ---''))
       (s\<lparr>sl_run_ids := (sl_run_ids s)(process \<mapsto> run_id),
          sl_tails := (sl_tails s)(process \<mapsto> [])\<rparr>)"

definition chunk_lines :: "string \<Rightarrow> string list" where
  "chunk_lines text = filter (\<lambda>l. l \<noteq> []) (lines text)"

definition capture_line ::
    "'l sl_env \<Rightarrow> millis \<Rightarrow> string \<Rightarrow> string \<Rightarrow> log_stream \<Rightarrow> severity \<Rightarrow> 'l stormlog \<Rightarrow> string
     \<Rightarrow> 'l stormlog" where
  "capture_line env now process run_id stream base s line =
     write_entry env now
       (with_run_id run_id
         (with_severity (detect_severity (en_io env) line base) (new_entry env process stream line)))
       (remember process line s)"

definition capture_chunk ::
    "'l sl_env \<Rightarrow> millis \<Rightarrow> string \<Rightarrow> string \<Rightarrow> log_stream \<Rightarrow> 'l stormlog \<Rightarrow> string \<Rightarrow> 'l stormlog" where
  "capture_chunk env now process run_id stream s text =
     foldl (capture_line env now process run_id stream (if stream = Stdout then Info else Warning))
       s (chunk_lines text)"

definition end_capture :: "'l sl_env \<Rightarrow> millis \<Rightarrow> string \<Rightarrow> string \<Rightarrow> 'l stormlog \<Rightarrow> 'l stormlog" where
  "end_capture env now process run_id s =
     (let s1 = (case sl_gate s of
                  None \<Rightarrow> s
                | Some per \<Rightarrow>
                    (case emitter_flush env process per of
                       (per', ds) \<Rightarrow> s\<lparr>sl_gate := Some per', sl_sent := sl_sent s @ ds\<rparr>))
      in write_entry env now
           (with_run_id run_id (new_entry env process Stdout ''--- process exited ---'')) s1)"

definition emit_crash ::
    "'l sl_env \<Rightarrow> millis \<Rightarrow> string \<Rightarrow> i32 option \<Rightarrow> 'l stormlog \<Rightarrow> 'l stormlog" where
  "emit_crash env now process exit_code s =
     (let msg = (case exit_code of
                   Some code \<Rightarrow> ''*** PROCESS CRASHED *** exit code '' @ show_int code
                 | None \<Rightarrow> ''*** PROCESS CRASHED *** killed by signal'');
          e = with_severity Emergency (new_entry env process Stderr msg)
      in write_entry env now
           (case sl_run_ids s process of Some r \<Rightarrow> with_run_id r e | None \<Rightarrow> e) s)"

text \<open>\<open>archive_run\<close>, once the readers have drained (or were given up on).\<close>

definition archive_run :: "bool \<Rightarrow> string \<Rightarrow> bool \<Rightarrow> 'l stormlog \<Rightarrow> 'l stormlog" where
  "archive_run can_rename process failed s =
     (case sl_run_ids s process of
        None \<Rightarrow> s
      | Some run_id \<Rightarrow>
          (case take_file can_rename process run_id failed (sl_files s, sl_dir s) of
             ((g, d), _) \<Rightarrow>
               s\<lparr>sl_files := g,
                 sl_dir := fst (prune d process (fc_max_runs (slc_file (sl_config s))))\<rparr>))"

definition stormlog_new ::
    "stormlog_config \<Rightarrow> (string \<Rightarrow> 'a option) \<Rightarrow> string \<Rightarrow> ('a \<Rightarrow> bool) \<Rightarrow> log_dir \<Rightarrow> 'l stormlog" where
  "stormlog_new cfg parse_addr default_group can_send d =
     \<lparr>sl_config = cfg, sl_files = file_logger_new (slc_file cfg), sl_dir = d,
      sl_gate = (case mcast_group parse_addr default_group (mc_group (slc_mcast cfg)) of
                   Some a \<Rightarrow> if can_send a then Some (\<lambda>_. None) else None | None \<Rightarrow> None),
      sl_sent = [], sl_streams = stream_new, sl_run_ids = (\<lambda>_. None), sl_tails = (\<lambda>_. None)\<rparr>"

section \<open>Correctness\<close>

interpretation log_tail: bounded_queue tail_push "\<lambda>t. t" tail_lines
  by unfold_locales (simp add: tail_push_def pop_while_over_last_n)

lemma write_entry_tails [simp]: "sl_tails (write_entry env now e s) = sl_tails s"
  "sl_run_ids (write_entry env now e s) = sl_run_ids s"
  "sl_config (write_entry env now e s) = sl_config s"
  by (simp_all add: write_entry_def Let_def split: option.split prod.split)

lemma write_entry_streams [simp]: "sl_streams (write_entry env now e s) = publish e (sl_streams s)"
  by (simp add: write_entry_def Let_def split: option.split prod.split)

lemma tail_write_entry [simp]: "tail_of (write_entry env now e s) = tail_of s"
  by (simp add: tail_of_def fun_eq_iff)

lemma tail_remember: "tail_of (remember p l s) q = (if q = p then tail_push (tail_of s p) l else tail_of s q)"
  by (simp add: remember_def tail_of_def Let_def)

lemma tail_capture_chunk: "tail_of (capture_chunk env now p r st s text) q =
    (if q = p then foldl tail_push (tail_of s p) (chunk_lines text) else tail_of s q)"
proof -
  have "tail_of (foldl (capture_line env now p r st b) s ls) q =
      (if q = p then foldl tail_push (tail_of s p) ls else tail_of s q)" for b ls
    by (induction ls arbitrary: s) (simp_all add: capture_line_def tail_remember)
  then show ?thesis by (simp add: capture_chunk_def)
qed

definition capture_run ::
    "'l sl_env \<Rightarrow> millis \<Rightarrow> string \<Rightarrow> string \<Rightarrow> log_stream \<Rightarrow> string list \<Rightarrow> 'l stormlog \<Rightarrow> 'l stormlog" where
  "capture_run env now p r st chunks s = foldl (capture_chunk env now p r st) (begin_capture env now p r s) chunks"

lemma tail_capture_run: "tail_of (capture_run env now p r st chunks s) p = last_n tail_lines (concat (map chunk_lines chunks))"
proof -
  have "tail_of (foldl (capture_chunk env now p r st) s' cs) p = foldl tail_push (tail_of s' p) (concat (map chunk_lines cs))" for s' cs
    by (induction cs arbitrary: s') (simp_all add: tail_capture_chunk)
  moreover have "tail_of (begin_capture env now p r s) p = []"
    by (simp add: begin_capture_def) (simp add: tail_of_def)
  ultimately show ?thesis
    using log_tail.pushes_items [of "[]"] by (simp add: capture_run_def)
qed

lemma split_char_append_sep: "split_char d (a @ d # b) = split_char d a @ split_char d b"
  by (induction a) (auto split: list.splits)

lemma lines_append: "a = [] \<or> last a = newline \<Longrightarrow> lines (a @ b) = lines a @ lines b"
proof (cases a rule: rev_cases)
  case (snoc a' c)
  assume "a = [] \<or> last a = newline"
  with snoc have "a = a' @ [newline]" by simp
  then show ?thesis
    by (simp add: lines_def Let_def split_char_append_sep butlast_append)
qed (simp add: lines_def)

lemma chunk_lines_concat: "list_all (\<lambda>c. c = [] \<or> last c = newline) cs \<Longrightarrow> concat (map chunk_lines cs) = chunk_lines (concat cs)"
  by (induction cs) (simp_all add: chunk_lines_def lines_append, simp add: lines_def)

definition follows :: "stream_manager \<Rightarrow> bool" where
  "follows m \<longleftrightarrow> (\<forall>p. (case sm_channels m p of Some c \<Rightarrow> c | None \<Rightarrow> []) = filter (\<lambda>e. le_process e = p) (sm_global m))"

lemma follows_publish: "follows m \<Longrightarrow> follows (publish e m)"
  by (auto simp: follows_def publish_def Let_def)

lemma mcast_off: "trim g = ''off'' \<or> trim g = [] \<Longrightarrow> mcast_group pa dg (Some g) = None"
  by (auto simp: mcast_group_def)

lemma write_entry_sends_emergency:
  assumes "sl_gate s = Some per" "le_severity e = Emergency"
    and "\<And>l. case lim_offer (en_limiter env) l (le_line e) now of (_, _, v) \<Rightarrow> v = VEmit \<or> v = VDropped"
  shows "\<exists>ds. sl_sent (write_entry env now e s) = sl_sent s @ ds @ [\<lparr>dg_time = en_fmt_us env (le_timestamp e),
                   dg_process = le_process e, dg_severity = WireEmergency, dg_line = le_line e\<rparr>]"
  using assms(1,2) assms(3) [of "case per (le_process e) of Some l \<Rightarrow> l | None \<Rightarrow> lim_new (en_limiter env)"]
  by (auto simp: write_entry_def emitter_send_def gate_offer_def Let_def to_wire_def split: prod.splits)

section \<open>Properties\<close>

text \<open>After any reads of a run's output, the tail stormd echoes when the run fails is exactly
  the last twenty lines of that run, oldest first; a new run starts with none of the old ones.\<close>

theorem tail_is_last_lines:
  "tail_of (capture_run env now p r st chunks s) p = last_n 20 (concat (map chunk_lines chunks))
   \<and> length (tail_of (capture_run env now p r st chunks s) p) \<le> 20"
  unfolding tail_capture_run by (simp add: tail_lines_def)

text \<open>Where the reads of a pipe fall decides what the lines are: reads that end at line ends give
  the lines of the whole output, but a line that straddles two reads becomes two entries.\<close>

theorem lines_depend_on_reads:
  "(list_all (\<lambda>c. c = [] \<or> last c = newline) chunks \<longrightarrow>
      concat (map chunk_lines chunks) = chunk_lines (concat chunks))
   \<and> concat (map chunk_lines [''panic: disk '', ''full'' @ [newline]]) = [''panic: disk '', ''full'']
   \<and> chunk_lines (concat [''panic: disk '', ''full'' @ [newline]]) = [''panic: disk full'']"
  using chunk_lines_concat [of chunks]
  by (auto simp: chunk_lines_def lines_def newline_def strip_cr_def strip_suffix_def carriage_def)

theorem lines_depend_on_reads_witness:
  "concat (map chunk_lines [''up'' @ [newline], ''ready'' @ [newline]]) = [''up'', ''ready'']"
  using lines_depend_on_reads [of "[''up'' @ [newline], ''ready'' @ [newline]]"]
  by (simp add: chunk_lines_def lines_def newline_def strip_cr_def strip_suffix_def carriage_def)

text \<open>An Emergency entry (stormd's own crash marker) always reaches the group when there is one,
  unless the limiter holds it back as a repeat: a flood of other lines cannot hide it.\<close>

theorem emergency_reaches_group:
  assumes "sl_gate s = Some per" "le_severity e = Emergency"
    and "\<And>l. case lim_offer (en_limiter env) l (le_line e) now of (_, _, v) \<Rightarrow> v = VEmit \<or> v = VDropped"
  shows "\<exists>ds. sl_sent (write_entry env now e s) = sl_sent s @ ds @
     [\<lparr>dg_time = en_fmt_us env (le_timestamp e), dg_process = le_process e,
       dg_severity = WireEmergency, dg_line = le_line e\<rparr>]"
  using assms by (rule write_entry_sends_emergency)

definition flooded_env :: "unit sl_env" where
  "flooded_env = \<lparr>en_io = plain_io,
     en_limiter = \<lparr>lim_new = (), lim_offer = (\<lambda>_ _ _. ((), [], VDropped)), lim_flush = (\<lambda>_. ((), None))\<rparr>,
     en_fmt_us = (\<lambda>_. []), en_fault = (\<lambda>_ _. works)\<rparr>"

definition quiet_log :: "unit stormlog" where
  "quiet_log = stormlog_new stormlog_config_default Some ''239.0.0.1:514'' (\<lambda>_. True) []"

theorem emergency_reaches_group_witness:
  "\<exists>ds. sl_sent (write_entry flooded_env 0 (with_severity Emergency (new_entry flooded_env ''app'' Stderr ''x''))
        quiet_log) = sl_sent quiet_log @ ds @
     [\<lparr>dg_time = [], dg_process = ''app'', dg_severity = WireEmergency, dg_line = ''x''\<rparr>]"
  using emergency_reaches_group [of quiet_log "\<lambda>_. None"
      "with_severity Emergency (new_entry flooded_env ''app'' Stderr ''x'')" flooded_env 0]
  by (simp add: quiet_log_def stormlog_new_def mcast_group_def stormlog_config_default_def
      mcast_config_default_def with_severity_def new_entry_def log_entry_new_def flooded_env_def)

end
