(* ===== verification/Config.thy ===== *)
theory Config
  imports Probes LogTypes
begin

text \<open>
  \<open>crates/stormd/src/config.rs\<close>: the configuration as it is after \<open>toml\<close> and \<open>serde\<close> have read it,
  its defaults, the cloud id, and \<open>Config::validate\<close>. A \<open>HashMap\<close> is the list of its entries in the
  order iteration gives them (its keys are distinct); a path is its text.
\<close>

type_synonym env_map = "(string \<times> string) list"

section \<open>Processes\<close>

record api_probe =
  ap_name :: string
  ap_url :: string
  ap_interval_secs :: u64
  ap_timeout_secs :: u64
  ap_p50_ms :: "u64 option"
  ap_p99_ms :: "u64 option"
  ap_initial_delay_secs :: u64
  ap_token_file :: "string option"
  ap_client_cert_file :: "string option"
  ap_client_key_file :: "string option"
  ap_restart_after_stalled_secs :: "u64 option"

datatype golden_content = Filesystem | Image

record golden_mount =
  gm_name :: string
  gm_golden :: "string option"
  gm_volume_id :: "string option"
  gm_content :: golden_content
  gm_path :: "string option"
  gm_fstype :: string
  gm_owner :: "string option"
  gm_mode :: u32
  gm_size_bytes :: "u64 option"

definition parse_id :: "string \<Rightarrow> u32 option" where
  "parse_id s = map_option of_nat (parse_unsigned (2 ^ 32) s)"

definition owner_ids :: "golden_mount \<Rightarrow> (u32 \<times> u32) option" where
  "owner_ids g =
     (case gm_owner g of
        None \<Rightarrow> None
      | Some o' \<Rightarrow>
          (case split_once '':'' o' of
             None \<Rightarrow> None
           | Some (u, v) \<Rightarrow>
               (case parse_id u of
                  None \<Rightarrow> None
                | Some uid \<Rightarrow> (case parse_id v of None \<Rightarrow> None | Some gid \<Rightarrow> Some (uid, gid)))))"

record process_ui_config =
  ui_label :: string
  ui_proxy :: string
  ui_host :: "string option"
  ui_summary :: "string option"

datatype failure_action = FailRestart | FailFail | FailIgnore
datatype no_restart_action = Hold | NoRestartFail
datatype restart_policy = Always | OnFailure | Never
datatype exit_action = ExitRestart | ExitStop

datatype ready_probe =
    ReadyHttp string u64
  | ReadyTcp u16 u64
  | ReadyExec string u64

datatype probe_type = ProbeHttp string | ProbeTcp u16

record liveness_probe =
  lp_probe :: probe_type
  lp_interval_secs :: u64
  lp_timeout_secs :: u64
  lp_failure_threshold :: u32
  lp_initial_delay_secs :: u64

record process_config =
  pc_name :: string
  pc_command :: string
  pc_image :: "string option"
  pc_args :: "string list"
  pc_env :: env_map
  pc_env_default :: env_map
  pc_working_dir :: "string option"
  pc_on_failure :: failure_action
  pc_on_exit :: exit_action
  pc_restart_delay_secs :: u64
  pc_max_restarts :: u32
  pc_restart_window_secs :: u64
  pc_no_restart_exit_codes :: "i32 list"
  pc_on_no_restart :: no_restart_action
  pc_depends_on :: "string list"
  pc_wait_for_files :: "string list"
  pc_restart_policy :: "restart_policy option"
  pc_startup_probe :: "probe option"
  pc_liveness_probe :: "probe option"
  pc_readiness_probe :: "probe option"
  pc_api :: "api_probe list"
  pc_golden :: "golden_mount list"
  pc_stop_timeout_secs :: u64
  pc_startup_delay_secs :: u64
  pc_ready_probe :: "ready_probe option"
  pc_liveness :: "liveness_probe option"
  pc_capture_stdout :: bool
  pc_capture_stderr :: bool
  pc_ui :: "process_ui_config option"

definition default_restart_delay_secs :: u64 where "default_restart_delay_secs = 1"
definition default_stop_timeout_secs :: u64 where "default_stop_timeout_secs = 10"
definition default_max_restarts :: u32 where "default_max_restarts = 10"
definition default_restart_window_secs :: u64 where "default_restart_window_secs = 3600"
definition default_startup_delay_secs :: u64 where "default_startup_delay_secs = 0"

text \<open>What a \<open>[[process]]\<close> table with a name and a command reads as.\<close>

definition process_config_default :: "string \<Rightarrow> string \<Rightarrow> process_config" where
  "process_config_default name command = \<lparr>pc_name = name, pc_command = command, pc_image = None,
     pc_args = [], pc_env = [], pc_env_default = [], pc_working_dir = None,
     pc_on_failure = FailRestart, pc_on_exit = ExitRestart,
     pc_restart_delay_secs = default_restart_delay_secs, pc_max_restarts = default_max_restarts,
     pc_restart_window_secs = default_restart_window_secs, pc_no_restart_exit_codes = [],
     pc_on_no_restart = Hold, pc_depends_on = [], pc_wait_for_files = [], pc_restart_policy = None,
     pc_startup_probe = None, pc_liveness_probe = None, pc_readiness_probe = None, pc_api = [],
     pc_golden = [], pc_stop_timeout_secs = default_stop_timeout_secs,
     pc_startup_delay_secs = default_startup_delay_secs, pc_ready_probe = None, pc_liveness = None,
     pc_capture_stdout = True, pc_capture_stderr = True, pc_ui = None\<rparr>"

section \<open>The rest of the file\<close>

record general_config =
  gc_name :: string
  gc_log_dir :: string
  gc_cloud_id :: "string option"
  gc_theme :: "string option"

definition general_config_default :: general_config where
  "general_config_default = \<lparr>gc_name = ''stormd'', gc_log_dir = ''/var/log/stormd'',
     gc_cloud_id = None, gc_theme = None\<rparr>"

record cron_job_config =
  cj_name :: string
  cj_schedule :: string
  cj_command :: string
  cj_args :: "string list"
  cj_env :: env_map
  cj_timeout_secs :: u64
  cj_capture_output :: bool

datatype event_transport = NoTransport | Webhook

record events_config =
  ec_enabled :: bool
  ec_transport :: event_transport
  ec_webhook_url :: "string option"
  ec_webhook_headers :: env_map

definition events_config_default :: events_config where
  "events_config_default = \<lparr>ec_enabled = False, ec_transport = NoTransport, ec_webhook_url = None,
     ec_webhook_headers = []\<rparr>"

record backup_config =
  bc_enabled :: bool
  bc_on_failure :: bool
  bc_destination_url :: "string option"
  bc_headers :: env_map
  bc_compress :: bool

definition backup_config_default :: backup_config where
  "backup_config_default = \<lparr>bc_enabled = False, bc_on_failure = True, bc_destination_url = None,
     bc_headers = [], bc_compress = True\<rparr>"

record api_user =
  au_name :: string
  au_password :: string

record api_config =
  ac_bind :: string
  ac_auth_token :: "string option"
  ac_password :: "string option"
  ac_users :: "api_user list"
  ac_token_file :: "string option"
  ac_tls_cert_file :: "string option"
  ac_tls_key_file :: "string option"
  ac_client_ca_file :: "string list"
  ac_hosts :: env_map

definition api_config_default :: api_config where
  "api_config_default = \<lparr>ac_bind = ''0.0.0.0:9080'', ac_auth_token = None, ac_password = None,
     ac_users = [], ac_token_file = None, ac_tls_cert_file = None, ac_tls_key_file = None,
     ac_client_ca_file = [], ac_hosts = []\<rparr>"

record debug_config =
  dc_enabled :: bool
  dc_allow_signal :: bool
  dc_allow_stdin :: bool

record ssh_config =
  sc_enabled :: bool
  sc_bind :: string
  sc_host_key :: string
  sc_password :: string
  sc_authorized_keys :: "string option"
  sc_cloudid_url :: string
  sc_owner :: "string option"

definition ssh_config_default :: ssh_config where
  "ssh_config_default = \<lparr>sc_enabled = False, sc_bind = ''0.0.0.0:22'',
     sc_host_key = ''/etc/stormd/host_key'', sc_password = ''stormd'', sc_authorized_keys = None,
     sc_cloudid_url = ''http://169.254.169.254'', sc_owner = None\<rparr>"

record updater_config =
  uc_enabled :: bool
  uc_poll_interval_secs :: u64
  uc_data_dir :: string
  uc_rootfs_dir :: string

definition updater_config_default :: updater_config where
  "updater_config_default = \<lparr>uc_enabled = False, uc_poll_interval_secs = 60,
     uc_data_dir = ''/data/images'', uc_rootfs_dir = ''/data/rootfs''\<rparr>"

record goldens_config =
  gd_engine_url :: string
  gd_token_file :: string
  gd_dir :: string

definition goldens_config_default :: goldens_config where
  "goldens_config_default = \<lparr>gd_engine_url = ''http://${NODE_IP}:9090'',
     gd_token_file = ''/run/stormblock/engine/api_token'', gd_dir = ''/goldens''\<rparr>"

record config =
  cf_general :: general_config
  cf_process :: "process_config list"
  cf_cron :: "cron_job_config list"
  cf_events :: events_config
  cf_backup :: backup_config
  cf_api :: api_config
  cf_debug :: debug_config
  cf_stormlog :: stormlog_config
  cf_ssh :: ssh_config
  cf_updater :: updater_config
  cf_goldens :: goldens_config
  cf_api_health_state_file :: "string option"

text \<open>The empty configuration file.\<close>

definition config_default :: config where
  "config_default = \<lparr>cf_general = general_config_default, cf_process = [], cf_cron = [],
     cf_events = events_config_default, cf_backup = backup_config_default,
     cf_api = api_config_default,
     cf_debug = \<lparr>dc_enabled = False, dc_allow_signal = False, dc_allow_stdin = False\<rparr>,
     cf_stormlog = stormlog_config_default, cf_ssh = ssh_config_default,
     cf_updater = updater_config_default, cf_goldens = goldens_config_default,
     cf_api_health_state_file = None\<rparr>"

section \<open>The cloud id\<close>

datatype id_source = FromConfig | FromEnv | FromFile | Generated

text \<open>
  The environment variable and the text of the id file are arguments, as is the generated UUID; the
  result says where the id came from and what is written back to the file, if anything.
\<close>

definition cloud_id_from_file ::
    "general_config \<Rightarrow> string option \<Rightarrow> string \<Rightarrow> string \<times> id_source \<times> (string \<times> string) option" where
  "cloud_id_from_file cfg file fresh =
     (case file of
        Some t \<Rightarrow> if trim t \<noteq> [] then (trim t, FromFile, None)
                  else (fresh, Generated, Some (path_join (gc_log_dir cfg) ''.cloudid'', fresh))
      | None \<Rightarrow> (fresh, Generated, Some (path_join (gc_log_dir cfg) ''.cloudid'', fresh)))"

definition cloud_id_from_env ::
    "general_config \<Rightarrow> string option \<Rightarrow> string option \<Rightarrow> string
     \<Rightarrow> string \<times> id_source \<times> (string \<times> string) option" where
  "cloud_id_from_env cfg env file fresh =
     (case env of
        Some e \<Rightarrow> if e \<noteq> [] then (e, FromEnv, None) else cloud_id_from_file cfg file fresh
      | None \<Rightarrow> cloud_id_from_file cfg file fresh)"

definition resolve_cloud_id ::
    "general_config \<Rightarrow> string option \<Rightarrow> string option \<Rightarrow> string
     \<Rightarrow> string \<times> id_source \<times> (string \<times> string) option" where
  "resolve_cloud_id cfg env file fresh =
     (case gc_cloud_id cfg of
        Some i \<Rightarrow> if i \<noteq> [] then (i, FromConfig, None) else cloud_id_from_env cfg env file fresh
      | None \<Rightarrow> cloud_id_from_env cfg env file fresh)"

section \<open>Validation\<close>

datatype config_error =
    NothingConfigured
  | DuplicateProcess string
  | NoCommandOrImage string
  | UnknownDependency string
  | WaitForFileNotAbsolute string string
  | BadProbe string string probe_error
  | ApiName string string
  | ApiUrl string string
  | ApiZero string string
  | ApiCertWithoutKey string string
  | ApiRestartZero string string
  | GoldenName string string
  | GoldenSource string string
  | GoldenPath string string
  | GoldenOwner string string
  | WebhookWithoutUrl
  | BackupWithoutUrl
  | TlsCertWithoutKey
  | ClientCaWithoutTls

text \<open>The loops of \<open>validate\<close> return at the first thing wrong; \<open>seen\<close> is the set of names so far.\<close>

definition and_then :: "'e option \<Rightarrow> 'e option \<Rightarrow> 'e option" where
  "and_then a b = (case a of Some e \<Rightarrow> Some e | None \<Rightarrow> b)"

fun validate_names :: "string set \<Rightarrow> process_config list \<Rightarrow> config_error option" where
  "validate_names seen [] = None"
| "validate_names seen (p # ps) =
     (if pc_name p \<in> seen then Some (DuplicateProcess (pc_name p))
      else if pc_command p = [] \<and> pc_image p = None then Some (NoCommandOrImage (pc_name p))
      else validate_names (insert (pc_name p) seen) ps)"

definition validate_depends :: "process_config list \<Rightarrow> config_error option" where
  "validate_depends ps =
     map_option UnknownDependency
       (List.find (\<lambda>d. d \<notin> set (map pc_name ps)) (concat (map pc_depends_on ps)))"

definition validate_wait :: "process_config \<Rightarrow> config_error option" where
  "validate_wait p =
     map_option (WaitForFileNotAbsolute (pc_name p))
       (List.find (\<lambda>f. \<not> starts_with f ''/'') (pc_wait_for_files p))"

definition validate_probe :: "process_config \<Rightarrow> string \<Rightarrow> probe option \<Rightarrow> config_error option" where
  "validate_probe p kind pr =
     (case pr of
        None \<Rightarrow> None
      | Some q \<Rightarrow> (case probe_check q kind of Inl e \<Rightarrow> Some (BadProbe (pc_name p) kind e) | Inr _ \<Rightarrow> None))"

fun validate_apis :: "string \<Rightarrow> string set \<Rightarrow> api_probe list \<Rightarrow> config_error option" where
  "validate_apis n seen [] = None"
| "validate_apis n seen (a # as) =
     (if ap_name a = [] \<or> ap_name a \<in> seen then Some (ApiName n (ap_name a))
      else if \<not> (starts_with (ap_url a) ''http://'' \<or> starts_with (ap_url a) ''https://'')
        then Some (ApiUrl n (ap_name a))
      else if ap_interval_secs a = 0 \<or> ap_timeout_secs a = 0 then Some (ApiZero n (ap_name a))
      else if (ap_client_cert_file a \<noteq> None) \<noteq> (ap_client_key_file a \<noteq> None)
        then Some (ApiCertWithoutKey n (ap_name a))
      else if ap_restart_after_stalled_secs a = Some 0 then Some (ApiRestartZero n (ap_name a))
      else validate_apis n (insert (ap_name a) seen) as)"

fun validate_goldens :: "string \<Rightarrow> string set \<Rightarrow> golden_mount list \<Rightarrow> config_error option" where
  "validate_goldens n seen [] = None"
| "validate_goldens n seen (g # gs) =
     (if gm_name g = [] \<or> CHR ''/'' \<in> set (gm_name g) \<or> gm_name g \<in> seen
        then Some (GoldenName n (gm_name g))
      else if (gm_golden g \<noteq> None) = (gm_volume_id g \<noteq> None) then Some (GoldenSource n (gm_name g))
      else if (case gm_path g of Some p \<Rightarrow> \<not> starts_with p ''/'' | None \<Rightarrow> False)
        then Some (GoldenPath n (gm_name g))
      else if gm_owner g \<noteq> None \<and> owner_ids g = None then Some (GoldenOwner n (gm_name g))
      else validate_goldens n (insert (gm_name g) seen) gs)"

definition validate_process :: "process_config \<Rightarrow> config_error option" where
  "validate_process p =
     and_then (validate_wait p)
    (and_then (validate_probe p ''startup'' (pc_startup_probe p))
    (and_then (validate_probe p ''liveness'' (pc_liveness_probe p))
    (and_then (validate_probe p ''readiness'' (pc_readiness_probe p))
    (and_then (validate_apis (pc_name p) {} (pc_api p))
              (validate_goldens (pc_name p) {} (pc_golden p))))))"

fun first_error :: "('a \<Rightarrow> 'e option) \<Rightarrow> 'a list \<Rightarrow> 'e option" where
  "first_error f [] = None"
| "first_error f (x # xs) = and_then (f x) (first_error f xs)"

definition validate_rest :: "config \<Rightarrow> config_error option" where
  "validate_rest c =
     and_then (if ec_enabled (cf_events c) \<and> ec_transport (cf_events c) = Webhook
                  \<and> ec_webhook_url (cf_events c) = None then Some WebhookWithoutUrl else None)
    (and_then (if bc_enabled (cf_backup c) \<and> bc_destination_url (cf_backup c) = None
               then Some BackupWithoutUrl else None)
    (and_then (if (ac_tls_cert_file (cf_api c) \<noteq> None) \<noteq> (ac_tls_key_file (cf_api c) \<noteq> None)
               then Some TlsCertWithoutKey else None)
              (if ac_client_ca_file (cf_api c) \<noteq> [] \<and> ac_tls_cert_file (cf_api c) = None
               then Some ClientCaWithoutTls else None)))"

definition validate :: "config \<Rightarrow> config_error + unit" where
  "validate c =
     (case (if cf_process c = [] \<and> cf_cron c = [] then Some NothingConfigured
            else and_then (validate_names {} (cf_process c))
                (and_then (validate_depends (cf_process c))
                (and_then (first_error validate_process (cf_process c))
                          (validate_rest c)))) of
        Some e \<Rightarrow> Inl e
      | None \<Rightarrow> Inr ())"

section \<open>What a valid configuration promises\<close>

lemma and_then_None [simp]: "and_then a b = None \<longleftrightarrow> a = None \<and> b = None"
  by (cases a) (simp_all add: and_then_def)

lemma first_error_None [simp]: "first_error f xs = None \<longleftrightarrow> (\<forall>x \<in> set xs. f x = None)"
  by (induction xs) simp_all

lemma validate_names_None: "validate_names seen ps = None \<longleftrightarrow>
    distinct (map pc_name ps) \<and> set (map pc_name ps) \<inter> seen = {}
    \<and> (\<forall>p \<in> set ps. pc_command p \<noteq> [] \<or> pc_image p \<noteq> None)"
  by (induction ps arbitrary: seen) auto

lemma validate_depends_None: "validate_depends ps = None \<longleftrightarrow>
    (\<forall>p \<in> set ps. set (pc_depends_on p) \<subseteq> set (map pc_name ps))"
  by (auto simp: validate_depends_def find_None_iff)

lemma validate_probe_None: "validate_probe p kind pr = None \<longleftrightarrow>
    (\<forall>q. pr = Some q \<longrightarrow> probe_check q kind = Inr ())"
  by (auto simp: validate_probe_def split: option.split sum.split)

definition api_ok :: "api_probe \<Rightarrow> bool" where
  "api_ok a \<longleftrightarrow> ap_name a \<noteq> [] \<and> ap_interval_secs a \<noteq> 0 \<and> ap_timeout_secs a \<noteq> 0 \<and>
     (starts_with (ap_url a) ''http://'' \<or> starts_with (ap_url a) ''https://'') \<and>
     (ap_client_cert_file a \<noteq> None) = (ap_client_key_file a \<noteq> None) \<and>
     ap_restart_after_stalled_secs a \<noteq> Some 0"

lemma validate_apis_None: "validate_apis n seen as = None \<longleftrightarrow>
    distinct (map ap_name as) \<and> (\<forall>a \<in> set as. api_ok a) \<and> set (map ap_name as) \<inter> seen = {}"
proof (induction as arbitrary: seen)
  case (Cons a as)
  show ?case
    by (simp add: Cons.IH api_ok_def del: not_None_eq) blast
qed simp

definition golden_ok :: "golden_mount \<Rightarrow> bool" where
  "golden_ok g \<longleftrightarrow> gm_name g \<noteq> [] \<and> CHR ''/'' \<notin> set (gm_name g) \<and>
     (gm_golden g \<noteq> None) \<noteq> (gm_volume_id g \<noteq> None) \<and>
     \<not> (case gm_path g of Some p \<Rightarrow> \<not> starts_with p ''/'' | None \<Rightarrow> False) \<and>
     (gm_owner g \<noteq> None \<longrightarrow> owner_ids g \<noteq> None)"

lemma validate_goldens_None: "validate_goldens n seen gs = None \<longleftrightarrow>
    distinct (map gm_name gs) \<and> (\<forall>g \<in> set gs. golden_ok g) \<and> set (map gm_name gs) \<inter> seen = {}"
proof (induction gs arbitrary: seen)
  case (Cons g gs)
  show ?case
    by (simp add: Cons.IH golden_ok_def del: not_None_eq) blast
qed simp

definition process_ok :: "string list \<Rightarrow> process_config \<Rightarrow> bool" where
  "process_ok names p \<longleftrightarrow>
     (pc_command p \<noteq> [] \<or> pc_image p \<noteq> None) \<and>
     set (pc_depends_on p) \<subseteq> set names \<and>
     (\<forall>f \<in> set (pc_wait_for_files p). starts_with f ''/'') \<and>
     (\<forall>q. pc_startup_probe p = Some q \<longrightarrow> probe_check q ''startup'' = Inr ()) \<and>
     (\<forall>q. pc_liveness_probe p = Some q \<longrightarrow> probe_check q ''liveness'' = Inr ()) \<and>
     (\<forall>q. pc_readiness_probe p = Some q \<longrightarrow> probe_check q ''readiness'' = Inr ()) \<and>
     distinct (map ap_name (pc_api p)) \<and> (\<forall>a \<in> set (pc_api p). api_ok a) \<and>
     distinct (map gm_name (pc_golden p)) \<and> (\<forall>g \<in> set (pc_golden p). golden_ok g)"

definition well_formed :: "config \<Rightarrow> bool" where
  "well_formed c \<longleftrightarrow>
     (cf_process c \<noteq> [] \<or> cf_cron c \<noteq> []) \<and>
     distinct (map pc_name (cf_process c)) \<and>
     (\<forall>p \<in> set (cf_process c). process_ok (map pc_name (cf_process c)) p) \<and>
     (ec_enabled (cf_events c) \<and> ec_transport (cf_events c) = Webhook \<longrightarrow> ec_webhook_url (cf_events c) \<noteq> None) \<and>
     (bc_enabled (cf_backup c) \<longrightarrow> bc_destination_url (cf_backup c) \<noteq> None) \<and>
     (ac_tls_cert_file (cf_api c) \<noteq> None) = (ac_tls_key_file (cf_api c) \<noteq> None) \<and>
     (ac_client_ca_file (cf_api c) \<noteq> [] \<longrightarrow> ac_tls_cert_file (cf_api c) \<noteq> None)"

lemma validate_iff: "validate c = Inr () \<longleftrightarrow> well_formed c"
proof -
  have "validate c = Inr () \<longleftrightarrow> (cf_process c \<noteq> [] \<or> cf_cron c \<noteq> []) \<and>
      validate_names {} (cf_process c) = None \<and> validate_depends (cf_process c) = None \<and>
      (\<forall>p \<in> set (cf_process c). validate_process p = None) \<and> validate_rest c = None"
    unfolding validate_def
    by (simp del: not_None_eq split: option.split) (metis and_then_None first_error_None option.simps(3))
  also have "\<dots> \<longleftrightarrow> well_formed c"
    unfolding well_formed_def validate_names_None validate_depends_None process_ok_def validate_rest_def
      validate_process_def validate_wait_def
    by (simp add: find_None_iff validate_probe_None validate_apis_None validate_goldens_None
        del: not_None_eq) blast
  finally show ?thesis .
qed

section \<open>Properties\<close>

text \<open>C10: \<open>validate\<close> accepts exactly the well-formed configurations: something to run, process names
  that are unique, every process with a command or an image, every dependency known, every waited
  for file absolute, every probe, API and golden sound, and the webhook, backup and TLS settings
  complete.\<close>

theorem validate_accepts_exactly: "validate c = Inr () \<longleftrightarrow> well_formed c"
  by (rule validate_iff)

text \<open>A generated cloud id is written down and found again: with no id in the configuration or
  the environment, the next start resolves the same id from the file.\<close>

theorem cloud_id_survives_restart:
  assumes "resolve_cloud_id cfg None file fresh = (i, Generated, w)"
    and "fresh \<noteq> []" "\<not> is_ws (hd fresh)" "\<not> is_ws (last fresh)"
  shows "w = Some (path_join (gc_log_dir cfg) ''.cloudid'', i)
    \<and> resolve_cloud_id cfg None (Some i) fresh' = (i, FromFile, None)"
proof -
  have "trim fresh = fresh" using assms by (intro trim_noop) simp
  with assms show ?thesis
    by (auto simp: resolve_cloud_id_def cloud_id_from_env_def cloud_id_from_file_def
        split: option.splits if_splits)
qed

theorem cloud_id_survives_restart_witness:
  "resolve_cloud_id general_config_default None (Some ''8c7e'') ''new'' = (''8c7e'', FromFile, None)"
  using cloud_id_survives_restart [of general_config_default None "''8c7e''" "''8c7e''"
      "Some (''/var/log/stormd/.cloudid'', ''8c7e'')" "''new''"]
  by (simp add: resolve_cloud_id_def cloud_id_from_env_def cloud_id_from_file_def
      general_config_default_def is_ws_def path_join_def starts_with_def ends_with_def strip_suffix_def)

end
