(* ===== verification/ApiHealth.thy ===== *)
theory ApiHealth
  imports Config "HOL-Library.Product_Lexorder"
begin

text \<open>
  \<open>crates/stormd/src/apihealth.rs\<close>: the state an API's probes put it in. The store is the list of its
  entries, one per process and API. What a probe saw is an argument (the HTTP client is not
  modelled); the state file and the history file are rewritten from what \<open>record\<close> returns.
\<close>

datatype api_state = Unknown | Healthy | Slow | Stalled | Down

datatype seen = Answered u64 u16 | TimedOut | ProbeError string

definition window_size :: nat where "window_size = 20"

definition percentile :: "u64 list \<Rightarrow> nat \<Rightarrow> u64 option" where
  "percentile v pct =
     (if v = [] then None
      else Some (sort v ! (max ((pct * length v + 99) div 100) 1 - 1)))"

definition over :: "u64 option \<Rightarrow> u64 option \<Rightarrow> bool" where
  "over value budget = (case (value, budget) of (Some v, Some b) \<Rightarrow> b < v | _ \<Rightarrow> False)"

definition classify :: "seen \<Rightarrow> u64 list \<Rightarrow> u64 option \<Rightarrow> u64 option \<Rightarrow> api_state" where
  "classify s window p50 p99 =
     (case s of
        TimedOut \<Rightarrow> Stalled
      | ProbeError _ \<Rightarrow> Down
      | Answered ms status \<Rightarrow>
          if 400 \<le> status then Down
          else if over (Some ms) p99 \<or> over (percentile window 50) p50 then Slow else Healthy)"

record api_health =
  ah_process :: string
  ah_api :: string
  ah_url :: string
  ah_state :: api_state
  ah_since :: millis
  ah_last_ms :: "u64 option"
  ah_p50_ms :: "u64 option"
  ah_p99_ms :: "u64 option"
  ah_budget_p50_ms :: "u64 option"
  ah_budget_p99_ms :: "u64 option"
  ah_last_error :: "string option"
  ah_last_check :: "millis option"
  ah_checks :: nat
  ah_interval_secs :: u64
  ah_window :: "u64 list"

type_synonym api_store = "api_health list"

definition api_health_new :: "string \<Rightarrow> api_probe \<Rightarrow> millis \<Rightarrow> api_health" where
  "api_health_new process a now = \<lparr>ah_process = process, ah_api = ap_name a, ah_url = ap_url a,
     ah_state = Unknown, ah_since = now, ah_last_ms = None, ah_p50_ms = None, ah_p99_ms = None,
     ah_budget_p50_ms = ap_p50_ms a, ah_budget_p99_ms = ap_p99_ms a, ah_last_error = None,
     ah_last_check = None, ah_checks = 0, ah_interval_secs = ap_interval_secs a, ah_window = []\<rparr>"

definition window_push :: "u64 list \<Rightarrow> u64 \<Rightarrow> u64 list" where
  "window_push w ms = (let w' = w @ [ms] in if window_size < length w' then tl w' else w')"

definition last_error :: "api_probe \<Rightarrow> seen \<Rightarrow> string option" where
  "last_error a s =
     (case s of
        Answered _ status \<Rightarrow>
          if 400 \<le> status then Some (''HTTP '' @ show_nat (unat status)) else None
      | TimedOut \<Rightarrow> Some (''no answer within '' @ show_nat (unat (ap_timeout_secs a)) @ '' s'')
      | ProbeError e \<Rightarrow> Some e)"

text \<open>What \<open>record\<close> does to the entry, and the change it logs and keeps: the old state and how long it lasted.\<close>

definition health_record ::
    "api_probe \<Rightarrow> seen \<Rightarrow> millis \<Rightarrow> api_health \<Rightarrow> api_health \<times> (api_state \<times> int) option" where
  "health_record a s now h =
     (let h1 = h\<lparr>ah_checks := ah_checks h + 1, ah_last_check := Some now\<rparr>;
          h2 = (case s of
                  Answered ms _ \<Rightarrow>
                    (let w = window_push (ah_window h1) ms
                     in h1\<lparr>ah_last_ms := Some ms, ah_window := w,
                           ah_p50_ms := percentile w 50, ah_p99_ms := percentile w 99\<rparr>)
                | TimedOut \<Rightarrow> h1\<lparr>ah_last_ms := None\<rparr>
                | ProbeError _ \<Rightarrow> h1\<lparr>ah_last_ms := None\<rparr>);
          h3 = h2\<lparr>ah_last_error := last_error a s\<rparr>;
          st = classify s (ah_window h3) (ap_p50_ms a) (ap_p99_ms a)
      in if st \<noteq> ah_state h3
         then (h3\<lparr>ah_state := st, ah_since := now\<rparr>,
               Some (ah_state h3, max (num_seconds (now - ah_since h3)) 0))
         else (h3, None))"

definition is_entry :: "string \<Rightarrow> string \<Rightarrow> api_health \<Rightarrow> bool" where
  "is_entry process api h \<longleftrightarrow> ah_process h = process \<and> ah_api h = api"

definition api_find :: "api_store \<Rightarrow> string \<Rightarrow> string \<Rightarrow> api_health option" where
  "api_find store process api = List.find (is_entry process api) store"

definition api_record ::
    "string \<Rightarrow> api_probe \<Rightarrow> seen \<Rightarrow> millis \<Rightarrow> api_store
     \<Rightarrow> api_store \<times> (api_state \<times> millis) \<times> (api_state \<times> int) option" where
  "api_record process a s now store =
     (let store1 = (if api_find store process (ap_name a) = None
                    then store @ [api_health_new process a now] else store);
          h = the (api_find store1 process (ap_name a))
      in case health_record a s now h of
           (h', change) \<Rightarrow>
             (update_first (is_entry process (ap_name a)) (\<lambda>_. h') store1,
              (ah_state h', ah_since h'), change))"

definition api_list :: "api_store \<Rightarrow> api_health list" where
  "api_list store = sort_key (\<lambda>h. (ah_process h, ah_api h)) store"

text \<open>The decision of \<open>Supervisor::watch_api\<close> after a probe: end the run?\<close>

definition stalled_too_long :: "api_probe \<Rightarrow> api_state \<times> millis \<Rightarrow> millis \<Rightarrow> bool" where
  "stalled_too_long a = (\<lambda>(st, since) now.
     (case ap_restart_after_stalled_secs a of
        Some limit \<Rightarrow> st = Stalled \<and> limit \<le> of_int (max (num_seconds (now - since)) 0)
      | None \<Rightarrow> False))"

section \<open>Correctness\<close>

lemma window_push_last: "length w \<le> window_size \<Longrightarrow> window_push w ms = last_n window_size (w @ [ms])"
  by (cases "length w = window_size") (auto simp: window_push_def Let_def last_n_tl [symmetric] intro!: last_n_tl [symmetric])

interpretation latency_window: bounded_queue window_push "\<lambda>w. w" window_size
  by unfold_locales (rule window_push_last)

lemma health_record_key [simp]: "ah_process (fst (health_record a s now h)) = ah_process h"
  "ah_api (fst (health_record a s now h)) = ah_api h"
  by (simp_all add: health_record_def Let_def split: seen.split)

lemma health_record_window: "length (ah_window h) \<le> window_size \<Longrightarrow> length (ah_window (fst (health_record a s now h))) \<le> window_size"
  using latency_window.push_bounded [of "ah_window h"]
  by (simp add: health_record_def Let_def split: seen.split)

lemma health_record_state: "ah_state (fst (health_record a s now h)) =
   classify s (ah_window (fst (health_record a s now h))) (ap_p50_ms a) (ap_p99_ms a)"
  by (simp add: health_record_def Let_def split: seen.split)

lemma health_record_since: "ah_since (fst (health_record a s now h)) =
   (if ah_state (fst (health_record a s now h)) = ah_state h then ah_since h else now)"
  by (simp add: health_record_def Let_def split: seen.split)

lemma rank_bounds:
  fixes n pct :: nat
  assumes "0 < n" "0 < pct" "pct \<le> 100"
  shows "pct * n \<le> 100 * ((pct * n + 99) div 100)" "0 < (pct * n + 99) div 100"
    "(pct * n + 99) div 100 \<le> n" "100 * ((pct * n + 99) div 100 - 1) < pct * n"
proof -
  have pos: "0 < pct * n" using assms by simp
  have "pct * n \<le> 100 * n" using assms by simp
  with pos show "pct * n \<le> 100 * ((pct * n + 99) div 100)" "0 < (pct * n + 99) div 100"
    "(pct * n + 99) div 100 \<le> n" "100 * ((pct * n + 99) div 100 - 1) < pct * n"
    by linarith+
qed

lemma percentile_rank:
  assumes "v \<noteq> []" "0 < pct" "pct \<le> 100" "percentile v pct = Some m"
  shows "m \<in> set v" "pct * length v \<le> 100 * length (filter (\<lambda>x. x \<le> m) v)"
    "100 * length (filter (\<lambda>x. x < m) v) < pct * length v"
proof -
  let ?r = "(pct * length v + 99) div 100"
  have n: "0 < length v" using assms(1) by simp
  note r = rank_bounds [OF n assms(2,3)]
  have i: "?r - 1 < length (sort v)" unfolding length_sort using r(2,3) by linarith
  have "max ?r 1 = ?r" using r(2) by linarith
  then have m: "m = sort v ! (?r - 1)"
    using assms(4) by (simp only: percentile_def assms(1) if_False option.inject)
  show "m \<in> set v" using nth_mem [OF i] unfolding m by simp
  have count: "length (filter P (sort v)) = length (filter P v)" for P
    by (simp add: filter_sort)
  have "?r \<le> length (filter (\<lambda>x. x \<le> m) v)"
    using sorted_count_le [OF _ i] r(2) assms(1) unfolding m count by simp
  with r(1) assms(1) show "pct * length v \<le> 100 * length (filter (\<lambda>x. x \<le> m) v)" by simp
  have "length (filter (\<lambda>x. x < m) v) \<le> ?r - 1"
    using sorted_count_less [OF _ i] unfolding m count by simp
  with r(4) assms(1) show "100 * length (filter (\<lambda>x. x < m) v) < pct * length v" by simp
qed

definition api_entry :: "api_store \<Rightarrow> string \<Rightarrow> api_probe \<Rightarrow> millis \<Rightarrow> api_health" where
  "api_entry store p a now = (case api_find store p (ap_name a) of Some h \<Rightarrow> h | None \<Rightarrow> api_health_new p a now)"

lemma api_find_key: "api_find store p n = Some h \<Longrightarrow> is_entry p n h"
  unfolding api_find_def by (auto dest: find_Some_iff [THEN iffD1])

lemma api_entry_key: "is_entry p (ap_name a) (api_entry store p a now)"
  by (auto simp: api_entry_def is_entry_def api_health_new_def dest: api_find_key split: option.split)

lemma api_find_new: "api_find (if api_find store p (ap_name a) = None then store @ [api_health_new p a now] else store)
    p (ap_name a) = Some (api_entry store p a now)"
  by (auto simp: api_find_def api_entry_def find_append is_entry_def api_health_new_def split: option.split)

lemma api_record_same: "api_find (fst (api_record p a s now store)) p (ap_name a)
    = Some (fst (health_record a s now (api_entry store p a now)))"
  and api_record_says: "fst (snd (api_record p a s now store)) = 
    (let h = fst (health_record a s now (api_entry store p a now)) in (ah_state h, ah_since h))"
proof -
  let ?st = "if api_find store p (ap_name a) = None then store @ [api_health_new p a now] else store"
  have f: "api_find ?st p (ap_name a) = Some (api_entry store p a now)"
    by (rule api_find_new)
  obtain h' ch where h': "health_record a s now (api_entry store p a now) = (h', ch)"
    by (cases "health_record a s now (api_entry store p a now)")
  have key: "is_entry p (ap_name a) h'"
    using api_entry_key [of p a store now] health_record_key [of a s now "api_entry store p a now"] h'
    by (simp add: is_entry_def)
  have "api_find (update_first (is_entry p (ap_name a)) (\<lambda>_. h') ?st) p (ap_name a) = Some h'"
    using f key unfolding api_find_def by (subst find_update_first) simp_all
  with f h' show "api_find (fst (api_record p a s now store)) p (ap_name a)
      = Some (fst (health_record a s now (api_entry store p a now)))"
    "fst (snd (api_record p a s now store)) = 
    (let h = fst (health_record a s now (api_entry store p a now)) in (ah_state h, ah_since h))"
    by (simp_all add: api_record_def Let_def)
qed

lemma api_record_other:
  assumes "(p, ap_name a) \<noteq> (q, n)"
  shows "api_find (fst (api_record p a s now store)) q n = api_find store q n"
proof -
  let ?st = "if api_find store p (ap_name a) = None then store @ [api_health_new p a now] else store"
  obtain h' ch where h': "health_record a s now (api_entry store p a now) = (h', ch)"
    by (cases "health_record a s now (api_entry store p a now)")
  have key: "is_entry p (ap_name a) h'"
    using api_entry_key [of p a store now] health_record_key [of a s now "api_entry store p a now"] h'
    by (simp add: is_entry_def)
  have "api_find (fst (api_record p a s now store)) q n
      = api_find (update_first (is_entry p (ap_name a)) (\<lambda>_. h') ?st) q n"
    using h' by (simp add: api_record_def Let_def api_find_new)
  also have "\<dots> = api_find ?st q n"
    using assms key unfolding api_find_def by (subst find_update_other) (auto simp: is_entry_def)
  also have "\<dots> = api_find store q n"
    using assms by (auto simp: api_find_def find_append is_entry_def api_health_new_def split: option.split)
  finally show ?thesis .
qed

section \<open>Properties\<close>

text \<open>\<open>percentile\<close> is the nearest rank: an answer of the window such that at least \<open>pct\<close> per cent
  of the answers are no slower and fewer than \<open>pct\<close> per cent are faster.\<close>

theorem percentile_nearest_rank:
  assumes "v \<noteq> []" "0 < pct" "pct \<le> 100" "percentile v pct = Some m"
  shows "m \<in> set v \<and> pct * length v \<le> 100 * length (filter (\<lambda>x. x \<le> m) v)
    \<and> 100 * length (filter (\<lambda>x. x < m) v) < pct * length v"
  using percentile_rank [OF assms] by simp

theorem percentile_nearest_rank_witness:
  "percentile [30, 10, 20] 50 = Some 20 \<and> 50 * 3 \<le> 100 * length (filter (\<lambda>x. x \<le> (20 :: u64)) [30, 10, 20])"
proof -
  have p: "percentile [30, 10, 20] 50 = Some 20" by (simp add: percentile_def)
  show ?thesis using percentile_nearest_rank [OF _ _ _ p] by (simp add: p)
qed

text \<open>Recording a probe leaves every other API's entry alone, gives this one the state its answer
  and its last twenty latencies call for, and restarts the "since" clock exactly when the state changes.\<close>

theorem api_record_classifies:
  assumes "api_find store p (ap_name a) = Some h" "length (ah_window h) \<le> 20"
  shows "(case api_find (fst (api_record p a s now store)) p (ap_name a) of
      None \<Rightarrow> False
    | Some h' \<Rightarrow>
        length (ah_window h') \<le> 20 \<and> ah_state h' = classify s (ah_window h') (ap_p50_ms a) (ap_p99_ms a)
        \<and> ah_since h' = (if ah_state h' = ah_state h then ah_since h else now))
    \<and> ((p, ap_name a) \<noteq> (q, n) \<longrightarrow>
        api_find (fst (api_record p a s now store)) q n = api_find store q n)"
proof (intro conjI impI)
  have e: "api_entry store p a now = h" using assms(1) by (simp add: api_entry_def)
  show "case api_find (fst (api_record p a s now store)) p (ap_name a) of
      None \<Rightarrow> False
    | Some h' \<Rightarrow>
        length (ah_window h') \<le> 20 \<and> ah_state h' = classify s (ah_window h') (ap_p50_ms a) (ap_p99_ms a)
        \<and> ah_since h' = (if ah_state h' = ah_state h then ah_since h else now)"
    using health_record_window [of h a s now] health_record_state [of a s now h]
      health_record_since [of a s now h] assms(2)
    by (simp add: api_record_same e window_size_def)
qed (rule api_record_other)

text \<open>An API used by the witnesses.\<close>

definition volumes_api :: api_probe where
  "volumes_api = \<lparr>ap_name = ''volumes'', ap_url = ''http://127.0.0.1:9090/api/v1/volumes'',
     ap_interval_secs = 15, ap_timeout_secs = 5, ap_p50_ms = None, ap_p99_ms = Some 500,
     ap_initial_delay_secs = 10, ap_token_file = None, ap_client_cert_file = None,
     ap_client_key_file = None, ap_restart_after_stalled_secs = Some 60\<rparr>"

definition stalled_entry :: api_health where
  "stalled_entry = (api_health_new ''engine'' volumes_api 0)\<lparr>ah_state := Stalled\<rparr>"

theorem api_record_classifies_witness:
  "case api_find (fst (api_record ''engine'' volumes_api (Answered 900 200) 5000 [stalled_entry]))
      ''engine'' ''volumes'' of
     None \<Rightarrow> False | Some h' \<Rightarrow> ah_state h' = Slow"
  using api_record_classifies [of "[stalled_entry]" "''engine''" volumes_api stalled_entry
      "Answered 900 200" 5000 "''engine''" "''volumes''"]
  by (auto simp: stalled_entry_def api_health_new_def api_find_def is_entry_def volumes_api_def
      classify_def over_def split: option.splits)



end
