(* ===== verification/NodeVars.thy ===== *)
theory NodeVars
  imports RustStr
begin

text \<open>
  \<open>crates/stormd/src/nodevars.rs\<close>: \<open>${NAME}\<close> in an argument or an environment value is filled in when
  a process is spawned. The routing table's answers and the hostname file are arguments of \<open>vars\<close>.
\<close>

section \<open>Where the values come from\<close>

text \<open>
  The address a connected UDP socket would use, for each probe address: \<open>None\<close> where the bind, the
  connect or the question fails. \<open>unspecified\<close> and \<open>loopback\<close> are \<open>IpAddr\<close>'s tests.
\<close>

definition node_ip :: "(string \<Rightarrow> string option) \<Rightarrow> (string \<Rightarrow> bool) \<Rightarrow> (string \<Rightarrow> bool) \<Rightarrow> string option" where
  "node_ip route unspecified loopback =
     (let good = List.map_filter (\<lambda>probe. case route probe of
                    None \<Rightarrow> None
                  | Some ip \<Rightarrow> if \<not> unspecified ip \<and> \<not> loopback ip then Some ip else None)
                [''1.1.1.1:53'', ''192.168.1.1:53'', ''10.0.0.1:53'']
      in case good of [] \<Rightarrow> None | ip # _ \<Rightarrow> Some ip)"

definition node_vars :: "string option \<Rightarrow> string option \<Rightarrow> string \<Rightarrow> string option" where
  "node_vars ip hostname =
     (let v = (case ip of Some i \<Rightarrow> [''NODE_IP'' \<mapsto> i] | None \<Rightarrow> Map.empty)
      in case hostname of
           Some h \<Rightarrow> if trim h \<noteq> [] then v(''NODE_NAME'' \<mapsto> trim h) else v
         | None \<Rightarrow> v)"

definition names :: "string list" where
  "names = [''NODE_IP'', ''NODE_NAME'']"

section \<open>Expansion\<close>

definition reference :: "string \<Rightarrow> string" where
  "reference n = ''${'' @ n @ ''}''"

definition unexpanded :: "string \<Rightarrow> string list" where
  "unexpanded s = filter (\<lambda>n. contains s (reference n)) names"

definition why_missing :: "string \<Rightarrow> string" where
  "why_missing n =
     (if n = ''NODE_IP'' then ''this node has no address on any interface (no route off the node)''
      else if n = ''NODE_NAME'' then ''/proc/sys/kernel/hostname is empty or unreadable''
      else ''stormd has no value for it'')"

function expand :: "(string \<Rightarrow> string option) \<Rightarrow> string \<Rightarrow> string" where
  "expand vars s =
     (case split_once ''${'' s of
        None \<Rightarrow> s
      | Some (before, tail) \<Rightarrow>
          (case split_once ''}'' tail of
             None \<Rightarrow> before @ ''${'' @ tail
           | Some (n, rest) \<Rightarrow>
               before @ (case vars n of Some v \<Rightarrow> v | None \<Rightarrow> ''${'' @ n @ ''}'') @ expand vars rest))"
  by pat_completeness auto
termination
  by (relation "measure (\<lambda>(vars, s). length s)") (auto dest!: split_once_length)

declare expand.simps [simp del]

text \<open>A text whose references do not contain one another.\<close>

function flat :: "string \<Rightarrow> bool" where
  "flat s =
     (case split_once ''${'' s of
        None \<Rightarrow> True
      | Some (before, tail) \<Rightarrow>
          (case split_once ''}'' tail of
             None \<Rightarrow> True
           | Some (n, rest) \<Rightarrow> \<not> contains n ''${'' \<and> flat rest))"
  by pat_completeness auto
termination
  by (relation "measure length") (auto dest!: split_once_length)

declare flat.simps [simp del]

section \<open>Correctness\<close>

lemma expand_none: "expand Map.empty s = s"
proof (induction "Map.empty :: string \<Rightarrow> string option" s rule: expand.induct)
  case (1 s)
  show ?case
    by (subst expand.simps) (auto simp: 1 dest!: split_once_append split: option.split)
qed

lemma split_once_first: "split_once p s = Some (a, b) \<Longrightarrow> p \<noteq> [] \<Longrightarrow> \<not> contains a p"
proof (induction p s arbitrary: a b rule: split_once.induct)
  case (2 p c cs)
  show ?case
  proof (cases "strip_prefix p (c # cs)")
    case None
    with "2.prems" obtain a' where a: "a = c # a'" "split_once p cs = Some (a', b)"
      by (auto split: option.splits)
    with 2 None have "\<not> contains a' p" by simp
    moreover have "\<not> (\<exists>r. c # a' = p @ r)"
    proof
      assume "\<exists>r. c # a' = p @ r"
      then obtain r where "c # cs = p @ r @ p @ b" using split_once_append [OF a(2)] by auto
      with None show False by (simp add: strip_prefix_None)
    qed
    ultimately show ?thesis
      unfolding a contains_iff by (metis Cons_eq_append_conv append_Nil)
  qed (use "2.prems" in \<open>auto simp: contains_iff\<close>)
qed (auto simp: contains_iff)

definition plain_value :: "string \<Rightarrow> bool" where
  "plain_value v \<longleftrightarrow> v \<noteq> [] \<and> CHR ''$'' \<notin> set v \<and> CHR ''{'' \<notin> set v"

definition plain_name :: "string \<Rightarrow> bool" where
  "plain_name n \<longleftrightarrow> CHR ''}'' \<notin> set n"

text \<open>Where a \<open>${\<close> can start in \<open>a @ x @ e\<close> when \<open>a\<close> holds none.\<close>

lemma open_position:
  assumes "a @ x @ e = l @ ''${'' @ t" "\<not> contains a ''${''" "x \<noteq> []" "hd x \<noteq> CHR ''{''"
  obtains u v where "x = u @ v" "v \<noteq> []" "l = a @ u" "v @ e = ''${'' @ t"
    | u where "l = a @ x @ u" "e = u @ ''${'' @ t"
proof -
  from assms(1) consider us where "a = l @ us" "us @ x @ e = ''${'' @ t" | us where "a @ us = l" "x @ e = us @ ''${'' @ t"
    unfolding append_eq_append_conv2 by metis
  then show thesis
  proof cases
    case 1
    show thesis
    proof (cases us)
      case Nil
      with 1 assms(3) show thesis by (intro that(1) [of "[]" x]) auto
    next
      case (Cons c us')
      show thesis
      proof (cases us')
        case Nil
        with Cons 1 assms(3,4) show thesis by (cases x) auto
      next
        case (Cons c' us'')
        with \<open>us = c # us'\<close> 1 have "a = l @ ''${'' @ us''" by simp
        with assms(2) show thesis unfolding contains_iff by blast
      qed
    qed
  next
    case 2
    from 2(2) consider vs where "x = us @ vs" "vs @ e = ''${'' @ t" | vs where "x @ vs = us" "e = vs @ ''${'' @ t"
      unfolding append_eq_append_conv2 by metis
    then show thesis
    proof cases
      case 1
      show thesis
      proof (cases "vs = []")
        case True
        with 1 2 show thesis by (intro that(2) [of "[]"]) auto
      next
        case False
        with 1 2 show thesis by (intro that(1) [of us vs]) auto
      qed
    next
      case 2
      with \<open>a @ us = l\<close> show thesis by (intro that(2) [of vs]) auto
    qed
  qed
qed

lemma unclosed_no_reference:
  assumes "CHR ''}'' \<notin> set tail" "\<not> contains a ''${''"
  shows "\<not> contains (a @ ''${'' @ tail) (reference n)"
proof
  assume "contains (a @ ''${'' @ tail) (reference n)"
  then obtain l r where "a @ ''${'' @ tail = l @ ''${'' @ (n @ ''}'' @ r)"
    by (auto simp: contains_iff reference_def)
  then show False
  proof (rule open_position [OF _ assms(2)])
    fix u v
    assume "''${'' = u @ v" "v @ tail = ''${'' @ n @ ''}'' @ r"
    then have "CHR ''}'' \<in> set v \<union> set tail" "set v \<subseteq> set ''${''"
      by (metis Un_iff in_set_conv_decomp set_append append_Cons append_Nil, metis set_append Un_upper2)
    with assms(1) show False by auto
  next
    fix u
    assume "tail = u @ ''${'' @ n @ ''}'' @ r"
    with assms(1) show False by simp
  qed simp_all
qed

lemma reference_suffix:
  assumes "reference m = u @ v" "v \<noteq> []" "v @ e = ''${'' @ t" "\<not> contains m ''${''"
  shows "u = []"
proof (cases u)
  case (Cons c u')
  with assms(1) have uv: "''{'' @ m @ ''}'' = u' @ v" by (simp add: reference_def)
  have lastv: "last v = CHR ''}''" using assms(2) arg_cong [OF uv, of last] by simp
  obtain v' where v: "v = CHR ''$'' # v'" using assms(2,3) by (cases v) auto
  then obtain v'' where v'': "v = ''${'' @ v''" using assms(3) lastv by (cases v') auto
  then obtain v3 where v3: "v'' = v3 @ ''}''"
    using lastv by (cases v'' rule: rev_cases) auto
  obtain u'' where "u' = CHR ''{'' # u''" using uv v by (cases u') auto
  with uv v'' v3 have "m = u'' @ ''${'' @ v3" by simp
  with assms(4) show ?thesis unfolding contains_iff by blast
qed simp

lemma closed_no_reference:
  assumes "\<not> contains a ''${''" "\<not> contains m ''${''" "CHR ''}'' \<notin> set m" "plain_name n"
    and x: "plain_value x \<or> x = reference m \<and> m \<noteq> n" and "\<not> contains e (reference n)"
  shows "\<not> contains (a @ x @ e) (reference n)"
proof
  assume "contains (a @ x @ e) (reference n)"
  then obtain l r where eq: "a @ x @ e = l @ ''${'' @ (n @ ''}'' @ r)"
    by (auto simp: contains_iff reference_def)
  have "x \<noteq> []" "hd x \<noteq> CHR ''{''"
    using x by (cases x; auto simp: plain_value_def reference_def)+
  note pos = open_position [OF eq assms(1) this]
  show False
  proof (rule pos)
    fix u v
    assume v: "x = u @ v" "v \<noteq> []" "v @ e = ''${'' @ n @ ''}'' @ r"
    show False
    proof (cases "plain_value x")
      case True
      with v show False by (cases v) (auto simp: plain_value_def)
    next
      case False
      with x v(1) have m: "reference m = u @ v" "m \<noteq> n" by auto
      have "u = []" by (rule reference_suffix [OF m(1) v(2,3) assms(2)])
      with m(1) have "v = reference m" by simp
      with v(3) have "m @ CHR ''}'' # e = n @ CHR ''}'' # r" by (simp add: reference_def)
      from arg_cong [OF this, of "split_once ''}''"] have "Some (m, e) = Some (n, r)"
        unfolding split_once_char [OF assms(3)]
          split_once_char [OF assms(4) [unfolded plain_name_def]] .
      with m show False by simp
    qed
  next
    fix u
    assume "e = u @ ''${'' @ n @ ''}'' @ r"
    then have "e = u @ reference n @ r" by (simp add: reference_def)
    with assms(6) show False unfolding contains_iff by blast
  qed
qed

lemma expand_no_reference:
  assumes "\<And>m v. vars m = Some v \<Longrightarrow> plain_value v" "vars n = Some v" "plain_name n"
  shows "flat s \<Longrightarrow> \<not> contains (expand vars s) (reference n)"
  using assms
proof (induction vars s rule: expand.induct)
  case (1 vars s)
  show ?case
  proof (cases "split_once ''${'' s")
    case None
    then have "\<not> contains s (reference n)"
      unfolding split_once_None contains_iff reference_def by (metis append.assoc)
    then show ?thesis using None by (subst expand.simps) simp
  next
    case (Some at)
    then obtain a tail where at: "split_once ''${'' s = Some (a, tail)" by (cases at) auto
    have a: "\<not> contains a ''${''" by (rule split_once_first [OF at]) simp
    show ?thesis
    proof (cases "split_once ''}'' tail")
      case None
      then have tail: "CHR ''}'' \<notin> set tail" by (simp add: split_once_char_None)
      have "expand vars s = a @ ''${'' @ tail" using at None by (subst expand.simps) simp
      with unclosed_no_reference [OF tail a] show ?thesis by simp
    next
      case (Some mr)
      then obtain m rest where mr: "split_once ''}'' tail = Some (m, rest)" by (cases mr) auto
      let ?x = "case vars m of Some v \<Rightarrow> v | None \<Rightarrow> reference m"
      have ex: "expand vars s = a @ ?x @ expand vars rest"
        using at mr by (subst expand.simps) (simp add: reference_def split: option.split)
      have m: "CHR ''}'' \<notin> set m" using mr by (auto simp: split_once_char_Some)
      have fl: "\<not> contains m ''${''" "flat rest"
        using "1.prems"(1) at mr by (subst (asm) flat.simps; simp)+
      have IH: "\<not> contains (expand vars rest) (reference n)"
        by (rule "1.IH" [OF at refl mr refl fl(2) "1.prems"(2-)])
      show ?thesis unfolding ex
        by (rule closed_no_reference [OF a fl(1) m "1.prems"(4) _ IH])
          (use "1.prems"(2,3) in \<open>auto split: option.split\<close>)
    qed
  qed
qed

lemma split_once_open: "\<not> contains a ''${'' \<Longrightarrow> split_once ''${'' (a @ ''${'' @ t) = Some (a, t)"
proof (induction a)
  case (Cons c a)
  from Cons.prems have no: "\<not> contains a ''${''" "\<not> (\<exists>r. c # a = ''${'' @ r)"
    unfolding contains_iff by (metis append_Cons, metis append_Nil)
  have "strip_prefix ''${'' (c # a @ ''${'' @ t) = None"
    using no(2) by (cases a) (auto split: if_splits)
  with Cons.IH [OF no(1)] show ?case by simp
qed simp

lemma expand_reference:
  assumes "\<not> contains a ''${''" "plain_name n"
  shows "expand vars (a @ reference n @ b)
    = a @ (case vars n of Some v \<Rightarrow> v | None \<Rightarrow> reference n) @ expand vars b"
proof -
  have "split_once ''${'' (a @ reference n @ b) = Some (a, n @ CHR ''}'' # b)"
    using split_once_open [OF assms(1), of "n @ CHR ''}'' # b"] by (simp add: reference_def)
  moreover have "split_once ''}'' (n @ CHR ''}'' # b) = Some (n, b)"
    using assms(2) by (simp add: plain_name_def)
  ultimately show ?thesis
    by (subst expand.simps) (simp add: reference_def split: option.split)
qed

lemma names_plain: "n \<in> set names \<Longrightarrow> plain_name n"
  by (auto simp: names_def plain_name_def)

lemma unexpanded_flat:
  assumes "\<forall>m v. vars m = Some v \<longrightarrow> plain_value v" "flat s"
  shows "list_all (\<lambda>n. vars n = None) (unexpanded (expand vars s))"
  unfolding list_all_iff unexpanded_def
proof
  fix n
  assume n: "n \<in> set (filter (\<lambda>n. contains (expand vars s) (reference n)) names)"
  show "vars n = None"
  proof (cases "vars n")
    case (Some v)
    have "\<not> contains (expand vars s) (reference n)"
      using assms n names_plain Some by (intro expand_no_reference [where v = v]) auto
    with n show ?thesis by simp
  qed
qed

lemma expand_brace: "expand vars ''}'' = ''}''"
  by (subst expand.simps) simp

text \<open>A reference inside another one's default is not expanded and yet found again.\<close>

lemma nested_reference_reported_missing:
  "expand (node_vars (Some ip) (Some h)) ''${X:-${NODE_IP}}'' = ''${X:-${NODE_IP}}''
   \<and> unexpanded (expand (node_vars (Some ip) (Some h)) ''${X:-${NODE_IP}}'') = [''NODE_IP'']
   \<and> node_vars (Some ip) (Some h) ''NODE_IP'' = Some ip"
proof -
  have "expand (node_vars (Some ip) (Some h)) ''${X:-${NODE_IP}}'' = ''${X:-${NODE_IP}}''"
    by (subst expand.simps) (simp add: node_vars_def Let_def expand_brace)
  then show ?thesis
    by (simp add: unexpanded_def names_def contains_def reference_def)
      (simp add: node_vars_def Let_def)
qed

section \<open>Properties\<close>

text \<open>\<open>expand\<close> replaces the first reference by the node's value, leaves it as written when there
  is none, and goes on behind it; a text is left alone when no value is known at all.\<close>

theorem expand_replaces_references:
  "expand Map.empty s = s
   \<and> (\<not> contains a ''${'' \<and> CHR ''}'' \<notin> set n \<longrightarrow>
       expand vars (a @ reference n @ b)
         = a @ (case vars n of Some v \<Rightarrow> v | None \<Rightarrow> reference n) @ expand vars b)"
  using expand_none expand_reference [of a n vars b] by (auto simp: plain_name_def)

theorem expand_replaces_references_witness:
  "expand [''NODE_IP'' \<mapsto> ''10.0.0.7''] (''--advertise='' @ reference ''NODE_IP'' @ '':6443'')
     = ''--advertise=10.0.0.7:6443''"
  using expand_replaces_references [of "[]" "''--advertise=''" "''NODE_IP''" "[''NODE_IP'' \<mapsto> ''10.0.0.7'']" "'':6443''"]
  by (subst (asm) (3) expand.simps) (simp add: contains_def)

text \<open>After expansion, the only names reported as missing are those the node has no value for,
  provided no reference contains another (and values hold no dollar sign or brace).\<close>

theorem only_unknown_names_missing:
  "(\<forall>m v. vars m = Some v \<longrightarrow> plain_value v) \<Longrightarrow> flat s \<Longrightarrow>
   list_all (\<lambda>n. vars n = None) (unexpanded (expand vars s))"
  by (rule unexpanded_flat)

theorem only_unknown_names_missing_witness:
  "list_all (\<lambda>n. [''NODE_IP'' \<mapsto> ''10.0.0.7''] n = None)
     (unexpanded (expand [''NODE_IP'' \<mapsto> ''10.0.0.7''] ''${NODE_IP} ${NODE_NAME} ${HOME}''))"
  by (rule only_unknown_names_missing)
     (auto simp: plain_value_def flat.simps contains_def split: if_splits)

end
