(* ===== verification/SupBase.thy ===== *)
theory SupBase
  imports ApiHealth NodeVars
begin

text \<open>
  \<open>crates/stormd/src/supervisor.rs\<close>, the data and the pure functions: a managed process and its
  status, how an exit reads, the restart delays, what satisfies a dependency, the environment and the
  arguments a process gets, and when a process is healthy. Counters that count restarts, crashes,
  probe failures and runs are \<open>nat\<close>: at one a second none reaches its bound in a process's life.
\<close>

datatype process_state =
    Pending | Starting | Running | Stopping | Stopped | Failed | Restarting | CrashLoopBackOff

text \<open>The two channel ends of a process are named by the run whose tasks hold the other end.\<close>

record managed =
  mp_config :: process_config
  mp_state :: process_state
  mp_pid :: "u32 option"
  mp_exit_code :: "i32 option"
  mp_started_at :: "millis option"
  mp_stopped_at :: "millis option"
  mp_restarts :: nat
  mp_crashes :: nat
  mp_restart_timestamps :: "millis list"
  mp_kill_tx :: "nat option"
  mp_stdin_tx :: "nat option"
  mp_liveness_failures :: nat
  mp_liveness_failures_total :: nat
  mp_run :: nat
  mp_ready :: bool
  mp_ready_at :: "millis option"
  mp_liveness_passed_at :: "millis option"
  mp_liveness_passed_run :: "nat option"
  mp_startup_passed_run :: "nat option"
  mp_backoff_step :: u32

definition starts_unready :: "process_config \<Rightarrow> bool" where
  "starts_unready c \<longleftrightarrow>
     pc_ready_probe c \<noteq> None \<or> pc_readiness_probe c \<noteq> None \<or> pc_startup_probe c \<noteq> None"

definition managed_new :: "process_config \<Rightarrow> managed" where
  "managed_new c = \<lparr>mp_config = c, mp_state = Pending, mp_pid = None, mp_exit_code = None,
     mp_started_at = None, mp_stopped_at = None, mp_restarts = 0, mp_crashes = 0,
     mp_restart_timestamps = [], mp_kill_tx = None, mp_stdin_tx = None, mp_liveness_failures = 0,
     mp_liveness_failures_total = 0, mp_run = 0, mp_ready = (\<not> starts_unready c), mp_ready_at = None,
     mp_liveness_passed_at = None, mp_liveness_passed_run = None, mp_startup_passed_run = None,
     mp_backoff_step = 0\<rparr>"

section \<open>Status\<close>

record process_status =
  st_name :: string
  st_state :: process_state
  st_pid :: "u32 option"
  st_exit_code :: "i32 option"
  st_started_at :: "millis option"
  st_stopped_at :: "millis option"
  st_restarts :: nat
  st_crashes :: nat
  st_restart_timestamps :: "millis list"
  st_uptime_secs :: "int option"
  st_liveness_failures :: nat
  st_liveness_failures_total :: nat
  st_has_liveness :: bool
  st_liveness_config :: "probe option"
  st_startup_probe :: "probe option"
  st_readiness_probe :: "probe option"
  st_run :: nat
  st_ready :: bool
  st_ready_at :: "millis option"
  st_liveness_passed_at :: "millis option"
  st_liveness_passed_run :: "nat option"
  st_healthy :: bool

definition uptime_secs :: "millis \<Rightarrow> managed \<Rightarrow> int option" where
  "uptime_secs now p =
     (case mp_started_at p of
        None \<Rightarrow> None
      | Some s \<Rightarrow> Some (if mp_state p = Running then num_seconds (now - s)
                     else case mp_stopped_at p of Some e \<Rightarrow> num_seconds (e - s) | None \<Rightarrow> 0))"

definition status :: "millis \<Rightarrow> managed \<Rightarrow> process_status" where
  "status now p = \<lparr>st_name = pc_name (mp_config p), st_state = mp_state p, st_pid = mp_pid p,
     st_exit_code = mp_exit_code p, st_started_at = mp_started_at p, st_stopped_at = mp_stopped_at p,
     st_restarts = mp_restarts p, st_crashes = mp_crashes p,
     st_restart_timestamps = mp_restart_timestamps p, st_uptime_secs = uptime_secs now p,
     st_liveness_failures = mp_liveness_failures p,
     st_liveness_failures_total = mp_liveness_failures_total p,
     st_has_liveness = (pc_liveness_probe (mp_config p) \<noteq> None),
     st_liveness_config = pc_liveness_probe (mp_config p),
     st_startup_probe = pc_startup_probe (mp_config p),
     st_readiness_probe = pc_readiness_probe (mp_config p), st_run = mp_run p, st_ready = mp_ready p,
     st_ready_at = mp_ready_at p, st_liveness_passed_at = mp_liveness_passed_at p,
     st_liveness_passed_run = mp_liveness_passed_run p, st_healthy = False\<rparr>"

text \<open>
  \<open>window_secs as i64\<close> reads a window of \<open>2 ^ 63\<close> seconds and more as negative; what \<open>chrono\<close> does with
  a span too long for it (it panics) is left out.
\<close>

definition restart_count_in_window :: "millis \<Rightarrow> u64 \<Rightarrow> managed \<Rightarrow> nat" where
  "restart_count_in_window now window p =
     length (filter (\<lambda>t. now - 1000 * sint window < t) (mp_restart_timestamps p))"

text \<open>How an exit reads; \<open>sig_name\<close> is \<open>nix\<close>'s name of a signal number, where it has one.\<close>

definition describe_exit :: "(i32 \<Rightarrow> string option) \<Rightarrow> i32 option \<Rightarrow> i32 option \<Rightarrow> string option \<Rightarrow> string" where
  "describe_exit sig_name code signal lost =
     (case code of
        Some c \<Rightarrow> ''exit code '' @ show_int c
      | None \<Rightarrow>
          (case signal of
             Some s \<Rightarrow> (case sig_name s of Some n \<Rightarrow> ''killed by '' @ n
                        | None \<Rightarrow> ''killed by signal '' @ show_int s)
           | None \<Rightarrow> (case lost of Some e \<Rightarrow> ''exit status lost: '' @ e | None \<Rightarrow> ''no exit status'')))"

section \<open>Delays\<close>

definition cooloff :: "u64 \<Rightarrow> nat \<Rightarrow> u64" where
  "cooloff base restarts_in_window =
     (let b = max base 1;
          shift = min (sat_sub restarts_in_window 1) 16
      in min (sat_mul_u64 b (push_bit shift 1)) 30)"

definition backoff_reset_secs :: int where "backoff_reset_secs = 600"

definition backoff :: "u32 \<Rightarrow> u64" where
  "backoff step = min (push_bit (min (unat step) 6) 10) 300"

definition settle_secs :: int where "settle_secs = 3"
definition stop_slack_secs :: u64 where "stop_slack_secs = 2"

section \<open>Exits and dependencies\<close>

definition is_no_restart :: "i32 option \<Rightarrow> i32 list \<Rightarrow> bool" where
  "is_no_restart exit_code codes =
     (case exit_code of Some c \<Rightarrow> c \<noteq> 0 \<and> c \<in> set codes | None \<Rightarrow> False)"

definition dependency_satisfied ::
    "process_state \<Rightarrow> bool \<Rightarrow> bool \<Rightarrow> exit_action \<Rightarrow> i32 option \<Rightarrow> bool" where
  "dependency_satisfied st ready has_ready_probe on_exit exit_code =
     (if on_exit = ExitStop
      then (st = Stopped \<and> exit_code = Some 0) \<or> (has_ready_probe \<and> st = Running \<and> ready)
      else st = Running \<and> ready)"

definition satisfies :: "managed \<Rightarrow> bool" where
  "satisfies p = dependency_satisfied (mp_state p) (mp_ready p) (starts_unready (mp_config p))
     (pc_on_exit (mp_config p)) (mp_exit_code p)"

datatype signal = SIGUSR1 | SIGKILL | SIGTERM

definition parse_signal :: "string \<Rightarrow> signal option" where
  "parse_signal s =
     (if s \<in> {''SIGUSR1'', ''USR1''} then Some SIGUSR1
      else if s \<in> {''SIGKILL'', ''KILL''} then Some SIGKILL
      else if s \<in> {''SIGTERM'', ''TERM''} then Some SIGTERM else None)"

section \<open>Arguments and environment\<close>

definition process_env ::
    "env_map \<Rightarrow> env_map \<Rightarrow> (string \<Rightarrow> bool) \<Rightarrow> (string \<Rightarrow> string option) \<Rightarrow> env_map" where
  "process_env env env_default inherited vars =
     map (\<lambda>(k, v). (k, expand vars v))
       (filter (\<lambda>(k, _). map_of env k = None \<and> \<not> inherited k) env_default)
     @ map (\<lambda>(k, v). (k, expand vars v)) env"

definition args_vars ::
    "env_map \<Rightarrow> env_map \<Rightarrow> (string \<Rightarrow> string option) \<Rightarrow> (string \<Rightarrow> string option)
     \<Rightarrow> string \<Rightarrow> string option" where
  "args_vars env env_default inherited vars =
     (map_of (List.map_filter (\<lambda>(k, _). map_option (\<lambda>v. (k, v)) (inherited k)) env_default)
      ++ map_of (process_env env env_default (\<lambda>k. inherited k \<noteq> None) vars)) ++ vars"

fun add_missing :: "string list \<Rightarrow> string list \<Rightarrow> string list" where
  "add_missing seen [] = seen"
| "add_missing seen (n # ns) = add_missing (if n \<in> set seen then seen else seen @ [n]) ns"

definition missing_names ::
    "process_config \<Rightarrow> (string \<Rightarrow> bool) \<Rightarrow> (string \<Rightarrow> string option) \<Rightarrow> string list" where
  "missing_names cfg inherited vars =
     (let texts = map (expand vars) (pc_args cfg)
                  @ map snd (process_env (pc_env cfg) (pc_env_default cfg) inherited vars)
      in add_missing [] (concat (map unexpanded texts)))"

definition node_vars_missing ::
    "process_config \<Rightarrow> (string \<Rightarrow> bool) \<Rightarrow> (string \<Rightarrow> string option) \<Rightarrow> string option" where
  "node_vars_missing cfg inherited vars =
     (case missing_names cfg inherited vars of
        [] \<Rightarrow> None
      | first # rest \<Rightarrow>
          Some (''process '' @ [CHR 0x27] @ pc_name cfg @ [CHR 0x27] @ '' needs ''
                @ join '', '' (map reference (first # rest)) @ '', and '' @ why_missing first))"

definition missing_files :: "(string \<Rightarrow> bool) \<Rightarrow> string list \<Rightarrow> string list" where
  "missing_files exists files = filter (\<lambda>f. \<not> exists f) files"

section \<open>Health\<close>

datatype waiting_on =
    NotRunning process_state
  | ReadyProbeNotPassed
  | StartupProbeNotPassed
  | ReadinessProbeNotPassed
  | LivenessProbeNotPassed nat
  | ApiIs string api_state "string option"
  | ApiNotProbed string
  | SettlingFor int

definition api_waiting :: "api_health list \<Rightarrow> string \<Rightarrow> millis \<Rightarrow> api_probe \<Rightarrow> waiting_on list" where
  "api_waiting seen process started a =
     (case List.find (\<lambda>h. ah_process h = process \<and> ah_api h = ap_name a) seen of
        None \<Rightarrow> [ApiNotProbed (ap_name a)]
      | Some h \<Rightarrow>
          if ah_state h = Healthy \<and> (case ah_last_check h of Some t \<Rightarrow> started \<le> t | None \<Rightarrow> False)
          then [] else [ApiIs (ap_name a) (ah_state h) (ah_last_error h)])"

definition has_checks :: "process_config \<Rightarrow> bool" where
  "has_checks c \<longleftrightarrow> pc_ready_probe c \<noteq> None \<or> pc_startup_probe c \<noteq> None
     \<or> pc_liveness_probe c \<noteq> None \<or> pc_readiness_probe c \<noteq> None \<or> pc_api c \<noteq> []"

definition health_of :: "api_store \<Rightarrow> millis \<Rightarrow> managed \<Rightarrow> waiting_on list" where
  "health_of store now p =
     (if mp_state p \<noteq> Running then [NotRunning (mp_state p)]
      else
        (let c = mp_config p;
             started = (case mp_started_at p of Some t \<Rightarrow> t | None \<Rightarrow> now)
         in (if pc_ready_probe c \<noteq> None \<and> \<not> mp_ready p then [ReadyProbeNotPassed] else [])
            @ (if pc_startup_probe c \<noteq> None \<and> mp_startup_passed_run p \<noteq> Some (mp_run p)
               then [StartupProbeNotPassed] else [])
            @ (if pc_readiness_probe c \<noteq> None \<and> \<not> mp_ready p then [ReadinessProbeNotPassed] else [])
            @ (if pc_liveness_probe c \<noteq> None \<and> mp_liveness_passed_run p \<noteq> Some (mp_run p)
               then [LivenessProbeNotPassed (mp_liveness_failures p)] else [])
            @ concat (map (api_waiting (api_list store) (pc_name c) started) (pc_api c))
            @ (if \<not> has_checks c \<and> num_seconds (now - started) < settle_secs
               then [SettlingFor settle_secs] else [])))"

definition status_with_health :: "api_store \<Rightarrow> millis \<Rightarrow> managed \<Rightarrow> process_status" where
  "status_with_health store now p = (status now p)\<lparr>st_healthy := (health_of store now p = [])\<rparr>"

datatype wait_outcome =
    WaitHealthy nat
  | WaitTimeout nat "waiting_on list"
  | WaitExited nat "i32 option" process_state

text \<open>One look of \<open>restart_and_wait\<close> at the process, for the run it started: done, or look again.\<close>

definition wait_look :: "api_store \<Rightarrow> millis \<Rightarrow> nat \<Rightarrow> bool \<Rightarrow> managed \<Rightarrow> wait_outcome option" where
  "wait_look store now run timed_out p =
     (if mp_run p \<noteq> run \<or> mp_state p \<in> {Stopped, Failed, Restarting, CrashLoopBackOff}
      then Some (WaitExited run (mp_exit_code p) (mp_state p))
      else if health_of store now p = [] then Some (WaitHealthy run)
      else if timed_out then Some (WaitTimeout run (health_of store now p))
      else None)"

section \<open>Correctness\<close>

lemma unat_cooloff: "unat (cooloff b n) = min (max (unat b) 1 * 2 ^ min (n - 1) 16) 30"
proof -
  let ?k = "min (sat_sub n 1) 16"
  have "(2::nat) ^ ?k \<le> 2 ^ 16" by (intro power_increasing) auto
  then have "unat (push_bit ?k 1 :: u64) = 2 ^ ?k"
    by (subst unat_push_bit_small) (auto intro: le_less_trans)
  then show ?thesis
    by (simp add: cooloff_def Let_def unat_min_word unat_max_word unat_sat_mul_u64 sat_sub_def min.assoc)
qed

lemma unat_backoff: "unat (backoff s) = min (10 * 2 ^ min (unat s) 6) 300"
proof -
  have "(2::nat) ^ min (unat s) 6 \<le> 2 ^ 6" by (intro power_increasing) auto
  then have "unat (push_bit (min (unat s) 6) 10 :: u64) = 10 * 2 ^ min (unat s) 6"
    by (subst unat_push_bit_small) simp_all
  then show ?thesis by (simp add: backoff_def unat_min_word)
qed

definition step_of :: "nat \<Rightarrow> u32" where
  "step_of n = of_nat (min n (2 ^ 32 - 1))"

lemma unat_step_of: "unat (step_of n) = min n (2 ^ 32 - 1)"
  unfolding step_of_def by (rule unat_of_nat_small) auto

interpretation cooloff_delay: delay_policy "\<lambda>n. unat (cooloff b n)" 1 30 for b
proof
  fix n
  show "1 \<le> unat (cooloff b n)" by (simp add: unat_cooloff)
  show "unat (cooloff b n) \<le> 30" by (simp add: unat_cooloff)
  have "(2::nat) ^ min (n - 1) 16 \<le> 2 ^ min (Suc n - 1) 16" by (intro power_increasing) auto
  then show "unat (cooloff b n) \<le> unat (cooloff b (Suc n))"
    unfolding unat_cooloff by (intro min.mono mult_le_mono) auto
qed

interpretation backoff_delay: delay_policy "\<lambda>n. unat (backoff (step_of n))" 10 300
proof
  fix n
  show "10 \<le> unat (backoff (step_of n))" by (simp add: unat_backoff)
  show "unat (backoff (step_of n)) \<le> 300" by (simp add: unat_backoff)
  have "(2::nat) ^ min (min n (2 ^ 32 - 1)) 6 \<le> 2 ^ min (min (Suc n) (2 ^ 32 - 1)) 6"
    by (intro power_increasing) auto
  then show "unat (backoff (step_of n)) \<le> unat (backoff (step_of (Suc n)))"
    unfolding unat_backoff unat_step_of by (intro min.mono mult_le_mono) auto
qed

lemma map_of_expanded: "map_of (map (\<lambda>(k, v). (k, f v)) xs) k = map_option f (map_of xs k)"
  by (induction xs) auto

lemma process_env_lookup: "map_of (process_env env def inh vars) k =
   (case map_of env k of Some v \<Rightarrow> Some (expand vars v)
    | None \<Rightarrow> if inh k then None else map_option (expand vars) (map_of def k))"
proof -
  have "map_of (filter (\<lambda>(k, _). map_of env k = None \<and> \<not> inh k) def) k =
      (if map_of env k = None \<and> \<not> inh k then map_of def k else None)"
    by (induction def) auto
  then show ?thesis
    by (auto simp: process_env_def map_add_def map_of_expanded split: option.split)
qed

text \<open>What the child finds in its environment: what it was given, else what stormd inherited.\<close>

definition child_env ::
    "env_map \<Rightarrow> env_map \<Rightarrow> (string \<Rightarrow> string option) \<Rightarrow> (string \<Rightarrow> string option)
     \<Rightarrow> string \<Rightarrow> string option" where
  "child_env env def inh vars k = (case map_of (process_env env def (\<lambda>k. inh k \<noteq> None) vars) k of Some v \<Rightarrow> Some v | None \<Rightarrow> inh k)"

lemma args_vars_lookup:
  "args_vars env def inh vars k = (case vars k of Some v \<Rightarrow> Some v | None \<Rightarrow>
     if map_of env k \<noteq> None \<or> map_of def k \<noteq> None then child_env env def inh vars k else None)"
proof -
  have "map_of (List.map_filter (\<lambda>(k, _). map_option (\<lambda>v. (k, v)) (inh k)) def) k =
     (if map_of def k \<noteq> None then inh k else None)"
    by (induction def) (auto split: option.split)
  then show ?thesis
    by (auto simp: args_vars_def child_env_def map_add_def process_env_lookup split: option.split)
qed

lemma add_missing_set: "set (add_missing seen ns) = set seen \<union> set ns"
  by (induction seen ns rule: add_missing.induct) auto

lemma health_of_ok:
  assumes "health_of store now p = []"
  shows "mp_state p = Running"
    and "pc_startup_probe (mp_config p) \<noteq> None \<Longrightarrow> mp_startup_passed_run p = Some (mp_run p)"
    and "pc_liveness_probe (mp_config p) \<noteq> None \<Longrightarrow> mp_liveness_passed_run p = Some (mp_run p)"
    and "pc_readiness_probe (mp_config p) \<noteq> None \<or> pc_ready_probe (mp_config p) \<noteq> None \<Longrightarrow> mp_ready p"
    and "a \<in> set (pc_api (mp_config p)) \<Longrightarrow> api_waiting (api_list store) (pc_name (mp_config p))
       (case mp_started_at p of Some t \<Rightarrow> t | None \<Rightarrow> now) a = []"
  using assms by (auto simp: health_of_def Let_def split: if_splits)

lemma api_waiting_none:
  assumes "api_waiting seen process started a = []"
  shows "\<exists>h \<in> set seen. ah_state h = Healthy \<and> ah_process h = process \<and> ah_api h = ap_name a
    \<and> (\<exists>t. ah_last_check h = Some t \<and> started \<le> t)"
proof -
  obtain h where h: "List.find (\<lambda>h. ah_process h = process \<and> ah_api h = ap_name a) seen = Some h"
    "ah_state h = Healthy" "\<exists>t. ah_last_check h = Some t \<and> started \<le> t"
    using assms by (auto simp: api_waiting_def split: option.splits if_splits)
  then have "h \<in> set seen" "ah_process h = process" "ah_api h = ap_name a"
    by (auto simp: find_Some_iff)
  with h show ?thesis by blast
qed

lemma missing_names_set: "set (missing_names cfg inh vars) =
    (\<Union>t \<in> set (map (expand vars) (pc_args cfg)
       @ map snd (process_env (pc_env cfg) (pc_env_default cfg) inh vars)). set (unexpanded t))"
  unfolding missing_names_def Let_def add_missing_set by simp

lemma node_vars_missing_iff: "node_vars_missing cfg inh vars = None \<longleftrightarrow> set (missing_names cfg inh vars) = {}"
  by (simp add: node_vars_missing_def split: list.split)

section \<open>Properties\<close>

text \<open>No process is restarted in a hot loop and none waits for ever: a cooloff is between 1 and
  30 seconds, a Kubernetes back-off between 10 and 300 and 300 from the sixth on, both never
  decrease from one attempt to the next, so \<open>n\<close> restarts take at least \<open>n\<close> and \<open>10 n\<close> seconds.\<close>

theorem restart_delays_bounded:
  "1 \<le> unat (cooloff b n) \<and> unat (cooloff b n) \<le> 30 \<and> unat (cooloff b n) \<le> unat (cooloff b (n + 1))
   \<and> 10 \<le> unat (backoff (step_of n)) \<and> unat (backoff (step_of n)) \<le> 300
   \<and> unat (backoff (step_of n)) \<le> unat (backoff (step_of (n + 1)))
   \<and> unat (backoff (step_of (6 + n))) = 300
   \<and> n \<le> (\<Sum>k<n. unat (cooloff b k)) \<and> n * 10 \<le> (\<Sum>k<n. unat (backoff (step_of k)))"
proof -
  have "min (min (6 + n) (2 ^ 32 - 1)) 6 = (6 :: nat)" by simp
  then have "unat (backoff (step_of (6 + n))) = min (10 * 2 ^ 6) 300"
    by (simp only: unat_backoff unat_step_of)
  then have last: "unat (backoff (step_of (6 + n))) = 300" by simp
  have total: "n \<le> (\<Sum>k<n. unat (cooloff b k))"
    using cooloff_delay.total_lo [of n b] by (simp only: mult_1_right)
  show ?thesis
    by (intro conjI last total backoff_delay.total_lo cooloff_delay.delay_lo cooloff_delay.delay_hi
        cooloff_delay.delay_step [unfolded Suc_eq_plus1] backoff_delay.delay_lo backoff_delay.delay_hi
        backoff_delay.delay_step [unfolded Suc_eq_plus1])
qed

text \<open>C9: What a name means in a process's arguments is what it means in its environment: for every
  key the process declares (and the node does not define) both give the same value, \<open>env\<close> before the
  inherited value before the default; an undeclared name is left for others to expand.\<close>

theorem arguments_match_environment:
  "vars k = None \<Longrightarrow>
   args_vars env def inh vars k =
     (if map_of env k \<noteq> None \<or> map_of def k \<noteq> None then child_env env def inh vars k else None)
   \<and> child_env env def inh vars k =
     (case map_of env k of Some v \<Rightarrow> Some (expand vars v)
      | None \<Rightarrow> (case inh k of Some v \<Rightarrow> Some v | None \<Rightarrow> map_option (expand vars) (map_of def k)))"
  by (auto simp: args_vars_lookup child_env_def process_env_lookup split: option.split)

theorem arguments_match_environment_witness:
  "args_vars [] [(''CLUSTER_VIP'', ''x'')] [''CLUSTER_VIP'' \<mapsto> ''192.168.8.9''] Map.empty ''CLUSTER_VIP''
     = Some ''192.168.8.9''"
  using arguments_match_environment [of Map.empty "''CLUSTER_VIP''" "[]" "[(''CLUSTER_VIP'', ''x'')]"
      "[''CLUSTER_VIP'' \<mapsto> ''192.168.8.9'']"] by simp

text \<open>A process is reported healthy only when it runs and every check it has has passed since its
  current run began: startup and liveness probes for this run number, readiness, and each declared
  API healthy in a probe made after the start.\<close>

theorem healthy_means_checked:
  assumes "st_healthy (status_with_health store now p)" "mp_started_at p = Some s"
  shows "mp_state p = Running
    \<and> (pc_startup_probe (mp_config p) \<noteq> None \<longrightarrow> mp_startup_passed_run p = Some (mp_run p))
    \<and> (pc_liveness_probe (mp_config p) \<noteq> None \<longrightarrow> mp_liveness_passed_run p = Some (mp_run p))
    \<and> (starts_unready (mp_config p) \<and> pc_startup_probe (mp_config p) = None \<longrightarrow> mp_ready p)
    \<and> (\<forall>a \<in> set (pc_api (mp_config p)). \<exists>h \<in> set store. ah_state h = Healthy
         \<and> ah_process h = pc_name (mp_config p) \<and> ah_api h = ap_name a
         \<and> (\<exists>t. ah_last_check h = Some t \<and> s \<le> t))"
proof -
  have ok: "health_of store now p = []" using assms(1) by (simp add: status_with_health_def)
  note h = health_of_ok [OF ok]
  have "\<exists>h \<in> set store. ah_state h = Healthy \<and> ah_process h = pc_name (mp_config p)
      \<and> ah_api h = ap_name a \<and> (\<exists>t. ah_last_check h = Some t \<and> s \<le> t)"
    if "a \<in> set (pc_api (mp_config p))" for a
    using api_waiting_none [OF h(5) [OF that]] assms(2) by (simp add: api_list_def)
  with h show ?thesis by (auto simp: starts_unready_def)
qed

definition running_process :: managed where
  "running_process = (managed_new (process_config_default ''engine'' ''/bin/engine''))
     \<lparr>mp_state := Running, mp_started_at := Some 0, mp_run := 1\<rparr>"

theorem healthy_means_checked_witness: "mp_state running_process = Running"
  using healthy_means_checked [of "[]" 4000 running_process 0]
  by (simp add: running_process_def status_with_health_def health_of_def managed_new_def
      process_config_default_def has_checks_def num_seconds_def settle_secs_def)

text \<open>A process whose argument has a default naming a node value, \<open>${X:-${NODE_IP}}\<close>, is held back
  for ever on a node that does have the value: the inner reference is not expanded, and what is left
  of it is reported as missing at every start.\<close>

theorem nested_default_holds_process:
  "''${X:-${NODE_IP}}'' \<in> set (pc_args cfg) \<Longrightarrow>
   node_vars (Some ip) (Some h) ''NODE_IP'' = Some ip
   \<and> node_vars_missing cfg inh (node_vars (Some ip) (Some h)) \<noteq> None"
  using nested_reference_reported_missing [of ip h]
  by (simp add: node_vars_missing_iff missing_names_set del: not_None_eq)
    (metis list.distinct(1))

theorem nested_default_holds_process_witness:
  "node_vars_missing ((process_config_default ''cert'' ''/bin/sh'')\<lparr>pc_args := [''-c'', ''${X:-${NODE_IP}}'']\<rparr>)
     (\<lambda>_. False) (node_vars (Some ''10.0.0.7'') (Some ''n1'')) \<noteq> None"
  using nested_default_holds_process
    [of "(process_config_default ''cert'' ''/bin/sh'')\<lparr>pc_args := [''-c'', ''${X:-${NODE_IP}}'']\<rparr>"] by simp

end
