(* ===== verification/StopTiers.thy ===== *)
theory StopTiers
  imports Prelude "HOL-Library.List_Lexorder" "HOL-Library.Char_ord"
begin

text \<open>
  \<open>stop_tiers\<close> of \<open>crates/stormd/src/supervisor.rs\<close>: the order of a shutdown. A process's depth is one
  more than the deepest process it depends on, computed with a memo and a budget of recursive calls
  that a cycle runs out of; the deepest tier stops first. The map of dependencies is the list of its
  entries, its keys distinct.
\<close>

type_synonym dep_map = "(string \<times> string list) list"

definition known :: "dep_map \<Rightarrow> string \<Rightarrow> bool" where
  "known deps n \<longleftrightarrow> map_of deps n \<noteq> None"

definition depends :: "dep_map \<Rightarrow> string \<Rightarrow> string list" where
  "depends deps n = (case map_of deps n of Some ds \<Rightarrow> filter (known deps) ds | None \<Rightarrow> [])"

type_synonym memo = "string \<Rightarrow> nat option"

fun depth :: "dep_map \<Rightarrow> nat \<Rightarrow> string \<Rightarrow> memo \<Rightarrow> nat \<times> memo" where
  "depth deps 0 n memo = (case memo n of Some d \<Rightarrow> (d, memo) | None \<Rightarrow> (0, memo))"
| "depth deps (Suc budget) n memo =
     (case memo n of
        Some d \<Rightarrow> (d, memo)
      | None \<Rightarrow>
          (case foldl (\<lambda>(m, memo) d. case depth deps budget d memo of (k, memo') \<Rightarrow> (max m (1 + k), memo'))
                  (0, memo) (depends deps n) of
             (d, memo') \<Rightarrow> (d, memo'(n \<mapsto> d))))"

definition push_tier :: "nat \<Rightarrow> string \<Rightarrow> string list list \<Rightarrow> string list list" where
  "push_tier d n tiers =
     (let ts = (if length tiers \<le> d then tiers @ replicate (d + 1 - length tiers) [] else tiers)
      in ts[d := ts ! d @ [n]])"

definition stop_tiers :: "dep_map \<Rightarrow> string list list" where
  "stop_tiers deps =
     (let names = sort (map fst deps);
          tiers = snd (foldl (\<lambda>(memo, tiers) n.
                     case depth deps (length deps) n memo of (d, memo') \<Rightarrow> (memo', push_tier d n tiers))
                   (Map.empty, []) names)
      in filter (\<lambda>t. t \<noteq> []) (rev tiers))"

section \<open>Tiers\<close>

definition slot :: "string list list \<Rightarrow> nat \<Rightarrow> string list" where
  "slot ts k = (if k < length ts then ts ! k else [])"

lemma slot_push: "slot (push_tier d n ts) k = (if k = d then slot ts k @ [n] else slot ts k)"
  by (auto simp: slot_def push_tier_def Let_def nth_append nth_list_update)

fun assign :: "dep_map \<Rightarrow> memo \<Rightarrow> string list \<Rightarrow> (string \<times> nat) list" where
  "assign deps memo [] = []"
| "assign deps memo (n # ns) =
     (case depth deps (length deps) n memo of (d, memo') \<Rightarrow> (n, d) # assign deps memo' ns)"

lemma map_fst_assign [simp]: "map fst (assign deps memo ns) = ns"
  by (induction ns arbitrary: memo) (auto split: prod.split)

lemma tiers_assign:
  "snd (foldl (\<lambda>(memo, tiers) n. case depth deps (length deps) n memo of (d, memo') \<Rightarrow> (memo', push_tier d n tiers))
       (memo, ts) ns) = foldl (\<lambda>ts (n, d). push_tier d n ts) ts (assign deps memo ns)"
  by (induction ns arbitrary: memo ts) (auto split: prod.split)

lemma slot_pushes:
  "slot (foldl (\<lambda>ts (n, d). push_tier d n ts) ts as) k
     = slot ts k @ map fst (filter (\<lambda>(n, d). d = k) as)"
  by (induction as arbitrary: ts) (auto simp: slot_push)

definition raw_tiers :: "dep_map \<Rightarrow> string list list" where
  "raw_tiers deps = foldl (\<lambda>ts (n, d). push_tier d n ts) [] (assign deps Map.empty (sort (map fst deps)))"

lemma stop_tiers_raw: "stop_tiers deps = filter (\<lambda>t. t \<noteq> []) (rev (raw_tiers deps))"
  by (simp add: stop_tiers_def raw_tiers_def tiers_assign Let_def)

lemma slot_raw: "slot (raw_tiers deps) k
    = map fst (filter (\<lambda>(n, d). d = k) (assign deps Map.empty (sort (map fst deps))))"
  by (simp add: raw_tiers_def slot_pushes) (simp add: slot_def)

lemma set_concat_slot: "n \<in> set (concat ts) \<longleftrightarrow> (\<exists>k. n \<in> set (slot ts k))"
  by (fastforce simp: slot_def in_set_conv_nth split: if_splits)

lemma concat_nonempty: "concat (filter (\<lambda>t. t \<noteq> []) ts) = concat ts"
  by (induction ts) auto

lemma stop_tiers_set: "set (concat (stop_tiers deps)) = fst ` set deps"
proof -
  let ?as = "assign deps Map.empty (sort (map fst deps))"
  have "set (concat (stop_tiers deps)) = set (concat (raw_tiers deps))"
    by (simp add: stop_tiers_raw concat_nonempty)
  also have "\<dots> = fst ` set ?as"
    unfolding set_eq_iff set_concat_slot slot_raw by force
  also have "fst ` set ?as = set (map fst ?as)" by (simp only: set_map)
  finally show ?thesis unfolding map_fst_assign by simp
qed

lemma length_concat_snoc:
  "d < length ts \<Longrightarrow> length (concat (ts[d := ts ! d @ [n]])) = Suc (length (concat ts))"
  by (induction ts arbitrary: d) (auto split: nat.split)

lemma length_concat_push: "length (concat (push_tier d n ts)) = Suc (length (concat ts))"
proof -
  let ?ts = "if length ts \<le> d then ts @ replicate (d + 1 - length ts) [] else ts"
  have d: "d < length ?ts" by simp
  have same: "length (concat ?ts) = length (concat ts)" by (auto simp: length_concat sum_list_replicate)
  have "length (concat (?ts[d := ?ts ! d @ [n]])) = Suc (length (concat ?ts))"
    by (rule length_concat_snoc [OF d])
  with same show ?thesis unfolding push_tier_def Let_def by simp
qed

lemma stop_tiers_length: "length (concat (stop_tiers deps)) = length deps"
proof -
  have "length (concat (foldl (\<lambda>ts (n, d). push_tier d n ts) ts as)) = length (concat ts) + length as" for ts as
    by (induction as arbitrary: ts) (auto simp: length_concat_push)
  moreover have "length (assign deps Map.empty (sort (map fst deps))) = length (map fst deps)"
    by (metis length_map length_sort map_fst_assign)
  moreover have "length (concat (rev ts)) = length (concat ts)" for ts :: "string list list"
    by (induction ts) auto
  ultimately show ?thesis
    by (simp add: stop_tiers_raw concat_nonempty raw_tiers_def)
qed

lemma stop_tiers_distinct: "distinct (map fst deps) \<Longrightarrow> distinct (concat (stop_tiers deps))"
proof (rule card_distinct)
  assume "distinct (map fst deps)"
  from distinct_card [OF this] have "card (fst ` set deps) = length deps" by simp
  then show "card (set (concat (stop_tiers deps))) = length (concat (stop_tiers deps))"
    by (simp only: stop_tiers_set stop_tiers_length)
qed

section \<open>Depths\<close>

text \<open>A rank that solves the depth equation: what \<open>depth\<close> computes when its budget exceeds it.\<close>

definition is_rank :: "dep_map \<Rightarrow> (string \<Rightarrow> nat) \<Rightarrow> bool" where
  "is_rank deps r \<longleftrightarrow> (\<forall>n. r n = foldl (\<lambda>m d. max m (1 + r d)) 0 (depends deps n))"

lemma foldl_max_ge: "(a::nat) \<le> foldl (\<lambda>m d. max m (f d)) a ds"
  by (induction ds arbitrary: a) (auto intro: order_trans [OF max.cobounded1])

lemma foldl_max_mem: "d \<in> set ds \<Longrightarrow> f d \<le> foldl (\<lambda>m d. max m (f d)) (a::nat) ds"
  by (induction ds arbitrary: a) (auto intro: order_trans [OF max.cobounded2 foldl_max_ge])

lemma rank_less: "is_rank deps r \<Longrightarrow> d \<in> set (depends deps n) \<Longrightarrow> r d < r n"
  using foldl_max_mem [of d "depends deps n" "\<lambda>d. 1 + r d" 0] unfolding is_rank_def
  by (metis Suc_le_eq plus_1_eq_Suc)

definition memo_ok :: "(string \<Rightarrow> nat) \<Rightarrow> memo \<Rightarrow> bool" where
  "memo_ok r memo \<longleftrightarrow> (\<forall>n d. memo n = Some d \<longrightarrow> d = r n)"

lemma depth_rank:
  assumes "is_rank deps r"
  shows "memo_ok r memo \<Longrightarrow> r n < budget \<Longrightarrow>
    fst (depth deps budget n memo) = r n \<and> memo_ok r (snd (depth deps budget n memo))"
proof (induction budget arbitrary: n memo)
  case (Suc budget)
  let ?step = "\<lambda>(m, memo) d. case depth deps budget d memo of (k, memo') \<Rightarrow> (max m (1 + k), memo')"
  have fold: "fst (foldl ?step (m, memo) ds) = foldl (\<lambda>m d. max m (1 + r d)) m ds
      \<and> memo_ok r (snd (foldl ?step (m, memo) ds))"
    if "memo_ok r memo" "\<And>d. d \<in> set ds \<Longrightarrow> r d < budget" for m memo ds
    using that
  proof (induction ds arbitrary: m memo)
    case (Cons d ds)
    obtain k memo' where k: "depth deps budget d memo = (k, memo')" by (cases "depth deps budget d memo")
    with Suc.IH [OF Cons.prems(1), of d] Cons.prems(2) have "k = r d" "memo_ok r memo'" by auto
    with Cons.IH [of memo' "max m (1 + r d)"] Cons.prems(2) k show ?case by simp
  qed simp
  show ?case
  proof (cases "memo n")
    case None
    have "r d < budget" if "d \<in> set (depends deps n)" for d
      using rank_less [OF assms that] Suc.prems(2) by simp
    from fold [OF Suc.prems(1) this, of "depends deps n" 0]
    obtain memo' where "foldl ?step (0, memo) (depends deps n) = (r n, memo')" "memo_ok r memo'"
      using assms unfolding is_rank_def by (metis prod.collapse)
    with None show ?thesis by (simp add: memo_ok_def)
  qed (use Suc.prems in \<open>auto simp: memo_ok_def\<close>)
qed simp

lemma assign_rank:
  assumes "is_rank deps r" "\<And>n. r n < length deps"
  shows "memo_ok r memo \<Longrightarrow> assign deps memo ns = map (\<lambda>n. (n, r n)) ns"
proof (induction ns arbitrary: memo)
  case (Cons n ns)
  obtain k memo' where k: "depth deps (length deps) n memo = (k, memo')"
    by (cases "depth deps (length deps) n memo")
  with depth_rank [OF assms(1) Cons.prems assms(2), of n] have "k = r n" "memo_ok r memo'" by auto
  with k Cons.IH show ?case by simp
qed simp

lemma stop_order:
  assumes "is_rank deps r" "\<And>n. r n < length deps" "known deps n" "d \<in> set (depends deps n)"
  obtains before after where "stop_tiers deps = before @ after" "n \<in> set (concat before)" "d \<in> set (concat after)"
proof -
  let ?ts = "raw_tiers deps"
  have slot: "slot ?ts k = filter (\<lambda>n. r n = k) (sort (map fst deps))" for k
    by (simp add: slot_raw assign_rank [OF assms(1,2)] memo_ok_def filter_map o_def case_prod_beta)
  have keys: "n \<in> fst ` set deps" "d \<in> fst ` set deps"
    using assms(3,4) by (auto simp: known_def depends_def map_of_eq_None_iff split: option.splits)
  then have at: "n \<in> set (slot ?ts (r n))" "d \<in> set (slot ?ts (r d))" by (auto simp: slot)
  then have len: "r n < length ?ts" "r d < length ?ts" by (auto simp: slot_def split: if_splits)
  let ?low = "take (Suc (r d)) ?ts" and ?high = "drop (Suc (r d)) ?ts"
  have "?high ! (r n - Suc (r d)) = ?ts ! r n" "r n - Suc (r d) < length ?high"
    using rank_less [OF assms(1,4)] len by simp_all
  then have "?ts ! r n \<in> set ?high" by (metis nth_mem)
  moreover have "n \<in> set (?ts ! r n)" using at(1) len by (simp add: slot_def)
  ultimately have n: "n \<in> set (concat ?high)" by (simp only: set_concat) blast
  have d: "d \<in> set (concat ?low)"
    using at(2) len by (auto simp: slot_def take_Suc_conv_app_nth)
  have "rev ?ts = rev ?high @ rev ?low" by (simp flip: rev_append)
  with n d show thesis
    by (intro that [of "filter (\<lambda>t. t \<noteq> []) (rev ?high)" "filter (\<lambda>t. t \<noteq> []) (rev ?low)"])
      (simp_all add: stop_tiers_raw concat_nonempty)
qed

section \<open>Acyclic dependencies have ranks\<close>

definition dep_rel :: "dep_map \<Rightarrow> (string \<times> string) set" where
  "dep_rel deps = {(d, n). d \<in> set (depends deps n)}"

definition below :: "dep_map \<Rightarrow> string \<Rightarrow> string set" where
  "below deps n = {d. (d, n) \<in> (dep_rel deps)\<^sup>+}"

fun plain_depth :: "dep_map \<Rightarrow> nat \<Rightarrow> string \<Rightarrow> nat" where
  "plain_depth deps 0 n = 0"
| "plain_depth deps (Suc b) n = foldl (\<lambda>m d. max m (1 + plain_depth deps b d)) 0 (depends deps n)"

definition rank_of :: "dep_map \<Rightarrow> string \<Rightarrow> nat" where
  "rank_of deps n = plain_depth deps (Suc (card (below deps n))) n"

lemma depends_known: "d \<in> set (depends deps n) \<Longrightarrow> known deps d \<and> known deps n"
  by (cases "map_of deps n") (auto simp: depends_def known_def)

lemma below_keys: "below deps n \<subseteq> fst ` set deps"
proof
  fix d assume "d \<in> below deps n"
  then obtain e where "(d, e) \<in> dep_rel deps" unfolding below_def by (blast dest: tranclD)
  then show "d \<in> fst ` set deps"
    by (auto simp: dep_rel_def known_def map_of_eq_None_iff dest: depends_known)
qed

lemma finite_below: "finite (below deps n)"
  by (rule finite_subset [OF below_keys]) simp

lemma below_less:
  assumes "acyclic (dep_rel deps)" "d \<in> set (depends deps n)"
  shows "card (below deps d) < card (below deps n)"
proof (rule psubset_card_mono [OF finite_below])
  have dn: "(d, n) \<in> dep_rel deps" using assms(2) by (simp add: dep_rel_def)
  then have "d \<in> below deps n" by (auto simp: below_def)
  moreover have "below deps d \<subseteq> below deps n" using dn by (auto simp: below_def)
  moreover have "d \<notin> below deps d" using assms(1) by (simp add: below_def acyclic_def)
  ultimately show "below deps d \<subset> below deps n" by blast
qed

lemma foldl_max_cong:
  "(\<And>d. d \<in> set ds \<Longrightarrow> f d = g d) \<Longrightarrow>
   foldl (\<lambda>m d. max m (1 + f d)) (a::nat) ds = foldl (\<lambda>m d. max m (1 + g d)) a ds"
  by (rule foldl_cong) auto

lemma foldl_max_le:
  "(\<And>d. d \<in> set ds \<Longrightarrow> f d \<le> k) \<Longrightarrow> a \<le> k \<Longrightarrow> foldl (\<lambda>m d. max m (f d)) (a::nat) ds \<le> k"
  by (induction ds arbitrary: a) auto

lemma plain_depth_rank:
  assumes "acyclic (dep_rel deps)"
  shows "card (below deps n) < b \<Longrightarrow> plain_depth deps b n = rank_of deps n"
proof (induction "card (below deps n)" arbitrary: n b rule: less_induct)
  case less
  have eq: "plain_depth deps (Suc c) n = foldl (\<lambda>m d. max m (1 + rank_of deps d)) 0 (depends deps n)"
    if "card (below deps n) \<le> c" for c
    unfolding plain_depth.simps
  proof (rule foldl_max_cong)
    fix d assume "d \<in> set (depends deps n)"
    from below_less [OF assms this] that show "plain_depth deps c d = rank_of deps d"
      by (intro less.hyps) simp_all
  qed
  obtain c where "b = Suc c" "card (below deps n) \<le> c" using less.prems by (cases b) auto
  with eq [of c] eq [of "card (below deps n)"] show ?case by (simp only: rank_of_def)
qed

lemma rank_of_is_rank:
  assumes "acyclic (dep_rel deps)"
  shows "is_rank deps (rank_of deps)"
  unfolding is_rank_def
proof
  fix n
  have "rank_of deps n = plain_depth deps (Suc (card (below deps n))) n" by (simp only: rank_of_def)
  also have "\<dots> = foldl (\<lambda>m d. max m (1 + rank_of deps d)) 0 (depends deps n)"
    unfolding plain_depth.simps
    by (rule foldl_max_cong) (intro plain_depth_rank [OF assms] below_less [OF assms])
  finally show "rank_of deps n = foldl (\<lambda>m d. max m (1 + rank_of deps d)) 0 (depends deps n)" .
qed

lemma rank_of_below:
  assumes "acyclic (dep_rel deps)"
  shows "rank_of deps n \<le> card (below deps n)"
proof (induction "card (below deps n)" arbitrary: n rule: less_induct)
  case less
  have "1 + rank_of deps d \<le> card (below deps n)" if "d \<in> set (depends deps n)" for d
    using less.hyps [OF below_less [OF assms that]] below_less [OF assms that] by simp
  then show ?case
    using rank_of_is_rank [OF assms] unfolding is_rank_def by (metis foldl_max_le le0)
qed

lemma rank_of_bound:
  assumes "acyclic (dep_rel deps)" "deps \<noteq> []"
  shows "rank_of deps n < length deps"
proof -
  have len: "card (fst ` set deps) \<le> length deps"
    by (metis card_length length_map set_map)
  show ?thesis
  proof (cases "n \<in> fst ` set deps")
    case True
    have "n \<notin> below deps n" using assms(1) by (simp add: below_def acyclic_def)
    with True below_keys have "below deps n \<subset> fst ` set deps" by blast
    then have "card (below deps n) < card (fst ` set deps)" by (intro psubset_card_mono) simp
    with len rank_of_below [OF assms(1), of n] show ?thesis by simp
  next
    case False
    then have "depends deps n = []"
      by (simp add: depends_def map_of_eq_None_iff [THEN iffD2])
    then show ?thesis using assms(2) by (simp add: rank_of_def)
  qed
qed

section \<open>Properties\<close>

text \<open>C8: A shutdown stops every process exactly once, tier by tier with no empty tier (whatever the
  dependencies, cycles and unknown names included), and when the dependencies have no cycle, each
  process is stopped in a tier strictly before those of all the processes it depends on.\<close>

theorem dependents_stop_first:
  assumes "distinct (map fst deps)"
  shows "set (concat (stop_tiers deps)) = fst ` set deps
    \<and> distinct (concat (stop_tiers deps)) \<and> [] \<notin> set (stop_tiers deps)
    \<and> (acyclic (dep_rel deps) \<longrightarrow> d \<in> set (depends deps n) \<longrightarrow>
         (\<exists>before after. stop_tiers deps = before @ after
            \<and> n \<in> set (concat before) \<and> d \<in> set (concat after)))"
proof (intro conjI impI)
  show "set (concat (stop_tiers deps)) = fst ` set deps" by (rule stop_tiers_set)
  show "distinct (concat (stop_tiers deps))" by (rule stop_tiers_distinct [OF assms])
  show "[] \<notin> set (stop_tiers deps)" by (simp add: stop_tiers_raw)
next
  assume ac: "acyclic (dep_rel deps)" and d: "d \<in> set (depends deps n)"
  then have "deps \<noteq> []" by (auto simp: depends_def)
  from stop_order [OF rank_of_is_rank [OF ac] rank_of_bound [OF ac this] _ d] depends_known [OF d]
  show "\<exists>before after. stop_tiers deps = before @ after \<and> n \<in> set (concat before) \<and> d \<in> set (concat after)"
    by blast
qed

definition control_plane :: dep_map where
  "control_plane = [(''apiserver'', [''fastetcd'']), (''fastetcd'', []), (''scheduler'', [''apiserver''])]"

theorem dependents_stop_first_witness:
  "\<exists>before after. stop_tiers control_plane = before @ after
     \<and> ''apiserver'' \<in> set (concat before) \<and> ''fastetcd'' \<in> set (concat after)"
proof -
  have "dep_rel control_plane \<subseteq>
      measure (\<lambda>n. if n = ''scheduler'' then 2 else if n = ''apiserver'' then 1 else 0)"
    by (auto simp: dep_rel_def depends_def known_def control_plane_def split: if_splits)
  then have "acyclic (dep_rel control_plane)"
    by (intro wf_acyclic) (rule wf_subset [OF wf_measure])
  moreover have "''fastetcd'' \<in> set (depends control_plane ''apiserver'')"
    by (simp add: depends_def known_def control_plane_def)
  ultimately show ?thesis
    using dependents_stop_first [of control_plane "''fastetcd''" "''apiserver''"]
    by (simp add: control_plane_def)
qed

end
