(* ===== verification/K8sEvents.thy ===== *)
theory K8sEvents
  imports Prelude
begin

text \<open>
  \<open>crates/stormd/src/k8sevents.rs\<close>: the event store. A repeated event (same process, reason and
  message) is counted in place; the store keeps a thousand, dropping from the front.
\<close>

datatype event_type = Normal | WarningEvent

record k8s_event =
  ke_kind :: event_type
  ke_reason :: string
  ke_message :: string
  ke_process :: string
  ke_count :: nat
  ke_first_timestamp :: millis
  ke_last_timestamp :: millis
  ke_seq :: nat

type_synonym event_store = "k8s_event list \<times> nat"

definition keep_events :: nat where "keep_events = 1000"

definition event_store_default :: event_store where
  "event_store_default = ([], 0)"

definition same_event :: "string \<Rightarrow> string \<Rightarrow> string \<Rightarrow> k8s_event \<Rightarrow> bool" where
  "same_event process reason message e \<longleftrightarrow>
     ke_process e = process \<and> ke_reason e = reason \<and> ke_message e = message"

definition event_add ::
    "event_type \<Rightarrow> string \<Rightarrow> string \<Rightarrow> string \<Rightarrow> millis \<Rightarrow> event_store \<Rightarrow> event_store" where
  "event_add kind process reason message now = (\<lambda>(es, n).
     (let s = n + 1
      in if List.find (same_event process reason message) (rev es) \<noteq> None
         then (rev (update_first (same_event process reason message)
                 (\<lambda>e. e\<lparr>ke_count := ke_count e + 1, ke_last_timestamp := now, ke_seq := s\<rparr>) (rev es)), s)
         else (pop_while_over keep_events
                 (es @ [\<lparr>ke_kind = kind, ke_reason = reason, ke_message = message, ke_process = process,
                         ke_count = 1, ke_first_timestamp = now, ke_last_timestamp = now, ke_seq = s\<rparr>]), s)))"

definition events_since :: "event_store \<Rightarrow> nat \<Rightarrow> k8s_event list" where
  "events_since st n = sort_key ke_seq (filter (\<lambda>e. n < ke_seq e) (fst st))"

section \<open>Correctness\<close>

definition event_key :: "k8s_event \<Rightarrow> string \<times> string \<times> string" where
  "event_key e = (ke_process e, ke_reason e, ke_message e)"

definition event_inv :: "event_store \<Rightarrow> bool" where
  "event_inv st \<longleftrightarrow>
     distinct (map event_key (fst st)) \<and> distinct (map ke_seq (fst st)) \<and>
     list_all (\<lambda>e. 0 < ke_seq e \<and> ke_seq e \<le> snd st \<and> 1 \<le> ke_count e) (fst st) \<and>
     length (fst st) \<le> keep_events"

lemma same_event_key: "same_event p r m e \<longleftrightarrow> event_key e = (p, r, m)"
  by (auto simp: same_event_def event_key_def)

lemma distinct_last_n: "distinct (map f xs) \<Longrightarrow> distinct (map f (last_n n xs))"
  by (simp add: last_n_def drop_map [symmetric])

lemma list_all_last_n: "list_all P xs \<Longrightarrow> list_all P (last_n n xs)"
  using set_last_n_subset [of n xs] by (auto simp: list_all_iff)

lemma event_inv_start: "event_inv event_store_default"
  by (simp add: event_inv_def event_store_default_def)

lemma event_add_cases:
  assumes "event_inv st" "event_add k p r m now st = st'"
  obtains ys e zs where "fst st = ys @ e # zs" "event_key e = (p, r, m)"
      "fst st' = ys @ e\<lparr>ke_count := ke_count e + 1, ke_last_timestamp := now, ke_seq := snd st + 1\<rparr> # zs"
      "snd st' = snd st + 1"
    | e where "(p, r, m) \<notin> event_key ` set (fst st)" "event_key e = (p, r, m)" "ke_seq e = snd st + 1"
      "ke_count e = 1" "fst st' = last_n keep_events (fst st @ [e])" "snd st' = snd st + 1"
proof (cases "\<exists>e \<in> set (rev (fst st)). same_event p r m e")
  case True
  then have "List.find (same_event p r m) (rev (fst st)) \<noteq> None" by (auto simp: find_None_iff)
  moreover obtain ys e zs where s: "rev (fst st) = ys @ e # zs" "same_event p r m e"
    "update_first (same_event p r m)
       (\<lambda>e. e\<lparr>ke_count := ke_count e + 1, ke_last_timestamp := now, ke_seq := snd st + 1\<rparr>) (rev (fst st))
     = ys @ e\<lparr>ke_count := ke_count e + 1, ke_last_timestamp := now, ke_seq := snd st + 1\<rparr> # zs"
    by (rule update_first_split [OF True, where f = "\<lambda>e. e\<lparr>ke_count := ke_count e + 1,
          ke_last_timestamp := now, ke_seq := snd st + 1\<rparr>"]) blast
  moreover have "fst st = rev zs @ e # rev ys" using arg_cong [OF s(1), of rev] by simp
  ultimately show thesis using assms(2)
    by (intro that(1) [of "rev zs" e "rev ys"]) (auto simp: event_add_def same_event_key split: prod.splits)
next
  case False
  then have "List.find (same_event p r m) (rev (fst st)) = None" by (auto simp: find_None_iff)
  with False assms(2) show thesis
    by (intro that(2) [of "\<lparr>ke_kind = k, ke_reason = r, ke_message = m, ke_process = p, ke_count = 1,
          ke_first_timestamp = now, ke_last_timestamp = now, ke_seq = snd st + 1\<rparr>"])
      (auto simp: event_add_def same_event_key event_key_def pop_while_over_last_n split: prod.splits)
qed

lemma event_add_inv: "event_inv st \<Longrightarrow> event_inv (event_add k p r m now st)"
proof -
  assume inv: "event_inv st"
  show ?thesis
  proof (rule event_add_cases [OF inv refl, where k = k and p = p and r = r and m = m and now = now])
    fix ys zs and e :: k8s_event
    let ?e = "e\<lparr>ke_count := ke_count e + 1, ke_last_timestamp := now, ke_seq := snd st + 1\<rparr>"
    assume st: "fst st = ys @ e # zs" "fst (event_add k p r m now st) = ys @ ?e # zs"
      "snd (event_add k p r m now st) = snd st + 1"
    have old: "distinct (map event_key (ys @ e # zs))" "distinct (map ke_seq (ys @ e # zs))"
      "length (ys @ e # zs) \<le> keep_events"
      and le: "x \<in> set (ys @ e # zs) \<Longrightarrow> 0 < ke_seq x \<and> ke_seq x \<le> snd st \<and> 1 \<le> ke_count x" for x
      using inv unfolding event_inv_def st(1) list_all_iff by blast+
    have "event_key ?e = event_key e" by (simp add: event_key_def)
    then have "distinct (map event_key (ys @ ?e # zs))" using old(1) by simp
    moreover have "snd st + 1 \<notin> ke_seq ` set (ys @ zs)" using le by fastforce
    then have "distinct (map ke_seq (ys @ ?e # zs))" using old(2) by (simp add: image_Un)
    moreover have "list_all (\<lambda>e. 0 < ke_seq e \<and> ke_seq e \<le> snd st + 1 \<and> 1 \<le> ke_count e) (ys @ ?e # zs)"
      using le by (auto simp: list_all_iff le_SucI)
    ultimately show ?thesis using old(3) unfolding event_inv_def st by simp
  next
    fix e
    assume new: "(p, r, m) \<notin> event_key ` set (fst st)" "event_key e = (p, r, m)" "ke_seq e = snd st + 1"
      "ke_count e = 1" "fst (event_add k p r m now st) = last_n keep_events (fst st @ [e])"
      "snd (event_add k p r m now st) = snd st + 1"
    have "distinct (map event_key (fst st @ [e]))" "distinct (map ke_seq (fst st @ [e]))"
      "list_all (\<lambda>e. 0 < ke_seq e \<and> ke_seq e \<le> snd st + 1 \<and> 1 \<le> ke_count e) (fst st @ [e])"
      using inv new by (fastforce simp: event_inv_def list_all_iff)+
    with new show ?thesis unfolding event_inv_def new
      by (intro conjI distinct_last_n list_all_last_n) simp_all
  qed
qed

interpretation event_store: step_invariant "\<lambda>st. st = event_store_default"
    "\<lambda>st st'. \<exists>k p r m now. st' = event_add k p r m now st" event_inv
  using event_inv_start event_add_inv by unfold_locales auto

lemma events_since_add:
  assumes "event_inv st"
  shows "map event_key (events_since (event_add k p r m now st) (snd st)) = [(p, r, m)]"
proof -
  have old: "list_all (\<lambda>x. \<not> snd st < ke_seq x) (fst st)"
    using assms by (auto simp: event_inv_def list_all_iff not_less)
  show ?thesis
  proof (rule event_add_cases [OF assms refl, where k = k and p = p and r = r and m = m and now = now])
    fix ys zs and e :: k8s_event
    assume st: "fst st = ys @ e # zs" "event_key e = (p, r, m)"
      "fst (event_add k p r m now st)
        = ys @ e\<lparr>ke_count := ke_count e + 1, ke_last_timestamp := now, ke_seq := snd st + 1\<rparr> # zs"
    have "filter (\<lambda>e. snd st < ke_seq e) ys = []" "filter (\<lambda>e. snd st < ke_seq e) zs = []"
      using old unfolding st(1) by (auto simp: filter_empty_conv list_all_iff)
    with st(2) show ?thesis unfolding events_since_def st(3) by (simp add: event_key_def)
  next
    fix e
    assume st: "event_key e = (p, r, m)" "ke_seq e = snd st + 1"
      "fst (event_add k p r m now st) = last_n keep_events (fst st @ [e])"
    have "last_n keep_events (fst st @ [e]) = last_n 999 (fst st) @ [e]"
      by (simp add: last_n_def keep_events_def)
    moreover have "filter (\<lambda>e. snd st < ke_seq e) (last_n 999 (fst st)) = []"
      using list_all_last_n [OF old, of 999] by (auto simp: filter_empty_conv list_all_iff)
    ultimately show ?thesis using st by (simp add: events_since_def)
  qed
qed

section \<open>Properties\<close>



text \<open>The store drops by first appearance, not by last change: an event that keeps happening, the
  newest change of all, is dropped when a thousandth other one arrives, and its count with it.\<close>

theorem repeating_event_dropped:
  assumes "fst st = e # es" "length es = 999"
    and "list_all (\<lambda>x. ke_seq x < ke_seq e) es" "(p, r, m) \<notin> event_key ` set (e # es)"
  shows "\<exists>x. fst (event_add k p r m now st) = es @ [x] \<and> event_key x = (p, r, m)"
proof -
  have "List.find (same_event p r m) (rev (fst st)) = None"
    using assms(1,4) by (force simp: find_None_iff same_event_key)
  moreover have "last_n 1000 (e # es @ [x]) = es @ [x]" for x
    using assms(2) by (simp add: last_n_def)
  ultimately show ?thesis using assms(1)
    by (cases st) (simp add: event_add_def pop_while_over_last_n keep_events_def event_key_def)
qed

definition numbered :: "nat \<Rightarrow> k8s_event" where
  "numbered i = \<lparr>ke_kind = Normal, ke_reason = ''Created'', ke_message = replicate i CHR ''x'',
     ke_process = ''p'', ke_count = 1, ke_first_timestamp = 0, ke_last_timestamp = 0, ke_seq = i\<rparr>"

theorem repeating_event_dropped_witness:
  "\<exists>x. fst (event_add Normal ''q'' ''Created'' ''new'' 9
       ((numbered 0)\<lparr>ke_count := 5000, ke_seq := 6000\<rparr> # map numbered [1..<1000], 6000))
     = map numbered [1..<1000] @ [x] \<and> event_key x = (''q'', ''Created'', ''new'')"
  by (rule repeating_event_dropped [where e = "(numbered 0)\<lparr>ke_count := 5000, ke_seq := 6000\<rparr>"])
     (auto simp: numbered_def event_key_def list_all_iff)

end
