(* ===== verification/Events.thy ===== *)
theory Events
  imports Config StormLog
begin

text \<open>
  \<open>crates/stormd/src/events.rs\<close>: the event bus. Every event goes to the subscribers and to the log as
  one line, and to a webhook when one is configured. A detail value is rendered already (JSON is a
  library's); its keys are sorted.
\<close>

datatype event_kind =
    ContainerStarting | ContainerStopping | ContainerFailing
  | ProcessStarted | ProcessStopped | ProcessCrashed | ProcessRestarting | ProcessReady
  | CronExecuted | CronFailed
  | BackupStarted | BackupCompleted | BackupFailed
  | UpdateCheckStarted | UpdateAvailable | UpdatePulling | UpdatePivoting | UpdateCompleted | UpdateFailed
  | LivenessCheckFailed

definition show_event_kind :: "event_kind \<Rightarrow> string" where
  "show_event_kind k =
     (case k of
        ContainerStarting \<Rightarrow> ''container_starting'' | ContainerStopping \<Rightarrow> ''container_stopping''
      | ContainerFailing \<Rightarrow> ''container_failing'' | ProcessStarted \<Rightarrow> ''process_started''
      | ProcessStopped \<Rightarrow> ''process_stopped'' | ProcessCrashed \<Rightarrow> ''process_crashed''
      | ProcessRestarting \<Rightarrow> ''process_restarting'' | ProcessReady \<Rightarrow> ''process_ready''
      | CronExecuted \<Rightarrow> ''cron_executed'' | CronFailed \<Rightarrow> ''cron_failed''
      | BackupStarted \<Rightarrow> ''backup_started'' | BackupCompleted \<Rightarrow> ''backup_completed''
      | BackupFailed \<Rightarrow> ''backup_failed'' | UpdateCheckStarted \<Rightarrow> ''update_check_started''
      | UpdateAvailable \<Rightarrow> ''update_available'' | UpdatePulling \<Rightarrow> ''update_pulling''
      | UpdatePivoting \<Rightarrow> ''update_pivoting'' | UpdateCompleted \<Rightarrow> ''update_completed''
      | UpdateFailed \<Rightarrow> ''update_failed'' | LivenessCheckFailed \<Rightarrow> ''liveness_check_failed'')"

record event =
  ev_kind :: event_kind
  ev_process :: "string option"
  ev_container :: string
  ev_detail :: "(string \<times> string) list"

definition event_severity :: "event_kind \<Rightarrow> severity" where
  "event_severity k =
     (case k of
        ContainerFailing \<Rightarrow> Critical
      | ProcessCrashed \<Rightarrow> Error | CronFailed \<Rightarrow> Error | BackupFailed \<Rightarrow> Error | UpdateFailed \<Rightarrow> Error
      | ProcessRestarting \<Rightarrow> Warning | LivenessCheckFailed \<Rightarrow> Warning
      | ContainerStopping \<Rightarrow> Warning | ProcessStopped \<Rightarrow> Warning
      | _ \<Rightarrow> Info)"

definition event_line :: "event \<Rightarrow> string" where
  "event_line e =
     ''event='' @ show_event_kind (ev_kind e)
     @ (case ev_process e of Some p \<Rightarrow> '' process='' @ p | None \<Rightarrow> [])
     @ '' container='' @ ev_container e
     @ concat (map (\<lambda>(k, v). '' '' @ k @ ''='' @ v) (sort_key fst (ev_detail e)))"

record 'l event_bus =
  eb_config :: events_config
  eb_container :: string
  eb_sent :: "event list"
  eb_log :: "'l stormlog option"
  eb_posts :: "(string \<times> event) list"

definition event_bus_new :: "events_config \<Rightarrow> string \<Rightarrow> 'l event_bus" where
  "event_bus_new cfg container = \<lparr>eb_config = cfg, eb_container = container, eb_sent = [],
     eb_log = None, eb_posts = []\<rparr>"

definition event_entry :: "'l sl_env \<Rightarrow> event \<Rightarrow> log_entry" where
  "event_entry env e =
     with_severity (event_severity (ev_kind e)) (new_entry env ''event'' Ingest (event_line e))"

definition emit ::
    "'l sl_env \<Rightarrow> millis \<Rightarrow> event_kind \<Rightarrow> string option \<Rightarrow> (string \<times> string) list \<Rightarrow> 'l event_bus
     \<Rightarrow> 'l event_bus" where
  "emit env now kind process detail b =
     (let e = \<lparr>ev_kind = kind, ev_process = process, ev_container = eb_container b, ev_detail = detail\<rparr>;
          b1 = b\<lparr>eb_sent := eb_sent b @ [e]\<rparr>;
          b2 = b1\<lparr>eb_log := map_option (write_entry env now (event_entry env e)) (eb_log b1)\<rparr>
      in if ec_enabled (eb_config b) \<and> ec_transport (eb_config b) = Webhook
         then (case ec_webhook_url (eb_config b) of
                 Some url \<Rightarrow> b2\<lparr>eb_posts := eb_posts b2 @ [(url, e)]\<rparr> | None \<Rightarrow> b2)
         else b2)"

definition emit_simple :: "'l sl_env \<Rightarrow> millis \<Rightarrow> event_kind \<Rightarrow> string option \<Rightarrow> 'l event_bus \<Rightarrow> 'l event_bus" where
  "emit_simple env now kind process = emit env now kind process []"

text \<open>\<open>connect\<close> has nothing to connect to; \<open>set_log\<close> comes after the first event.\<close>

definition bus_connect :: "'l event_bus \<Rightarrow> 'l event_bus \<times> string option" where
  "bus_connect b = (b, None)"

definition set_log :: "'l stormlog \<Rightarrow> 'l event_bus \<Rightarrow> 'l event_bus" where
  "set_log log b = b\<lparr>eb_log := Some log\<rparr>"

section \<open>Correctness\<close>

lemma show_event_kind_inject: "show_event_kind a = show_event_kind b \<longleftrightarrow> a = b"
  by (cases a; cases b; simp add: show_event_kind_def)

lemma show_event_kind_no_space: "CHR '' '' \<notin> set (show_event_kind k)"
  by (cases k; simp add: show_event_kind_def)

lemma event_line_kind:
  assumes "event_line a = event_line b"
  shows "ev_kind a = ev_kind b"
proof -
  have head: "\<exists>r. event_line e = ''event='' @ show_event_kind (ev_kind e) @ CHR '' '' # r" for e
    by (cases "ev_process e") (simp_all add: event_line_def)
  from head obtain r where r: "event_line a = ''event='' @ show_event_kind (ev_kind a) @ CHR '' '' # r"
    by blast
  from head obtain t where "event_line b = ''event='' @ show_event_kind (ev_kind b) @ CHR '' '' # t"
    by blast
  with r assms have "show_event_kind (ev_kind a) @ CHR '' '' # r = show_event_kind (ev_kind b) @ CHR '' '' # t"
    by simp
  from arg_cong [OF this, of "split_once '' ''"] show ?thesis
    unfolding split_once_char [OF show_event_kind_no_space] by (simp add: show_event_kind_inject)
qed

section \<open>Properties\<close>

text \<open>Every event is told to the subscribers and, once there is a log, written to it (a crash
  or a failure at Error, a failing container at Critical) whatever the webhook configuration says; a
  webhook is posted to exactly when events are enabled, the transport is a webhook and it has a URL.\<close>

theorem events_always_logged:
  "(let e = \<lparr>ev_kind = k, ev_process = p, ev_container = eb_container b, ev_detail = d\<rparr> in
     eb_sent (emit env now k p d b) = eb_sent b @ [e]
     \<and> eb_log (emit env now k p d b) = map_option (write_entry env now (event_entry env e)) (eb_log b)
     \<and> le_severity (event_entry env e) = event_severity k
     \<and> eb_posts (emit env now k p d b) = eb_posts b @
         (case ec_webhook_url (eb_config b) of
            Some url \<Rightarrow> if ec_enabled (eb_config b) \<and> ec_transport (eb_config b) = Webhook then [(url, e)] else []
          | None \<Rightarrow> []))"
  by (simp add: emit_def event_entry_def with_severity_def Let_def split: option.split)

end
