(* ===== verification/SupOps.thy ===== *)
theory SupOps
  imports SupBase StopTiers K8sEvents Events "HOL-Library.AList"
begin

text \<open>
  \<open>crates/stormd/src/supervisor.rs\<close>, the operations: what each section that holds a process's lock does
  to it, the decision taken on an exit, and the requests of the API. Waiting, forking and the child's
  own behaviour are steps of \<open>Supervisor\<close>; the clock is an argument.
\<close>

type_synonym procs = "(string \<times> managed) list"

text \<open>Why a stopped wait goes on: what the caller of \<open>spawn_process\<close> does when it fails.\<close>

datatype purpose = FromStartOrder | FromApi | AfterCleanExit | AfterCrash | AfterBackoff

datatype sup_error =
    NoSuchProcess string
  | ShuttingDownError string
  | NodeVarsMissing string
  | SpawnFailed string
  | NotRunningError string process_state
  | AlreadyRunning string
  | NoStdin string
  | StdinClosed
  | NoPid
  | UnsupportedSignal string

record sup =
  su_procs :: procs
  su_container_failed :: bool
  su_shutting_down :: bool
  su_api :: api_store
  su_events :: event_store
  su_emitted :: "(event_kind \<times> string option) list"

definition sup_new :: sup where
  "sup_new = \<lparr>su_procs = [], su_container_failed = False, su_shutting_down = False, su_api = [],
     su_events = event_store_default, su_emitted = []\<rparr>"

definition sup_get :: "sup \<Rightarrow> string \<Rightarrow> managed option" where
  "sup_get s n = map_of (su_procs s) n"

definition sup_put :: "string \<Rightarrow> managed \<Rightarrow> sup \<Rightarrow> sup" where
  "sup_put n p s = s\<lparr>su_procs := AList.update n p (su_procs s)\<rparr>"

definition sup_event :: "event_type \<Rightarrow> string \<Rightarrow> string \<Rightarrow> string \<Rightarrow> millis \<Rightarrow> sup \<Rightarrow> sup" where
  "sup_event k n r m now s = s\<lparr>su_events := event_add k n r m now (su_events s)\<rparr>"

definition sup_emit :: "event_kind \<Rightarrow> string option \<Rightarrow> sup \<Rightarrow> sup" where
  "sup_emit k n s = s\<lparr>su_emitted := su_emitted s @ [(k, n)]\<rparr>"

definition fail_container :: "sup \<Rightarrow> sup" where
  "fail_container s = sup_emit ContainerFailing None (s\<lparr>su_container_failed := True\<rparr>)"

section \<open>Starting\<close>

definition register_process :: "process_config \<Rightarrow> sup \<Rightarrow> sup" where
  "register_process c s = sup_put (pc_name c) (managed_new c) s"

definition register_all :: "process_config list \<Rightarrow> sup \<Rightarrow> sup" where
  "register_all cs s = fold register_process cs s"

definition dependency_ok :: "sup \<Rightarrow> string \<Rightarrow> bool" where
  "dependency_ok s dep = (case sup_get s dep of Some p \<Rightarrow> satisfies p | None \<Rightarrow> False)"

text \<open>The checks \<open>spawn_process\<close> makes before it touches the process.\<close>

definition spawn_admit ::
    "sup \<Rightarrow> string \<Rightarrow> (string \<Rightarrow> bool) \<Rightarrow> (string \<Rightarrow> string option) \<Rightarrow> sup_error + unit" where
  "spawn_admit s n inherited vars =
     (case sup_get s n of
        None \<Rightarrow> Inl (NoSuchProcess n)
      | Some p \<Rightarrow>
          if su_shutting_down s then Inl (ShuttingDownError n)
          else (case node_vars_missing (mp_config p) inherited vars of
                  Some why \<Rightarrow> Inl (NodeVarsMissing why)
                | None \<Rightarrow> Inr ()))"

definition begin_run :: "managed \<Rightarrow> managed" where
  "begin_run p = p\<lparr>mp_state := Starting, mp_ready := \<not> starts_unready (mp_config p),
     mp_ready_at := None, mp_run := mp_run p + 1, mp_liveness_failures := 0\<rparr>"

definition mark_running :: "u32 option \<Rightarrow> nat \<Rightarrow> millis \<Rightarrow> managed \<Rightarrow> managed" where
  "mark_running pid run now p = p\<lparr>mp_state := Running, mp_pid := pid, mp_exit_code := None,
     mp_started_at := Some now, mp_stopped_at := None, mp_stdin_tx := Some run\<rparr>"

definition sup_mark_running :: "string \<Rightarrow> u32 option \<Rightarrow> nat \<Rightarrow> millis \<Rightarrow> managed \<Rightarrow> sup \<Rightarrow> sup" where
  "sup_mark_running n pid run now p s =
     sup_emit ProcessStarted (Some n)
       (sup_event Normal n ''Started'' (''Started container '' @ n) now
         (sup_event Normal n ''Created'' (''Created container '' @ n) now
           (sup_put n (mark_running pid run now p) s)))"

definition arm_run :: "nat \<Rightarrow> managed \<Rightarrow> managed" where
  "arm_run run p = p\<lparr>mp_kill_tx := Some run\<rparr>"

text \<open>What the caller does with a spawn that failed.\<close>

definition spawn_failed :: "purpose \<Rightarrow> string \<Rightarrow> sup \<Rightarrow> sup" where
  "spawn_failed why n s =
     (case sup_get s n of
        None \<Rightarrow> s
      | Some p \<Rightarrow>
          (case why of
             FromStartOrder \<Rightarrow> s
           | FromApi \<Rightarrow> s
           | AfterCleanExit \<Rightarrow> sup_put n (p\<lparr>mp_state := Failed\<rparr>) s
           | AfterCrash \<Rightarrow> (sup_put n (p\<lparr>mp_state := Failed\<rparr>) s)\<lparr>su_container_failed := True\<rparr>
           | AfterBackoff \<Rightarrow> sup_put n (p\<lparr>mp_state := Failed\<rparr>) s))"

section \<open>Ending\<close>

text \<open>The monitor of a run that was told to stop.\<close>

definition monitor_stopped :: "i32 option \<Rightarrow> millis \<Rightarrow> managed \<Rightarrow> managed" where
  "monitor_stopped code now p = p\<lparr>mp_state := Stopped, mp_stopped_at := Some now, mp_pid := None,
     mp_exit_code := code, mp_ready := False, mp_ready_at := None\<rparr>"

text \<open>
  \<open>stop_child\<close>: does SIGTERM reach it, does it exit within the timeout, and with which code (none when
  a signal ended it)? Second: whether it had to be killed.
\<close>

definition stop_child :: "u32 option \<Rightarrow> u64 \<Rightarrow> bool \<Rightarrow> i32 option option \<Rightarrow> i32 option \<times> bool" where
  "stop_child pid timeout term_sent exits =
     (if pid \<noteq> None \<and> timeout \<noteq> 0 \<and> term_sent
      then (case exits of Some code \<Rightarrow> (code, False) | None \<Rightarrow> (None, True))
      else (None, True))"

datatype decision =
    StopForShutdown
  | PolicyNoRestart bool
  | Backoff
  | CleanStop
  | NoRestart no_restart_action
  | GiveUpClean
  | RestartClean u64
  | FailTheContainer
  | GiveUpFailed
  | RestartCrashed u64
  | IgnoreExit

text \<open>What the first section of \<open>handle_exit\<close> reads of the process for the decision.\<close>

record exit_facts =
  ef_config :: process_config
  ef_code :: "i32 option"
  ef_in_window :: nat
  ef_ran_secs :: int

definition exit_record :: "i32 option \<Rightarrow> millis \<Rightarrow> managed \<Rightarrow> managed" where
  "exit_record code now p = p\<lparr>mp_exit_code := code, mp_stopped_at := Some now, mp_pid := None,
     mp_ready := False, mp_ready_at := None\<rparr>"

definition facts_of_exit :: "i32 option \<Rightarrow> millis \<Rightarrow> managed \<Rightarrow> exit_facts" where
  "facts_of_exit code now p = \<lparr>ef_config = mp_config p, ef_code = code,
     ef_in_window = restart_count_in_window now (pc_restart_window_secs (mp_config p)) p,
     ef_ran_secs = (case mp_started_at p of Some t \<Rightarrow> num_seconds (now - t) | None \<Rightarrow> 0)\<rparr>"

definition policy_restarts :: "restart_policy \<Rightarrow> bool \<Rightarrow> bool" where
  "policy_restarts policy success =
     (case policy of Always \<Rightarrow> True | OnFailure \<Rightarrow> \<not> success | Never \<Rightarrow> False)"

definition decide :: "bool \<Rightarrow> exit_facts \<Rightarrow> decision" where
  "decide shutting f =
     (let c = ef_config f;
          success = (ef_code f = Some 0);
          no_restart = is_no_restart (ef_code f) (pc_no_restart_exit_codes c)
      in if shutting then StopForShutdown
         else if pc_restart_policy c \<noteq> None \<and> \<not> no_restart
           then (if policy_restarts (the (pc_restart_policy c)) success then Backoff
                 else PolicyNoRestart success)
         else if success \<and> pc_on_exit c = ExitStop then CleanStop
         else if no_restart then NoRestart (pc_on_no_restart c)
         else if success
           then (if unat (pc_max_restarts c) \<le> ef_in_window f then GiveUpClean
                 else RestartClean (cooloff (pc_restart_delay_secs c) (ef_in_window f)))
         else (case pc_on_failure c of
                 FailFail \<Rightarrow> FailTheContainer
               | FailRestart \<Rightarrow>
                   if unat (pc_max_restarts c) \<le> ef_in_window f then GiveUpFailed
                   else RestartCrashed (cooloff (pc_restart_delay_secs c) (ef_in_window f))
               | FailIgnore \<Rightarrow> IgnoreExit))"

definition count_restart :: "process_state \<Rightarrow> millis \<Rightarrow> managed \<Rightarrow> managed" where
  "count_restart st now p = p\<lparr>mp_state := st, mp_restarts := mp_restarts p + 1,
     mp_restart_timestamps := mp_restart_timestamps p @ [now]\<rparr>"

definition count_crash :: "exit_facts \<Rightarrow> managed \<Rightarrow> managed" where
  "count_crash f p = (if ef_code f \<noteq> Some 0 then p\<lparr>mp_crashes := mp_crashes p + 1\<rparr> else p)"

text \<open>The back-off step of \<open>restart_with_backoff\<close>, and the delay it gives.\<close>

definition back_off :: "exit_facts \<Rightarrow> millis \<Rightarrow> managed \<Rightarrow> managed \<times> u64" where
  "back_off f now p =
     (let step = (if backoff_reset_secs \<le> ef_ran_secs f then 0 else mp_backoff_step p)
      in ((count_restart CrashLoopBackOff now p)\<lparr>mp_backoff_step := sat_add_u32 step 1\<rparr>,
          backoff step))"

text \<open>What a decision does to the process, and for which restart the handler then waits how long.\<close>

definition apply_decision ::
    "decision \<Rightarrow> exit_facts \<Rightarrow> millis \<Rightarrow> managed \<Rightarrow> managed \<times> (purpose \<times> u64) option" where
  "apply_decision d f now p =
     (case d of
        StopForShutdown \<Rightarrow> (p\<lparr>mp_state := Stopped\<rparr>, None)
      | PolicyNoRestart success \<Rightarrow>
          ((count_crash f p)\<lparr>mp_state := if success then Stopped else Failed\<rparr>, None)
      | Backoff \<Rightarrow> (case back_off f now (count_crash f p) of (p', delay) \<Rightarrow> (p', Some (AfterBackoff, delay)))
      | CleanStop \<Rightarrow> ((count_crash f p)\<lparr>mp_state := Stopped\<rparr>, None)
      | NoRestart _ \<Rightarrow> ((count_crash f p)\<lparr>mp_state := Failed\<rparr>, None)
      | GiveUpClean \<Rightarrow> ((count_crash f p)\<lparr>mp_state := Stopped\<rparr>, None)
      | RestartClean wait \<Rightarrow> (count_restart Restarting now (count_crash f p), Some (AfterCleanExit, wait))
      | FailTheContainer \<Rightarrow> ((count_crash f p)\<lparr>mp_state := Failed\<rparr>, None)
      | GiveUpFailed \<Rightarrow> ((count_crash f p)\<lparr>mp_state := Failed\<rparr>, None)
      | RestartCrashed wait \<Rightarrow> (count_restart Restarting now (count_crash f p), Some (AfterCrash, wait))
      | IgnoreExit \<Rightarrow> ((count_crash f p)\<lparr>mp_state := Stopped\<rparr>, None))"

text \<open>What a decision tells the bus and the Kubernetes events, and whether it fails the container.\<close>

definition announce :: "decision \<Rightarrow> exit_facts \<Rightarrow> string \<Rightarrow> millis \<Rightarrow> sup \<Rightarrow> sup" where
  "announce d f n now s =
     (let crashed = (\<lambda>s. if ef_code f = Some 0 then sup_emit ProcessStopped (Some n) s
                        else sup_emit ProcessCrashed (Some n) s)
      in case d of
           StopForShutdown \<Rightarrow> s
         | PolicyNoRestart _ \<Rightarrow> s
         | Backoff \<Rightarrow> sup_emit ProcessRestarting (Some n)
                       (sup_event WarningEvent n ''BackOff''
                         (''Back-off restarting failed container '' @ n) now s)
         | CleanStop \<Rightarrow> crashed s
         | NoRestart Hold \<Rightarrow> crashed s
         | NoRestart NoRestartFail \<Rightarrow> fail_container (crashed s)
         | GiveUpClean \<Rightarrow> crashed s
         | RestartClean _ \<Rightarrow> sup_emit ProcessRestarting (Some n) (crashed s)
         | FailTheContainer \<Rightarrow> fail_container (crashed s)
         | GiveUpFailed \<Rightarrow> fail_container (crashed s)
         | RestartCrashed _ \<Rightarrow> sup_emit ProcessRestarting (Some n) (crashed s)
         | IgnoreExit \<Rightarrow> crashed s)"

definition exit_apply ::
    "exit_facts \<Rightarrow> string \<Rightarrow> millis \<Rightarrow> sup \<Rightarrow> sup \<times> (purpose \<times> u64) option" where
  "exit_apply f n now s =
     (case sup_get s n of
        None \<Rightarrow> (s, None)
      | Some p \<Rightarrow>
          (let d = decide (su_shutting_down s) f
           in case apply_decision d f now p of
                (p', next) \<Rightarrow> (announce d f n now (sup_put n p' s), next)))"

section \<open>Requests\<close>

definition request_stop :: "string \<Rightarrow> millis \<Rightarrow> sup \<Rightarrow> sup_error + (sup \<times> nat option)" where
  "request_stop n now s =
     (case sup_get s n of
        None \<Rightarrow> Inl (NoSuchProcess n)
      | Some p \<Rightarrow>
          if mp_state p \<noteq> Running then Inl (NotRunningError n (mp_state p))
          else Inr (sup_emit ProcessStopped (Some n)
                      (sup_event Normal n ''Killing'' (''Stopping container '' @ n) now
                        (sup_put n (p\<lparr>mp_state := Stopping, mp_kill_tx := None\<rparr>) s)),
                    mp_kill_tx p))"

text \<open>\<open>start_process\<close> before it calls \<open>spawn_process\<close>.\<close>

definition request_start :: "string \<Rightarrow> sup \<Rightarrow> sup_error + unit" where
  "request_start n s =
     (case sup_get s n of
        None \<Rightarrow> Inl (NoSuchProcess n)
      | Some p \<Rightarrow> if mp_state p = Running then Inl (AlreadyRunning n) else Inr ())"

definition landed :: "managed \<Rightarrow> bool" where
  "landed p \<longleftrightarrow> mp_state p \<noteq> Stopping \<and> mp_pid p = None"

definition send_stdin :: "string \<Rightarrow> bool \<Rightarrow> sup \<Rightarrow> sup_error + nat" where
  "send_stdin n open_channel s =
     (case sup_get s n of
        None \<Rightarrow> Inl (NoSuchProcess n)
      | Some p \<Rightarrow>
          (case mp_stdin_tx p of
             None \<Rightarrow> Inl (NoStdin n)
           | Some run \<Rightarrow> if open_channel then Inr run else Inl StdinClosed))"

definition signal_process :: "string \<Rightarrow> string \<Rightarrow> sup \<Rightarrow> sup_error + (u32 \<times> signal)" where
  "signal_process n sig s =
     (case sup_get s n of
        None \<Rightarrow> Inl (NoSuchProcess n)
      | Some p \<Rightarrow>
          (case mp_pid p of
             None \<Rightarrow> Inl NoPid
           | Some pid \<Rightarrow>
               (case parse_signal sig of None \<Rightarrow> Inl (UnsupportedSignal sig) | Some k \<Rightarrow> Inr (pid, k))))"

definition update_process_config :: "string \<Rightarrow> process_config \<Rightarrow> sup \<Rightarrow> sup_error + sup" where
  "update_process_config n c s =
     (case sup_get s n of
        None \<Rightarrow> Inl (NoSuchProcess n)
      | Some p \<Rightarrow> Inr (sup_put n (p\<lparr>mp_config := c\<rparr>) s))"

definition get_status :: "string \<Rightarrow> millis \<Rightarrow> sup \<Rightarrow> sup_error + process_status" where
  "get_status n now s =
     (case sup_get s n of
        None \<Rightarrow> Inl (NoSuchProcess n)
      | Some p \<Rightarrow> Inr (status_with_health (su_api s) now p))"

definition get_all_statuses :: "millis \<Rightarrow> sup \<Rightarrow> process_status list" where
  "get_all_statuses now s =
     sort_key st_name (map (\<lambda>(_, p). status_with_health (su_api s) now p) (su_procs s))"

section \<open>Watching a run\<close>

definition is_current :: "nat \<Rightarrow> managed \<Rightarrow> bool" where
  "is_current run p \<longleftrightarrow> mp_run p = run \<and> mp_state p = Running"

text \<open>\<open>signal_run\<close>: the pid to signal, if the run's process is still this one.\<close>

definition signal_run :: "nat \<Rightarrow> u32 option \<Rightarrow> managed \<Rightarrow> u32 option" where
  "signal_run run pid p = (if mp_run p = run \<and> mp_pid p = pid then pid else None)"

definition startup_passed :: "nat \<Rightarrow> process_config \<Rightarrow> millis \<Rightarrow> managed \<Rightarrow> managed" where
  "startup_passed run cfg now p =
     (if mp_run p \<noteq> run then p
      else (let p1 = p\<lparr>mp_startup_passed_run := Some run\<rparr>
            in if pc_readiness_probe cfg = None \<and> pc_ready_probe cfg = None
               then p1\<lparr>mp_ready := True, mp_ready_at := Some now\<rparr> else p1))"

definition liveness_result :: "nat \<Rightarrow> bool \<Rightarrow> millis \<Rightarrow> managed \<Rightarrow> managed" where
  "liveness_result run ok now p =
     (if mp_run p \<noteq> run then p
      else if ok then p\<lparr>mp_liveness_failures := 0, mp_liveness_passed_at := Some now,
                        mp_liveness_passed_run := Some run\<rparr>
      else p\<lparr>mp_liveness_failures := mp_liveness_failures p + 1,
             mp_liveness_failures_total := mp_liveness_failures_total p + 1\<rparr>)"

definition readiness_result :: "nat \<Rightarrow> bool \<Rightarrow> millis \<Rightarrow> managed \<Rightarrow> managed" where
  "readiness_result run ready now p =
     (if mp_run p \<noteq> run \<or> mp_ready p = ready then p
      else p\<lparr>mp_ready := ready, mp_ready_at := if ready then Some now else None\<rparr>)"

definition ready_probe_passed :: "nat \<Rightarrow> millis \<Rightarrow> managed \<Rightarrow> managed" where
  "ready_probe_passed run now p =
     (if mp_run p = run then p\<lparr>mp_ready := True, mp_ready_at := Some now\<rparr> else p)"

section \<open>Shutting down\<close>

definition dep_map_of :: "sup \<Rightarrow> dep_map" where
  "dep_map_of s = map (\<lambda>(n, p). (n, pc_depends_on (mp_config p))) (su_procs s)"

text \<open>What \<open>stop_all\<close> does to each process of a tier: the runs told to stop, besides the new state.\<close>

fun stop_tier :: "string list \<Rightarrow> sup \<Rightarrow> sup \<times> (string \<times> nat) list" where
  "stop_tier [] s = (s, [])"
| "stop_tier (n # ns) s =
     (case sup_get s n of
        None \<Rightarrow> stop_tier ns s
      | Some p \<Rightarrow>
          (case (mp_state p, mp_kill_tx p) of
             (Running, Some run) \<Rightarrow>
               (case stop_tier ns (sup_put n (p\<lparr>mp_state := Stopping, mp_kill_tx := None\<rparr>) s) of
                  (s', ks) \<Rightarrow> (s', (n, run) # ks))
           | _ \<Rightarrow> stop_tier ns s))"

definition tier_longest :: "sup \<Rightarrow> string list \<Rightarrow> u64" where
  "tier_longest s ns =
     foldl (\<lambda>m n. case sup_get s n of Some p \<Rightarrow> max m (pc_stop_timeout_secs (mp_config p)) | None \<Rightarrow> m) 0 ns"

definition shutdown_budget :: "sup \<Rightarrow> u64" where
  "shutdown_budget s =
     foldl (\<lambda>total ns. total + (tier_longest s ns + stop_slack_secs)) 0 (stop_tiers (dep_map_of s))"

end
