(* ===== verification/ExitRules.thy ===== *)
theory ExitRules
  imports SupOps
begin

text \<open>
  What the supervisor does with an exit (\<open>handle_exit\<close>, \<open>restart_with_backoff\<close>): exactly which exits are
  restarted, what the process looks like afterwards, and how many restarts a window can hold.
\<close>

lemma sup_get_put [simp]: "sup_get (sup_put n p s) m = (if m = n then Some p else sup_get s m)"
  by (simp add: sup_get_def sup_put_def update_conv')

lemma sup_put_simps [simp]:
  "su_shutting_down (sup_put n p s) = su_shutting_down s"
  "su_container_failed (sup_put n p s) = su_container_failed s"
  "su_events (sup_put n p s) = su_events s" "su_api (sup_put n p s) = su_api s"
  "su_emitted (sup_put n p s) = su_emitted s"
  by (simp_all add: sup_put_def)

lemma sup_emit_simps [simp]:
  "su_shutting_down (sup_emit k o' s) = su_shutting_down s"
  "su_container_failed (sup_emit k o' s) = su_container_failed s"
  "su_procs (sup_emit k o' s) = su_procs s" "sup_get (sup_emit k o' s) m = sup_get s m"
  by (simp_all add: sup_emit_def sup_get_def)

lemma sup_event_simps [simp]:
  "su_shutting_down (sup_event k n r m now s) = su_shutting_down s"
  "su_container_failed (sup_event k n r m now s) = su_container_failed s"
  "su_procs (sup_event k n r m now s) = su_procs s" "sup_get (sup_event k n r m now s) x = sup_get s x"
  by (simp_all add: sup_event_def sup_get_def)

lemma fail_container_simps [simp]:
  "su_shutting_down (fail_container s) = su_shutting_down s" "su_container_failed (fail_container s)"
  "su_procs (fail_container s) = su_procs s" "sup_get (fail_container s) x = sup_get s x"
  by (simp_all add: fail_container_def sup_get_def)

lemma announce_simps [simp]:
  "su_shutting_down (announce d f n now s) = su_shutting_down s"
  "su_procs (announce d f n now s) = su_procs s" "sup_get (announce d f n now s) x = sup_get s x"
  by (cases d; simp add: announce_def Let_def split: no_restart_action.splits)+

lemma exit_apply_get:
  "sup_get s n = Some p \<Longrightarrow> sup_get (fst (exit_apply f n now s)) n
     = Some (fst (apply_decision (decide (su_shutting_down s) f) f now p))"
  by (simp add: exit_apply_def Let_def split: prod.splits)

lemma exit_apply_next:
  "sup_get s n = Some p \<Longrightarrow> snd (exit_apply f n now s)
     = snd (apply_decision (decide (su_shutting_down s) f) f now p)"
  by (simp add: exit_apply_def Let_def split: prod.splits)

lemma exit_apply_shutting [simp]:
  "su_shutting_down (fst (exit_apply f n now s)) = su_shutting_down s"
  by (simp add: exit_apply_def Let_def split: option.splits prod.splits)

lemma exit_apply_other: "m \<noteq> n \<Longrightarrow> sup_get (fst (exit_apply f n now s)) m = sup_get s m"
  by (simp add: exit_apply_def Let_def split: option.splits prod.splits)

lemmas decision_simps = apply_decision_def count_restart_def count_crash_def back_off_def

text \<open>Which exits are restarted, from the configuration alone.\<close>

definition wants_restart :: "exit_facts \<Rightarrow> bool" where
  "wants_restart f =
     (let c = ef_config f; success = (ef_code f = Some 0);
          final = is_no_restart (ef_code f) (pc_no_restart_exit_codes c)
      in \<not> final \<and>
         (case pc_restart_policy c of
            Some policy \<Rightarrow> policy = Always \<or> policy = OnFailure \<and> \<not> success
          | None \<Rightarrow> (if success then pc_on_exit c = ExitRestart else pc_on_failure c = FailRestart)
                    \<and> ef_in_window f < unat (pc_max_restarts c)))"

lemma no_restart_not_success: "is_no_restart code codes \<Longrightarrow> code \<noteq> Some 0"
  by (auto simp: is_no_restart_def)

definition restarting :: "decision \<Rightarrow> bool" where
  "restarting d \<longleftrightarrow> (case d of Backoff \<Rightarrow> True | RestartClean _ \<Rightarrow> True | RestartCrashed _ \<Rightarrow> True | _ \<Rightarrow> False)"

lemma decide_restarting: "restarting (decide sd f) \<longleftrightarrow> \<not> sd \<and> wants_restart f"
  by (auto simp: decide_def wants_restart_def Let_def restarting_def policy_restarts_def
        dest: no_restart_not_success
        split: option.splits restart_policy.splits failure_action.splits exit_action.splits)
     (use exit_action.exhaust in auto)

lemma apply_restarting: "snd (apply_decision d f now p) \<noteq> None \<longleftrightarrow> restarting d"
  by (cases d) (simp_all add: decision_simps restarting_def Let_def)

lemma apply_state:
  "mp_state (fst (apply_decision d f now p)) \<in> (if restarting d then {Restarting, CrashLoopBackOff} else {Stopped, Failed})"
  by (cases d) (simp_all add: decision_simps restarting_def Let_def)

lemma apply_restarts:
  "mp_restarts (fst (apply_decision d f now p)) = mp_restarts p + (if restarting d then 1 else 0)"
  "mp_restart_timestamps (fst (apply_decision d f now p)) = mp_restart_timestamps p @ (if restarting d then [now] else [])"
  by (cases d; simp add: decision_simps restarting_def Let_def)+

lemma apply_crashes:
  "mp_crashes (fst (apply_decision d f now p))
     = mp_crashes p + (if d = StopForShutdown \<or> ef_code f = Some 0 then 0 else 1)"
  by (cases d) (simp_all add: decision_simps Let_def)

lemma apply_run [simp]:
  "mp_run (fst (apply_decision d f now p)) = mp_run p"
  "mp_config (fst (apply_decision d f now p)) = mp_config p"
  "mp_kill_tx (fst (apply_decision d f now p)) = mp_kill_tx p"
  "mp_pid (fst (apply_decision d f now p)) = mp_pid p"
  by (cases d; simp add: decision_simps Let_def)+

lemma decide_shutdown: "decide sd f = StopForShutdown \<longleftrightarrow> sd"
  by (auto simp: decide_def Let_def split: failure_action.splits)

lemma decided:
  fixes sd f now p
  defines "p' \<equiv> fst (apply_decision (decide sd f) f now p)"
  shows decided_next: "(snd (apply_decision (decide sd f) f now p) \<noteq> None) = (\<not> sd \<and> wants_restart f)"
    and decided_state: "mp_state p' \<in> (if \<not> sd \<and> wants_restart f then {Restarting, CrashLoopBackOff} else {Stopped, Failed})"
    and decided_stop: "if sd then mp_state p' = Stopped else True"
    and decided_restarts: "mp_restarts p' = mp_restarts p + (if \<not> sd \<and> wants_restart f then 1 else 0)"
    and decided_crashes: "mp_crashes p' = mp_crashes p + (if sd \<or> ef_code f = Some 0 then 0 else 1)"
proof -
  show "(snd (apply_decision (decide sd f) f now p) \<noteq> None) = (\<not> sd \<and> wants_restart f)"
    by (simp only: apply_restarting decide_restarting)
  show "mp_state p' \<in> (if \<not> sd \<and> wants_restart f then {Restarting, CrashLoopBackOff} else {Stopped, Failed})"
    using apply_state [of "decide sd f" f now p] unfolding p'_def decide_restarting .
  show "if sd then mp_state p' = Stopped else True"
    using decide_shutdown [of sd f] by (cases sd) (simp_all add: p'_def apply_decision_def)
  show "mp_restarts p' = mp_restarts p + (if \<not> sd \<and> wants_restart f then 1 else 0)"
    unfolding p'_def apply_restarts decide_restarting ..
  show "mp_crashes p' = mp_crashes p + (if sd \<or> ef_code f = Some 0 then 0 else 1)"
    unfolding p'_def apply_crashes decide_shutdown ..
qed

section \<open>The restart budget\<close>

text \<open>
  One run after another of a process without a Kubernetes policy, outside a shutdown: started, exited
  with a code, and either restarted or left. Each run is given as when it started, its exit code and when
  it exited.
\<close>

fun life :: "(millis \<times> i32 option \<times> millis) list \<Rightarrow> managed \<Rightarrow> managed" where
  "life [] p = p"
| "life ((started, code, now) # es) p =
     (let p1 = mark_running None (mp_run p + 1) started (begin_run p);
          f = facts_of_exit code now p1
      in case apply_decision (decide False f) f now (exit_record code now p1) of
           (p2, None) \<Rightarrow> p2
         | (p2, Some _) \<Rightarrow> life es p2)"

definition restarts_within :: "int \<Rightarrow> millis \<Rightarrow> managed \<Rightarrow> nat" where
  "restarts_within w t p = length (filter (\<lambda>x. t - w < x \<and> x \<le> t) (mp_restart_timestamps p))"

definition budget :: "process_config \<Rightarrow> millis \<Rightarrow> managed \<Rightarrow> bool" where
  "budget c now p \<longleftrightarrow> mp_config p = c \<and> list_all (\<lambda>x. x \<le> now) (mp_restart_timestamps p) \<and>
     (\<forall>t. restarts_within (1000 * sint (pc_restart_window_secs c)) t p \<le> unat (pc_max_restarts c))"

lemma window_count: "list_all (\<lambda>x. x \<le> now) (mp_restart_timestamps p) \<Longrightarrow>
    restart_count_in_window now w p = restarts_within (1000 * sint w) now p"
  by (simp add: restart_count_in_window_def restarts_within_def list_all_iff cong: filter_cong)

lemma count_before: "list_all (\<lambda>x. x \<le> now) ts \<Longrightarrow> now \<le> t \<Longrightarrow>
    length (filter (\<lambda>x. t - w < x \<and> x \<le> t) ts) \<le> length (filter (\<lambda>x. now - w < x \<and> x \<le> now) ts)"
  for ts :: "int list" by (induction ts) auto

lemma one_more_restart:
  fixes now :: int
  assumes "list_all (\<lambda>x. x \<le> now) ts"
    and "length (filter (\<lambda>x. now - w < x \<and> x \<le> now) ts) < m"
    and "length (filter (\<lambda>x. t - w < x \<and> x \<le> t) ts) \<le> m"
  shows "length (filter (\<lambda>x. t - w < x \<and> x \<le> t) (ts @ [now])) \<le> m"
  using assms count_before [of now ts t w] by (cases "now \<le> t") auto

lemma budget_step:
  assumes b: "budget c t0 p" and le: "t0 \<le> now" and none: "pc_restart_policy c = None"
    and q: "mp_config q = c" "mp_restart_timestamps q = mp_restart_timestamps p"
  shows "budget c now (fst (apply_decision (decide False (facts_of_exit code now q))
     (facts_of_exit code now q) now (exit_record code now q)))"
proof -
  let ?f = "facts_of_exit code now q" and ?ts = "mp_restart_timestamps p"
  let ?w = "1000 * sint (pc_restart_window_secs c)" and ?m = "unat (pc_max_restarts c)"
  have old: "list_all (\<lambda>x. x \<le> now) ?ts"
    using b le by (auto simp: budget_def list_all_iff)
  have rec: "mp_restart_timestamps (exit_record code now q) = ?ts" "mp_config (exit_record code now q) = c"
    using q by (simp_all add: exit_record_def)
  have free: "length (filter (\<lambda>x. now - ?w < x \<and> x \<le> now) ?ts) < ?m" if "restarting (decide False ?f)"
    using that none old q window_count [of now q "pc_restart_window_secs c"]
    by (simp add: decide_restarting wants_restart_def facts_of_exit_def restarts_within_def Let_def)
  show ?thesis
  proof (cases "restarting (decide False ?f)")
    case True
    then show ?thesis
      using b old rec one_more_restart [OF old free [OF True]]
      by (simp add: budget_def restarts_within_def apply_restarts list_all_iff)
  next
    case False
    then show ?thesis
      using b old rec by (simp add: budget_def restarts_within_def apply_restarts)
  qed
qed

lemma life_budget:
  "budget c t0 p \<Longrightarrow> pc_restart_policy c = None \<Longrightarrow> sorted (t0 # map (snd \<circ> snd) es) \<Longrightarrow>
     \<exists>t1. budget c t1 (life es p)"
proof (induction es arbitrary: t0 p)
  case Nil
  then show ?case by auto
next
  case (Cons e es)
  obtain started code now where e: "e = (started, code, now)" by (cases e)
  let ?q = "mark_running None (mp_run p + 1) started (begin_run p)"
  let ?f = "facts_of_exit code now ?q"
  obtain p2 nxt where ap: "apply_decision (decide False ?f) ?f now (exit_record code now ?q) = (p2, nxt)"
    by (cases "apply_decision (decide False ?f) ?f now (exit_record code now ?q)") auto
  have le: "t0 \<le> now" "sorted (now # map (snd \<circ> snd) es)"
    using Cons.prems(3) by (auto simp: e comp_def)
  have "mp_config ?q = c" "mp_restart_timestamps ?q = mp_restart_timestamps p"
    using Cons.prems(1) by (simp_all add: budget_def mark_running_def begin_run_def)
  then have b2: "budget c now p2"
    using budget_step [OF Cons.prems(1) le(1) Cons.prems(2), of ?q code] by (simp only: ap fst_conv)
  show ?case
  proof (cases nxt)
    case None
    then show ?thesis using ap b2 by (auto simp only: e life.simps Let_def prod.case option.case)
  next
    case (Some d)
    then show ?thesis
      using ap Cons.IH [OF b2 Cons.prems(2) le(2)] by (simp add: e Let_def)
  qed
qed

lemma budget_new: "budget c t (managed_new c)"
  by (simp add: budget_def managed_new_def restarts_within_def)

section \<open>Properties\<close>

text \<open>C1: an exit of a managed process is followed by a restart exactly when no shutdown has begun and its
  configuration asks for one (a listed exit code never; a Kubernetes policy by its rule and without a
  limit; otherwise \<open>on_exit\<close> or \<open>on_failure\<close>, with budget left). The process then waits in
  \<open>Restarting\<close> or \<open>CrashLoopBackOff\<close> with one restart more, and otherwise ends \<open>Stopped\<close> or
  \<open>Failed\<close> with its restarts unchanged. A failed exit is one crash more, except that an exit
  during the shutdown is a stop and counts as none.\<close>

theorem restart_exactly_when:
  assumes "sup_get s n = Some p"
  shows "\<exists>p'. sup_get (fst (exit_apply f n now s)) n = Some p' \<and>
    (snd (exit_apply f n now s) \<noteq> None) = (\<not> su_shutting_down s \<and> wants_restart f) \<and>
    mp_state p' \<in> (if \<not> su_shutting_down s \<and> wants_restart f then {Restarting, CrashLoopBackOff} else {Stopped, Failed}) \<and>
    (if su_shutting_down s then mp_state p' = Stopped else True) \<and>
    mp_restarts p' = mp_restarts p + (if \<not> su_shutting_down s \<and> wants_restart f then 1 else 0) \<and>
    mp_crashes p' = mp_crashes p + (if su_shutting_down s \<or> ef_code f = Some 0 then 0 else 1)"
  unfolding exit_apply_get [OF assms] exit_apply_next [OF assms]
  by (intro exI [where x = "fst (apply_decision (decide (su_shutting_down s) f) f now p)"]
    conjI refl decided_next decided_state decided_stop decided_restarts decided_crashes)

definition demo_config :: process_config where
  "demo_config = process_config_default ''api'' ''/bin/api''"

definition demo_sup :: sup where
  "demo_sup = register_process demo_config sup_new"

definition crash_facts :: exit_facts where
  "crash_facts = \<lparr>ef_config = demo_config, ef_code = Some 1, ef_in_window = 9, ef_ran_secs = 4\<rparr>"

theorem restart_exactly_when_witness:
  "sup_get demo_sup ''api'' = Some (managed_new demo_config) \<and>
   (snd (exit_apply crash_facts ''api'' 5000 demo_sup) \<noteq> None) = wants_restart crash_facts"
proof -
  have g: "sup_get demo_sup ''api'' = Some (managed_new demo_config)"
    by (simp add: demo_sup_def register_process_def demo_config_def process_config_default_def)
  have sd: "su_shutting_down demo_sup = False"
    by (simp add: demo_sup_def register_process_def sup_new_def)
  show ?thesis
    using restart_exactly_when [OF g, of crash_facts 5000] g sd by (simp only:) auto
qed



end
