(* ===== verification/Supervisor.thy ===== *)
theory Supervisor
  imports ExitRules
begin

text \<open>
  The running supervisor (\<open>crates/stormd/src/supervisor.rs\<close>) as a transition system. A step is one
  section of a task between two points where it can be held up: a section under the process's lock, a
  check of the shutdown flag with what follows it at once, a fork. Every task of the program that
  touches a process is an element of \<open>sy_tasks\<close> with the place it has reached, every monitor task an
  element of \<open>sy_watchers\<close>; the children alive are \<open>sy_alive\<close>, a child being named by its process and
  run. What only passes time (polls, sleeps, the start delay) is that the step may be taken later.
\<close>

datatype stage = Deps "string list" | Files | Vars | Goldens | Delay | Spawning

datatype task =
    Admitted string purpose
  | Begun string nat process_config purpose
  | Forked string nat "u32 option" purpose
  | Marked string nat purpose
  | ExitSent string "i32 option"
  | ExitSeen string exit_facts
  | Cooling string purpose
  | RestartWait string
  | StoppingTiers "string list list"
  | TierWait "string list" "string list list"

text \<open>A monitor: its process and run, and whether it is stopping its child on request.\<close>

type_synonym watcher = "string \<times> nat \<times> bool"

record sys =
  sy_sup :: sup
  sy_order :: "process_config list"
  sy_stage :: stage
  sy_tasks :: "task list"
  sy_watchers :: "watcher list"
  sy_alive :: "(string \<times> nat) list"

section \<open>Small pieces\<close>

definition sys_map :: "(sup \<Rightarrow> sup) \<Rightarrow> sys \<Rightarrow> sys" where
  "sys_map f s = s\<lparr>sy_sup := f (sy_sup s)\<rparr>"

definition add_task :: "task \<Rightarrow> sys \<Rightarrow> sys" where
  "add_task t s = s\<lparr>sy_tasks := sy_tasks s @ [t]\<rparr>"

definition take_task :: "task \<Rightarrow> sys \<Rightarrow> sys option" where
  "take_task t s = (if t \<in> set (sy_tasks s) then Some (s\<lparr>sy_tasks := remove1 t (sy_tasks s)\<rparr>) else None)"

definition order_from :: "process_config list \<Rightarrow> sys \<Rightarrow> sys" where
  "order_from cs s = s\<lparr>sy_order := cs, sy_stage := (case cs of [] \<Rightarrow> Spawning | c # _ \<Rightarrow> Deps (pc_depends_on c))\<rparr>"

text \<open>\<open>start_all\<close>, first half: every process is registered, then the start order begins.\<close>

definition sys_start :: "process_config list \<Rightarrow> sys" where
  "sys_start cs = order_from cs \<lparr>sy_sup = register_all cs sup_new, sy_order = [], sy_stage = Spawning,
     sy_tasks = [], sy_watchers = [], sy_alive = []\<rparr>"

section \<open>Spawning\<close>

text \<open>
  The end of \<open>spawn_process\<close> for its caller: the start order goes on after a start and ends at the
  first error, the other callers do what \<open>spawn_failed\<close> says.
\<close>

definition spawn_ended :: "purpose \<Rightarrow> bool \<Rightarrow> string \<Rightarrow> sys \<Rightarrow> sys" where
  "spawn_ended why ok n s =
     (let s1 = (if ok then s else sys_map (spawn_failed why n) s)
      in case why of FromStartOrder \<Rightarrow> order_from (if ok then tl (sy_order s1) else []) s1 | _ \<Rightarrow> s1)"

type_synonym inherited = "string \<Rightarrow> bool"
type_synonym var_map = "string \<Rightarrow> string option"

definition admit :: "purpose \<Rightarrow> string \<Rightarrow> inherited \<Rightarrow> var_map \<Rightarrow> sys \<Rightarrow> sys" where
  "admit why n inherited vars s =
     (case spawn_admit (sy_sup s) n inherited vars of
        Inr _ \<Rightarrow> add_task (Admitted n why) s
      | Inl _ \<Rightarrow> spawn_ended why False n s)"

definition do_begin :: "string \<Rightarrow> purpose \<Rightarrow> sys \<Rightarrow> sys option" where
  "do_begin n why s =
     (case (take_task (Admitted n why) s, sup_get (sy_sup s) n) of
        (Some s1, Some p) \<Rightarrow>
          Some (add_task (Begun n (mp_run (begin_run p)) (mp_config p) why) (sys_map (sup_put n (begin_run p)) s1))
      | _ \<Rightarrow> None)"

definition do_fork :: "string \<Rightarrow> nat \<Rightarrow> process_config \<Rightarrow> purpose \<Rightarrow> u32 option \<Rightarrow> sys \<Rightarrow> sys option" where
  "do_fork n run cfg why pid s =
     map_option (\<lambda>s1. add_task (Forked n run pid why) (s1\<lparr>sy_alive := (n, run) # sy_alive s1\<rparr>))
       (take_task (Begun n run cfg why) s)"

definition do_fork_fails :: "string \<Rightarrow> nat \<Rightarrow> process_config \<Rightarrow> purpose \<Rightarrow> sys \<Rightarrow> sys option" where
  "do_fork_fails n run cfg why s = map_option (spawn_ended why False n) (take_task (Begun n run cfg why) s)"

definition do_mark :: "string \<Rightarrow> nat \<Rightarrow> u32 option \<Rightarrow> purpose \<Rightarrow> millis \<Rightarrow> sys \<Rightarrow> sys option" where
  "do_mark n run pid why now s =
     (case (take_task (Forked n run pid why) s, sup_get (sy_sup s) n) of
        (Some s1, Some p) \<Rightarrow>
          Some (add_task (Marked n run why) (sys_map (sup_mark_running n pid run now p) s1))
      | _ \<Rightarrow> None)"

text \<open>
  The kill handle is stored and the monitor starts. Storing it drops the handle of an earlier run that
  was still there, and a dropped handle tells that run's monitor to stop its child.
\<close>

definition do_arm :: "string \<Rightarrow> nat \<Rightarrow> purpose \<Rightarrow> sys \<Rightarrow> sys option" where
  "do_arm n run why s =
     (case (take_task (Marked n run why) s, sup_get (sy_sup s) n) of
        (Some s1, Some p) \<Rightarrow>
          Some (spawn_ended why True n
            (sys_map (sup_put n (arm_run run p)) (s1\<lparr>sy_watchers := sy_watchers s1 @ [(n, run, False)]\<rparr>)))
      | _ \<Rightarrow> None)"

section \<open>The start order\<close>

text \<open>\<open>wait_for_dependencies\<close>: on to the next name when this one is satisfied, or shutdown began.\<close>

definition do_order_dep :: "sys \<Rightarrow> sys option" where
  "do_order_dep s =
     (case (sy_order s, sy_stage s) of
        (c # _, Deps []) \<Rightarrow> Some (s\<lparr>sy_stage := Files\<rparr>)
      | (c # _, Deps (d # ds)) \<Rightarrow>
          if su_shutting_down (sy_sup s) then Some (s\<lparr>sy_stage := Files\<rparr>)
          else if dependency_ok (sy_sup s) d then Some (s\<lparr>sy_stage := Deps ds\<rparr>) else None
      | _ \<Rightarrow> None)"

definition do_order_files :: "(string \<Rightarrow> bool) \<Rightarrow> var_map \<Rightarrow> sys \<Rightarrow> sys option" where
  "do_order_files exists vars s =
     (case (sy_order s, sy_stage s) of
        (c # _, Files) \<Rightarrow>
          if missing_files exists (map (expand vars) (pc_wait_for_files c)) = [] \<or> su_shutting_down (sy_sup s)
          then Some (s\<lparr>sy_stage := Vars\<rparr>) else None
      | _ \<Rightarrow> None)"

definition vars_ready :: "string \<Rightarrow> inherited \<Rightarrow> var_map \<Rightarrow> sup \<Rightarrow> bool" where
  "vars_ready n inherited vars s =
     (case sup_get s n of
        None \<Rightarrow> True
      | Some p \<Rightarrow> node_vars_missing (mp_config p) inherited vars = None \<or> su_shutting_down s)"

definition do_order_vars :: "inherited \<Rightarrow> var_map \<Rightarrow> sys \<Rightarrow> sys option" where
  "do_order_vars inherited vars s =
     (case (sy_order s, sy_stage s) of
        (c # _, Vars) \<Rightarrow>
          if vars_ready (pc_name c) inherited vars (sy_sup s) then Some (s\<lparr>sy_stage := Goldens\<rparr>) else None
      | _ \<Rightarrow> None)"

text \<open>\<open>present_goldens\<close> gives up only when shutdown began.\<close>

definition do_order_goldens :: "bool \<Rightarrow> sys \<Rightarrow> sys option" where
  "do_order_goldens presented s =
     (case (sy_order s, sy_stage s) of
        (c # _, Goldens) \<Rightarrow>
          if presented then Some (s\<lparr>sy_stage := Delay\<rparr>)
          else if su_shutting_down (sy_sup s) \<and> pc_golden c \<noteq> [] then Some (order_from [] s) else None
      | _ \<Rightarrow> None)"

definition do_order_spawn :: "inherited \<Rightarrow> var_map \<Rightarrow> sys \<Rightarrow> sys option" where
  "do_order_spawn inherited vars s =
     (case (sy_order s, sy_stage s) of
        (c # _, Delay) \<Rightarrow>
          if su_shutting_down (sy_sup s) then Some (order_from [] s)
          else Some (admit FromStartOrder (pc_name c) inherited vars (s\<lparr>sy_stage := Spawning\<rparr>))
      | _ \<Rightarrow> None)"

section \<open>Exits\<close>

definition do_dies :: "string \<Rightarrow> nat \<Rightarrow> sys \<Rightarrow> sys option" where
  "do_dies n run s =
     (if (n, run) \<in> set (sy_alive s) then Some (s\<lparr>sy_alive := remove1 (n, run) (sy_alive s)\<rparr>) else None)"

definition do_sees_exit :: "string \<Rightarrow> nat \<Rightarrow> i32 option \<Rightarrow> sys \<Rightarrow> sys option" where
  "do_sees_exit n run code s =
     (if (n, run, False) \<in> set (sy_watchers s) \<and> (n, run) \<notin> set (sy_alive s)
      then Some (add_task (ExitSent n code) (s\<lparr>sy_watchers := remove1 (n, run, False) (sy_watchers s)\<rparr>))
      else None)"

text \<open>The monitor's kill handle fired: it was used, or it was dropped.\<close>

definition kill_fired :: "string \<Rightarrow> nat \<Rightarrow> sup \<Rightarrow> bool" where
  "kill_fired n run s = (case sup_get s n of None \<Rightarrow> True | Some p \<Rightarrow> mp_kill_tx p \<noteq> Some run)"

definition do_sees_kill :: "string \<Rightarrow> nat \<Rightarrow> sys \<Rightarrow> sys option" where
  "do_sees_kill n run s =
     (if (n, run, False) \<in> set (sy_watchers s) \<and> kill_fired n run (sy_sup s)
      then Some (s\<lparr>sy_watchers := (n, run, True) # remove1 (n, run, False) (sy_watchers s)\<rparr>)
      else None)"

text \<open>\<open>stop_child\<close> returns only once the child is gone; then the monitor writes the state down.\<close>

definition do_monitor_stopped :: "string \<Rightarrow> nat \<Rightarrow> i32 option \<Rightarrow> millis \<Rightarrow> sys \<Rightarrow> sys option" where
  "do_monitor_stopped n run code now s =
     (case sup_get (sy_sup s) n of
        Some p \<Rightarrow>
          if (n, run, True) \<in> set (sy_watchers s) \<and> (n, run) \<notin> set (sy_alive s)
          then Some (sys_map (sup_put n (monitor_stopped code now p))
                 (s\<lparr>sy_watchers := remove1 (n, run, True) (sy_watchers s)\<rparr>))
          else None
      | None \<Rightarrow> None)"

definition do_exit_record :: "string \<Rightarrow> i32 option \<Rightarrow> millis \<Rightarrow> sys \<Rightarrow> sys option" where
  "do_exit_record n code now s =
     map_option
       (\<lambda>s1. case sup_get (sy_sup s1) n of
               None \<Rightarrow> s1
             | Some p \<Rightarrow> add_task (ExitSeen n (facts_of_exit code now p)) (sys_map (sup_put n (exit_record code now p)) s1))
       (take_task (ExitSent n code) s)"

definition do_exit_apply :: "string \<Rightarrow> exit_facts \<Rightarrow> millis \<Rightarrow> sys \<Rightarrow> sys option" where
  "do_exit_apply n f now s =
     map_option
       (\<lambda>s1. case exit_apply f n now (sy_sup s1) of
               (u, None) \<Rightarrow> s1\<lparr>sy_sup := u\<rparr>
             | (u, Some (why, _)) \<Rightarrow> add_task (Cooling n why) (s1\<lparr>sy_sup := u\<rparr>))
       (take_task (ExitSeen n f) s)"

text \<open>
  \<open>stand_down\<close>, else the restart: the node's values are read again by \<open>spawn_process\<close>.
\<close>

definition stand_down :: "string \<Rightarrow> sup \<Rightarrow> sup" where
  "stand_down n s = (case sup_get s n of None \<Rightarrow> s | Some p \<Rightarrow> sup_put n (p\<lparr>mp_state := Stopped\<rparr>) s)"

definition do_cooled_off :: "string \<Rightarrow> purpose \<Rightarrow> inherited \<Rightarrow> var_map \<Rightarrow> var_map \<Rightarrow> sys \<Rightarrow> sys option" where
  "do_cooled_off n why inherited vars vars' s =
     (case take_task (Cooling n why) s of
        None \<Rightarrow> None
      | Some s1 \<Rightarrow>
          if \<not> vars_ready n inherited vars (sy_sup s1) then None
          else if su_shutting_down (sy_sup s1) then Some (sys_map (stand_down n) s1)
          else Some (admit why n inherited vars' s1))"

section \<open>Requests\<close>

definition do_api_start :: "string \<Rightarrow> inherited \<Rightarrow> var_map \<Rightarrow> sys \<Rightarrow> sys option" where
  "do_api_start n inherited vars s =
     (case request_start n (sy_sup s) of Inl _ \<Rightarrow> None | Inr _ \<Rightarrow> Some (admit FromApi n inherited vars s))"

definition do_api_stop :: "string \<Rightarrow> millis \<Rightarrow> sys \<Rightarrow> sys option" where
  "do_api_stop n now s =
     (case request_stop n now (sy_sup s) of Inl _ \<Rightarrow> None | Inr (u, _) \<Rightarrow> Some (s\<lparr>sy_sup := u\<rparr>))"

text \<open>\<open>restart_process\<close>: stop a running process and wait, then (or at once) spawn it.\<close>

definition do_api_restart :: "string \<Rightarrow> millis \<Rightarrow> inherited \<Rightarrow> var_map \<Rightarrow> sys \<Rightarrow> sys option" where
  "do_api_restart n now inherited vars s =
     (case sup_get (sy_sup s) n of
        Some p \<Rightarrow>
          if mp_state p = Running then map_option (add_task (RestartWait n)) (do_api_stop n now s)
          else Some (admit FromApi n inherited vars s)
      | None \<Rightarrow> Some (admit FromApi n inherited vars s))"

text \<open>\<open>wait_stopped\<close> ends when the stop has landed or its time is up.\<close>

definition do_restart_go :: "string \<Rightarrow> bool \<Rightarrow> inherited \<Rightarrow> var_map \<Rightarrow> sys \<Rightarrow> sys option" where
  "do_restart_go n timed_out inherited vars s =
     (case take_task (RestartWait n) s of
        None \<Rightarrow> None
      | Some s1 \<Rightarrow>
          if timed_out \<or> (case sup_get (sy_sup s1) n of Some p \<Rightarrow> landed p | None \<Rightarrow> True)
          then Some (admit FromApi n inherited vars s1) else None)"

definition do_update_config :: "string \<Rightarrow> process_config \<Rightarrow> sys \<Rightarrow> sys option" where
  "do_update_config n c s =
     (case update_process_config n c (sy_sup s) of Inl _ \<Rightarrow> None | Inr u \<Rightarrow> Some (s\<lparr>sy_sup := u\<rparr>))"

section \<open>The watchers of a run\<close>

datatype seen_of_run =
    StartupPassed process_config
  | LivenessSeen bool
  | ReadinessSeen bool
  | ReadyProbePassed

definition note_run :: "nat \<Rightarrow> seen_of_run \<Rightarrow> millis \<Rightarrow> managed \<Rightarrow> managed" where
  "note_run run what now p =
     (case what of
        StartupPassed cfg \<Rightarrow> startup_passed run cfg now p
      | LivenessSeen ok \<Rightarrow> liveness_result run ok now p
      | ReadinessSeen ready \<Rightarrow> readiness_result run ready now p
      | ReadyProbePassed \<Rightarrow> ready_probe_passed run now p)"

definition do_note :: "string \<Rightarrow> nat \<Rightarrow> seen_of_run \<Rightarrow> millis \<Rightarrow> sys \<Rightarrow> sys option" where
  "do_note n run what now s =
     map_option (\<lambda>p. sys_map (sup_put n (note_run run what now p)) s) (sup_get (sy_sup s) n)"

section \<open>Shutting down\<close>

definition begin_shutdown :: "sup \<Rightarrow> sup" where
  "begin_shutdown s = s\<lparr>su_shutting_down := True\<rparr>"

definition do_stop_all :: "sys \<Rightarrow> sys" where
  "do_stop_all s = add_task (StoppingTiers (stop_tiers (dep_map_of (sy_sup s)))) (sys_map begin_shutdown s)"

definition do_stop_tier :: "string list \<Rightarrow> string list list \<Rightarrow> sys \<Rightarrow> sys option" where
  "do_stop_tier tier rest s =
     map_option (\<lambda>s1. add_task (TierWait tier rest) (sys_map (\<lambda>u. fst (stop_tier tier u)) s1))
       (take_task (StoppingTiers (tier # rest)) s)"

definition tier_stopping :: "string list \<Rightarrow> sup \<Rightarrow> bool" where
  "tier_stopping tier s \<longleftrightarrow>
     list_ex (\<lambda>n. case sup_get s n of Some p \<Rightarrow> mp_state p = Stopping | None \<Rightarrow> False) tier"

definition do_tier_done :: "string list \<Rightarrow> string list list \<Rightarrow> bool \<Rightarrow> sys \<Rightarrow> sys option" where
  "do_tier_done tier rest timed_out s =
     (if tier_stopping tier (sy_sup s) \<and> \<not> timed_out then None
      else map_option (add_task (StoppingTiers rest)) (take_task (TierWait tier rest) s))"

section \<open>Steps\<close>

datatype action =
    OrderDep
  | OrderFiles "string \<Rightarrow> bool" var_map
  | OrderVars inherited var_map
  | OrderGoldens bool
  | OrderSpawn inherited var_map
  | Begin string purpose
  | Fork string nat process_config purpose "u32 option"
  | ForkFails string nat process_config purpose
  | Mark string nat "u32 option" purpose millis
  | Arm string nat purpose
  | Dies string nat
  | SeesExit string nat "i32 option"
  | SeesKill string nat
  | MonitorStopped string nat "i32 option" millis
  | ExitRecord string "i32 option" millis
  | ExitApply string exit_facts millis
  | CooledOff string purpose inherited var_map var_map
  | ApiStart string inherited var_map
  | ApiStop string millis
  | ApiRestart string millis inherited var_map
  | RestartGo string bool inherited var_map
  | UpdateConfig string process_config
  | Note string nat seen_of_run millis
  | BeginShutdown
  | StopAll
  | StopTier "string list" "string list list"
  | TierDone "string list" "string list list" bool

fun act :: "action \<Rightarrow> sys \<Rightarrow> sys option" where
  "act OrderDep s = do_order_dep s"
| "act (OrderFiles exists vars) s = do_order_files exists vars s"
| "act (OrderVars inh vars) s = do_order_vars inh vars s"
| "act (OrderGoldens presented) s = do_order_goldens presented s"
| "act (OrderSpawn inh vars) s = do_order_spawn inh vars s"
| "act (Begin n why) s = do_begin n why s"
| "act (Fork n run cfg why pid) s = do_fork n run cfg why pid s"
| "act (ForkFails n run cfg why) s = do_fork_fails n run cfg why s"
| "act (Mark n run pid why now) s = do_mark n run pid why now s"
| "act (Arm n run why) s = do_arm n run why s"
| "act (Dies n run) s = do_dies n run s"
| "act (SeesExit n run code) s = do_sees_exit n run code s"
| "act (SeesKill n run) s = do_sees_kill n run s"
| "act (MonitorStopped n run code now) s = do_monitor_stopped n run code now s"
| "act (ExitRecord n code now) s = do_exit_record n code now s"
| "act (ExitApply n f now) s = do_exit_apply n f now s"
| "act (CooledOff n why inh vars vars') s = do_cooled_off n why inh vars vars' s"
| "act (ApiStart n inh vars) s = do_api_start n inh vars s"
| "act (ApiStop n now) s = do_api_stop n now s"
| "act (ApiRestart n now inh vars) s = do_api_restart n now inh vars s"
| "act (RestartGo n timed_out inh vars) s = do_restart_go n timed_out inh vars s"
| "act (UpdateConfig n c) s = do_update_config n c s"
| "act (Note n run what now) s = do_note n run what now s"
| "act BeginShutdown s = Some (sys_map begin_shutdown s)"
| "act StopAll s = Some (do_stop_all s)"
| "act (StopTier tier rest) s = do_stop_tier tier rest s"
| "act (TierDone tier rest timed_out) s = do_tier_done tier rest timed_out s"

fun acts :: "action list \<Rightarrow> sys \<Rightarrow> sys option" where
  "acts [] s = Some s"
| "acts (a # as) s = (case act a s of None \<Rightarrow> None | Some t \<Rightarrow> acts as t)"

inductive sup_step :: "sys \<Rightarrow> sys \<Rightarrow> bool" where
  step: "act a s = Some t \<Longrightarrow> sup_step s t"

inductive_cases sup_stepE: "sup_step s t"

end
