(* ===== verification/SupInvariants.thy ===== *)
theory SupInvariants
  imports Supervisor
begin

text \<open>
  What holds in every state the supervisor can reach: every child alive is looked after by exactly one
  task of the supervisor, no run is used twice, and once shutdown has begun no run starts that was not
  already let through.
\<close>

section \<open>What the steps do to runs, tasks and children\<close>

definition runs_of :: "sup \<Rightarrow> string \<Rightarrow> nat option" where
  "runs_of s n = map_option mp_run (sup_get s n)"

lemma runs_of_put: "runs_of (sup_put n p s) = (runs_of s)(n \<mapsto> mp_run p)"
  by (auto simp: runs_of_def)

lemma runs_of_put_same [simp]:
  "sup_get s n = Some p \<Longrightarrow> mp_run q = mp_run p \<Longrightarrow> runs_of (sup_put n q s) = runs_of s"
  by (auto simp: runs_of_def)

lemma runs_of_frame [simp]:
  "runs_of (sup_emit k x s) = runs_of s" "runs_of (sup_event k' n r m now s) = runs_of s"
  "runs_of (announce d f n now s) = runs_of s" "runs_of (begin_shutdown s) = runs_of s"
  "runs_of (s\<lparr>su_container_failed := b\<rparr>) = runs_of s"
  by (auto simp: runs_of_def fun_eq_iff begin_shutdown_def sup_get_def)

lemma run_frame [simp]:
  "mp_run (exit_record code now p) = mp_run p" "mp_run (mark_running pid run now p) = mp_run p"
  "mp_run (arm_run run p) = mp_run p" "mp_run (monitor_stopped code now p) = mp_run p"
  "mp_run (note_run run what now p) = mp_run p" "mp_run (begin_run p) = Suc (mp_run p)"
  by (auto simp: exit_record_def mark_running_def arm_run_def monitor_stopped_def begin_run_def
      note_run_def startup_passed_def liveness_result_def readiness_result_def ready_probe_passed_def
      Let_def split: seen_of_run.splits)

lemma runs_of_exit_apply [simp]: "runs_of (fst (exit_apply f n now s)) = runs_of s"
  by (simp add: exit_apply_def Let_def split: option.splits prod.splits)
     (metis apply_run(1) fst_conv runs_of_put_same)

lemma runs_of_spawn_failed [simp]: "runs_of (spawn_failed why n s) = runs_of s"
  by (simp add: spawn_failed_def split: option.splits purpose.splits)

lemma runs_of_stop_tier [simp]: "runs_of (fst (stop_tier ns s)) = runs_of s"
  by (induction ns arbitrary: s) (auto split: option.splits process_state.splits simp: case_prod_beta)

lemma runs_of_stand_down [simp]: "runs_of (stand_down n s) = runs_of s"
  by (simp add: stand_down_def split: option.splits)

lemma shutting_frame [simp]:
  "su_shutting_down (spawn_failed why n s) = su_shutting_down s"
  "su_shutting_down (stand_down n s) = su_shutting_down s"
  "su_shutting_down (begin_shutdown s)"
  "su_shutting_down (sup_mark_running n pid run now p s) = su_shutting_down s"
  by (simp_all add: spawn_failed_def stand_down_def begin_shutdown_def sup_mark_running_def
      split: option.splits purpose.splits)

lemma runs_of_mark [simp]: "sup_get s n = Some p \<Longrightarrow> runs_of (sup_mark_running n pid run now p s) = runs_of s"
  by (simp add: sup_mark_running_def)

lemma shutting_stop_tier [simp]: "su_shutting_down (fst (stop_tier ns s)) = su_shutting_down s"
  by (induction ns arbitrary: s) (auto split: option.splits process_state.splits simp: case_prod_beta)

text \<open>How many tasks of a kind there are.\<close>

definition tally :: "('a \<Rightarrow> bool) \<Rightarrow> 'a list \<Rightarrow> nat" where
  "tally P xs = length (filter P xs)"

lemma tally_simps [simp]:
  "tally P [] = 0" "tally P (x # xs) = (if P x then 1 else 0) + tally P xs" "tally P (xs @ ys) = tally P xs + tally P ys"
  by (simp_all add: tally_def)

lemma tally_remove1: "x \<in> set xs \<Longrightarrow> tally P xs = (if P x then 1 else 0) + tally P (remove1 x xs)"
  by (induction xs) auto

lemma tally_mem: "x \<in> set xs \<Longrightarrow> P x \<Longrightarrow> 1 \<le> tally P xs"
  by (induction xs) auto

lemma tally_pos: "0 < tally P xs \<longleftrightarrow> (\<exists>x \<in> set xs. P x)"
  by (induction xs) auto

fun spawning_run :: "string \<Rightarrow> nat \<Rightarrow> task \<Rightarrow> bool" where
  "spawning_run n r (Begun m q _ _) = (m = n \<and> q = r)"
| "spawning_run n r (Forked m q _ _) = (m = n \<and> q = r)"
| "spawning_run n r (Marked m q _) = (m = n \<and> q = r)"
| "spawning_run n r _ = False"

fun forked_run :: "string \<Rightarrow> nat \<Rightarrow> task \<Rightarrow> bool" where
  "forked_run n r (Forked m q _ _) = (m = n \<and> q = r)"
| "forked_run n r (Marked m q _) = (m = n \<and> q = r)"
| "forked_run n r _ = False"

fun watches :: "string \<Rightarrow> nat \<Rightarrow> watcher \<Rightarrow> bool" where
  "watches n r (m, q, _) = (m = n \<and> q = r)"

fun admitted_for :: "string \<Rightarrow> task \<Rightarrow> bool" where
  "admitted_for n (Admitted m _) = (m = n)"
| "admitted_for n _ = False"

text \<open>The tasks that look after a run, from the moment it has a number; and those with a child.\<close>

definition keepers :: "string \<Rightarrow> nat \<Rightarrow> sys \<Rightarrow> nat" where
  "keepers n r s = tally (spawning_run n r) (sy_tasks s) + tally (watches n r) (sy_watchers s)"

definition holders :: "string \<Rightarrow> nat \<Rightarrow> sys \<Rightarrow> nat" where
  "holders n r s = tally (forked_run n r) (sy_tasks s) + tally (watches n r) (sy_watchers s)"

definition children :: "string \<Rightarrow> nat \<Rightarrow> sys \<Rightarrow> nat" where
  "children n r s = tally (\<lambda>c. c = (n, r)) (sy_alive s)"

definition sys_inv :: "sys \<Rightarrow> bool" where
  "sys_inv s \<longleftrightarrow> (\<forall>n r. children n r s \<le> holders n r s \<and> keepers n r s \<le> 1 \<and>
     (0 < keepers n r s \<longrightarrow> (\<exists>q. runs_of (sy_sup s) n = Some q \<and> r \<le> q)))"

lemmas count_defs = keepers_def holders_def children_def

section \<open>The invariant\<close>

lemma sys_invI: "(\<And>n r. children n r s \<le> holders n r s) \<Longrightarrow> (\<And>n r. keepers n r s \<le> 1) \<Longrightarrow>
    (\<And>n r. 0 < keepers n r s \<Longrightarrow> \<exists>q. runs_of (sy_sup s) n = Some q \<and> r \<le> q) \<Longrightarrow> sys_inv s"
  by (auto simp: sys_inv_def)

lemma sys_invD: "sys_inv s \<Longrightarrow> children n r s \<le> holders n r s" "sys_inv s \<Longrightarrow> keepers n r s \<le> 1"
    "sys_inv s \<Longrightarrow> 0 < keepers n r s \<Longrightarrow> \<exists>q. runs_of (sy_sup s) n = Some q \<and> r \<le> q"
  by (auto simp: sys_inv_def)

text \<open>A change that leaves the counts alone, or only lowers them, keeps the invariant.\<close>

lemma sys_inv_mono:
  assumes "sys_inv s" "runs_of (sy_sup t) = runs_of (sy_sup s)"
    and "\<And>n r. keepers n r t \<le> keepers n r s" "\<And>n r. children n r t \<le> holders n r t"
  shows "sys_inv t"
proof (rule sys_invI)
  fix n r
  show "keepers n r t \<le> 1" using assms(3) [of n r] sys_invD(2) [OF assms(1), of n r] by linarith
  show "\<exists>q. runs_of (sy_sup t) n = Some q \<and> r \<le> q" if "0 < keepers n r t"
    using that assms(3) [of n r] sys_invD(3) [OF assms(1), of n r] assms(2) by simp
qed (rule assms(4))

lemma take_taskD: "take_task t s = Some s1 \<Longrightarrow> t \<in> set (sy_tasks s) \<and> s1 = s\<lparr>sy_tasks := remove1 t (sy_tasks s)\<rparr>"
  by (auto simp: take_task_def split: if_splits)

lemma taken_tally: "take_task t s = Some s1 \<Longrightarrow>
    tally P (sy_tasks s) = (if P t then 1 else 0) + tally P (sy_tasks s1)"
  using tally_remove1 take_taskD by fastforce

lemma inv_take:
  assumes t: "take_task t s = Some s1" and inv: "sys_inv s" and "\<And>n r. \<not> forked_run n r t"
  shows "sys_inv s1"
proof (rule sys_inv_mono [OF inv])
  show "children n r s1 \<le> holders n r s1" for n r
    using sys_invD(1) [OF inv, of n r] taken_tally [OF t, of "forked_run n r"] take_taskD [OF t] assms(3)
    by (simp add: count_defs)
  show "keepers n r s1 \<le> keepers n r s" for n r
    using taken_tally [OF t, of "spawning_run n r"] take_taskD [OF t] by (simp add: count_defs)
  show "runs_of (sy_sup s1) = runs_of (sy_sup s)" using take_taskD [OF t] by simp
qed

lemma inv_map: "sys_inv s \<Longrightarrow> runs_of (f (sy_sup s)) = runs_of (sy_sup s) \<Longrightarrow> sys_inv (sys_map f s)"
  by (simp add: sys_inv_def count_defs sys_map_def)

lemma inv_sup: "sys_inv s \<Longrightarrow> runs_of u = runs_of (sy_sup s) \<Longrightarrow> sys_inv (s\<lparr>sy_sup := u\<rparr>)"
  by (simp add: sys_inv_def count_defs)

lemma inv_stage [simp]: "sys_inv (s\<lparr>sy_stage := x\<rparr>) = sys_inv s" "sys_inv (order_from cs s) = sys_inv s"
  by (simp_all add: sys_inv_def count_defs order_from_def)

lemma inv_add: "sys_inv s \<Longrightarrow> (\<And>n r. \<not> spawning_run n r t) \<Longrightarrow> (\<And>n r. \<not> forked_run n r t) \<Longrightarrow> sys_inv (add_task t s)"
  by (simp add: sys_inv_def count_defs add_task_def)

lemma inv_spawn_ended: "sys_inv s \<Longrightarrow> sys_inv (spawn_ended why ok n s)"
  by (cases why) (simp_all add: spawn_ended_def Let_def inv_map)

lemma inv_admit: "sys_inv s \<Longrightarrow> sys_inv (admit why n inh vars s)"
  by (auto simp: admit_def intro: inv_add inv_spawn_ended split: sum.split)

lemma inv_begin: "sys_inv s \<Longrightarrow> do_begin n why s = Some t \<Longrightarrow> sys_inv t"
proof -
  assume inv: "sys_inv s" and st: "do_begin n why s = Some t"
  then obtain s1 p where tk: "take_task (Admitted n why) s = Some s1" and p: "sup_get (sy_sup s) n = Some p"
    and t: "t = add_task (Begun n (mp_run (begin_run p)) (mp_config p) why) (sys_map (sup_put n (begin_run p)) s1)"
    by (auto simp: do_begin_def split: option.splits)
  have inv1: "sys_inv s1" using inv_take [OF tk inv] by simp
  have run: "runs_of (sy_sup s1) n = Some (mp_run p)" using take_taskD [OF tk] p by (simp add: runs_of_def)
  have fresh: "keepers n (Suc (mp_run p)) s1 = 0"
    using sys_invD(3) [OF inv1, of n "Suc (mp_run p)"] run by auto
  have k: "keepers m r t = keepers m r s1 + (if m = n \<and> r = Suc (mp_run p) then 1 else 0)" for m r
    by (auto simp: t count_defs add_task_def sys_map_def)
  show ?thesis
  proof (rule sys_invI)
    fix m r
    show "children m r t \<le> holders m r t"
      using sys_invD(1) [OF inv1, of m r] by (simp add: t count_defs add_task_def sys_map_def)
    show "keepers m r t \<le> 1" using sys_invD(2) [OF inv1, of m r] fresh k [of m r] by auto
    show "\<exists>q. runs_of (sy_sup t) m = Some q \<and> r \<le> q" if "0 < keepers m r t"
      using that sys_invD(3) [OF inv1, of m r] k [of m r] run
      by (auto simp: t add_task_def sys_map_def runs_of_put split: if_splits)
  qed
qed

text \<open>A task that moves on to another place keeps what it looks after.\<close>

lemma inv_fork: "sys_inv s \<Longrightarrow> do_fork n run cfg why pid s = Some t \<Longrightarrow> sys_inv t"
proof -
  assume inv: "sys_inv s" and st: "do_fork n run cfg why pid s = Some t"
  then obtain s1 where tk: "take_task (Begun n run cfg why) s = Some s1"
    and t: "t = add_task (Forked n run pid why) (s1\<lparr>sy_alive := (n, run) # sy_alive s1\<rparr>)"
    by (auto simp: do_fork_def)
  show ?thesis
  proof (rule sys_inv_mono [OF inv])
    show "runs_of (sy_sup t) = runs_of (sy_sup s)" using take_taskD [OF tk] by (simp add: t add_task_def)
    show "keepers m r t \<le> keepers m r s" for m r
      using taken_tally [OF tk, of "spawning_run m r"] take_taskD [OF tk]
      by (auto simp: t count_defs add_task_def)
    show "children m r t \<le> holders m r t" for m r
      using sys_invD(1) [OF inv, of m r] taken_tally [OF tk, of "forked_run m r"] take_taskD [OF tk]
      by (auto simp: t count_defs add_task_def)
  qed
qed

lemma inv_mark: "sys_inv s \<Longrightarrow> do_mark n run pid why now s = Some t \<Longrightarrow> sys_inv t"
proof -
  assume inv: "sys_inv s" and st: "do_mark n run pid why now s = Some t"
  then obtain s1 p where tk: "take_task (Forked n run pid why) s = Some s1" and p: "sup_get (sy_sup s) n = Some p"
    and t: "t = add_task (Marked n run why) (sys_map (sup_mark_running n pid run now p) s1)"
    by (auto simp: do_mark_def split: option.splits)
  show ?thesis
  proof (rule sys_inv_mono [OF inv])
    show "runs_of (sy_sup t) = runs_of (sy_sup s)"
      using take_taskD [OF tk] p by (simp add: t add_task_def sys_map_def)
    show "keepers m r t \<le> keepers m r s" for m r
      using taken_tally [OF tk, of "spawning_run m r"] take_taskD [OF tk]
      by (auto simp: t count_defs add_task_def sys_map_def)
    show "children m r t \<le> holders m r t" for m r
      using sys_invD(1) [OF inv, of m r] taken_tally [OF tk, of "forked_run m r"] take_taskD [OF tk]
      by (auto simp: t count_defs add_task_def sys_map_def)
  qed
qed

lemma inv_arm: "sys_inv s \<Longrightarrow> do_arm n run why s = Some t \<Longrightarrow> sys_inv t"
proof -
  assume inv: "sys_inv s" and st: "do_arm n run why s = Some t"
  then obtain s1 p where tk: "take_task (Marked n run why) s = Some s1" and p: "sup_get (sy_sup s) n = Some p"
    and t: "t = spawn_ended why True n
            (sys_map (sup_put n (arm_run run p)) (s1\<lparr>sy_watchers := sy_watchers s1 @ [(n, run, False)]\<rparr>))"
    by (auto simp: do_arm_def split: option.splits)
  show ?thesis
    unfolding t
  proof (rule inv_spawn_ended, rule sys_inv_mono [OF inv])
    let ?t = "sys_map (sup_put n (arm_run run p)) (s1\<lparr>sy_watchers := sy_watchers s1 @ [(n, run, False)]\<rparr>)"
    show "runs_of (sy_sup ?t) = runs_of (sy_sup s)"
      using take_taskD [OF tk] p by (simp add: sys_map_def)
    show "keepers m r ?t \<le> keepers m r s" for m r
      using taken_tally [OF tk, of "spawning_run m r"] take_taskD [OF tk]
      by (auto simp: count_defs sys_map_def)
    show "children m r ?t \<le> holders m r ?t" for m r
      using sys_invD(1) [OF inv, of m r] taken_tally [OF tk, of "forked_run m r"] take_taskD [OF tk]
      by (auto simp: count_defs sys_map_def)
  qed
qed

lemma no_child: "(n, r) \<notin> set (sy_alive s) \<Longrightarrow> children n r s = 0"
  by (auto simp: children_def tally_def filter_empty_conv)

lemma inv_dies: "sys_inv s \<Longrightarrow> do_dies n run s = Some t \<Longrightarrow> sys_inv t"
proof -
  assume inv: "sys_inv s" and st: "do_dies n run s = Some t"
  then have mem: "(n, run) \<in> set (sy_alive s)" and t: "t = s\<lparr>sy_alive := remove1 (n, run) (sy_alive s)\<rparr>"
    by (auto simp: do_dies_def split: if_splits)
  show ?thesis
  proof (rule sys_inv_mono [OF inv])
    show "children m r t \<le> holders m r t" for m r
      using sys_invD(1) [OF inv, of m r] tally_remove1 [OF mem, of "\<lambda>c. c = (m, r)"]
      by (simp add: t count_defs)
  qed (simp_all add: t count_defs)
qed

text \<open>A monitor ends only when its child is gone.\<close>

lemma inv_unwatch:
  assumes inv: "sys_inv s" and w: "(n, run, b) \<in> set (sy_watchers s)" and gone: "(n, run) \<notin> set (sy_alive s)"
  shows "sys_inv (s\<lparr>sy_watchers := remove1 (n, run, b) (sy_watchers s)\<rparr>)"
proof (rule sys_inv_mono [OF inv])
  let ?t = "s\<lparr>sy_watchers := remove1 (n, run, b) (sy_watchers s)\<rparr>"
  show "keepers m r ?t \<le> keepers m r s" for m r
    using tally_remove1 [OF w, of "watches m r"] by (simp add: count_defs)
  show "children m r ?t \<le> holders m r ?t" for m r
    using sys_invD(1) [OF inv, of m r] tally_remove1 [OF w, of "watches m r"] no_child [OF gone]
    by (cases "m = n \<and> r = run") (auto simp: count_defs)
qed simp

lemma inv_sees_exit: "sys_inv s \<Longrightarrow> do_sees_exit n run code s = Some t \<Longrightarrow> sys_inv t"
  by (auto simp: do_sees_exit_def intro!: inv_add inv_unwatch split: if_splits)

lemma inv_sees_kill: "sys_inv s \<Longrightarrow> do_sees_kill n run s = Some t \<Longrightarrow> sys_inv t"
proof -
  assume inv: "sys_inv s" and st: "do_sees_kill n run s = Some t"
  then have w: "(n, run, False) \<in> set (sy_watchers s)"
    and t: "t = s\<lparr>sy_watchers := (n, run, True) # remove1 (n, run, False) (sy_watchers s)\<rparr>"
    by (auto simp: do_sees_kill_def split: if_splits)
  have same: "tally (watches m r) (sy_watchers t) = tally (watches m r) (sy_watchers s)" for m r
    using tally_remove1 [OF w, of "watches m r"] by (simp add: t)
  then show ?thesis
    using inv by (simp add: sys_inv_def count_defs) (simp add: t)
qed

lemma inv_monitor_stopped: "sys_inv s \<Longrightarrow> do_monitor_stopped n run code now s = Some t \<Longrightarrow> sys_inv t"
  by (auto simp: do_monitor_stopped_def intro!: inv_map inv_unwatch split: option.splits if_splits)

lemma inv_exit_record: "sys_inv s \<Longrightarrow> do_exit_record n code now s = Some t \<Longrightarrow> sys_inv t"
proof -
  assume inv: "sys_inv s" and st: "do_exit_record n code now s = Some t"
  then obtain s1 where tk: "take_task (ExitSent n code) s = Some s1" by (auto simp: do_exit_record_def)
  have "sys_inv s1" using inv_take [OF tk inv] by simp
  then show ?thesis
    using st by (auto simp: do_exit_record_def tk intro!: inv_add inv_map split: option.splits)
qed

lemma inv_exit_apply: "sys_inv s \<Longrightarrow> do_exit_apply n f now s = Some t \<Longrightarrow> sys_inv t"
proof -
  assume inv: "sys_inv s" and st: "do_exit_apply n f now s = Some t"
  then obtain s1 where tk: "take_task (ExitSeen n f) s = Some s1" by (auto simp: do_exit_apply_def)
  obtain u d where a: "exit_apply f n now (sy_sup s1) = (u, d)"
    by (cases "exit_apply f n now (sy_sup s1)")
  have "sys_inv (s1\<lparr>sy_sup := u\<rparr>)"
    using runs_of_exit_apply [of f n now "sy_sup s1"] inv_take [OF tk inv] a by (auto intro: inv_sup)
  then show ?thesis
    using st by (auto simp: do_exit_apply_def tk a intro: inv_add split: option.splits)
qed

lemma inv_cooled_off: "sys_inv s \<Longrightarrow> do_cooled_off n why inh vars vars' s = Some t \<Longrightarrow> sys_inv t"
  by (auto simp: do_cooled_off_def intro!: inv_map inv_admit split: option.splits if_splits
      intro: inv_take [of "Cooling n why" s])

lemma inv_order:
  "sys_inv s \<Longrightarrow> do_order_dep s = Some t \<Longrightarrow> sys_inv t"
  "sys_inv s \<Longrightarrow> do_order_files ex vars s = Some t \<Longrightarrow> sys_inv t"
  "sys_inv s \<Longrightarrow> do_order_vars inh vars s = Some t \<Longrightarrow> sys_inv t"
  "sys_inv s \<Longrightarrow> do_order_goldens b s = Some t \<Longrightarrow> sys_inv t"
  "sys_inv s \<Longrightarrow> do_order_spawn inh vars s = Some t \<Longrightarrow> sys_inv t"
  by (auto simp: do_order_dep_def do_order_files_def do_order_vars_def do_order_goldens_def
      do_order_spawn_def intro!: inv_admit split: list.splits stage.splits if_splits)

lemma runs_of_request_stop: "request_stop n now s = Inr (u, k) \<Longrightarrow> runs_of u = runs_of s"
  by (auto simp: request_stop_def split: option.splits if_splits)

lemma inv_api_stop: "sys_inv s \<Longrightarrow> do_api_stop n now s = Some t \<Longrightarrow> sys_inv t"
  by (auto simp: do_api_stop_def intro!: inv_sup dest: runs_of_request_stop split: sum.splits)

lemma inv_requests:
  "sys_inv s \<Longrightarrow> do_api_start n inh vars s = Some t \<Longrightarrow> sys_inv t"
  "sys_inv s \<Longrightarrow> do_api_restart n now inh vars s = Some t \<Longrightarrow> sys_inv t"
  "sys_inv s \<Longrightarrow> do_restart_go n b inh vars s = Some t \<Longrightarrow> sys_inv t"
  "sys_inv s \<Longrightarrow> do_update_config n c s = Some t \<Longrightarrow> sys_inv t"
  "sys_inv s \<Longrightarrow> do_note n run what now s = Some t \<Longrightarrow> sys_inv t"
  by (auto simp: do_api_start_def do_api_restart_def do_restart_go_def do_update_config_def do_note_def
      update_process_config_def intro!: inv_admit inv_add inv_sup inv_map
      intro: inv_take [of "RestartWait n" s] inv_api_stop split: sum.splits option.splits if_splits)

lemma inv_shutdown:
  "sys_inv s \<Longrightarrow> sys_inv (sys_map begin_shutdown s)" "sys_inv s \<Longrightarrow> sys_inv (do_stop_all s)"
  "sys_inv s \<Longrightarrow> do_stop_tier tier rest s = Some t \<Longrightarrow> sys_inv t"
  "sys_inv s \<Longrightarrow> do_tier_done tier rest b s = Some t \<Longrightarrow> sys_inv t"
  by (auto simp: do_stop_all_def do_stop_tier_def do_tier_done_def intro!: inv_add inv_map
      intro: inv_take [of "StoppingTiers (tier # rest)" s] inv_take [of "TierWait tier rest" s] split: if_splits)

lemma inv_fork_fails: "sys_inv s \<Longrightarrow> do_fork_fails n run cfg why s = Some t \<Longrightarrow> sys_inv t"
  by (auto simp: do_fork_fails_def intro!: inv_spawn_ended intro: inv_take [of "Begun n run cfg why" s])

lemmas inv_acts = inv_order inv_begin inv_fork inv_fork_fails inv_mark inv_arm inv_dies inv_sees_exit
  inv_sees_kill inv_monitor_stopped inv_exit_record inv_exit_apply inv_cooled_off inv_requests
  inv_api_stop inv_shutdown

lemma act_inv: "sys_inv s \<Longrightarrow> act a s = Some t \<Longrightarrow> sys_inv t"
  by (cases a) (auto dest: inv_acts)

lemma register_all_frame: "su_shutting_down (register_all cs s) = su_shutting_down s"
  by (induction cs arbitrary: s) (simp_all add: register_all_def register_process_def)

lemma start_inv: "sys_inv (sys_start cs)"
  by (simp add: sys_start_def) (simp add: sys_inv_def count_defs)

interpretation supervisor: step_invariant "\<lambda>s. \<exists>cs. s = sys_start cs" sup_step sys_inv
  by unfold_locales (auto simp: start_inv elim!: sup_stepE intro: act_inv)

section \<open>Nothing starts once shutdown has begun\<close>

definition run_count :: "string \<Rightarrow> sys \<Rightarrow> nat" where
  "run_count n s = (case runs_of (sy_sup s) n of None \<Rightarrow> 0 | Some r \<Rightarrow> r)"

definition let_through :: "string \<Rightarrow> sys \<Rightarrow> nat" where
  "let_through n s = tally (admitted_for n) (sy_tasks s)"

text \<open>What a step may do while shutting down: no run begins without a spawn let through before.\<close>

definition quiet :: "sys \<Rightarrow> sys \<Rightarrow> bool" where
  "quiet s t \<longleftrightarrow> su_shutting_down (sy_sup t) \<and>
     (\<forall>n. run_count n t + let_through n t \<le> run_count n s + let_through n s)"

lemma quietI: "su_shutting_down (sy_sup t) \<Longrightarrow> runs_of (sy_sup t) = runs_of (sy_sup s) \<Longrightarrow>
    (\<And>n. let_through n t \<le> let_through n s) \<Longrightarrow> quiet s t"
  by (simp add: quiet_def run_count_def)

lemma quiet_refl: "su_shutting_down (sy_sup s) \<Longrightarrow> quiet s s"
  by (simp add: quiet_def)

lemma quiet_trans: "quiet s t \<Longrightarrow> quiet t u \<Longrightarrow> quiet s u"
  unfolding quiet_def using le_trans by blast

lemma quiet_add: "quiet s t \<Longrightarrow> (\<And>n. \<not> admitted_for n k) \<Longrightarrow> quiet s (add_task k t)"
  by (simp add: quiet_def run_count_def let_through_def add_task_def)

lemma quiet_take: "take_task k s = Some t \<Longrightarrow> su_shutting_down (sy_sup s) \<Longrightarrow> quiet s t"
  using taken_tally [of k s t] by (auto dest!: take_taskD intro!: quietI simp: let_through_def)

lemma quiet_remove: "su_shutting_down (sy_sup s) \<Longrightarrow> k \<in> set (sy_tasks s) \<Longrightarrow>
    quiet s (s\<lparr>sy_tasks := remove1 k (sy_tasks s)\<rparr>)"
  by (rule quiet_take [of k]) (simp_all add: take_task_def)

lemma quiet_map: "quiet s t \<Longrightarrow> runs_of (f (sy_sup t)) = runs_of (sy_sup t) \<Longrightarrow>
    su_shutting_down (f (sy_sup t)) \<Longrightarrow> quiet s (sys_map f t)"
  by (simp add: quiet_def run_count_def let_through_def sys_map_def)

lemma quiet_frame [simp]:
  "quiet s (t\<lparr>sy_alive := x\<rparr>) = quiet s t" "quiet s (t\<lparr>sy_watchers := y\<rparr>) = quiet s t"
  "quiet s (t\<lparr>sy_stage := z\<rparr>) = quiet s t" "quiet s (order_from cs t) = quiet s t"
  by (simp_all add: quiet_def run_count_def let_through_def order_from_def)

lemma quiet_sup: "quiet s t \<Longrightarrow> runs_of u = runs_of (sy_sup t) \<Longrightarrow> su_shutting_down u \<Longrightarrow> quiet s (t\<lparr>sy_sup := u\<rparr>)"
  by (simp add: quiet_def run_count_def let_through_def)

lemma quiet_shutting: "quiet s t \<Longrightarrow> su_shutting_down (sy_sup t)"
  by (simp add: quiet_def)

lemma quiet_spawn_ended: "quiet s t \<Longrightarrow> quiet s (spawn_ended why ok n t)"
  by (cases why) (auto simp: spawn_ended_def Let_def dest: quiet_shutting intro!: quiet_map)

text \<open>The check of the flag in \<open>spawn_process\<close> is what lets nothing new through.\<close>

lemma quiet_admit: "quiet s t \<Longrightarrow> quiet s (admit why n inh vars t)"
  by (auto simp: admit_def spawn_admit_def dest: quiet_shutting intro: quiet_spawn_ended split: option.split)

lemma quiet_begin: "su_shutting_down (sy_sup s) \<Longrightarrow> do_begin n why s = Some t \<Longrightarrow> quiet s t"
proof -
  assume sd: "su_shutting_down (sy_sup s)" and st: "do_begin n why s = Some t"
  then obtain s1 p where tk: "take_task (Admitted n why) s = Some s1" and p: "sup_get (sy_sup s) n = Some p"
    and t: "t = add_task (Begun n (mp_run (begin_run p)) (mp_config p) why) (sys_map (sup_put n (begin_run p)) s1)"
    by (auto simp: do_begin_def split: option.splits)
  have "runs_of (sy_sup s1) n = Some (mp_run p)" using take_taskD [OF tk] p by (simp add: runs_of_def)
  then show ?thesis
    using taken_tally [OF tk, of "admitted_for m" for m] take_taskD [OF tk] sd p
    by (auto simp: t quiet_def run_count_def let_through_def add_task_def sys_map_def runs_of_put)
qed

lemma quiet_exit_apply: "su_shutting_down (sy_sup s) \<Longrightarrow> do_exit_apply n f now s = Some t \<Longrightarrow> quiet s t"
proof -
  assume sd: "su_shutting_down (sy_sup s)" and st: "do_exit_apply n f now s = Some t"
  then obtain s1 where tk: "take_task (ExitSeen n f) s = Some s1" by (auto simp: do_exit_apply_def)
  obtain u d where a: "exit_apply f n now (sy_sup s1) = (u, d)"
    by (cases "exit_apply f n now (sy_sup s1)")
  have q: "quiet s s1" by (rule quiet_take [OF tk sd])
  have "quiet s (s1\<lparr>sy_sup := u\<rparr>)"
    using runs_of_exit_apply [of f n now "sy_sup s1"] exit_apply_shutting [of f n now "sy_sup s1"]
      quiet_shutting [OF q] a by (auto intro: quiet_sup [OF q])
  then show ?thesis
    using st by (auto simp: do_exit_apply_def tk a intro: quiet_add split: option.splits)
qed

lemma shutting_request_stop: "request_stop n now s = Inr (u, k) \<Longrightarrow> su_shutting_down u = su_shutting_down s"
  by (auto simp: request_stop_def split: option.splits if_splits)

lemma quiet_api_stop: "su_shutting_down (sy_sup s) \<Longrightarrow> do_api_stop n now s = Some t \<Longrightarrow> quiet s t"
  by (auto simp: do_api_stop_def intro!: quiet_sup quiet_refl dest: runs_of_request_stop shutting_request_stop
      split: sum.splits)

lemma quiet_frame_steps:
  assumes "su_shutting_down (sy_sup s)"
  shows "do_order_dep s = Some t \<Longrightarrow> quiet s t" "do_order_files ex vars s = Some t \<Longrightarrow> quiet s t"
    "do_order_vars inh vars s = Some t \<Longrightarrow> quiet s t" "do_order_goldens b s = Some t \<Longrightarrow> quiet s t"
    "do_order_spawn inh vars s = Some t \<Longrightarrow> quiet s t" "do_dies n run s = Some t \<Longrightarrow> quiet s t"
    "do_sees_exit n run code s = Some t \<Longrightarrow> quiet s t" "do_sees_kill n run s = Some t \<Longrightarrow> quiet s t"
  using assms
  by (auto simp: do_order_dep_def do_order_files_def do_order_vars_def do_order_goldens_def do_order_spawn_def
      do_dies_def do_sees_exit_def do_sees_kill_def intro!: quiet_refl quiet_admit quiet_add
      split: list.splits stage.splits if_splits)

lemma quiet_task_steps:
  assumes "su_shutting_down (sy_sup s)"
  shows "do_fork n run cfg why pid s = Some t \<Longrightarrow> quiet s t"
    "do_fork_fails n run cfg why s = Some t \<Longrightarrow> quiet s t"
    "do_mark n run pid why now s = Some t \<Longrightarrow> quiet s t"
    "do_arm n run why s = Some t \<Longrightarrow> quiet s t"
    "do_exit_record n code now s = Some t \<Longrightarrow> quiet s t"
    "do_cooled_off n why inh vars vars' s = Some t \<Longrightarrow> quiet s t"
    "do_restart_go n b inh vars s = Some t \<Longrightarrow> quiet s t"
    "do_stop_tier tier rest s = Some t \<Longrightarrow> quiet s t" "do_tier_done tier rest b s = Some t \<Longrightarrow> quiet s t"
  using assms
  by (auto simp: do_fork_def do_fork_fails_def do_mark_def do_arm_def do_exit_record_def do_cooled_off_def
      do_restart_go_def do_stop_tier_def do_tier_done_def
      intro!: quiet_remove quiet_add quiet_spawn_ended quiet_map quiet_admit
      dest!: take_taskD split: option.splits if_splits)

lemma quiet_requests:
  assumes "su_shutting_down (sy_sup s)"
  shows "do_api_start n inh vars s = Some t \<Longrightarrow> quiet s t"
    "do_api_restart n now inh vars s = Some t \<Longrightarrow> quiet s t"
    "do_update_config n c s = Some t \<Longrightarrow> quiet s t" "do_note n run what now s = Some t \<Longrightarrow> quiet s t"
    "do_monitor_stopped n run code now s = Some t \<Longrightarrow> quiet s t"
    "quiet s (sys_map begin_shutdown s)" "quiet s (do_stop_all s)"
  using assms quiet_refl [OF assms]
  by (auto simp: do_api_start_def do_api_restart_def do_update_config_def update_process_config_def do_note_def
      do_monitor_stopped_def do_stop_all_def
      intro!: quiet_admit quiet_add quiet_sup quiet_map
      dest: quiet_api_stop split: sum.splits option.splits if_splits)

lemmas quiet_acts = quiet_frame_steps quiet_task_steps quiet_requests quiet_begin quiet_exit_apply quiet_api_stop

lemma act_quiet: "su_shutting_down (sy_sup s) \<Longrightarrow> act a s = Some t \<Longrightarrow> quiet s t"
  by (cases a) (auto dest: quiet_acts simp: quiet_requests)

text \<open>The shutdown flag is never taken back.\<close>

interpretation shutdown_flag: step_monotone sup_step "\<lambda>s. su_shutting_down (sy_sup s)"
  by unfold_locales (auto elim!: sup_stepE dest: act_quiet quiet_shutting)

lemma steps_quiet: "sup_step\<^sup>*\<^sup>* s t \<Longrightarrow> su_shutting_down (sy_sup s) \<Longrightarrow> quiet s t"
proof (induction rule: rtranclp_induct)
  case base
  then show ?case by (rule quiet_refl)
next
  case (step t u)
  have "quiet t u"
    using step.hyps(2) by (rule sup_stepE) (rule act_quiet [OF quiet_shutting [OF step.IH [OF step.prems]]])
  then show ?case using step.IH [OF step.prems] by (rule quiet_trans [rotated])
qed

end
