(* ===== verification/SupTraces.thy ===== *)
theory SupTraces
  imports SupInvariants
begin

text \<open>
  Runs of the supervisor, step by step: the invariants at work on a concrete run, and the interleavings
  that lead where the code does not mean to go.
\<close>

section \<open>Running a list of steps\<close>

definition no_inh :: inherited where "no_inh = (\<lambda>_. False)"
definition no_vars :: var_map where "no_vars = (\<lambda>_. None)"

lemmas trace_defs = do_order_dep_def do_order_files_def do_order_vars_def do_order_goldens_def do_order_spawn_def
  do_begin_def do_fork_def do_fork_fails_def do_mark_def do_arm_def do_dies_def do_sees_exit_def do_sees_kill_def
  do_monitor_stopped_def do_exit_record_def do_exit_apply_def do_cooled_off_def do_api_start_def do_api_stop_def
  do_stop_all_def do_stop_tier_def do_tier_done_def sys_map_def add_task_def take_task_def order_from_def
  spawn_ended_def admit_def vars_ready_def spawn_admit_def missing_files_def kill_fired_def

lemma acts_append: "acts (as @ bs) s = (case acts as s of None \<Rightarrow> None | Some t \<Rightarrow> acts bs t)"
  by (induction as arbitrary: s) (auto split: option.split)

lemma acts_steps: "acts as s = Some t \<Longrightarrow> sup_step\<^sup>*\<^sup>* s t"
proof (induction as arbitrary: s)
  case (Cons a as)
  then obtain u where "act a s = Some u" "acts as u = Some t" by (auto split: option.splits)
  then show ?case using Cons.IH [of u] by (meson converse_rtranclp_into_rtranclp sup_step.step)
qed simp

lemma demo_simps [simp]: "pc_depends_on demo_config = []" "pc_wait_for_files demo_config = []" "pc_name demo_config = ''api''"
  "pc_golden demo_config = []"
  by (simp_all add: demo_config_def process_config_default_def)

lemma demo_vars [simp]: "node_vars_missing demo_config no_inh no_vars = None"
  by code_simp

lemma managed_new_simps [simp]: "mp_config (managed_new c) = c" "mp_run (managed_new c) = 0" by (simp_all add: managed_new_def)
lemma config_frame [simp]: "mp_config (begin_run p) = mp_config p"  "mp_config (mark_running pid r now p) = mp_config p"
 "mp_config (arm_run r p) = mp_config p" "mp_config (exit_record c now p) = mp_config p"
  "mp_config (monitor_stopped c now p) = mp_config p"
by (simp_all add: begin_run_def mark_running_def arm_run_def exit_record_def monitor_stopped_def)
lemma sup_get_mark [simp]: "sup_get (sup_mark_running n pid run now p s) m = (if m = n then Some (mark_running pid run now p) else sup_get s m)"
by (simp add: sup_mark_running_def)


lemma procs_frame [simp]:
  "su_procs (sup_put n p s) = AList.update n p (su_procs s)"
  "su_procs (sup_mark_running n pid run now p s) = AList.update n (mark_running pid run now p) (su_procs s)"
  "su_procs (begin_shutdown s) = su_procs s" "sup_get (begin_shutdown s) n = sup_get s n"
  by (simp_all add: sup_put_def sup_mark_running_def sup_event_def sup_emit_def begin_shutdown_def sup_get_def)

lemma sup_get_one: "su_procs u = [(n, p)] \<Longrightarrow> sup_get u m = (if m = n then Some p else None)"
  by (simp add: sup_get_def)

section \<open>A process that starts and crashes\<close>

definition start_trace :: "action list" where
  "start_trace = [OrderDep, OrderFiles no_inh no_vars, OrderVars no_inh no_vars, OrderGoldens True,
     OrderSpawn no_inh no_vars, Begin ''api'' FromStartOrder,
     Fork ''api'' 1 demo_config FromStartOrder (Some 100), Mark ''api'' 1 (Some 100) FromStartOrder 1000,
     Arm ''api'' 1 FromStartOrder]"

definition run_proc :: managed where
  "run_proc = arm_run 1 (mark_running (Some 100) 1 1000 (begin_run (managed_new demo_config)))"

definition at_rest :: "sup \<Rightarrow> task list \<Rightarrow> watcher list \<Rightarrow> (string \<times> nat) list \<Rightarrow> sys" where
  "at_rest u ts ws cs = \<lparr>sy_sup = u, sy_order = [], sy_stage = Spawning, sy_tasks = ts,
     sy_watchers = ws, sy_alive = cs\<rparr>"

lemma at_rest_simps [simp]: "sy_sup (at_rest u ts ws cs) = u" "sy_tasks (at_rest u ts ws cs) = ts"
  "sy_watchers (at_rest u ts ws cs) = ws" "sy_alive (at_rest u ts ws cs) = cs"
  by (simp_all add: at_rest_def)

lemma started: "\<exists>u. acts start_trace (sys_start [demo_config]) = Some (at_rest u [] [(''api'', 1, False)] [(''api'', 1)])
   \<and> su_shutting_down u = False \<and> su_procs u = [(''api'', run_proc)]"
  by (simp add: start_trace_def sys_start_def register_all_def register_process_def sup_new_def trace_defs
      run_proc_def at_rest_def)

lemma run_proc_simps [simp]: "mp_config run_proc = demo_config" "mp_run run_proc = 1"
  "mp_restart_timestamps run_proc = []" "mp_started_at run_proc = Some 1000" "mp_state run_proc = Running"
  "mp_kill_tx run_proc = Some 1"
  by (simp_all add: run_proc_def arm_run_def mark_running_def begin_run_def managed_new_def)

definition first_crash :: exit_facts where
  "first_crash = \<lparr>ef_config = demo_config, ef_code = Some 1, ef_in_window = 0, ef_ran_secs = 3\<rparr>"

lemma facts_first: "facts_of_exit (Some 1) 4000 run_proc = first_crash"
  by (simp add: facts_of_exit_def first_crash_def restart_count_in_window_def num_seconds_def)

lemma decide_first: "decide False first_crash = RestartCrashed (cooloff 1 0)"
  by (simp add: decide_def first_crash_def demo_config_def process_config_default_def Let_def
      is_no_restart_def default_max_restarts_def default_restart_delay_secs_def)

definition crash_trace :: "action list" where
  "crash_trace = [Dies ''api'' 1, SeesExit ''api'' 1 (Some 1), ExitRecord ''api'' (Some 1) 4000,
     ExitApply ''api'' first_crash 4000]"

definition cooling_proc :: managed where
  "cooling_proc = count_restart Restarting 4000 (count_crash first_crash (exit_record (Some 1) 4000 run_proc))"

lemma cooling_simps [simp]: "mp_config cooling_proc = demo_config" "mp_run cooling_proc = 1"
  "mp_state cooling_proc = Restarting"
  by (simp_all add: cooling_proc_def count_restart_def count_crash_def exit_record_def)

lemma crashed: "\<exists>u. acts (start_trace @ crash_trace) (sys_start [demo_config])
     = Some (at_rest u [Cooling ''api'' AfterCrash] [] [])
   \<and> su_shutting_down u = False \<and> su_procs u = [(''api'', cooling_proc)]"
proof -
  obtain u where u: "acts start_trace (sys_start [demo_config])
      = Some (at_rest u [] [(''api'', 1, False)] [(''api'', 1)])"
    "su_shutting_down u = False" "su_procs u = [(''api'', run_proc)]" using started by blast
  show ?thesis
    by (simp add: acts_append u sup_get_one [OF u(3)] crash_trace_def trace_defs facts_first exit_apply_def
        decide_first apply_decision_def cooling_proc_def at_rest_def)
qed

section \<open>A start request while a restart is cooling off\<close>

definition double_start :: "action list" where
  "double_start = start_trace @ crash_trace @
     [ApiStart ''api'' no_inh no_vars, Begin ''api'' FromApi,
      Fork ''api'' 2 demo_config FromApi (Some 200), Mark ''api'' 2 (Some 200) FromApi 5000, Arm ''api'' 2 FromApi,
      CooledOff ''api'' AfterCrash no_inh no_vars no_vars, Begin ''api'' AfterCrash,
      Fork ''api'' 3 demo_config AfterCrash (Some 300), Mark ''api'' 3 (Some 300) AfterCrash 6000,
      Arm ''api'' 3 AfterCrash]"

definition then_stop_all :: "action list" where
  "then_stop_all = [SeesKill ''api'' 2, Dies ''api'' 2, MonitorStopped ''api'' 2 None 9000,
     StopAll, StopTier [''api''] [], TierDone [''api''] [] False]"

definition second_proc :: managed where
  "second_proc = arm_run 2 (mark_running (Some 200) 2 5000 (begin_run cooling_proc))"

definition third_proc :: managed where
  "third_proc = arm_run 3 (mark_running (Some 300) 3 6000 (begin_run second_proc))"

lemma later_simps [simp]: "mp_config second_proc = demo_config" "mp_run second_proc = 2"
  "mp_config third_proc = demo_config" "mp_run third_proc = 3" "mp_kill_tx third_proc = Some 3"
  by (simp_all add: second_proc_def third_proc_def arm_run_def mark_running_def begin_run_def)

lemma two_at_once: "\<exists>u. acts double_start (sys_start [demo_config])
     = Some (at_rest u [] [(''api'', 2, False), (''api'', 3, False)] [(''api'', 3), (''api'', 2)])
   \<and> su_shutting_down u = False \<and> su_procs u = [(''api'', third_proc)]"
proof -
  obtain u where u: "acts (start_trace @ crash_trace) (sys_start [demo_config])
      = Some (at_rest u [Cooling ''api'' AfterCrash] [] [])"
    "su_shutting_down u = False" "su_procs u = [(''api'', cooling_proc)]" using crashed by blast
  show ?thesis
    unfolding double_start_def append_assoc [symmetric] acts_append [of "start_trace @ crash_trace"] u
    by (simp add: u sup_get_one [OF u(3)] trace_defs request_start_def second_proc_def third_proc_def at_rest_def)
qed

lemma one_tier: "stop_tiers [(''api'', [])] = [[''api'']]"
  by code_simp

lemma leaked: "\<exists>u. acts (double_start @ then_stop_all) (sys_start [demo_config])
     = Some (at_rest u [StoppingTiers []] [(''api'', 3, False)] [(''api'', 3)])
   \<and> su_shutting_down u \<and> su_procs u = [(''api'', monitor_stopped None 9000 third_proc)]"
proof -
  obtain u where u: "acts double_start (sys_start [demo_config])
     = Some (at_rest u [] [(''api'', 2, False), (''api'', 3, False)] [(''api'', 3), (''api'', 2)])"
    "su_shutting_down u = False" "su_procs u = [(''api'', third_proc)]" using two_at_once by blast
  have st: "mp_state (monitor_stopped None 9000 third_proc) = Stopped" by (simp add: monitor_stopped_def)
  show ?thesis
    by (simp add: acts_append u sup_get_one [OF u(3)] then_stop_all_def trace_defs dep_map_of_def one_tier
        tier_stopping_def at_rest_def st)
qed

section \<open>A stop request between the two halves of an exit\<close>

definition stop_in_between :: "action list" where
  "stop_in_between = start_trace @
     [Dies ''api'' 1, SeesExit ''api'' 1 (Some 1), ExitRecord ''api'' (Some 1) 4000, ApiStop ''api'' 4100,
      ExitApply ''api'' first_crash 4200, CooledOff ''api'' AfterCrash no_inh no_vars no_vars,
      Begin ''api'' AfterCrash, Fork ''api'' 2 demo_config AfterCrash (Some 200),
      Mark ''api'' 2 (Some 200) AfterCrash 6000, Arm ''api'' 2 AfterCrash]"

definition back_again :: managed where
  "back_again = arm_run 2 (mark_running (Some 200) 2 6000 (begin_run
     (count_restart Restarting 4200 (count_crash first_crash
       ((exit_record (Some 1) 4000 run_proc)\<lparr>mp_state := Stopping, mp_kill_tx := None\<rparr>)))))"

lemma exit_record_state: "mp_state (exit_record code now p) = mp_state p"
  by (simp add: exit_record_def)

lemma count_frame [simp]: "mp_run (count_restart st now p) = mp_run p" "mp_config (count_restart st now p) = mp_config p"
  "mp_run (count_crash f p) = mp_run p" "mp_config (count_crash f p) = mp_config p"
  by (simp_all add: count_restart_def count_crash_def)

lemma stop_lost: "\<exists>u. acts stop_in_between (sys_start [demo_config])
     = Some (at_rest u [] [(''api'', 2, False)] [(''api'', 2)]) \<and> su_procs u = [(''api'', back_again)]"
proof -
  obtain u where u: "acts start_trace (sys_start [demo_config])
      = Some (at_rest u [] [(''api'', 1, False)] [(''api'', 1)])"
    "su_shutting_down u = False" "su_procs u = [(''api'', run_proc)]" using started by blast
  show ?thesis
    by (simp add: acts_append u sup_get_one [OF u(3)] stop_in_between_def trace_defs facts_first exit_apply_def
        decide_first apply_decision_def request_stop_def exit_record_state back_again_def at_rest_def)
qed

section \<open>A start order with a program that is not there\<close>

definition web_config :: process_config where
  "web_config = process_config_default ''web'' ''/bin/web''"

definition missing_program :: "action list" where
  "missing_program = [OrderDep, OrderFiles no_inh no_vars, OrderVars no_inh no_vars, OrderGoldens True,
     OrderSpawn no_inh no_vars, Begin ''api'' FromStartOrder, ForkFails ''api'' 1 demo_config FromStartOrder]"

lemma web_name [simp]: "pc_name web_config = ''web''"
  by (simp add: web_config_def process_config_default_def)

lemma order_cut: "\<exists>u. acts missing_program (sys_start [demo_config, web_config]) = Some (at_rest u [] [] [])
   \<and> su_procs u = [(''api'', begin_run (managed_new demo_config)), (''web'', managed_new web_config)]"
  by (simp add: missing_program_def sys_start_def register_all_def register_process_def sup_new_def trace_defs
      spawn_failed_def at_rest_def)

lemma forked_spawning: "forked_run n r t \<Longrightarrow> spawning_run n r t"
  by (cases t) auto

lemma holders_keepers: "holders n r s \<le> keepers n r s"
proof -
  have "tally (forked_run n r) ts \<le> tally (spawning_run n r) ts" for ts
    by (induction ts) (auto dest: forked_spawning)
  then show ?thesis by (simp add: holders_def keepers_def)
qed

section \<open>Properties\<close>

text \<open>C3: in every state the supervisor can reach, each child alive belongs to exactly one run, which
  exactly one task of the supervisor holds (the spawn that forked it, or its monitor), and that run is
  not later than the last one its process has begun. No child runs unwatched, and no run number is
  ever given to two children.\<close>

theorem every_child_has_one_holder:
  assumes "sup_step\<^sup>*\<^sup>* (sys_start cs) s" and "(n, r) \<in> set (sy_alive s)"
  shows "children n r s = 1 \<and> holders n r s = 1 \<and> r \<le> run_count n s"
proof -
  have inv: "sys_inv s"
    using supervisor.reachable_inv assms(1) by blast
  have "0 < children n r s"
    using assms(2) by (auto simp: children_def tally_pos)
  moreover have "holders n r s \<le> keepers n r s"
    by (rule holders_keepers)
  ultimately show ?thesis
    using sys_invD [OF inv, of n r] by (auto simp: run_count_def)
qed

theorem every_child_has_one_holder_witness:
  "\<exists>s. (''api'', 1) \<in> set (sy_alive s) \<and> holders ''api'' 1 s = 1"
proof -
  obtain u where u: "acts start_trace (sys_start [demo_config])
      = Some (at_rest u [] [(''api'', 1, False)] [(''api'', 1)])" using started by blast
  show ?thesis
    using every_child_has_one_holder [OF acts_steps [OF u], of "''api''" 1] by force
qed

text \<open>C4: once shutdown has begun it stays begun, and a process begins at most as many runs more as
  spawns of it had passed the check before: whatever exits, restarts, requests and start orders follow,
  nothing else starts.\<close>

theorem nothing_starts_after_shutdown:
  assumes "sup_step\<^sup>*\<^sup>* s t" and "su_shutting_down (sy_sup s)"
  shows "su_shutting_down (sy_sup t) \<and> run_count n t + let_through n t \<le> run_count n s + let_through n s"
  using steps_quiet [OF assms] by (simp add: quiet_def)

theorem nothing_starts_after_shutdown_witness:
  "\<exists>t. act OrderDep (sys_map begin_shutdown (sys_start [demo_config])) = Some t \<and> run_count ''api'' t = 0"
proof -
  let ?s = "sys_map begin_shutdown (sys_start [demo_config])"
  have "let_through ''api'' ?s = 0" "run_count ''api'' ?s = 0"
    by (simp_all add: let_through_def run_count_def sys_start_def sys_map_def order_from_def runs_of_def
        register_all_def register_process_def)
  moreover obtain t where t: "act OrderDep ?s = Some t"
    by (simp add: trace_defs sys_start_def)
  moreover have "sup_step\<^sup>*\<^sup>* ?s t" "su_shutting_down (sy_sup ?s)"
    by (rule r_into_rtranclp, rule sup_step.step [OF t]) (simp add: sys_map_def)
  ultimately show ?thesis
    using nothing_starts_after_shutdown [of ?s t "''api''"] t by auto
qed

text \<open>C5: a process that crashed and is cooling off can be started through the API, because only
  \<open>Running\<close> is refused; the restart then forks a second child. Storing the second kill handle stops
  the first child, whose monitor writes \<open>Stopped\<close> and no pid over the process while the second
  child runs on: the API refuses to stop it, and it outlives the whole of \<open>stop_all\<close>, never told to
  stop.\<close>

theorem start_while_cooling_outlives_shutdown:
  "\<exists>s t. acts double_start (sys_start [demo_config]) = Some s \<and>
     children ''api'' 2 s = 1 \<and> children ''api'' 3 s = 1 \<and>
     acts then_stop_all s = Some t \<and> su_shutting_down (sy_sup t) \<and> StoppingTiers [] \<in> set (sy_tasks t) \<and>
     children ''api'' 3 t = 1 \<and> \<not> kill_fired ''api'' 3 (sy_sup t) \<and>
     map_option mp_state (sup_get (sy_sup t) ''api'') = Some Stopped \<and>
     map_option mp_pid (sup_get (sy_sup t) ''api'') = Some None \<and> do_api_stop ''api'' 10000 t = None"
proof -
  obtain u where u: "acts double_start (sys_start [demo_config])
     = Some (at_rest u [] [(''api'', 2, False), (''api'', 3, False)] [(''api'', 3), (''api'', 2)])"
    using two_at_once by blast
  obtain v where v: "acts (double_start @ then_stop_all) (sys_start [demo_config])
     = Some (at_rest v [StoppingTiers []] [(''api'', 3, False)] [(''api'', 3)])"
    "su_shutting_down v" "su_procs v = [(''api'', monitor_stopped None 9000 third_proc)]" using leaked by blast
  have "acts then_stop_all (at_rest u [] [(''api'', 2, False), (''api'', 3, False)] [(''api'', 3), (''api'', 2)])
     = Some (at_rest v [StoppingTiers []] [(''api'', 3, False)] [(''api'', 3)])"
    using v(1) u by (simp add: acts_append)
  with u show ?thesis
    using v by (auto simp: children_def kill_fired_def sup_get_one [OF v(3)] monitor_stopped_def
        do_api_stop_def request_stop_def)
qed

text \<open>C6: a stop that the API accepts between the two locked sections of an exit is lost: the process,
  told to stop, is restarted and runs again.\<close>

theorem accepted_stop_is_lost:
  "\<exists>t. acts stop_in_between (sys_start [demo_config]) = Some t \<and> ApiStop ''api'' 4100 \<in> set stop_in_between \<and>
     map_option mp_state (sup_get (sy_sup t) ''api'') = Some Running \<and> children ''api'' 2 t = 1 \<and>
     \<not> kill_fired ''api'' 2 (sy_sup t) \<and> sy_tasks t = []"
proof -
  obtain u where u: "acts stop_in_between (sys_start [demo_config])
     = Some (at_rest u [] [(''api'', 2, False)] [(''api'', 2)])" "su_procs u = [(''api'', back_again)]"
    using stop_lost by blast
  then show ?thesis
    by (simp add: sup_get_one [OF u(2)] back_again_def mark_running_def arm_run_def children_def kill_fired_def
        stop_in_between_def)
qed

text \<open>C7: one program that cannot be executed ends the start order: the process stays \<open>Starting\<close> for
  ever and those after it stay \<open>Pending\<close>, though they do not depend on it, and no task is left
  that would start them.\<close>

theorem failed_spawn_ends_start_order:
  "\<exists>t. acts missing_program (sys_start [demo_config, web_config]) = Some t \<and> pc_depends_on web_config = [] \<and>
     sy_order t = [] \<and> sy_tasks t = [] \<and> sy_watchers t = [] \<and>
     map_option mp_state (sup_get (sy_sup t) ''api'') = Some Starting \<and>
     map_option mp_state (sup_get (sy_sup t) ''web'') = Some Pending"
proof -
  obtain u where u: "acts missing_program (sys_start [demo_config, web_config]) = Some (at_rest u [] [] [])"
    "su_procs u = [(''api'', begin_run (managed_new demo_config)), (''web'', managed_new web_config)]"
    using order_cut by blast
  then show ?thesis
    by (simp add: sup_get_def at_rest_def begin_run_def managed_new_def web_config_def process_config_default_def)
qed

end
