(* ===== verification/Reaper.thy ===== *)
theory Reaper
  imports RustStr
begin

text \<open>
  \<open>crates/stormd/src/reaper.rs\<close>: the zombies stormd reaps as PID 1. A scan of \<open>/proc\<close> is its list of
  names, each with the text of its \<open>stat\<close> file where that could be read; pids are \<open>i32\<close> values.
\<close>

definition grace :: millis where "grace = 5000"
definition reap_interval :: millis where "reap_interval = 1000"

definition parse_stat :: "string \<Rightarrow> (i32 \<times> char \<times> i32) option" where
  "parse_stat stat =
     (case (split_once ''('' stat, rsplit_once_char (CHR '')'') stat) of
        (Some (before, _), Some (_, after)) \<Rightarrow>
          (case (parse_i32 (trim before), split_whitespace after) of
             (Some pid, st # pp # _) \<Rightarrow>
               (case (st, parse_i32 pp) of (c # _, Some ppid) \<Rightarrow> Some (pid, c, ppid) | _ \<Rightarrow> None)
           | _ \<Rightarrow> None)
      | _ \<Rightarrow> None)"

definition zombie_of :: "i32 \<Rightarrow> string \<times> string option \<Rightarrow> i32 option" where
  "zombie_of parent = (\<lambda>(name, stat).
     (case (parse_i32 name, stat) of
        (Some pid, Some t) \<Rightarrow>
          (case parse_stat t of
             Some (_, c, ppid) \<Rightarrow> if c = CHR ''Z'' \<and> ppid = parent then Some pid else None
           | None \<Rightarrow> None)
      | _ \<Rightarrow> None))"

definition zombie_children :: "i32 \<Rightarrow> (string \<times> string option) list option \<Rightarrow> i32 list option" where
  "zombie_children parent proc = map_option (List.map_filter (zombie_of parent)) proc"

type_synonym tracker = "i32 \<Rightarrow> millis option"

text \<open>One turn of the loop in \<open>Tracker::due\<close>; \<open>duration_since\<close> is zero for a later instant.\<close>

definition track :: "millis \<Rightarrow> millis \<Rightarrow> tracker \<times> i32 list \<Rightarrow> i32 \<Rightarrow> tracker \<times> i32 list" where
  "track now g = (\<lambda>(m, found) pid.
     (let t = (case m pid of Some t \<Rightarrow> t | None \<Rightarrow> now)
      in (m(pid \<mapsto> t), if g \<le> max 0 (now - t) then found @ [pid] else found)))"

definition due :: "i32 list \<Rightarrow> millis \<Rightarrow> millis \<Rightarrow> tracker \<Rightarrow> tracker \<times> i32 list" where
  "due zombies now g m =
     (case foldl (track now g) (\<lambda>p. if p \<in> set zombies then m p else None, []) zombies of
        (m', found) \<Rightarrow> (\<lambda>p. if p \<in> set found then None else m' p, found))"

text \<open>
  One turn of \<open>run\<close>: the pids it waits for by number, or that it reaps whatever child has exited.
\<close>

datatype reaping = ReapPids "i32 list" | ReapAny

definition reaper_turn :: "i32 \<Rightarrow> (string \<times> string option) list option \<Rightarrow> millis \<Rightarrow> tracker \<Rightarrow> tracker \<times> reaping" where
  "reaper_turn me proc now m =
     (case zombie_children me proc of
        None \<Rightarrow> (m, ReapAny)
      | Some zs \<Rightarrow> (case due zs now grace m of (m', ps) \<Rightarrow> (m', ReapPids ps)))"

section \<open>The tracker\<close>

lemma track_apply: "track now g (m, acc) z =
    (m(z \<mapsto> (case m z of Some t \<Rightarrow> t | None \<Rightarrow> now)),
     if g \<le> max 0 (now - (case m z of Some t \<Rightarrow> t | None \<Rightarrow> now)) then acc @ [z] else acc)"
  by (simp add: track_def Let_def)

lemma track_loop:
  "foldl (track now g) (m, acc) zs = (m', found) \<Longrightarrow>
     m' = (\<lambda>p. if p \<in> set zs then Some (case m p of Some t \<Rightarrow> t | None \<Rightarrow> now) else m p) \<and>
     found = acc @ filter (\<lambda>p. g \<le> max 0 (now - (case m p of Some t \<Rightarrow> t | None \<Rightarrow> now))) zs"
proof (induction zs arbitrary: m acc)
  case (Cons z zs)
  let ?t = "case m z of Some t \<Rightarrow> t | None \<Rightarrow> now"
  have keep: "(case (m(z \<mapsto> ?t)) p of Some t \<Rightarrow> t | None \<Rightarrow> now) = (case m p of Some t \<Rightarrow> t | None \<Rightarrow> now)" for p
    by simp
  from Cons.prems have
    "foldl (track now g) (m(z \<mapsto> ?t), if g \<le> max 0 (now - ?t) then acc @ [z] else acc) zs = (m', found)"
    by (simp add: track_apply)
  from Cons.IH [OF this] show ?case
    unfolding keep by (auto simp: fun_eq_iff)
qed auto

definition clock :: "tracker \<Rightarrow> millis \<Rightarrow> i32 \<Rightarrow> millis" where
  "clock m now p = (case m p of Some t \<Rightarrow> t | None \<Rightarrow> now)"

lemma due_simp: "due zs now g m =
    (\<lambda>p. if p \<in> set zs \<and> \<not> g \<le> max 0 (now - clock m now p) then Some (clock m now p) else None,
     filter (\<lambda>p. g \<le> max 0 (now - clock m now p)) zs)"
proof -
  let ?m = "\<lambda>p. if p \<in> set zs then m p else None"
  obtain m' found where loop: "foldl (track now g) (?m, []) zs = (m', found)"
    by (cases "foldl (track now g) (?m, []) zs")
  have same: "p \<in> set zs \<Longrightarrow> (case ?m p of Some t \<Rightarrow> t | None \<Rightarrow> now) = clock m now p" for p
    by (simp add: clock_def)
  have "found = filter (\<lambda>p. g \<le> max 0 (now - clock m now p)) zs"
    using track_loop [OF loop] same by (auto intro!: filter_cong)
  moreover have "m' = (\<lambda>p. if p \<in> set zs then Some (clock m now p) else None)"
    using track_loop [OF loop] same by (auto simp: fun_eq_iff)
  ultimately show ?thesis
    by (auto simp: due_def loop fun_eq_iff)
qed

text \<open>A history of scans, oldest first, and what the last of them reaps.\<close>

type_synonym scan = "i32 list \<times> millis"

definition after_scans :: "millis \<Rightarrow> scan list \<Rightarrow> tracker" where
  "after_scans g ss = foldl (\<lambda>m (zs, now). fst (due zs now g m)) Map.empty ss"

lemma after_scans_Nil [simp]: "after_scans g [] p = None"
  by (simp add: after_scans_def)

lemma after_scans_snoc [simp]: "after_scans g (ss @ [(zs, now)]) = fst (due zs now g (after_scans g ss))"
  by (simp add: after_scans_def)

text \<open>\<open>watched p t ss\<close>: the history ends with scans that all show \<open>p\<close>, the first of them at \<open>t\<close>.\<close>

definition watched :: "i32 \<Rightarrow> millis \<Rightarrow> scan list \<Rightarrow> bool" where
  "watched p t ss \<longleftrightarrow> (\<exists>us zs vs. ss = us @ (zs, t) # vs \<and> list_all (\<lambda>s. p \<in> set (fst s)) ((zs, t) # vs))"

lemma watched_new: "p \<in> set zs \<Longrightarrow> watched p now (ss @ [(zs, now)])"
  unfolding watched_def by (rule exI [of _ ss], rule exI [of _ zs], rule exI [of _ "[]"]) simp

lemma watched_snoc: "watched p t ss \<Longrightarrow> p \<in> set zs \<Longrightarrow> watched p t (ss @ [(zs, now)])"
proof -
  assume "watched p t ss" and p: "p \<in> set zs"
  then obtain us z0 vs where "ss = us @ (z0, t) # vs" "list_all (\<lambda>s. p \<in> set (fst s)) ((z0, t) # vs)"
    by (auto simp: watched_def)
  then have "ss @ [(zs, now)] = us @ (z0, t) # (vs @ [(zs, now)])"
    and "list_all (\<lambda>s. p \<in> set (fst s)) ((z0, t) # (vs @ [(zs, now)]))"
    using p by auto
  then show ?thesis unfolding watched_def by blast
qed

lemma tracked_watched: "after_scans g ss p = Some t \<Longrightarrow> watched p t ss"
proof (induction ss rule: rev_induct)
  case (snoc s ss)
  obtain zs now where s: "s = (zs, now)" by (cases s)
  from snoc.prems have "p \<in> set zs" "t = clock (after_scans g ss) now p"
    by (auto simp: s due_simp split: if_splits)
  then show ?case
    using snoc.IH by (cases "after_scans g ss p") (auto simp: s clock_def intro: watched_new watched_snoc)
qed simp

lemma fresh_clock:
  "list_all (\<lambda>s. p \<in> set (fst s) \<and> snd s - t0 < g) vs \<Longrightarrow> 0 < g \<Longrightarrow> after_scans g us p = Some t0 \<Longrightarrow>
     after_scans g (us @ vs) p = Some t0"
proof (induction vs rule: rev_induct)
  case (snoc v vs)
  obtain zs now where v: "v = (zs, now)" by (cases v)
  from snoc have "after_scans g (us @ vs) p = Some t0" by simp
  with snoc.prems show ?case
    by (simp add: v due_simp clock_def max_def flip: append_assoc)
qed simp

section \<open>Properties\<close>

text \<open>C20: a pid is reaped only in a scan that shows it a zombie and after every scan for at least the
  grace time before showed it too: a child that its own waiter takes within the grace is never touched.\<close>

theorem reaped_only_after_grace:
  assumes "0 < g" and "p \<in> set (snd (due zs now g (after_scans g ss)))"
  shows "\<exists>t. watched p t (ss @ [(zs, now)]) \<and> g \<le> now - t"
proof -
  from assms have p: "p \<in> set zs" and late: "g \<le> now - clock (after_scans g ss) now p"
    by (auto simp: due_simp)
  moreover have "watched p (clock (after_scans g ss) now p) (ss @ [(zs, now)])"
    using p tracked_watched [of g ss p]
    by (cases "after_scans g ss p") (auto simp: clock_def intro: watched_new watched_snoc)
  ultimately show ?thesis by blast
qed

theorem reaped_only_after_grace_witness:
  "\<exists>t. watched 7 t [([7, 8], 1000), ([7], 6000)] \<and> 5000 \<le> 6000 - t"
  using reaped_only_after_grace [of 5000 7 "[7]" 6000 "[([7, 8], 1000)]"]
  by (simp add: after_scans_def due_simp clock_def)

text \<open>C21: an orphan that stays is reaped by the first scan after the grace: a pid not tracked before, first
  seen at \<open>t0\<close> and in every scan since, is reaped now exactly when the grace is over.\<close>

theorem orphan_reaped_after_grace:
  assumes "0 < g" and "p \<in> set zs"
    and "after_scans g us p = None" and "p \<in> set z0"
    and "list_all (\<lambda>s. p \<in> set (fst s) \<and> snd s - t0 < g) vs"
  shows "p \<in> set (snd (due zs now g (after_scans g (us @ (z0, t0) # vs)))) \<longleftrightarrow> g \<le> now - t0"
proof -
  have "after_scans g (us @ [(z0, t0)]) p = Some t0"
    using assms(1,3,4) by (simp add: due_simp clock_def)
  then have "after_scans g ((us @ [(z0, t0)]) @ vs) p = Some t0"
    using fresh_clock [OF assms(5) assms(1)] by blast
  then show ?thesis
    using assms(1,2) by (simp add: due_simp clock_def max_def)
qed

theorem orphan_reaped_after_grace_witness:
  "7 \<in> set (snd (due [7] 6000 5000 (after_scans 5000 ([] @ ([7, 8], 1000) # [([7], 4000)]))))"
  using orphan_reaped_after_grace [of 5000 7 "[7]" "[]" "[7, 8]" 1000 "[([7], 4000)]" 6000] by simp

text \<open>The pid, state and parent of a process are read off its \<open>stat\<close> line whatever its command name
  holds, parentheses and spaces included.\<close>

theorem stat_read_for_any_name:
  assumes "parse_i32 pid = Some a" and "parse_i32 ppid = Some b" and "list_all (\<lambda>c. \<not> is_ws c \<and> c \<noteq> CHR ''('' \<and> c \<noteq> CHR '')'') (pid @ st # ppid)"
    and "CHR '')'' \<notin> set rest"
  shows "parse_stat (pid @ '' ('' @ name @ '') '' @ [st] @ '' '' @ ppid @ '' '' @ rest) = Some (a, st, b)"
proof -
  let ?line = "pid @ '' ('' @ name @ '') '' @ [st] @ '' '' @ ppid @ '' '' @ rest"
  have ws: "is_ws (CHR '' '')" by (simp add: is_ws_def)
  have pid: "pid \<noteq> []" "\<not> is_ws (hd pid)" "\<not> is_ws (last pid)"
    using assms(1,3) by (auto simp: parse_i32_def list_all_iff split: list.splits)
  have 1: "split_once ''('' ?line = Some (pid @ '' '', name @ '') '' @ [st] @ '' '' @ ppid @ '' '' @ rest)"
    using assms(3) by (auto simp: split_once_char_Some list_all_iff)
  have 2: "rsplit_once_char (CHR '')'') ?line = Some (pid @ '' ('' @ name, '' '' @ [st] @ '' '' @ ppid @ '' '' @ rest)"
    using assms(3,4) by (auto simp: rsplit_once_char_Some list_all_iff)
  have run: "list_all (\<lambda>c. \<not> is_ws c) w \<Longrightarrow> words_ws acc (w @ CHR '' '' # r) = (if acc = [] \<and> w = [] then words_ws [] r else (rev acc @ w) # words_ws [] r)" for acc w r
    by (induction w arbitrary: acc) (auto simp: ws)
  have "ppid \<noteq> []" using assms(2) by (auto simp: parse_i32_def)
  then have "split_whitespace ('' '' @ [st] @ '' '' @ ppid @ '' '' @ rest) = [st] # ppid # split_whitespace rest"
    using run [of "[st]" "[]" "ppid @ '' '' @ rest"] run [of ppid "[]" rest] assms(3)
    by (simp add: split_whitespace_def ws list.pred_mono_strong [OF assms(3)] list_all_iff)
  moreover have "trim (pid @ '' '') = pid"
    using pid trim_noop [of pid] by (cases pid) (auto simp: trim_def trim_start_def trim_end_def ws)
  ultimately show ?thesis
    using assms(1,2) by (simp only: parse_stat_def 1 2) simp
qed

theorem stat_read_for_any_name_witness:
  "parse_stat (''7'' @ '' ('' @ ''a) b'' @ '') '' @ ''Z'' @ '' '' @ ''1'' @ '' '' @ ''7 7'') = Some (7, CHR ''Z'', 1)"
  by (rule stat_read_for_any_name)
     (simp_all add: parse_i32_def parse_unsigned_def digit_val_def is_ws_def)

end
