(* ===== verification/Cron.thy ===== *)
theory Cron
  imports Config Events "HOL-Library.AList"
begin

text \<open>
  \<open>crates/stormd/src/cron.rs\<close>: the scheduler, its jobs and their runs. The \<open>cron\<close> crate is the
  parameter \<open>cron_lib\<close>: a parser of expressions and the first time a schedule fires after another.
  The jobs are an association list, whose order stands for the order the hash map is walked in.
\<close>

record 's cron_lib =
  cl_parse :: "string \<Rightarrow> 's option"
  cl_after :: "'s \<Rightarrow> millis \<Rightarrow> millis option"

record 's cron_job =
  cr_config :: cron_job_config
  cr_schedule :: 's
  cr_next_run :: "millis option"
  cr_last_run :: "millis option"
  cr_last_exit_code :: "i32 option"
  cr_run_count :: nat
  cr_fail_count :: nat
  cr_running :: bool

type_synonym 's cron_jobs = "(string \<times> 's cron_job) list"

section \<open>Registering and firing\<close>

definition cron_job_new :: "'s cron_lib \<Rightarrow> millis \<Rightarrow> cron_job_config \<Rightarrow> 's \<Rightarrow> 's cron_job" where
  "cron_job_new lib now cfg sch = \<lparr>cr_config = cfg, cr_schedule = sch, cr_next_run = cl_after lib sch now,
     cr_last_run = None, cr_last_exit_code = None, cr_run_count = 0, cr_fail_count = 0, cr_running = False\<rparr>"

text \<open>The first invalid expression ends the registration with an error; the jobs before it stay.\<close>

fun register_jobs ::
    "'s cron_lib \<Rightarrow> millis \<Rightarrow> cron_job_config list \<Rightarrow> 's cron_jobs \<Rightarrow> 's cron_jobs \<times> (string + unit)" where
  "register_jobs lib now [] jobs = (jobs, Inr ())"
| "register_jobs lib now (c # cs) jobs =
     (case cl_parse lib (cj_schedule c) of
        None \<Rightarrow> (jobs, Inl (cj_schedule c))
      | Some sch \<Rightarrow> register_jobs lib now cs (AList.update (cj_name c) (cron_job_new lib now c sch) jobs))"

definition job_due :: "millis \<Rightarrow> 's cron_job \<Rightarrow> bool" where
  "job_due now j \<longleftrightarrow> (case cr_next_run j of Some next \<Rightarrow> next \<le> now | None \<Rightarrow> False)"

definition advance_job :: "'s cron_lib \<Rightarrow> millis \<Rightarrow> 's cron_job \<Rightarrow> 's cron_job" where
  "advance_job lib now j =
     (if job_due now j then j\<lparr>cr_next_run := cl_after lib (cr_schedule j) now\<rparr> else j)"

definition sooner :: "millis option \<Rightarrow> millis option \<Rightarrow> millis option" where
  "sooner wake next =
     (case next of
        None \<Rightarrow> wake
      | Some n \<Rightarrow> (case wake of None \<Rightarrow> Some n | Some w \<Rightarrow> if n < w then Some n else Some w))"

text \<open>
  One round of \<open>run\<close> over the jobs: the jobs with their fire times moved on, the names to run and when
  to wake. A job without a next fire time is passed over.
\<close>

fun fire ::
    "'s cron_lib \<Rightarrow> millis \<Rightarrow> 's cron_jobs \<Rightarrow> millis option \<Rightarrow> 's cron_jobs \<times> string list \<times> millis option" where
  "fire lib now [] wake = ([], [], wake)"
| "fire lib now ((n, j) # js) wake =
     (let j' = advance_job lib now j;
          wake' = (if cr_next_run j = None then wake else sooner wake (cr_next_run j'))
      in case fire lib now js wake' of
           (js', ns, w) \<Rightarrow> ((n, j') # js', (if job_due now j then n # ns else ns), w))"

text \<open>What the loop does with a name to run: skip it while its last run is going on, else start it.\<close>

definition claim_job :: "string \<Rightarrow> 's cron_jobs \<Rightarrow> 's cron_jobs \<times> bool" where
  "claim_job n jobs =
     (case map_of jobs n of
        None \<Rightarrow> (jobs, False)
      | Some j \<Rightarrow> if cr_running j then (jobs, False) else (AList.update n (j\<lparr>cr_running := True\<rparr>) jobs, True))"

definition sleep_for :: "millis \<Rightarrow> millis option \<Rightarrow> millis" where
  "sleep_for now wake = (case wake of None \<Rightarrow> 1000 | Some t \<Rightarrow> max 0 (t - now))"

section \<open>One run of a job\<close>

text \<open>
  What became of the command; an output that is not UTF-8 is \<open>None\<close>. The code is what
  \<open>ExitStatus::code\<close> says, none for a death by signal.
\<close>

datatype job_result =
    JobEnded "string option" "string option" "i32 option"
  | JobWaitFailed
  | JobTimedOut
  | JobNotSpawned

definition result_code :: "job_result \<Rightarrow> i32 option" where
  "result_code r = (case r of JobEnded _ _ code \<Rightarrow> code | _ \<Rightarrow> None)"

definition job_entries :: "log_io \<Rightarrow> string \<Rightarrow> cron_job_config \<Rightarrow> job_result \<Rightarrow> log_entry list" where
  "job_entries io n c r =
     (case r of
        JobEnded out err _ \<Rightarrow>
          if cj_capture_output c
          then map (log_entry_new (uuid io) (now_ts io) (''cron.'' @ n) Stdout)
                 (case out of Some s \<Rightarrow> lines s | None \<Rightarrow> [])
               @ map (\<lambda>l. with_severity Warning (log_entry_new (uuid io) (now_ts io) (''cron.'' @ n) Stderr l))
                 (case err of Some s \<Rightarrow> lines s | None \<Rightarrow> [])
          else []
      | _ \<Rightarrow> [])"

definition finish_job :: "string \<Rightarrow> i32 option \<Rightarrow> millis \<Rightarrow> 's cron_jobs \<Rightarrow> 's cron_jobs" where
  "finish_job n code now jobs =
     (case map_of jobs n of
        None \<Rightarrow> jobs
      | Some j \<Rightarrow>
          AList.update n (j\<lparr>cr_last_run := Some now, cr_last_exit_code := code,
            cr_run_count := cr_run_count j + 1, cr_running := False,
            cr_fail_count := (if code = Some 0 then cr_fail_count j else cr_fail_count j + 1)\<rparr>) jobs)"

definition job_event :: "i32 option \<Rightarrow> event_kind" where
  "job_event code = (if code = Some 0 then CronExecuted else CronFailed)"

section \<open>Status\<close>

record cron_status =
  cx_name :: string
  cx_schedule :: string
  cx_last_run :: "string option"
  cx_last_exit_code :: "i32 option"
  cx_next_run :: "string option"
  cx_run_count :: nat
  cx_fail_count :: nat

definition cron_statuses :: "(millis \<Rightarrow> string) \<Rightarrow> 's cron_jobs \<Rightarrow> cron_status list" where
  "cron_statuses rfc3339 jobs =
     sort_key cx_name
       (map (\<lambda>(n, j). \<lparr>cx_name = n, cx_schedule = cj_schedule (cr_config j),
          cx_last_run = map_option rfc3339 (cr_last_run j), cx_last_exit_code = cr_last_exit_code j,
          cx_next_run = map_option rfc3339 (cr_next_run j), cx_run_count = cr_run_count j,
          cx_fail_count = cr_fail_count j\<rparr>) jobs)"

section \<open>The scheduler with its runs\<close>

text \<open>
  The loop's own task (the names it still has to claim) and the runs it has started. Runs end in any
  order, also between two claims.
\<close>

record 's cron =
  co_jobs :: "'s cron_jobs"
  co_due :: "string list"
  co_runs :: "string list"
  co_emitted :: "(event_kind \<times> string) list"

inductive cron_step :: "'s cron_lib \<Rightarrow> 's cron \<Rightarrow> 's cron \<Rightarrow> bool" for lib where
  round: "co_due s = [] \<Longrightarrow> fire lib now (co_jobs s) None = (js, ns, wake) \<Longrightarrow>
     cron_step lib s (s\<lparr>co_jobs := js, co_due := ns\<rparr>)"
| claim: "co_due s = n # ns \<Longrightarrow> claim_job n (co_jobs s) = (js, started) \<Longrightarrow>
     cron_step lib s (s\<lparr>co_jobs := js, co_due := ns, co_runs := (if started then n # co_runs s else co_runs s)\<rparr>)"
| finish: "n \<in> set (co_runs s) \<Longrightarrow>
     cron_step lib s (s\<lparr>co_jobs := finish_job n (result_code r) now (co_jobs s),
       co_runs := remove1 n (co_runs s),
       co_emitted := co_emitted s @ [(job_event (result_code r), n)]\<rparr>)"

inductive_cases cron_stepE: "cron_step lib s t"

definition cron_start :: "'s cron_lib \<Rightarrow> millis \<Rightarrow> cron_job_config list \<Rightarrow> 's cron" where
  "cron_start lib now cs = \<lparr>co_jobs = fst (register_jobs lib now cs []), co_due = [], co_runs = [], co_emitted = []\<rparr>"

text \<open>The flag of a job says whether a run of it is going on; failures are runs.\<close>

definition job_ok :: "string list \<Rightarrow> string \<times> 's cron_job \<Rightarrow> bool" where
  "job_ok rs = (\<lambda>(n, j). (cr_running j \<longleftrightarrow> n \<in> set rs) \<and> cr_fail_count j \<le> cr_run_count j)"

definition cron_inv :: "'s cron \<Rightarrow> bool" where
  "cron_inv s \<longleftrightarrow> distinct (co_runs s) \<and> distinct (map fst (co_jobs s)) \<and>
     set (co_runs s) \<subseteq> fst ` set (co_jobs s) \<and> list_all (job_ok (co_runs s)) (co_jobs s)"

section \<open>Correctness\<close>

lemma fire_jobs: "fire lib now js wake = (js', ns, w) \<Longrightarrow>
    js' = map (\<lambda>(n, j). (n, advance_job lib now j)) js \<and>
    ns = map fst (filter (\<lambda>(n, j). job_due now j) js)"
  by (induction js arbitrary: wake js' ns w) (auto simp: Let_def split: prod.splits if_splits)

lemma advance_frame [simp]: "cr_running (advance_job lib now j) = cr_running j"
  "cr_fail_count (advance_job lib now j) = cr_fail_count j" "cr_run_count (advance_job lib now j) = cr_run_count j"
  by (simp_all add: advance_job_def)

lemma update_members: "distinct (map fst js) \<Longrightarrow> x \<in> set (AList.update n j js) \<Longrightarrow> x = (n, j) \<or> x \<in> set js \<and> fst x \<noteq> n"
proof (induction js)
  case (Cons y js)
  then show ?case by (cases y; cases "fst y = n") force+
qed simp

lemma job_ok_update:
  assumes "list_all (job_ok rs) js" and "distinct (map fst js)" and "job_ok rs' (n, j)"
    and "\<And>m. m \<noteq> n \<Longrightarrow> m \<in> set rs' \<longleftrightarrow> m \<in> set rs"
  shows "list_all (job_ok rs') (AList.update n j js)"
  unfolding list_all_iff
proof
  fix x assume "x \<in> set (AList.update n j js)"
  then consider "x = (n, j)" | "x \<in> set js" "fst x \<noteq> n" using update_members [OF assms(2)] by blast
  then show "job_ok rs' x"
    using assms(1,3,4) by cases (auto simp: list_all_iff job_ok_def)
qed

lemma keys_update: "fst ` set (AList.update n j js) = insert n (fst ` set js)"
  by (induction js) auto

lemma cron_invI: "distinct rs \<Longrightarrow> distinct (map fst js) \<Longrightarrow> set rs \<subseteq> fst ` set js \<Longrightarrow>
    list_all (job_ok rs) js \<Longrightarrow> cron_inv \<lparr>co_jobs = js, co_due = ds, co_runs = rs, co_emitted = es\<rparr>"
  by (simp add: cron_inv_def)

lemma cron_invD: "cron_inv s \<Longrightarrow> distinct (co_runs s)" "cron_inv s \<Longrightarrow> distinct (map fst (co_jobs s))"
    "cron_inv s \<Longrightarrow> set (co_runs s) \<subseteq> fst ` set (co_jobs s)" "cron_inv s \<Longrightarrow> list_all (job_ok (co_runs s)) (co_jobs s)"
  by (simp_all add: cron_inv_def)

lemma job_ok_of: "list_all (job_ok rs) js \<Longrightarrow> map_of js n = Some j \<Longrightarrow> job_ok rs (n, j)"
  by (auto simp: list_all_iff dest: map_of_SomeD)

lemma register_ok:
  "distinct (map fst js) \<Longrightarrow> list_all (job_ok []) js \<Longrightarrow>
     distinct (map fst (fst (register_jobs lib now cs js))) \<and> list_all (job_ok []) (fst (register_jobs lib now cs js))"
proof (induction cs arbitrary: js)
  case (Cons c cs)
  show ?case
  proof (cases "cl_parse lib (cj_schedule c)")
    case (Some sch)
    let ?js = "AList.update (cj_name c) (cron_job_new lib now c sch) js"
    have "list_all (job_ok []) ?js"
      by (rule job_ok_update [OF Cons.prems(2,1)]) (simp_all add: job_ok_def cron_job_new_def)
    then show ?thesis
      using Cons.IH [of ?js] Cons.prems(1) by (simp only: register_jobs.simps Some option.case distinct_update)
  qed (use Cons.prems in simp)
qed simp

lemma cron_start_inv: "cron_inv (cron_start lib now cs)"
  unfolding cron_start_def using register_ok [of "[]" lib now cs] by (intro cron_invI) simp_all

lemma round_inv: "cron_inv s \<Longrightarrow> fire lib now (co_jobs s) None = (js, ns, wake) \<Longrightarrow>
    cron_inv (s\<lparr>co_jobs := js, co_due := ns\<rparr>)"
proof -
  assume inv: "cron_inv s" and "fire lib now (co_jobs s) None = (js, ns, wake)"
  then have js: "js = map (\<lambda>(n, j). (n, advance_job lib now j)) (co_jobs s)" using fire_jobs by blast
  have keys: "map fst js = map fst (co_jobs s)" by (auto simp: js)
  have "list_all (job_ok (co_runs s)) js"
    using cron_invD(4) [OF inv] by (auto simp: js list_all_iff job_ok_def)
  moreover have "fst ` set js = fst ` set (co_jobs s)" using keys by (metis set_map)
  ultimately show ?thesis using cron_invD [OF inv] keys by (simp add: cron_inv_def)
qed

lemma claim_inv: "cron_inv s \<Longrightarrow> claim_job n (co_jobs s) = (js, started) \<Longrightarrow>
    cron_inv (s\<lparr>co_jobs := js, co_due := ns, co_runs := (if started then n # co_runs s else co_runs s)\<rparr>)"
proof (cases started)
  case False
  assume inv: "cron_inv s" and "claim_job n (co_jobs s) = (js, started)"
  with False have "js = co_jobs s" by (auto simp: claim_job_def split: option.splits if_splits)
  with False show ?thesis using inv by (simp add: cron_inv_def)
next
  case True
  assume inv: "cron_inv s" and c: "claim_job n (co_jobs s) = (js, started)"
  then obtain j where j: "map_of (co_jobs s) n = Some j" "\<not> cr_running j"
    and js: "js = AList.update n (j\<lparr>cr_running := True\<rparr>) (co_jobs s)"
    using True by (auto simp: claim_job_def split: option.splits if_splits)
  have ok: "job_ok (co_runs s) (n, j)" by (rule job_ok_of [OF cron_invD(4) [OF inv] j(1)])
  then have new: "n \<notin> set (co_runs s)" using j(2) by (simp add: job_ok_def)
  have "list_all (job_ok (n # co_runs s)) js"
    unfolding js by (rule job_ok_update [OF cron_invD(4,2) [OF inv]]) (use ok in \<open>auto simp: job_ok_def\<close>)
  moreover have "set (n # co_runs s) \<subseteq> fst ` set js"
    using cron_invD(3) [OF inv] unfolding js keys_update by auto
  ultimately show ?thesis
    using cron_invD(1,2) [OF inv] new True by (simp add: cron_inv_def js distinct_update)
qed

lemma finish_inv: "cron_inv s \<Longrightarrow> n \<in> set (co_runs s) \<Longrightarrow>
    cron_inv (s\<lparr>co_jobs := finish_job n code now (co_jobs s), co_runs := remove1 n (co_runs s), co_emitted := es\<rparr>)"
proof -
  assume inv: "cron_inv s" and n: "n \<in> set (co_runs s)"
  have d: "distinct (co_runs s)" "distinct (map fst (co_jobs s))" using cron_invD(1,2) [OF inv] .
  have "n \<in> fst ` set (co_jobs s)" using cron_invD(3) [OF inv] n by blast
  then obtain j where j: "map_of (co_jobs s) n = Some j"
    by (metis map_of_eq_None_iff not_Some_eq)
  let ?j = "j\<lparr>cr_last_run := Some now, cr_last_exit_code := code, cr_run_count := cr_run_count j + 1,
    cr_running := False, cr_fail_count := (if code = Some 0 then cr_fail_count j else cr_fail_count j + 1)\<rparr>"
  have f: "finish_job n code now (co_jobs s) = AList.update n ?j (co_jobs s)" by (simp add: finish_job_def j)
  have ok: "job_ok (co_runs s) (n, j)" by (rule job_ok_of [OF cron_invD(4) [OF inv] j])
  have "list_all (job_ok (remove1 n (co_runs s))) (AList.update n ?j (co_jobs s))"
    by (rule job_ok_update [OF cron_invD(4) [OF inv] d(2)]) (use ok d(1) in \<open>auto simp: job_ok_def\<close>)
  moreover have "set (remove1 n (co_runs s)) \<subseteq> fst ` set (AList.update n ?j (co_jobs s))"
    using cron_invD(3) [OF inv] set_remove1_subset [of n "co_runs s"] unfolding keys_update by blast
  ultimately show ?thesis
    using d by (simp add: cron_inv_def f distinct_update)
qed

lemma cron_step_inv: "cron_inv s \<Longrightarrow> cron_step lib s t \<Longrightarrow> cron_inv t"
  by (erule cron_stepE) (simp_all only: round_inv claim_inv finish_inv)

interpretation cron_jobs: step_invariant "\<lambda>s. \<exists>now cs. s = cron_start lib now cs" "cron_step lib" cron_inv
  for lib :: "'s cron_lib"
  by unfold_locales (auto intro: cron_start_inv cron_step_inv)

text \<open>The wake-up time is the earliest of the fire times.\<close>

definition earliest :: "'s cron_jobs \<Rightarrow> millis option \<Rightarrow> bool" where
  "earliest js w \<longleftrightarrow>
     (case w of
        None \<Rightarrow> list_all (\<lambda>(n, j). cr_next_run j = None) js
      | Some t \<Rightarrow> list_ex (\<lambda>(n, j). cr_next_run j = Some t) js \<and>
          list_all (\<lambda>(n, j). case cr_next_run j of Some u \<Rightarrow> t \<le> u | None \<Rightarrow> True) js)"

lemma earliest_snoc: "earliest js w \<Longrightarrow> earliest (js @ [(n, j)]) (sooner w (cr_next_run j))"
  by (auto simp: earliest_def sooner_def list_all_iff list_ex_iff split: option.splits)

lemma advance_none: "cr_next_run j = None \<Longrightarrow> cr_next_run (advance_job lib now j) = None"
  by (simp add: advance_job_def job_due_def)

lemma fire_earliest:
  "fire lib now js wake = (js', ns, w) \<Longrightarrow> earliest ks wake \<Longrightarrow> earliest (ks @ js') w"
proof (induction js arbitrary: wake js' ns w ks)
  case (Cons x js)
  obtain n j where x: "x = (n, j)" by (cases x)
  let ?j = "advance_job lib now j"
  let ?wake = "if cr_next_run j = None then wake else sooner wake (cr_next_run ?j)"
  obtain js2 ns2 where rest: "fire lib now js ?wake = (js2, ns2, w)" "js' = (n, ?j) # js2"
    using Cons.prems(1) by (auto simp: x Let_def split: prod.splits)
  have "?wake = sooner wake (cr_next_run ?j)"
    by (simp add: advance_none sooner_def)
  then have "earliest (ks @ [(n, ?j)]) ?wake"
    using earliest_snoc [OF Cons.prems(2)] by simp
  from Cons.IH [OF rest(1) this] show ?case by (simp add: rest(2))
qed simp

section \<open>Properties\<close>

text \<open>C18: whatever fires and ends in whatever order, no job ever has two runs at once; a job is marked
  running exactly while a run of it is going on, and it never counts more failures than runs.\<close>

theorem cron_runs_do_not_overlap:
  assumes "(cron_step lib)\<^sup>*\<^sup>* (cron_start lib now cs) s"
  shows "distinct (co_runs s) \<and> list_all (job_ok (co_runs s)) (co_jobs s)"
  using cron_jobs.reachable_inv [OF _ assms] by (auto simp: cron_inv_def)

definition every_second :: "unit cron_lib" where
  "every_second = \<lparr>cl_parse = (\<lambda>_. Some ()), cl_after = (\<lambda>_ t. Some (t + 1000))\<rparr>"

definition sweep :: cron_job_config where
  "sweep = \<lparr>cj_name = ''sweep'', cj_schedule = ''* * * * * *'', cj_command = ''/bin/sweep'', cj_args = [],
     cj_env = [], cj_timeout_secs = 300, cj_capture_output = True\<rparr>"

theorem cron_runs_do_not_overlap_witness:
  "list_all (job_ok []) (co_jobs (cron_start every_second 0 [sweep]))"
  using cron_runs_do_not_overlap [of every_second 0 "[sweep]" "cron_start every_second 0 [sweep]"]
  by (simp add: cron_start_def)

text \<open>C19: one round of the scheduler takes exactly the jobs whose kept fire time has come, moves each of
  them to a fire time after now and no other, so that no fire time is taken twice, and wakes at the
  earliest of the fire times then kept, so that none is slept through.\<close>

theorem each_fire_time_taken_once:
  assumes after: "\<And>sch t u. cl_after lib sch t = Some u \<Longrightarrow> t < u"
    and "fire lib now js None = (js', ns, wake)"
  shows "ns = map fst (filter (\<lambda>(n, j). job_due now j) js) \<and> map fst js' = map fst js \<and>
    list_all (\<lambda>(n, j). \<not> job_due now j) js' \<and>
    list_all2 (\<lambda>(n, j) (n', j'). job_due now j \<or> cr_next_run j' = cr_next_run j) js js' \<and> earliest js' wake"
proof -
  note f = fire_jobs [OF assms(2)]
  have "\<not> job_due now (advance_job lib now j)" for j
    using after [of "cr_schedule j" now] by (auto simp: advance_job_def job_due_def split: option.split)
  moreover have "job_due now j \<or> cr_next_run (advance_job lib now j) = cr_next_run j" for j
    by (simp add: advance_job_def)
  moreover have "earliest js' wake"
    using fire_earliest [OF assms(2), of "[]"] by (simp add: earliest_def)
  ultimately show ?thesis
    using f by (auto simp: list_all_iff list_all2_conv_all_nth split_beta)
qed

theorem each_fire_time_taken_once_witness:
  "fst (snd (fire every_second 1000 [(''sweep'', cron_job_new every_second 0 sweep ())] None)) = [''sweep'']"
proof -
  obtain js ns w where f: "fire every_second 1000 [(''sweep'', cron_job_new every_second 0 sweep ())] None = (js, ns, w)"
    by (cases "fire every_second 1000 [(''sweep'', cron_job_new every_second 0 sweep ())] None") auto
  have "ns = [''sweep'']"
    using each_fire_time_taken_once [OF _ f] by (simp add: every_second_def cron_job_new_def job_due_def)
  then show ?thesis by (simp add: f del: fire.simps)
qed

end
