(* ===== verification/Auth.thy ===== *)
theory Auth
  imports Config
begin

text \<open>
  \<open>crates/stormd/src/auth.rs\<close>: who may call the API. A string is its bytes. The token file is what
  \<open>stat\<close> (modification time and length) and reading it give at the moment, both arguments, as are
  the clock and the two random UUIDs a session id is made of. A request is what the checks read of it.
\<close>

definition session_ttl :: millis where "session_ttl = 24 * 3600 * 1000"
definition cookie_name :: string where "cookie_name = ''stormd_session''"

record auth_session =
  as_user :: string
  as_created :: millis

type_synonym stamp = "millis \<times> nat"

record token_file =
  tf_path :: string
  tf_stamp :: "stamp option"
  tf_token :: "string option"

record auth_state =
  at_users :: "(string \<times> string) list"
  at_token :: "string option"
  at_token_file :: "token_file option"
  at_sessions :: "string \<Rightarrow> auth_session option"

text \<open>What the file system says of the token file: its stamp and its text, where it can be read.\<close>

record on_disk =
  od_stamp :: "stamp option"
  od_text :: "string option"

section \<open>Credentials\<close>

definition byte :: "char \<Rightarrow> u8" where
  "byte c = of_nat (of_char c)"

definition ct_eq :: "string \<Rightarrow> string \<Rightarrow> bool" where
  "ct_eq a b =
     (foldl (\<lambda>diff i. diff OR unat ((if i < length a then byte (a ! i) else (0 :: u8))
                                  XOR (if i < length b then byte (b ! i) else 0)))
        (length a XOR length b) [0..<max (length a) (length b)] = 0)"

definition token_file_new :: "string \<Rightarrow> token_file" where
  "token_file_new path = \<lparr>tf_path = path, tf_stamp = None, tf_token = None\<rparr>"

definition read_token :: "string option \<Rightarrow> string option" where
  "read_token text = (case text of None \<Rightarrow> None | Some t \<Rightarrow> if trim t = [] then None else Some (trim t))"

definition token_current :: "on_disk \<Rightarrow> token_file \<Rightarrow> token_file \<times> string option" where
  "token_current d f =
     (let f' = (if od_stamp d = None \<or> tf_stamp f \<noteq> od_stamp d
                then f\<lparr>tf_stamp := od_stamp d, tf_token := read_token (od_text d)\<rparr> else f)
      in (f', tf_token f'))"

definition auth_from_config :: "api_config \<Rightarrow> auth_state option" where
  "auth_from_config c =
     (let users = map (\<lambda>u. (au_name u, au_password u)) (ac_users c)
                  @ (case ac_password c of Some p \<Rightarrow> [(''admin'', p)] | None \<Rightarrow> [])
      in if users = [] \<and> ac_auth_token c = None \<and> ac_token_file c = None \<and> ac_client_ca_file c = [] then None
         else Some \<lparr>at_users = users, at_token = ac_auth_token c,
                    at_token_file = map_option token_file_new (ac_token_file c), at_sessions = (\<lambda>_. None)\<rparr>)"

definition tokens :: "on_disk \<Rightarrow> auth_state \<Rightarrow> auth_state \<times> string list" where
  "tokens d a =
     (let out = (case at_token a of Some t \<Rightarrow> [t] | None \<Rightarrow> [])
      in case at_token_file a of
           None \<Rightarrow> (a, out)
         | Some f \<Rightarrow>
             (case token_current d f of
                (f', t) \<Rightarrow> (a\<lparr>at_token_file := Some f'\<rparr>, out @ (case t of Some t \<Rightarrow> [t] | None \<Rightarrow> []))))"

definition token_matches :: "on_disk \<Rightarrow> string \<Rightarrow> auth_state \<Rightarrow> auth_state \<times> bool" where
  "token_matches d given a =
     (case tokens d a of (a', ts) \<Rightarrow> (a', foldl (\<lambda>ok t. ct_eq given t \<or> ok) False ts))"

definition check_credentials ::
    "on_disk \<Rightarrow> string \<Rightarrow> string \<Rightarrow> auth_state \<Rightarrow> auth_state \<times> string option" where
  "check_credentials d username password a =
     (let matched = foldl (\<lambda>m (name, expect). if ct_eq username name \<and> ct_eq password expect then Some name else m)
                      None (at_users a)
      in if matched = None \<and> (username = [] \<or> username = ''admin'')
         then (case token_matches d password a of (a', ok) \<Rightarrow> (a', if ok then Some ''admin'' else None))
         else (a, matched))"

section \<open>Sessions\<close>

definition fresh_session :: "millis \<Rightarrow> auth_session \<Rightarrow> bool" where
  "fresh_session now s \<longleftrightarrow> now - as_created s < session_ttl"

definition new_session :: "millis \<Rightarrow> string \<Rightarrow> string \<Rightarrow> auth_state \<Rightarrow> auth_state" where
  "new_session now fresh_id user a =
     a\<lparr>at_sessions := (\<lambda>i. case at_sessions a i of
         Some s \<Rightarrow> if fresh_session now s then Some s else None | None \<Rightarrow> None)
       (fresh_id \<mapsto> \<lparr>as_user = user, as_created = now\<rparr>)\<rparr>"

definition session_user :: "millis \<Rightarrow> string \<Rightarrow> auth_state \<Rightarrow> string option" where
  "session_user now i a =
     (case at_sessions a i of
        Some s \<Rightarrow> if fresh_session now s then Some (as_user s) else None | None \<Rightarrow> None)"

definition session_valid :: "millis \<Rightarrow> string \<Rightarrow> auth_state \<Rightarrow> bool" where
  "session_valid now i a \<longleftrightarrow> session_user now i a \<noteq> None"

definition drop_session :: "string \<Rightarrow> auth_state \<Rightarrow> auth_state" where
  "drop_session i a = a\<lparr>at_sessions := (at_sessions a)(i := None)\<rparr>"

section \<open>Requests\<close>

record request =
  rq_path :: string
  rq_cert_verified :: bool
  rq_authorization :: "string option"
  rq_cookie :: "string option"

definition is_public :: "string \<Rightarrow> bool" where
  "is_public path \<longleftrightarrow> path = ''/'' \<or> path = ''/healthz'' \<or> path = ''/api/v1/health''
     \<or> starts_with path ''/api/v1/auth/''
     \<or> starts_with path ''/ui/'' \<and> \<not> starts_with path ''/ui/proxy/''"

definition is_session_cookie :: "string \<Rightarrow> bool" where
  "is_session_cookie pair =
     (case split_once ''='' (trim_start pair) of Some (name, _) \<Rightarrow> trim name = cookie_name | None \<Rightarrow> False)"

fun first_cookie :: "string list \<Rightarrow> string option" where
  "first_cookie [] = None"
| "first_cookie (p # ps) =
     (case strip_prefix (cookie_name @ ''='') (trim p) of Some v \<Rightarrow> Some v | None \<Rightarrow> first_cookie ps)"

definition session_cookie :: "request \<Rightarrow> string option" where
  "session_cookie r =
     (case rq_cookie r of None \<Rightarrow> None | Some c \<Rightarrow> first_cookie (split_char (CHR '';'') c))"

text \<open>\<open>require_auth\<close>: is the request let through?\<close>

definition bearer_ok :: "on_disk \<Rightarrow> request \<Rightarrow> auth_state \<Rightarrow> auth_state \<times> bool" where
  "bearer_ok d r a =
     (case rq_authorization r of
        None \<Rightarrow> (a, False)
      | Some v \<Rightarrow>
          (case strip_prefix ''Bearer '' v of None \<Rightarrow> (a, False) | Some given \<Rightarrow> token_matches d given a))"

definition require_auth :: "on_disk \<Rightarrow> millis \<Rightarrow> request \<Rightarrow> auth_state option \<Rightarrow> auth_state option \<times> bool" where
  "require_auth d now r auth =
     (case auth of
        None \<Rightarrow> (None, True)
      | Some a \<Rightarrow>
          if is_public (rq_path r) \<or> rq_cert_verified r then (Some a, True)
          else (case bearer_ok d r a of
                  (a', ok) \<Rightarrow>
                    (Some a', ok \<or> (case session_cookie r of Some i \<Rightarrow> session_valid now i a' | None \<Rightarrow> False))))"

section \<open>The endpoints\<close>

datatype login_reply = LoginNotRequired | LoginRefused | LoginOk string string

definition login ::
    "on_disk \<Rightarrow> millis \<Rightarrow> string \<Rightarrow> string \<Rightarrow> string \<Rightarrow> auth_state option \<Rightarrow> auth_state option \<times> login_reply" where
  "login d now fresh_id username password auth =
     (case auth of
        None \<Rightarrow> (None, LoginNotRequired)
      | Some a \<Rightarrow>
          (case check_credentials d username password a of
             (a', None) \<Rightarrow> (Some a', LoginRefused)
           | (a', Some user) \<Rightarrow> (Some (new_session now fresh_id user a'), LoginOk fresh_id user)))"

definition login_cookie :: "string \<Rightarrow> string" where
  "login_cookie i = cookie_name @ ''='' @ i @ ''; HttpOnly; Path=/; SameSite=Lax; Max-Age=''
     @ show_int (session_ttl div 1000)"

definition logout :: "request \<Rightarrow> auth_state option \<Rightarrow> auth_state option" where
  "logout r auth =
     (case (auth, session_cookie r) of (Some a, Some i) \<Rightarrow> Some (drop_session i a) | _ \<Rightarrow> auth)"

record session_reply =
  sr_required :: bool
  sr_authenticated :: bool
  sr_user :: "string option"

definition session_info :: "millis \<Rightarrow> request \<Rightarrow> auth_state option \<Rightarrow> session_reply" where
  "session_info now r auth =
     (let user = (case auth of
                    None \<Rightarrow> None
                  | Some a \<Rightarrow> (case session_cookie r of Some i \<Rightarrow> session_user now i a | None \<Rightarrow> None))
      in \<lparr>sr_required = (auth \<noteq> None), sr_authenticated = (auth = None \<or> user \<noteq> None), sr_user = user\<rparr>)"

section \<open>Correctness\<close>

lemma or_zero: "(a OR b = 0) = (a = 0 \<and> b = 0)" for a b :: nat
  by (metis bit.disj_zero_right or.left_idem or.right_neutral or_eq_0_iff)

lemma foldl_or_zero: "(foldl (\<lambda>diff i. diff OR f i) d is = 0) = (d = 0 \<and> (\<forall>i \<in> set is. f i = 0))"
  for f :: "nat \<Rightarrow> nat"
  by (induction "is" arbitrary: d) (auto simp: or_zero)

lemma xor_zero_nat: "(a XOR b = 0) = (a = b)" for a b :: nat
proof
  assume "a XOR b = 0"
  then have "bit a k = bit b k" for k
    using bit_xor_iff [of a b k] by auto
  then show "a = b" by (simp add: bit_eq_iff)
qed simp

lemma xor_zero_word: "(a XOR b = 0) = (a = b)" for a b :: "'a::len word"
  by (metis xor.assoc xor.left_neutral xor.right_neutral xor_self_eq)

lemma byte_inject: "byte c = byte d \<longleftrightarrow> c = d"
proof
  assume "byte c = byte d"
  then have "unat (byte c) = unat (byte d)" by simp
  then have "(of_char c :: nat) = of_char d"
    by (simp add: byte_def unat_of_nat_small)
  then show "c = d" by simp
qed simp

lemma ct_eq_iff [simp]: "ct_eq a b \<longleftrightarrow> a = b"
proof -
  have "ct_eq a b \<longleftrightarrow> length a = length b \<and>
      (\<forall>i < max (length a) (length b). (if i < length a then byte (a ! i) else 0) = (if i < length b then byte (b ! i) else 0))"
    unfolding ct_eq_def foldl_or_zero xor_zero_nat unat_eq_0 xor_zero_word
    by (simp only: set_upt atLeastLessThan_iff Ball_def le0 simp_thms)
  also have "\<dots> \<longleftrightarrow> length a = length b \<and> (\<forall>i < length a. a ! i = b ! i)"
    by (auto simp: byte_inject)
  also have "\<dots> \<longleftrightarrow> a = b" by (auto simp: list_eq_iff_nth_eq)
  finally show ?thesis .
qed

lemma foldl_any: "foldl (\<lambda>ok t. P t \<or> ok) b ts \<longleftrightarrow> b \<or> (\<exists>t \<in> set ts. P t)"
  by (induction ts arbitrary: b) auto

lemma token_matches_iff: "snd (token_matches d given a) \<longleftrightarrow> given \<in> set (snd (tokens d a))"
  by (auto simp: token_matches_def foldl_any split: prod.split)

lemma tokens_sessions [simp]: "at_sessions (fst (tokens d a)) = at_sessions a" "at_users (fst (tokens d a)) = at_users a"
  by (auto simp: tokens_def Let_def split: option.split prod.split)

lemma token_matches_sessions [simp]: "at_sessions (fst (token_matches d g a)) = at_sessions a"
  by (simp add: token_matches_def split: prod.split) (metis fst_conv tokens_sessions(1))

lemma bearer_sessions [simp]: "at_sessions (fst (bearer_ok d r a)) = at_sessions a"
  by (simp add: bearer_ok_def split: option.split)

lemma bearer_ok_iff: "snd (bearer_ok d r a) \<longleftrightarrow>
    (\<exists>t \<in> set (snd (tokens d a)). rq_authorization r = Some (''Bearer '' @ t))"
proof (cases "rq_authorization r")
  case (Some v)
  show ?thesis
  proof (cases "strip_prefix ''Bearer '' v")
    case None
    then have "v \<noteq> ''Bearer '' @ t" for t unfolding strip_prefix_None by blast
    with Some None show ?thesis unfolding bearer_ok_def by (simp del: strip_prefix.simps append.simps)
  next
    case [simp]: (Some given)
    then have "v = ''Bearer '' @ given" unfolding strip_prefix_Some .
    with \<open>rq_authorization r = Some v\<close> show ?thesis
      unfolding bearer_ok_def by (auto simp: token_matches_iff)
  qed
qed (simp add: bearer_ok_def)

lemma credentials_match:
  "foldl (\<lambda>m (name, expect). if u = name \<and> p = expect then Some name else m) m us
     = (if (u, p) \<in> set us then Some u else m)"
proof (induction us arbitrary: m)
  case (Cons x us)
  then show ?case by (cases x) auto
qed simp

lemma check_credentials_iff: "snd (check_credentials d u p a) =
    (if (u, p) \<in> set (at_users a) then Some u
     else if (u = [] \<or> u = ''admin'') \<and> p \<in> set (snd (tokens d a)) then Some ''admin'' else None)"
  using token_matches_iff [of d p a]
  by (auto simp: check_credentials_def credentials_match Let_def split: prod.split)

lemma check_credentials_sessions [simp]: "at_sessions (fst (check_credentials d u p a)) = at_sessions a"
  using token_matches_sessions [of d p a]
  by (cases "token_matches d p a") (simp add: check_credentials_def Let_def)

lemma session_user_new: "session_user later i (new_session now j u a) =
    (if i = j then (if later - now < session_ttl then Some u else None) else session_user later i a)"
  if "now \<le> later"
  using that by (auto simp: session_user_def new_session_def fresh_session_def split: option.splits)

lemma require_auth_iff: "snd (require_auth d now r (Some a)) \<longleftrightarrow>
    is_public (rq_path r) \<or> rq_cert_verified r
    \<or> (\<exists>t \<in> set (snd (tokens d a)). rq_authorization r = Some (''Bearer '' @ t))
    \<or> (\<exists>i. session_cookie r = Some i \<and> session_user now i a \<noteq> None)"
proof -
  have "session_valid now i (fst (bearer_ok d r a)) = session_valid now i a" for i
    by (simp add: session_valid_def session_user_def)
  then show ?thesis
    unfolding bearer_ok_iff [symmetric]
    by (cases "bearer_ok d r a") (auto simp: require_auth_def session_valid_def split: option.split)
qed

subsection \<open>What a client can do\<close>

text \<open>\<open>ct_eq\<close> visits every byte of the longer string and still decides equality of the two.\<close>

theorem constant_time_comparison_is_equality: "ct_eq a b \<longleftrightarrow> a = b"
  by simp


text \<open>A successful login opens a session in its user's name which lasts 24 hours from the login and no
  longer, and touches nobody else's session.\<close>

theorem login_opens_a_session:
  assumes "login d now i u p (Some a) = (Some a', LoginOk i user)" "now \<le> later"
  shows "session_user later i a' = (if later - now < session_ttl then Some user else None)
    \<and> (\<forall>j. j \<noteq> i \<longrightarrow> session_user later j a' = session_user later j a)"
proof -
  obtain b where check: "check_credentials d u p a = (b, Some user)" and a': "a' = new_session now i user b"
    using assms(1) by (auto simp: login_def split: prod.splits option.splits)
  have "at_sessions b = at_sessions a" using check_credentials_sessions [of d u p a] check by simp
  then have "session_user later j b = session_user later j a" for j by (simp add: session_user_def)
  then show ?thesis using assms(2) unfolding a' by (simp add: session_user_new)
qed

text \<open>Signing out takes exactly the cookie's session away.\<close>

lemma logout_drops: "logout r (Some a) = Some a' \<Longrightarrow>
    session_user now j a' = (if session_cookie r = Some j then None else session_user now j a)"
  by (cases "session_cookie r") (auto simp: logout_def drop_session_def session_user_def)

text \<open>A token file written over is in force at the very next request: once its stamp differs from the
  cached one the tokens are the configured one and the file's trimmed text as it now is; with no stamp or
  no readable text the file contributes nothing.\<close>

theorem rotated_token_is_current:
  assumes "at_token_file a = Some f" "tf_stamp f \<noteq> od_stamp d \<or> od_stamp d = None"
  shows "snd (tokens d a) = (case at_token a of Some t \<Rightarrow> [t] | None \<Rightarrow> [])
    @ (case od_text d of Some t \<Rightarrow> if trim t = [] then [] else [trim t] | None \<Rightarrow> [])"
  using assms by (auto simp: tokens_def token_current_def read_token_def Let_def split: option.split)

text \<open>Nobody gets in with an empty token: an unreadable or blank token file adds none.\<close>

lemma no_empty_file_token:
  "at_token a = None \<Longrightarrow> at_token_file a = Some (token_file_new p) \<Longrightarrow> [] \<notin> set (snd (tokens d a))"
  by (auto simp: tokens_def token_current_def token_file_new_def read_token_def Let_def split: option.splits)

text \<open>A login succeeds with exactly a configured pair of name and password, or, as \<open>admin\<close> (or with no
  name), with one of the current bearer tokens as the password.\<close>

theorem login_accepts_exactly:
  "snd (login d now i u p (Some a)) =
    (if (u, p) \<in> set (at_users a) then LoginOk i u
     else if (u = [] \<or> u = ''admin'') \<and> p \<in> set (snd (tokens d a)) then LoginOk i ''admin'' else LoginRefused)"
  using check_credentials_iff [of d u p a]
  by (cases "check_credentials d u p a") (auto simp: login_def split: option.split)

section \<open>Witnesses\<close>

definition demo_auth :: auth_state where
  "demo_auth = \<lparr>at_users = [(''ann'', ''pw'')], at_token = None,
     at_token_file = Some (token_file_new ''/t''), at_sessions = (\<lambda>_. None)\<rparr>"

definition demo_disk :: on_disk where
  "demo_disk = \<lparr>od_stamp = Some (7, 5), od_text = Some ''tok ''\<rparr>"

theorem login_opens_a_session_witness:
  "session_user 5 ''s1'' (new_session 1 ''s1'' ''ann'' demo_auth) = Some ''ann''"
proof -
  have "login demo_disk 1 ''s1'' ''ann'' ''pw'' (Some demo_auth)
      = (Some (new_session 1 ''s1'' ''ann'' demo_auth), LoginOk ''s1'' ''ann'')"
    by (simp add: login_def check_credentials_def demo_auth_def)
  from login_opens_a_session [OF this, of 5] show ?thesis by (simp add: session_ttl_def)
qed

theorem rotated_token_is_current_witness: "snd (tokens demo_disk demo_auth) = [''tok'']"
  using rotated_token_is_current [of demo_auth "token_file_new ''/t''" demo_disk]
  by (simp add: demo_auth_def demo_disk_def token_file_new_def trim_def trim_start_def trim_end_def is_ws_def)

end
