(* ===== verification/ShellBase.thy ===== *)
theory ShellBase
  imports RustStr "HOL-Library.Signed_Division" "HOL-Library.List_Lexorder" "HOL-Library.Char_ord"
begin

text \<open>
  What the applets of \<open>crates/stormd/src/shell\<close> share (\<open>shell/mod.rs\<close>): the output of a command, the
  command names, what stormd is asked to be by its \<open>argv[0]\<close>, redirections, the formats.
  Texts the applets work on are ASCII: a character is a byte.
\<close>

section \<open>The output of a command\<close>

record shell_output =
  so_text :: string
  so_status :: i32
  so_exit :: bool
  so_attach :: "string option"
  so_follow :: bool
  so_follow_process :: "string option"

definition out_text :: "string \<Rightarrow> shell_output" where
  "out_text s = \<lparr>so_text = s, so_status = 0, so_exit = False, so_attach = None, so_follow = False,
     so_follow_process = None\<rparr>"

definition out_error :: "string \<Rightarrow> shell_output" where
  "out_error s = (out_text s)\<lparr>so_status := 1\<rparr>"

definition out_usage :: "string \<Rightarrow> shell_output" where
  "out_usage s = (out_text s)\<lparr>so_status := 2\<rparr>"

definition failed_if :: "bool \<Rightarrow> shell_output \<Rightarrow> shell_output" where
  "failed_if failed out = (if failed \<and> so_status out = 0 then out\<lparr>so_status := 1\<rparr> else out)"

definition out_exit :: shell_output where
  "out_exit = (out_text (''logout'' @ crlf))\<lparr>so_exit := True\<rparr>"

lemma out_simps [simp]:
  "so_text (out_text s) = s" "so_text (out_error s) = s" "so_text (out_usage s) = s"
  "so_status (out_text s) = 0" "so_status (out_error s) = 1" "so_status (out_usage s) = 2"
  "so_text (failed_if b x) = so_text x" "so_status (failed_if b (out_text s)) = (if b then 1 else 0)"
  by (simp_all add: out_text_def out_error_def out_usage_def failed_if_def)

section \<open>Text on a terminal\<close>

definition unix_text :: "string \<Rightarrow> string" where
  "unix_text s = replace_all crlf [newline] s"

definition dos_text :: "string \<Rightarrow> string" where
  "dos_text s = replace_all [newline] crlf s"

definition crlf_lines :: "string list \<Rightarrow> string" where
  "crlf_lines ls = join crlf ls @ crlf"

definition ends_crlf :: "string \<Rightarrow> bool" where
  "ends_crlf s \<longleftrightarrow> ends_with s crlf"

text \<open>\<open>format!\<close> widths: \<open>{:<n}\<close> and \<open>{:>n}\<close>.\<close>

definition pad_right :: "nat \<Rightarrow> string \<Rightarrow> string" where
  "pad_right n s = s @ replicate (n - length s) (CHR '' '')"

definition pad_left :: "nat \<Rightarrow> string \<Rightarrow> string" where
  "pad_left n s = replicate (n - length s) (CHR '' '') @ s"

definition esc :: "string \<Rightarrow> string" where
  "esc code = CHR 0x1B # CHR ''['' # code"

section \<open>Formats\<close>

definition format_duration :: "int \<Rightarrow> string" where
  "format_duration secs =
     (let days = secs sdiv 86400; hours = (secs smod 86400) sdiv 3600;
          mins = (secs smod 3600) sdiv 60; s = secs smod 60
      in if days > 0 then show_int days @ ''d '' @ show_int hours @ ''h '' @ show_int mins @ ''m''
         else if hours > 0 then show_int hours @ ''h '' @ show_int mins @ ''m '' @ show_int s @ ''s''
         else if mins > 0 then show_int mins @ ''m '' @ show_int s @ ''s''
         else show_int s @ ''s'')"

text \<open>
  \<open>as f64\<close> rounds to 53 significant bits, to even on a tie; dividing by 1024 is exact; \<open>{:.1}\<close> rounds
  the exact value to a tenth, to even on a tie.
\<close>

definition half_even :: "nat \<Rightarrow> nat \<Rightarrow> nat" where
  "half_even a b =
     (let q = a div b; r = a mod b in if 2 * r < b \<or> 2 * r = b \<and> even q then q else q + 1)"

fun excess_bits :: "nat \<Rightarrow> nat" where
  "excess_bits n = (if n < 2 ^ 53 then 0 else Suc (excess_bits (n div 2)))"

declare excess_bits.simps [simp del]

definition as_f64 :: "nat \<Rightarrow> nat" where
  "as_f64 n = half_even n (2 ^ excess_bits n) * 2 ^ excess_bits n"

definition one_decimal :: "nat \<Rightarrow> nat \<Rightarrow> string" where
  "one_decimal a b = (let t = half_even (10 * a) b in show_nat (t div 10) @ ''.'' @ [digit (t mod 10)])"

fun size_in :: "nat \<Rightarrow> nat \<Rightarrow> string \<Rightarrow> string" where
  "size_in f d [] = one_decimal f d @ ''P''"
| "size_in f d (u # us) = (if f < 1024 * d then one_decimal f d @ [u] else size_in f (1024 * d) us)"

definition format_size_human :: "u64 \<Rightarrow> string" where
  "format_size_human bytes =
     (if unat bytes < 1024 then show_nat (unat bytes) else size_in (as_f64 (unat bytes)) 1024 ''KMGT'')"

section \<open>Names\<close>

definition all_commands :: "string list" where
  "all_commands =
     [''ps'', ''top'', ''start'', ''stop'', ''restart'', ''attach'', ''logs'', ''grep'', ''dmesg'', ''cron'',
      ''liveness'', ''status'', ''uptime'', ''ls'', ''dir'', ''cat'', ''head'', ''tail'', ''cp'', ''mv'', ''rm'',
      ''mkdir'', ''touch'', ''chmod'', ''chown'', ''find'', ''ln'', ''stat'', ''pwd'', ''wc'', ''du'',
      ''readlink'', ''file'', ''sha256sum'', ''tee'', ''ifconfig'', ''ip'', ''ping'', ''curl'', ''wget'',
      ''netstat'', ''ss'', ''nslookup'', ''dig'', ''hostname'', ''route'', ''mount'', ''df'', ''free'',
      ''uname'', ''date'', ''id'', ''kill'', ''printenv'', ''export'', ''unset'', ''sleep'', ''echo'', ''env'',
      ''whoami'', ''which'', ''type'', ''lsof'', ''systemctl'', ''true'', ''false'', ''sort'', ''uniq'', ''cut'',
      ''tr'', ''sed'', ''rev'', ''base64'', ''xxd'', ''xargs'', ''help'', ''exit'', ''logout'', ''quit'',
      ''clear'']"

definition is_builtin :: "string \<Rightarrow> bool" where
  "is_builtin cmd \<longleftrightarrow> cmd \<in> set all_commands"

definition standalone_commands :: "string list" where
  "standalone_commands =
     [''ls'', ''dir'', ''cat'', ''head'', ''tail'', ''cp'', ''mv'', ''rm'', ''mkdir'', ''touch'', ''chmod'',
      ''chown'', ''find'', ''ln'', ''stat'', ''pwd'', ''wc'', ''du'', ''readlink'', ''file'', ''sha256sum'',
      ''tee'', ''md5sum'', ''ifconfig'', ''ip'', ''ping'', ''curl'', ''wget'', ''netstat'', ''ss'',
      ''nslookup'', ''dig'', ''hostname'', ''route'', ''mount'', ''df'', ''free'', ''uname'', ''date'', ''id'',
      ''kill'', ''printenv'', ''export'', ''unset'', ''sleep'', ''echo'', ''env'', ''whoami'', ''which'',
      ''type'', ''lsof'', ''true'', ''false'', ''clear'', ''sort'', ''uniq'', ''cut'', ''tr'', ''sed'', ''rev'',
      ''base64'', ''xxd'', ''grep'', ''test'', ''['']"

datatype invocation = Init | Applet string | Unknown string

definition classify_argv0 :: "string \<Rightarrow> invocation" where
  "classify_argv0 argv0 =
     (let name = (case file_name argv0 of Some f \<Rightarrow> f | None \<Rightarrow> [])
      in if name = [] \<or> name = ''stormd'' \<or> starts_with name ''stormd-'' \<or> starts_with name ''stormd.''
         then Init
         else if name \<in> set standalone_commands then Applet name
         else Unknown name)"

section \<open>Command lines\<close>

definition parse_redirect :: "string \<Rightarrow> string \<times> (string \<times> bool) option" where
  "parse_redirect segment =
     (case split_once '' >> '' segment of
        Some (cmd, path) \<Rightarrow> (trim cmd, Some (trim path, True))
      | None \<Rightarrow>
          (case split_once '' > '' segment of
             Some (cmd, path) \<Rightarrow> (trim cmd, Some (trim path, False))
           | None \<Rightarrow> (segment, None)))"

text \<open>\<open>str::split\<close> on a text.\<close>

function split_str :: "'a list \<Rightarrow> 'a list \<Rightarrow> 'a list list" where
  "split_str p s =
     (if p = [] then [s] else case split_once p s of None \<Rightarrow> [s] | Some (a, b) \<Rightarrow> a # split_str p b)"
  by pat_completeness auto
termination
  by (relation "measure (\<lambda>(p, s). length s)") (auto dest: split_once_length)

declare split_str.simps [simp del]

definition operands :: "string list \<Rightarrow> string list \<Rightarrow> nat" where
  "operands valued args =
     fst (foldl (\<lambda>(n, skip) a.
       if skip then (n, False)
       else if a \<in> set valued then (n, True)
       else if \<not> starts_with a ''-'' \<or> a = ''-'' then (n + 1, skip) else (n, skip)) (0, False) args)"

definition wants_stdin :: "string \<Rightarrow> string list \<Rightarrow> bool" where
  "wants_stdin cmd args =
     (if cmd \<in> {''tee'', ''tr''} then True
      else if cmd \<in> {''cat'', ''wc'', ''sha256sum'', ''md5sum'', ''sort'', ''uniq'', ''rev'', ''xxd'', ''base64''}
      then operands [] args = 0
      else if cmd \<in> {''head'', ''tail''} then operands [''-n'', ''-c''] args = 0
      else if cmd = ''cut'' then operands [''-d'', ''-f'', ''-c''] args = 0
      else if cmd \<in> {''grep'', ''sed''} then operands [''-e''] args \<le> 1
      else False)"

section \<open>Facts\<close>

lemma file_name_no_slash: "file_name p = Some n \<Longrightarrow> CHR ''/'' \<notin> set n \<and> n \<noteq> [] \<and> n \<noteq> ''..''"
proof -
  assume *: "file_name p = Some n"
  let ?cs = "filter (\<lambda>c. c \<noteq> [] \<and> c \<noteq> ''.'') (split_char (CHR ''/'') p)"
  from * have "?cs \<noteq> []" "last ?cs = n" "n \<noteq> ''..''"
    unfolding file_name_def Let_def by (simp_all only: option.inject option.distinct split: if_splits) auto
  moreover from this have "n \<in> set ?cs" by (metis last_in_set)
  ultimately show ?thesis using split_char_parts [of n "CHR ''/''" p] by auto
qed

text \<open>
  Whatever stormd is called as, it starts as init only under its own name or a renamed copy, and never
  under a name that is an applet's or another program's.
\<close>

lemma init_only_as_stormd:
  "classify_argv0 a = Init \<longleftrightarrow>
     file_name a \<in> {None, Some ''stormd''} \<or>
     (\<exists>n r. file_name a = Some n \<and> (n = ''stormd-'' @ r \<or> n = ''stormd.'' @ r))"
  using file_name_no_slash [of a]
  by (cases "file_name a") (auto simp: classify_argv0_def starts_with_iff Let_def)

end
