(* ===== verification/FileSys.thy ===== *)
theory FileSys
  imports RustStr
begin

text \<open>
  The file system as the code sees it: a state \<open>'w\<close> and what the calls of \<open>std::fs\<close> make of it, the
  record \<open>os\<close>. \<open>Inl\<close> is how the error prints. Opening a file for writing without truncating it
  (\<open>os_open_write\<close>) changes nothing.
\<close>

type_synonym reader = "string \<Rightarrow> string + string"

record meta =
  md_is_dir :: bool
  md_is_file :: bool
  md_is_symlink :: bool
  md_len :: u64
  md_mode :: u32
  md_modified :: "int option"
  md_dev :: u64
  md_ino :: u64
  md_nlink :: u64
  md_uid :: u32
  md_gid :: u32

datatype file_type = RegularFile | Directory | Symlink | OtherType

record dir_entry =
  de_name :: string
  de_path :: string
  de_type :: "file_type option"
  de_meta :: "meta option"

type_synonym 'w update = "'w \<Rightarrow> 'w \<times> string option"

record 'w os =
  os_metadata :: "'w \<Rightarrow> string \<Rightarrow> string + meta"
  os_symlink_metadata :: "'w \<Rightarrow> string \<Rightarrow> string + meta"
  os_read :: "'w \<Rightarrow> string \<Rightarrow> string + u8 list"
  os_read_text :: "'w \<Rightarrow> reader"
  os_read_dir :: "'w \<Rightarrow> string \<Rightarrow> string + dir_entry list"
  os_read_link :: "'w \<Rightarrow> string \<Rightarrow> string + string"
  os_access :: "'w \<Rightarrow> string \<Rightarrow> string \<Rightarrow> bool"
  os_current_dir :: "'w \<Rightarrow> string + string"
  os_open_write :: "'w \<Rightarrow> string \<Rightarrow> string option"
  os_write :: "string \<Rightarrow> string \<Rightarrow> 'w update"
  os_append :: "string \<Rightarrow> string \<Rightarrow> 'w update"
  os_copy :: "string \<Rightarrow> string \<Rightarrow> 'w \<Rightarrow> 'w \<times> (string + u64)"
  os_rename :: "string \<Rightarrow> string \<Rightarrow> 'w update"
  os_remove_file :: "string \<Rightarrow> 'w update"
  os_remove_dir_all :: "string \<Rightarrow> 'w update"
  os_create_dir :: "string \<Rightarrow> 'w update"
  os_create_dir_all :: "string \<Rightarrow> 'w update"
  os_chmod :: "string \<Rightarrow> u32 \<Rightarrow> 'w update"
  os_chown :: "string \<Rightarrow> u32 \<Rightarrow> u32 option \<Rightarrow> 'w update"
  os_symlink :: "string \<Rightarrow> string \<Rightarrow> 'w update"
  os_hard_link :: "string \<Rightarrow> string \<Rightarrow> 'w update"
  os_strftime :: "string \<Rightarrow> int \<Rightarrow> string"

text \<open>\<open>Path::exists\<close> and \<open>Path::is_dir\<close>: both follow links, and an error counts as no.\<close>

definition path_exists :: "'w os \<Rightarrow> 'w \<Rightarrow> string \<Rightarrow> bool" where
  "path_exists os w p = (case os_metadata os w p of Inr _ \<Rightarrow> True | Inl _ \<Rightarrow> False)"

definition path_is_dir :: "'w os \<Rightarrow> 'w \<Rightarrow> string \<Rightarrow> bool" where
  "path_is_dir os w p = (case os_metadata os w p of Inr m \<Rightarrow> md_is_dir m | Inl _ \<Rightarrow> False)"

text \<open>One call after another, as long as they succeed.\<close>

definition then_do :: "('w \<times> 'e option) \<Rightarrow> ('w \<Rightarrow> 'w \<times> 'e option) \<Rightarrow> 'w \<times> 'e option" where
  "then_do r f = (case r of (w, None) \<Rightarrow> f w | (w, Some e) \<Rightarrow> (w, Some e))"

lemma then_do_simps [simp]: "then_do (w, None) f = f w" "then_do (w, Some e) f = (w, Some e)"
  by (simp_all add: then_do_def)

text \<open>The same for calls with a value: the \<open>?\<close> of the code.\<close>

definition try_with :: "'w \<times> ('e + 'a) \<Rightarrow> ('a \<Rightarrow> 'w \<Rightarrow> 'w \<times> ('e + 'b)) \<Rightarrow> 'w \<times> ('e + 'b)" where
  "try_with r f = (case r of (w, Inl e) \<Rightarrow> (w, Inl e) | (w, Inr a) \<Rightarrow> f a w)"

definition try_do :: "'w \<times> 'e option \<Rightarrow> ('w \<Rightarrow> 'w \<times> ('e + 'b)) \<Rightarrow> 'w \<times> ('e + 'b)" where
  "try_do r f = (case r of (w, Some e) \<Rightarrow> (w, Inl e) | (w, None) \<Rightarrow> f w)"

lemma try_simps [simp]:
  "try_with (w, Inl e) f = (w, Inl e)" "try_with (w, Inr a) f = f a w"
  "try_do (w, Some e) g = (w, Inl e)" "try_do (w, None) g = g w"
  by (simp_all add: try_with_def try_do_def)

lemma try_Inr:
  "try_with r f = (w', Inr b) \<longleftrightarrow> (\<exists>w a. r = (w, Inr a) \<and> f a w = (w', Inr b))"
  "try_do q g = (w', Inr b) \<longleftrightarrow> (\<exists>w. q = (w, None) \<and> g w = (w', Inr b))"
  by (auto simp: try_with_def try_do_def split: prod.split sum.split option.split)

end
