(* ===== verification/ShellText.thy ===== *)
theory ShellText
  imports ShellBase "HOL-Library.Multiset" FileSys
begin

text \<open>
  The text applets, \<open>crates/stormd/src/shell/text.rs\<close>. \<open>rd\<close> is \<open>tokio::fs::read_to_string\<close> at the
  moment of the call: the text of a file, or how the error prints. \<open>xargs\<close> is with the dispatcher.
\<close>

definition flagged :: "string \<Rightarrow> bool" where
  "flagged a \<longleftrightarrow> starts_with a ''-''"

definition get_input :: "reader \<Rightarrow> string list \<Rightarrow> string option \<Rightarrow> nat \<Rightarrow> string option" where
  "get_input rd args piped skip_flags =
     (case drop skip_flags (filter (\<lambda>a. \<not> flagged a) args) of
        path # _ \<Rightarrow> (case rd path of Inr t \<Rightarrow> Some t | Inl _ \<Rightarrow> None)
      | [] \<Rightarrow> map_option unix_text piped)"

section \<open>grep\<close>

record grep_opts =
  go_ignore_case :: bool
  go_invert :: bool
  go_count :: bool
  go_numbers :: bool
  go_pattern :: "string option"
  go_files :: "string list"

definition grep_none :: grep_opts where
  "grep_none = \<lparr>go_ignore_case = False, go_invert = False, go_count = False, go_numbers = False,
     go_pattern = None, go_files = []\<rparr>"

definition grep_arg :: "grep_opts \<Rightarrow> string \<Rightarrow> grep_opts" where
  "grep_arg g arg =
     (if arg = ''-i'' then g\<lparr>go_ignore_case := True\<rparr>
      else if arg = ''-v'' then g\<lparr>go_invert := True\<rparr>
      else if arg = ''-c'' then g\<lparr>go_count := True\<rparr>
      else if arg = ''-n'' then g\<lparr>go_numbers := True\<rparr>
      else if arg = ''-iv'' \<or> arg = ''-vi'' then g\<lparr>go_ignore_case := True, go_invert := True\<rparr>
      else if arg = ''-in'' \<or> arg = ''-ni'' then g\<lparr>go_ignore_case := True, go_numbers := True\<rparr>
      else if \<not> flagged arg
      then (if go_pattern g = None then g\<lparr>go_pattern := Some arg\<rparr> else g\<lparr>go_files := go_files g @ [arg]\<rparr>)
      else g)"

text \<open>The texts of the files one after the other, up to the first that cannot be read.\<close>

fun read_all :: "reader \<Rightarrow> string list \<Rightarrow> (string \<times> string) + string" where
  "read_all rd [] = Inr []"
| "read_all rd (f # fs) =
     (case rd f of
        Inl e \<Rightarrow> Inl (f, e)
      | Inr t \<Rightarrow> (case read_all rd fs of Inl e \<Rightarrow> Inl e | Inr ts \<Rightarrow> Inr (t @ ts)))"

definition to_lower :: "string \<Rightarrow> string" where
  "to_lower s = map ascii_lower s"

definition grep_found :: "bool \<Rightarrow> string \<Rightarrow> string \<Rightarrow> bool" where
  "grep_found ignore_case pattern line =
     contains (if ignore_case then to_lower line else line) (if ignore_case then to_lower pattern else pattern)"

definition grep_matches :: "grep_opts \<Rightarrow> string \<Rightarrow> string \<Rightarrow> string list" where
  "grep_matches g pattern content =
     map (\<lambda>(i, line). if go_numbers g then show_nat i @ '':'' @ line else line)
       (filter (\<lambda>(i, line). grep_found (go_ignore_case g) pattern line \<noteq> go_invert g)
         (enumerate 1 (lines content)))"

definition grep_report :: "grep_opts \<Rightarrow> string \<Rightarrow> string \<Rightarrow> shell_output" where
  "grep_report g pattern content =
     (let ms = grep_matches g pattern content
      in if go_count g then failed_if (ms = []) (out_text (show_nat (length ms) @ crlf))
         else if ms = [] then out_error []
         else out_text (crlf_lines ms))"

definition cmd_grep :: "reader \<Rightarrow> string list \<Rightarrow> string option \<Rightarrow> shell_output" where
  "cmd_grep rd args piped =
     (let g = foldl grep_arg grep_none args
      in case go_pattern g of
           None \<Rightarrow> out_usage (''usage: grep [-ivc] <pattern> [file...]'' @ crlf)
         | Some pattern \<Rightarrow>
             (if go_files g \<noteq> []
              then (case read_all rd (go_files g) of
                      Inl (f, e) \<Rightarrow> out_error (''grep: '' @ f @ '': '' @ e @ crlf)
                    | Inr content \<Rightarrow> grep_report g pattern content)
              else case piped of
                     Some input \<Rightarrow> grep_report g pattern (unix_text input)
                   | None \<Rightarrow> out_usage (''usage: grep <pattern> <file>'' @ crlf)))"

section \<open>sort and uniq\<close>

record sort_opts =
  st_reverse :: bool
  st_numeric :: bool
  st_unique :: bool

definition sort_arg :: "sort_opts \<Rightarrow> string \<Rightarrow> sort_opts" where
  "sort_arg o' arg =
     (if arg = ''-r'' then o'\<lparr>st_reverse := True\<rparr>
      else if arg = ''-n'' then o'\<lparr>st_numeric := True\<rparr>
      else if arg = ''-u'' then o'\<lparr>st_unique := True\<rparr>
      else if arg = ''-rn'' \<or> arg = ''-nr'' then o'\<lparr>st_reverse := True, st_numeric := True\<rparr>
      else if arg = ''-ru'' \<or> arg = ''-ur'' then o'\<lparr>st_reverse := True, st_unique := True\<rparr>
      else if arg = ''-nu'' \<or> arg = ''-un'' then o'\<lparr>st_numeric := True, st_unique := True\<rparr>
      else o')"

text \<open>
  \<open>num\<close> is what \<open>str::parse::<f64>\<close> makes of a text, in a linear order: NaN, on which
  \<open>partial_cmp\<close> is no order, is left out. \<open>sort\<close> and \<open>sort_by\<close> are stable.
\<close>

definition sorted_lines :: "(string \<Rightarrow> 'f::{linorder,zero} option) \<Rightarrow> sort_opts \<Rightarrow> string list \<Rightarrow> string list" where
  "sorted_lines num opts ls =
     (let up = (if st_numeric opts
                then sort_key (\<lambda>l. case num (trim l) of Some x \<Rightarrow> x | None \<Rightarrow> 0) ls else sort ls);
          turned = (if st_reverse opts then rev up else up)
      in if st_unique opts then remdups_adj turned else turned)"

definition cmd_sort ::
    "reader \<Rightarrow> (string \<Rightarrow> 'f::{linorder,zero} option) \<Rightarrow> string list \<Rightarrow> string option \<Rightarrow> shell_output" where
  "cmd_sort rd num args piped =
     (let opts = foldl sort_arg \<lparr>st_reverse = False, st_numeric = False, st_unique = False\<rparr> args
      in case get_input rd args piped 0 of
           None \<Rightarrow> out_text []
         | Some input \<Rightarrow> out_text (crlf_lines (sorted_lines num opts (lines input))))"

function counted :: "string list \<Rightarrow> (nat \<times> string) list" where
  "counted [] = []"
| "counted (l # ls) =
     (1 + length (takeWhile (\<lambda>x. x = l) ls), l) # counted (dropWhile (\<lambda>x. x = l) ls)"
  by pat_completeness auto
termination
  by (relation "measure length") (auto simp: le_imp_less_Suc length_dropWhile_le)

fun skip_repeats :: "string option \<Rightarrow> string list \<Rightarrow> string list" where
  "skip_repeats prev [] = []"
| "skip_repeats prev (l # ls) =
     (if prev \<noteq> Some l then l # skip_repeats (Some l) ls else skip_repeats (Some l) ls)"

definition cmd_uniq :: "reader \<Rightarrow> string list \<Rightarrow> string option \<Rightarrow> shell_output" where
  "cmd_uniq rd args piped =
     (case get_input rd args piped 0 of
        None \<Rightarrow> out_text []
      | Some input \<Rightarrow>
          out_text (if ''-c'' \<in> set args
            then concat (map (\<lambda>(n, l). pad_left 7 (show_nat n) @ '' '' @ l @ crlf) (counted (lines input)))
            else concat (map (\<lambda>l. l @ crlf) (skip_repeats None (lines input)))))"

section \<open>cut\<close>

definition parse_usize :: "string \<Rightarrow> nat option" where
  "parse_usize s = parse_unsigned (2 ^ 64) s"

definition part_fields :: "string \<Rightarrow> nat list" where
  "part_fields part =
     (case split_once ''-'' part of
        Some (a, b) \<Rightarrow>
          (let start = (case parse_usize a of Some n \<Rightarrow> n | None \<Rightarrow> 1);
               end' = (case parse_usize b of Some n \<Rightarrow> n | None \<Rightarrow> start)
           in [start..<Suc end'])
      | None \<Rightarrow> (case parse_usize part of Some f \<Rightarrow> [f] | None \<Rightarrow> []))"

definition parse_field_spec :: "string \<Rightarrow> nat list" where
  "parse_field_spec spec = concat (map part_fields (split_char (CHR '','') spec))"

definition tab :: char where "tab = CHR 0x09"

definition first_char :: "string \<Rightarrow> char" where
  "first_char s = (case s of c # _ \<Rightarrow> c | [] \<Rightarrow> tab)"

function cut_args :: "char \<times> nat list \<Rightarrow> string list \<Rightarrow> char \<times> nat list" where
  "cut_args (d, f) [] = (d, f)"
| "cut_args (d, f) (a # rest) =
     (if a = ''-d'' \<and> rest \<noteq> [] then cut_args (first_char (hd rest), f) (tl rest)
      else if starts_with a ''-d'' then cut_args (first_char (drop 2 a), f) rest
      else if a = ''-f'' \<and> rest \<noteq> [] then cut_args (d, parse_field_spec (hd rest)) (tl rest)
      else if starts_with a ''-f'' then cut_args (d, parse_field_spec (drop 2 a)) rest
      else cut_args (d, f) rest)"
  by pat_completeness auto
termination
  by (relation "measure (\<lambda>(x, as). length as)") auto

definition cut_line :: "char \<Rightarrow> nat list \<Rightarrow> string \<Rightarrow> string" where
  "cut_line d fs line =
     (let parts = split_char d line
      in join [d] (List.map_filter (\<lambda>f. if f - 1 < length parts then Some (parts ! (f - 1)) else None) fs))"

definition cmd_cut :: "reader \<Rightarrow> string list \<Rightarrow> string option \<Rightarrow> shell_output" where
  "cmd_cut rd args piped =
     (case cut_args (tab, []) args of
        (d, fs) \<Rightarrow>
          if fs = [] then out_usage (''usage: cut -d<delim> -f<fields> [file]'' @ crlf)
          else case get_input rd args piped 0 of
                 None \<Rightarrow> out_text []
               | Some input \<Rightarrow> out_text (concat (map (\<lambda>l. cut_line d fs l @ crlf) (lines input))))"

section \<open>tr, sed and rev\<close>

fun position :: "char \<Rightarrow> string \<Rightarrow> nat option" where
  "position c [] = None"
| "position c (x # xs) = (if x = c then Some 0 else map_option Suc (position c xs))"

definition tr_char :: "string \<Rightarrow> string \<Rightarrow> char \<Rightarrow> string" where
  "tr_char from_cs to_cs c =
     (case position c from_cs of
        Some p \<Rightarrow> if p < length to_cs then [to_cs ! p] else if to_cs \<noteq> [] then [last to_cs] else []
      | None \<Rightarrow> [c])"

definition cmd_tr :: "string list \<Rightarrow> string option \<Rightarrow> shell_output" where
  "cmd_tr args piped =
     (if length args < 2 then out_usage (''usage: tr <from> <to>'' @ crlf)
      else case piped of
             None \<Rightarrow> out_usage (''usage: <cmd> | tr <from> <to>'' @ crlf)
           | Some s \<Rightarrow> out_text (dos_text (concat (map (tr_char (args ! 0) (args ! 1)) (unix_text s)))))"

definition replace_first :: "string \<Rightarrow> string \<Rightarrow> string \<Rightarrow> string" where
  "replace_first p r s = (case split_once p s of None \<Rightarrow> s | Some (a, b) \<Rightarrow> a @ r @ b)"

definition cmd_sed :: "reader \<Rightarrow> string list \<Rightarrow> string option \<Rightarrow> shell_output" where
  "cmd_sed rd args piped =
     (case args of
        [] \<Rightarrow> out_usage (''usage: sed '' @ [CHR 0x27] @ ''s/pattern/replacement/[g]'' @ [CHR 0x27] @ crlf)
      | expr # _ \<Rightarrow>
          (case get_input rd args piped 1 of
             None \<Rightarrow> out_usage (''usage: sed '' @ [CHR 0x27] @ ''s/pat/rep/'' @ [CHR 0x27] @ '' [file]'' @ crlf)
           | Some input \<Rightarrow>
               (if \<not> starts_with expr ''s'' \<or> length expr < 4
                then out_error (''sed: only s/pattern/replacement/[g] is supported'' @ crlf)
                else
                  let parts = splitn 3 (expr ! 1) (drop 2 expr)
                  in if length parts < 2 then out_error (''sed: invalid expression'' @ crlf)
                     else
                       let global = (2 < length parts \<and> CHR ''g'' \<in> set (parts ! 2));
                           edit = (if global then replace_all (parts ! 0) (parts ! 1)
                                   else replace_first (parts ! 0) (parts ! 1))
                       in out_text (concat (map (\<lambda>l. edit l @ crlf) (lines input))))))"

definition cmd_rev :: "string option \<Rightarrow> shell_output" where
  "cmd_rev piped =
     (case piped of
        None \<Rightarrow> out_usage (''usage: <cmd> | rev'' @ crlf)
      | Some s \<Rightarrow> out_text (concat (map (\<lambda>l. rev l @ crlf) (lines (unix_text s)))))"

section \<open>base64 and xxd\<close>

definition b64_table :: string where
  "b64_table = ''ABCDEFGHIJKLMNOPQRSTUVWXYZabcdefghijklmnopqrstuvwxyz0123456789+/''"

definition b64_digit :: "u32 \<Rightarrow> char" where
  "b64_digit w = b64_table ! unat (w AND 0x3F)"

definition encode_chunk :: "u8 list \<Rightarrow> string" where
  "encode_chunk chunk =
     (let b0 = ucast (chunk ! 0) :: u32;
          b1 = (if length chunk > 1 then ucast (chunk ! 1) else 0);
          b2 = (if length chunk > 2 then ucast (chunk ! 2) else 0);
          triple = push_bit 16 b0 OR push_bit 8 b1 OR b2
      in [b64_digit (drop_bit 18 triple), b64_digit (drop_bit 12 triple),
          (if length chunk > 1 then b64_digit (drop_bit 6 triple) else CHR ''=''),
          (if length chunk > 2 then b64_digit triple else CHR ''='')])"

fun chunks :: "nat \<Rightarrow> 'a list \<Rightarrow> 'a list list" where
  "chunks n [] = []"
| "chunks n (x # xs) = take (max 1 n) (x # xs) # chunks n (drop (max 1 n) (x # xs))"

definition base64_encode :: "u8 list \<Rightarrow> string" where
  "base64_encode data = concat (map encode_chunk (chunks 3 data))"

text \<open>The value of a character of the alphabet; \<open>=\<close> ends the text, anything else is refused.\<close>

datatype b64_char = Sextet u32 | Padding | NotBase64

definition b64_val :: "char \<Rightarrow> b64_char" where
  "b64_val c =
     (let k = of_char c :: nat
      in if 65 \<le> k \<and> k \<le> 90 then Sextet (of_nat (k - 65))
         else if 97 \<le> k \<and> k \<le> 122 then Sextet (of_nat (k - 97 + 26))
         else if 48 \<le> k \<and> k \<le> 57 then Sextet (of_nat (k - 48 + 52))
         else if c = CHR ''+'' then Sextet 62
         else if c = CHR ''/'' then Sextet 63
         else if c = CHR ''='' then Padding
         else NotBase64)"

fun decode_from :: "u32 \<Rightarrow> nat \<Rightarrow> u8 list \<Rightarrow> string \<Rightarrow> string + u8 list" where
  "decode_from buf bits acc [] = Inr acc"
| "decode_from buf bits acc (c # cs) =
     (case b64_val c of
        Padding \<Rightarrow> Inr acc
      | NotBase64 \<Rightarrow> Inl ''invalid base64 character''
      | Sextet v \<Rightarrow>
          (let buf1 = push_bit 6 buf OR v; bits1 = bits + 6
           in if 8 \<le> bits1
              then decode_from (buf1 AND (push_bit (bits1 - 8) 1 - 1)) (bits1 - 8)
                     (acc @ [ucast (drop_bit (bits1 - 8) buf1)]) cs
              else decode_from buf1 bits1 acc cs))"

definition base64_decode :: "string \<Rightarrow> string + u8 list" where
  "base64_decode s = decode_from 0 0 [] s"

definition as_bytes :: "string \<Rightarrow> u8 list" where
  "as_bytes s = map of_char s"

text \<open>\<open>lossy\<close> is \<open>String::from_utf8_lossy\<close>.\<close>

definition cmd_base64 :: "(u8 list \<Rightarrow> string) \<Rightarrow> string list \<Rightarrow> string option \<Rightarrow> shell_output" where
  "cmd_base64 lossy args piped =
     (case piped of
        None \<Rightarrow> out_usage (''usage: <cmd> | base64 [-d]'' @ crlf)
      | Some s \<Rightarrow>
          if ''-d'' \<in> set args \<or> ''--decode'' \<in> set args
          then (case base64_decode (filter (\<lambda>c. \<not> is_ws c) (unix_text s)) of
                  Inr data \<Rightarrow> out_text (dos_text (lossy data))
                | Inl e \<Rightarrow> out_error (''base64: '' @ e @ crlf))
          else out_text (base64_encode (as_bytes (trim_end (unix_text s))) @ crlf))"

definition hex_digit :: "nat \<Rightarrow> char" where
  "hex_digit n = ''0123456789abcdef'' ! n"

fun hex :: "nat \<Rightarrow> nat \<Rightarrow> string" where
  "hex 0 n = (if n = 0 then [] else hex 0 (n div 16) @ [hex_digit (n mod 16)])"
| "hex (Suc w) n = hex w (n div 16) @ [hex_digit (n mod 16)]"

definition hex_pairs :: "u8 list \<Rightarrow> string" where
  "hex_pairs chunk =
     concat (map (\<lambda>(j, b). hex 2 (unat b) @ (if j mod 2 = 1 then '' '' else [])) (enumerate 0 chunk))"

definition xxd_line :: "nat \<Rightarrow> u8 list \<Rightarrow> string" where
  "xxd_line i chunk =
     hex 8 (i * 16) @ '': '' @ hex_pairs chunk
     @ replicate (40 - (length chunk * 2 + length chunk div 2)) (CHR '' '') @ '' ''
     @ map (\<lambda>b. if 0x20 \<le> b \<and> b < 0x7F then char_of (unat b) else CHR ''.'') chunk @ crlf"

definition cmd_xxd :: "string option \<Rightarrow> shell_output" where
  "cmd_xxd piped =
     (case piped of
        None \<Rightarrow> out_usage (''usage: <cmd> | xxd'' @ crlf)
      | Some s \<Rightarrow> out_text (concat (map (\<lambda>(i, c). xxd_line i c) (enumerate 0 (chunks 16 (as_bytes s))))))"

section \<open>base64 reads back\<close>

lemma b64_val_alphabet: "map b64_val b64_table = map (\<lambda>k. Sextet (of_nat k)) [0..<64]"
  by (simp add: b64_table_def b64_val_def upt_rec)

lemma length_b64_table: "length b64_table = 64"
  by (simp add: b64_table_def)

lemma b64_val_table: "k < 64 \<Longrightarrow> b64_val (b64_table ! k) = Sextet (of_nat k)"
  using arg_cong [OF b64_val_alphabet, of "\<lambda>xs. xs ! k"] by (simp add: length_b64_table)

lemma low6: "unat (w AND 0x3F) < 64" for w :: u32
proof -
  have "w AND 0x3F \<le> 0x3F" by (rule word_and_le1)
  then show ?thesis by (simp add: word_le_nat_alt)
qed

lemma b64_val_digit [simp]: "b64_val (b64_digit w) = Sextet (w AND 0x3F)"
  using b64_val_table [OF low6 [of w]] by (simp add: b64_digit_def)

lemma b64_val_pad [simp]: "b64_val (CHR ''='') = Padding"
  by code_simp

lemma bit_u8_beyond [simp]: "8 \<le> n \<Longrightarrow> \<not> bit w n" for w :: u8
  by (auto dest: bit_imp_le_length)

lemma u8_eqI:
  fixes v w :: u8
  assumes "bit v 0 = bit w 0" "bit v 1 = bit w 1" "bit v 2 = bit w 2" "bit v 3 = bit w 3"
    "bit v 4 = bit w 4" "bit v 5 = bit w 5" "bit v 6 = bit w 6" "bit v 7 = bit w 7"
  shows "v = w"
proof (rule bit_word_eqI)
  fix n
  assume "n < LENGTH(8)"
  then have "n \<in> {0, 1, 2, 3, 4, 5, 6, 7}" by auto
  with assms show "bit v n = bit w n" by auto
qed

text \<open>The four sextets of three bytes, and what the decoder shifts out of them.\<close>

definition triple_of :: "u8 \<Rightarrow> u8 \<Rightarrow> u8 \<Rightarrow> u32" where
  "triple_of a b c = push_bit 16 (ucast a) OR push_bit 8 (ucast b) OR ucast c"

lemma bit_triple: "bit (triple_of a b c) n \<longleftrightarrow>
    (if n < 8 then bit c n else if n < 16 then bit b (n - 8) else n < 24 \<and> bit a (n - 16))"
  by (auto simp: triple_of_def bit_simps dest: bit_imp_le_length)

lemma bit_low6: "bit (w AND 0x3F) n \<longleftrightarrow> n < 6 \<and> bit w n" for w :: u32
proof -
  have "w AND 0x3F = take_bit 6 w" by (simp add: take_bit_eq_mask mask_eq_exp_minus_1)
  then show ?thesis by (simp add: bit_take_bit_iff)
qed

lemma bit_low4: "bit (w AND 15) n \<longleftrightarrow> n < 4 \<and> bit w n" for w :: u32
proof -
  have "w AND 15 = take_bit 4 w" by (simp add: take_bit_eq_mask mask_eq_exp_minus_1)
  then show ?thesis by (simp add: bit_take_bit_iff)
qed

lemma bit_low2: "bit (w AND 3) n \<longleftrightarrow> n < 2 \<and> bit w n" for w :: u32
proof -
  have "w AND 3 = take_bit 2 w" by (simp add: take_bit_eq_mask mask_eq_exp_minus_1)
  then show ?thesis by (simp add: bit_take_bit_iff)
qed

lemma bit_shifted: "bit (push_bit 6 w) n \<longleftrightarrow> 6 \<le> n \<and> n < 32 \<and> bit w (n - 6)" for w :: u32
  by (auto simp: bit_simps)

lemmas sextet_bits = bit_triple bit_low6 bit_low4 bit_low2 bit_or_iff bit_shifted bit_drop_bit_eq bit_ucast_iff

lemma sextets_3:
  fixes a b c :: u8
  defines "t \<equiv> triple_of a b c"
  defines "v1 \<equiv> drop_bit 18 t AND 0x3F" and "v2 \<equiv> drop_bit 12 t AND 0x3F"
    and "v3 \<equiv> drop_bit 6 t AND 0x3F" and "v4 \<equiv> t AND 0x3F"
  shows "ucast (drop_bit 4 (push_bit 6 v1 OR v2)) = a"
    and "ucast (drop_bit 2 (push_bit 6 ((push_bit 6 v1 OR v2) AND 15) OR v3)) = b"
    and "ucast (push_bit 6 ((push_bit 6 ((push_bit 6 v1 OR v2) AND 15) OR v3) AND 3) OR v4) = c"
proof -
  define x where "x = push_bit 6 v1 OR v2"
  define y where "y = push_bit 6 (x AND 15) OR v3"
  define z where "z = push_bit 6 (y AND 3) OR v4"
  have v: "bit v1 n \<longleftrightarrow> n < 6 \<and> bit t (18 + n)" "bit v2 n \<longleftrightarrow> n < 6 \<and> bit t (12 + n)"
    "bit v3 n \<longleftrightarrow> n < 6 \<and> bit t (6 + n)" "bit v4 n \<longleftrightarrow> n < 6 \<and> bit t n" for n
    by (simp_all only: v1_def v2_def v3_def v4_def sextet_bits o_apply)
  have xyz: "bit x n \<longleftrightarrow> 6 \<le> n \<and> n < 32 \<and> bit v1 (n - 6) \<or> bit v2 n"
    "bit y n \<longleftrightarrow> 6 \<le> n \<and> n < 32 \<and> n - 6 < 4 \<and> bit x (n - 6) \<or> bit v3 n"
    "bit z n \<longleftrightarrow> 6 \<le> n \<and> n < 32 \<and> n - 6 < 2 \<and> bit y (n - 6) \<or> bit v4 n" for n
    by (simp_all only: x_def y_def z_def sextet_bits)
  have t: "bit t n \<longleftrightarrow>
      (if n < 8 then bit c n else if n < 16 then bit b (n - 8) else n < 24 \<and> bit a (n - 16))" for n
    by (simp only: t_def bit_triple)
  show "ucast (drop_bit 4 (push_bit 6 v1 OR v2)) = a"
    unfolding x_def [symmetric] by (rule u8_eqI) (simp_all add: bit_drop_bit_eq bit_ucast_iff xyz v t)
  show "ucast (drop_bit 2 (push_bit 6 ((push_bit 6 v1 OR v2) AND 15) OR v3)) = b"
    unfolding x_def [symmetric] y_def [symmetric]
    by (rule u8_eqI) (simp_all add: bit_drop_bit_eq bit_ucast_iff xyz v t)
  show "ucast (push_bit 6 ((push_bit 6 ((push_bit 6 v1 OR v2) AND 15) OR v3) AND 3) OR v4) = c"
    unfolding x_def [symmetric] y_def [symmetric] z_def [symmetric]
    by (rule u8_eqI) (simp_all add: bit_ucast_iff xyz v t)
qed

lemma encode_chunk_bytes:
  "encode_chunk [a] = [b64_digit (drop_bit 18 (triple_of a 0 0)), b64_digit (drop_bit 12 (triple_of a 0 0)), CHR ''='', CHR ''='']"
  "encode_chunk [a, b] = [b64_digit (drop_bit 18 (triple_of a b 0)), b64_digit (drop_bit 12 (triple_of a b 0)),
     b64_digit (drop_bit 6 (triple_of a b 0)), CHR ''='']"
  "encode_chunk [a, b, c] = [b64_digit (drop_bit 18 (triple_of a b c)), b64_digit (drop_bit 12 (triple_of a b c)),
     b64_digit (drop_bit 6 (triple_of a b c)), b64_digit (triple_of a b c)]"
  by (simp_all add: encode_chunk_def triple_of_def Let_def)

lemma decode_chunk:
  "decode_from 0 0 acc (encode_chunk [a] @ cs) = Inr (acc @ [a])"
  "decode_from 0 0 acc (encode_chunk [a, b] @ cs) = Inr (acc @ [a, b])"
  "decode_from 0 0 acc (encode_chunk [a, b, c] @ cs) = decode_from 0 0 (acc @ [a, b, c]) cs"
  using sextets_3 [of a 0 0] sextets_3 [of a b 0] sextets_3 [of a b c]
  by (simp_all add: encode_chunk_bytes Let_def push_bit_of_1)

lemma decode_encode: "decode_from 0 0 acc (base64_encode bs) = Inr (acc @ bs)"
proof (induction "length bs" arbitrary: bs acc rule: less_induct)
  case less
  consider "bs = []" | a where "bs = [a]" | a b where "bs = [a, b]" | a b c r where "bs = a # b # c # r"
    by (metis list.exhaust)
  then show ?case
  proof cases
    case 4
    with less [of r "acc @ [a, b, c]"] show ?thesis
      by (simp add: base64_encode_def decode_chunk)
  qed (use decode_chunk [where cs = "[]"] in \<open>simp_all add: base64_encode_def\<close>)
qed

text \<open>Whatever the bytes, what the encoder writes the decoder reads back, in full and without an error.\<close>

theorem base64_roundtrip: "base64_decode (base64_encode bs) = Inr bs"
  by (simp add: base64_decode_def decode_encode)

section \<open>What the filters keep\<close>

lemma filter_enumerate_split:
  "length (filter (\<lambda>(i, x). P x \<noteq> b) (enumerate k xs)) + length (filter (\<lambda>(i, x). P x \<noteq> (\<not> b)) (enumerate k xs)) = length xs"
  by (induction xs arbitrary: k) auto

text \<open>\<open>grep\<close> and \<open>grep -v\<close> share the lines out between them.\<close>

lemma grep_partition:
  "length (grep_matches (g\<lparr>go_invert := b\<rparr>) p content) + length (grep_matches (g\<lparr>go_invert := \<not> b\<rparr>) p content)
     = length (lines content)"
  using filter_enumerate_split [of "grep_found (go_ignore_case g) p" b 1 "lines content"]
  by (simp add: grep_matches_def)

text \<open>A plain \<open>grep\<close> prints the lines that contain the pattern, in their order.\<close>

lemma filter_enumerate_snd: "map snd (filter (\<lambda>(i, x). P x) (enumerate k xs)) = filter P xs"
  by (induction xs arbitrary: k) auto

lemma grep_plain:
  "grep_matches grep_none p content = filter (\<lambda>l. contains l p) (lines content)"
proof -
  have "(\<lambda>(i, line). line) = (snd :: nat \<times> string \<Rightarrow> string)" by (auto simp: fun_eq_iff)
  then show ?thesis
    using filter_enumerate_snd [of "\<lambda>l. contains l p" 1 "lines content"]
    by (simp add: grep_matches_def grep_none_def grep_found_def)
qed

lemma counted_lossless: "concat (map (\<lambda>(n, l). replicate n l) (counted ls)) = ls"
proof (induction ls rule: counted.induct)
  case (2 l ls)
  have "takeWhile (\<lambda>x. x = l) ls = replicate (length (takeWhile (\<lambda>x. x = l) ls)) l"
    by (induction ls) auto
  then have "replicate (length (takeWhile (\<lambda>x. x = l) ls)) l @ dropWhile (\<lambda>x. x = l) ls = ls"
    by (metis takeWhile_dropWhile_id)
  with 2 show ?case by simp
qed simp

lemma skip_repeats_adj: "skip_repeats prev ls =
    (case prev of Some p \<Rightarrow> tl (remdups_adj (p # ls)) | None \<Rightarrow> remdups_adj ls)"
proof (induction ls arbitrary: prev)
  case (Cons l ls)
  then show ?case by (cases prev) (auto simp: remdups_adj_Cons split: list.split)
qed (simp split: option.split)

lemma remdups_adj_dropWhile: "remdups_adj (l # ls) = l # remdups_adj (dropWhile (\<lambda>x. x = l) ls)"
  by (induction ls) auto

lemma counted_lines: "map snd (counted ls) = remdups_adj ls"
  by (induction ls rule: counted.induct) (simp_all add: remdups_adj_dropWhile)

text \<open>\<open>uniq -c\<close> loses nothing: each line repeated as often as its count gives the input back, and the
  lines it counts are those \<open>uniq\<close> prints, the input without adjacent repeats.\<close>

theorem uniq_counts_add_up:
  "concat (map (\<lambda>(n, l). replicate n l) (counted ls)) = ls \<and> map snd (counted ls) = skip_repeats None ls"
  by (simp add: counted_lossless counted_lines skip_repeats_adj)

lemma distinct_remdups_adj_sorted: "sorted ls \<Longrightarrow> distinct (remdups_adj ls)" for ls :: "'a::linorder list"
  by (induction ls rule: remdups_adj.induct) (auto simp: less_le)

text \<open>\<open>sort\<close> prints a reordering of the input lines, ascending, or descending with \<open>-r\<close>; \<open>sort -u\<close>
  prints each line of the input once.\<close>

theorem sort_orders_lines:
  "mset (sorted_lines num \<lparr>st_reverse = r, st_numeric = False, st_unique = False\<rparr> ls) = mset ls \<and>
   sorted ((if r then rev else id) (sorted_lines num \<lparr>st_reverse = r, st_numeric = False, st_unique = u\<rparr> ls)) \<and>
   distinct (sorted_lines num \<lparr>st_reverse = r, st_numeric = False, st_unique = True\<rparr> ls) \<and>
   set (sorted_lines num \<lparr>st_reverse = r, st_numeric = False, st_unique = u\<rparr> ls) = set ls"
  by (cases r; cases u)
    (simp_all add: sorted_lines_def remdups_adj_rev sorted_remdups_adj distinct_remdups_adj_sorted)

text \<open>A numeric sort compares as numbers only, so lines that are no number stay as they came, and equal
  lines with others between them survive \<open>-u\<close>.\<close>

lemma sort_nu_repeats:
  "sorted_lines (\<lambda>_. None :: int option) \<lparr>st_reverse = False, st_numeric = True, st_unique = True\<rparr>
     [''a'', ''b'', ''a''] = [''a'', ''b'', ''a'']"
  by (simp add: sorted_lines_def)

section \<open>Where the applets differ from their usage\<close>

text \<open>\<open>cut -d : -f 1\<close>, with its options spelled apart, parses its options and then takes the delimiter
  for the name of its input file: whatever is piped in, it prints nothing.\<close>

theorem cut_reads_its_delimiter:
  assumes "rd [d] = Inl e" "d \<noteq> CHR ''-''" "parse_field_spec f \<noteq> []"
  shows "cut_args (tab, []) [''-d'', [d], ''-f'', f] = (d, parse_field_spec f)
    \<and> cmd_cut rd [''-d'', [d], ''-f'', f] (Some input) = out_text []"
  using assms by (simp add: cmd_cut_def get_input_def first_char_def flagged_def starts_with_def)

text \<open>The same command with its options in one word each does cut.\<close>

lemma cut_joined_options:
  assumes "d \<noteq> CHR ''-''" "parse_field_spec f \<noteq> []"
  shows "cmd_cut rd [''-d'' @ [d], ''-f'' @ f] (Some input)
    = out_text (concat (map (\<lambda>l. cut_line d (parse_field_spec f) l @ crlf) (lines (unix_text input))))"
  using assms by (simp add: cmd_cut_def get_input_def first_char_def flagged_def starts_with_def)

text \<open>An expression with the quotes of the applet's own usage line is refused, since the shell splits
  its line at white space and keeps the quotes.\<close>

theorem sed_refuses_its_usage:
  "cmd_sed rd [[CHR 0x27] @ expr @ [CHR 0x27]] (Some input)
     = out_error (''sed: only s/pattern/replacement/[g] is supported'' @ crlf)"
  by (cases "flagged ([CHR 0x27] @ expr @ [CHR 0x27])")
    (simp_all add: cmd_sed_def get_input_def starts_with_def)

text \<open>\<open>grep\<close> over several files runs their texts together: where the first does not end with a newline,
  its last line and the first of the second are one line to it, so it prints a line no file has.\<close>

theorem grep_joins_files:
  assumes "rd ''a'' = Inr ''yes''" "rd ''b'' = Inr ''no''"
  shows "cmd_grep rd [''yesno'', ''a'', ''b''] None = out_text (''yesno'' @ crlf)"
  using assms
  by (simp add: cmd_grep_def grep_arg_def grep_none_def flagged_def starts_with_def grep_report_def
      grep_matches_def grep_found_def crlf_lines_def lines_def newline_def contains_def)

theorem cut_reads_its_delimiter_witness:
  "cmd_cut (\<lambda>_. Inl ''No such file or directory'') [''-d'', '':'', ''-f'', ''1''] (Some ''root:x:0'') = out_text []"
proof -
  have "parse_field_spec ''1'' \<noteq> []"
    by (simp add: parse_field_spec_def part_fields_def parse_usize_def parse_unsigned_def digit_val_def)
  then show ?thesis
    using cut_reads_its_delimiter [of "\<lambda>_. Inl ''No such file or directory''" "CHR '':''" _ "''1''" "''root:x:0''"]
    by simp
qed

theorem grep_joins_files_witness:
  "cmd_grep (\<lambda>f. if f = ''a'' then Inr ''yes'' else Inr ''no'') [''yesno'', ''a'', ''b''] None = out_text (''yesno'' @ crlf)"
  by (rule grep_joins_files) simp_all

end
