(* ===== verification/ShellFile.thy ===== *)
theory ShellFile
  imports ShellText
begin

text \<open>
  The file applets, \<open>crates/stormd/src/shell/file.rs\<close>, on Linux. The file system is the
  record \<open>os\<close> of \<open>FileSys\<close>. \<open>sha256\<close> is the hex
  digest of the \<open>sha2\<close> crate, \<open>os_strftime\<close> the formatting of \<open>chrono\<close>.
\<close>

definition operand :: "string \<Rightarrow> bool" where
  "operand a \<longleftrightarrow> \<not> flagged a"

definition complaint :: "string \<Rightarrow> string \<Rightarrow> string \<Rightarrow> string" where
  "complaint cmd path e = cmd @ '': '' @ path @ '': '' @ e @ crlf"

section \<open>How files print\<close>

definition perm :: "u32 \<Rightarrow> u32 \<Rightarrow> char \<Rightarrow> char" where
  "perm mode m c = (if mode AND m \<noteq> 0 then c else CHR ''-'')"

definition format_permissions :: "meta \<Rightarrow> bool \<Rightarrow> bool \<Rightarrow> string" where
  "format_permissions m is_dir is_symlink =
     (if is_symlink then CHR ''l'' else if is_dir then CHR ''d'' else CHR ''-'')
     # [perm (md_mode m) 0x100 (CHR ''r''), perm (md_mode m) 0x80 (CHR ''w''), perm (md_mode m) 0x40 (CHR ''x''),
        perm (md_mode m) 0x20 (CHR ''r''), perm (md_mode m) 0x10 (CHR ''w''), perm (md_mode m) 8 (CHR ''x''),
        perm (md_mode m) 4 (CHR ''r''), perm (md_mode m) 2 (CHR ''w''), perm (md_mode m) 1 (CHR ''x'')]"

definition is_executable :: "meta \<Rightarrow> bool" where
  "is_executable m \<longleftrightarrow> md_mode m AND 0x49 \<noteq> 0"

definition format_file_long :: "'w os \<Rightarrow> string \<Rightarrow> meta \<Rightarrow> string" where
  "format_file_long os name m =
     format_permissions m (md_is_dir m) (md_is_symlink m) @ '' '' @ pad_left 8 (format_size_human (md_len m)) @ '' ''
     @ (case md_modified m of Some t \<Rightarrow> os_strftime os ''%b %e %H:%M'' t | None \<Rightarrow> ''???'') @ '' ''
     @ (if md_is_dir m then esc ''1;34m'' @ name @ ''/'' @ esc ''0m''
        else if md_is_symlink m then esc ''1;36m'' @ name @ ''@'' @ esc ''0m''
        else if is_executable m then esc ''1;32m'' @ name @ esc ''0m''
        else name)"

section \<open>ls\<close>

record ls_opts =
  ls_long :: bool
  ls_all :: bool
  ls_path :: "string option"

definition ls_arg :: "ls_opts \<Rightarrow> string \<Rightarrow> ls_opts" where
  "ls_arg x arg =
     (if arg = ''-l'' then x\<lparr>ls_long := True\<rparr>
      else if arg = ''-a'' then x\<lparr>ls_all := True\<rparr>
      else if arg \<in> {''-la'', ''-al'', ''-lah'', ''-alh''} then x\<lparr>ls_long := True, ls_all := True\<rparr>
      else if arg = ''-h'' then x
      else if operand arg then x\<lparr>ls_path := Some arg\<rparr> else x)"

definition ls_indicator :: "file_type option \<Rightarrow> string" where
  "ls_indicator ft =
     (case ft of Some Directory \<Rightarrow> ''/'' | Some Symlink \<Rightarrow> ''@'' | _ \<Rightarrow> [])"

definition ls_long_line :: "'w os \<Rightarrow> dir_entry \<Rightarrow> string" where
  "ls_long_line os e =
     (case de_meta e of
        Some m \<Rightarrow> format_file_long os (de_name e) m
      | None \<Rightarrow> ''?????????? ? ? ? ? '' @ de_name e @ ls_indicator (de_type e)) @ crlf"

definition ls_cell :: "dir_entry \<Rightarrow> string" where
  "ls_cell e =
     (let display = de_name e @ ls_indicator (de_type e)
      in case de_type e of
           Some Directory \<Rightarrow> esc ''1;34m'' @ display @ esc ''0m'' @ ''  ''
         | Some Symlink \<Rightarrow> esc ''1;36m'' @ display @ esc ''0m'' @ ''  ''
         | _ \<Rightarrow> display @ ''  '')"

definition ls_width :: "dir_entry \<Rightarrow> nat" where
  "ls_width e = length (de_name e @ ls_indicator (de_type e)) + 2"

text \<open>The rows of the short form: \<open>out\<close> is what is done, \<open>line\<close> the row being filled, \<open>col\<close> its width.\<close>

definition ls_place :: "string \<times> string \<times> nat \<Rightarrow> dir_entry \<Rightarrow> string \<times> string \<times> nat" where
  "ls_place = (\<lambda>(out, line, col) e.
     (if 80 < col + ls_width e \<and> 0 < col
      then (out @ trim_end line @ crlf, ls_cell e, ls_width e)
      else (out, line @ ls_cell e, col + ls_width e)))"

definition ls_short :: "dir_entry list \<Rightarrow> string" where
  "ls_short items =
     (case foldl ls_place ([], [], 0) items of
        (out, line, col) \<Rightarrow> if line \<noteq> [] then out @ trim_end line @ crlf else out)"

definition ls_items :: "bool \<Rightarrow> dir_entry list \<Rightarrow> dir_entry list" where
  "ls_items all es = sort_key (\<lambda>e. to_lower (de_name e)) (filter (\<lambda>e. all \<or> \<not> starts_with (de_name e) ''.'') es)"

definition cmd_ls :: "'w os \<Rightarrow> 'w \<Rightarrow> string list \<Rightarrow> shell_output" where
  "cmd_ls os w args =
     (let x = foldl ls_arg \<lparr>ls_long = False, ls_all = False, ls_path = None\<rparr> args;
          path = (case ls_path x of Some p \<Rightarrow> p | None \<Rightarrow> ''.'')
      in case os_metadata os w path of
           Inl e \<Rightarrow> out_error (complaint ''ls'' path e)
         | Inr m \<Rightarrow>
             if \<not> md_is_dir m
             then out_text ((if ls_long x then format_file_long os path m else path) @ crlf)
             else case os_read_dir os w path of
                    Inl e \<Rightarrow> out_error (complaint ''ls'' path e)
                  | Inr es \<Rightarrow>
                      (let items = ls_items (ls_all x) es;
                           out = (if ls_long x then concat (map (ls_long_line os) items) else ls_short items)
                       in out_text (if out = [] then crlf else out)))"

section \<open>cat, head and tail\<close>

definition cat_one :: "'w os \<Rightarrow> 'w \<Rightarrow> string \<times> bool \<Rightarrow> string \<Rightarrow> string \<times> bool" where
  "cat_one os w = (\<lambda>(out, failed) path.
     (if flagged path then (out, failed)
      else case os_read_text os w path of
             Inr content \<Rightarrow> (out @ dos_text content, failed)
           | Inl e \<Rightarrow> (out @ complaint ''cat'' path e, True)))"

definition cmd_cat :: "'w os \<Rightarrow> 'w \<Rightarrow> string list \<Rightarrow> string option \<Rightarrow> shell_output" where
  "cmd_cat os w args piped =
     (if args = []
      then (case piped of Some input \<Rightarrow> out_text (dos_text input)
            | None \<Rightarrow> out_usage (''usage: cat <file> [...]'' @ crlf))
      else case foldl (cat_one os w) ([], False) args of
             (out, failed) \<Rightarrow>
               failed_if failed (out_text (if \<not> ends_crlf out \<and> out \<noteq> [] then out @ crlf else out)))"

function count_args :: "nat \<times> string option \<Rightarrow> string list \<Rightarrow> nat \<times> string option" where
  "count_args (n, file) [] = (n, file)"
| "count_args (n, file) (a # rest) =
     (if a = ''-n'' \<and> rest \<noteq> []
      then count_args (case parse_usize (hd rest) of Some k \<Rightarrow> k | None \<Rightarrow> 10, file) (tl rest)
      else if flagged a \<and> parse_usize (drop 1 a) \<noteq> None
      then count_args (case parse_usize (drop 1 a) of Some k \<Rightarrow> k | None \<Rightarrow> 10, file) rest
      else if operand a then count_args (n, Some a) rest
      else count_args (n, file) rest)"
  by pat_completeness auto
termination
  by (relation "measure (\<lambda>(x, as). length as)") auto

definition lines_of :: "string \<Rightarrow> (nat \<Rightarrow> string list \<Rightarrow> string list) \<Rightarrow> 'w os \<Rightarrow> 'w \<Rightarrow> string list
    \<Rightarrow> string option \<Rightarrow> shell_output" where
  "lines_of cmd select os w args piped =
     (case count_args (10, None) args of
        (n, Some path) \<Rightarrow>
          (case os_read_text os w path of
             Inr c \<Rightarrow> out_text (crlf_lines (select n (lines c)))
           | Inl e \<Rightarrow> out_error (complaint cmd path e))
      | (n, None) \<Rightarrow>
          (case piped of
             Some input \<Rightarrow> out_text (crlf_lines (select n (lines (unix_text input))))
           | None \<Rightarrow> out_usage (''usage: '' @ cmd @ '' [-n N] <file>'' @ crlf)))"

definition cmd_head :: "'w os \<Rightarrow> 'w \<Rightarrow> string list \<Rightarrow> string option \<Rightarrow> shell_output" where
  "cmd_head = lines_of ''head'' take"

definition cmd_tail :: "'w os \<Rightarrow> 'w \<Rightarrow> string list \<Rightarrow> string option \<Rightarrow> shell_output" where
  "cmd_tail = lines_of ''tail'' (\<lambda>n ls. drop (length ls - n) ls)"

section \<open>cp, mv, rm, mkdir, touch, chmod, chown, ln\<close>

definition of_update :: "string \<Rightarrow> 'w \<times> string option \<Rightarrow> 'w \<times> shell_output" where
  "of_update cmd r = (fst r, case snd r of None \<Rightarrow> out_text [] | Some e \<Rightarrow> out_error (cmd @ '': '' @ e @ crlf))"

definition cmd_cp :: "'w os \<Rightarrow> string list \<Rightarrow> 'w \<Rightarrow> 'w \<times> shell_output" where
  "cmd_cp os args w =
     (if length args < 2 then (w, out_usage (''usage: cp <src> <dst>'' @ crlf))
      else case os_copy os (args ! (length args - 2)) (args ! (length args - 1)) w of
             (w', Inr n) \<Rightarrow> (w', out_text (''copied '' @ show_nat (unat n) @ '' bytes'' @ crlf))
           | (w', Inl e) \<Rightarrow> (w', out_error (''cp: '' @ e @ crlf)))"

definition cmd_mv :: "'w os \<Rightarrow> string list \<Rightarrow> 'w \<Rightarrow> 'w \<times> shell_output" where
  "cmd_mv os args w =
     (if length args < 2 then (w, out_usage (''usage: mv <src> <dst>'' @ crlf))
      else of_update ''mv'' (os_rename os (args ! (length args - 2)) (args ! (length args - 1)) w))"

text \<open>A loop over targets: the state, what is printed and whether anything failed.\<close>

type_synonym 'w work = "'w \<times> string \<times> bool"

definition try_one :: "string \<Rightarrow> string \<Rightarrow> 'w update \<Rightarrow> 'w work \<Rightarrow> 'w work" where
  "try_one cmd path f = (\<lambda>(w, out, failed).
     (case f w of
        (w', None) \<Rightarrow> (w', out, failed)
      | (w', Some e) \<Rightarrow> (w', out @ complaint cmd path e, True)))"

definition work_done :: "'w work \<Rightarrow> 'w \<times> shell_output" where
  "work_done = (\<lambda>(w, out, failed). (w, failed_if failed (out_text out)))"

definition rm_one :: "'w os \<Rightarrow> bool \<Rightarrow> bool \<Rightarrow> 'w work \<Rightarrow> string \<Rightarrow> 'w work" where
  "rm_one os recursive force = (\<lambda>(w, out, failed) target.
     (case os_metadata os w target of
        Inl e \<Rightarrow> if force then (w, out, failed) else (w, out @ complaint ''rm'' target e, True)
      | Inr m \<Rightarrow>
          if md_is_dir m
          then (if recursive then try_one ''rm'' target (os_remove_dir_all os target) (w, out, failed)
                else (w, out @ complaint ''rm'' target ''is a directory'', True))
          else try_one ''rm'' target (os_remove_file os target) (w, out, failed)))"

definition rm_recursive :: "string list \<Rightarrow> bool" where
  "rm_recursive args \<longleftrightarrow> (\<exists>a \<in> set args. a \<in> {''-r'', ''-R'', ''-rf'', ''-fr''})"

definition rm_force :: "string list \<Rightarrow> bool" where
  "rm_force args \<longleftrightarrow> (\<exists>a \<in> set args. a \<in> {''-f'', ''-rf'', ''-fr''})"

definition cmd_rm :: "'w os \<Rightarrow> string list \<Rightarrow> 'w \<Rightarrow> 'w \<times> shell_output" where
  "cmd_rm os args w =
     (let targets = filter operand args
      in if targets = [] then (w, out_usage (''usage: rm [-rf] <path> [...]'' @ crlf))
         else work_done (foldl (rm_one os (rm_recursive args) (rm_force args)) (w, [], False) targets))"

definition cmd_mkdir :: "'w os \<Rightarrow> string list \<Rightarrow> 'w \<Rightarrow> 'w \<times> shell_output" where
  "cmd_mkdir os args w =
     (let dirs = filter operand args; make = (if ''-p'' \<in> set args then os_create_dir_all os else os_create_dir os)
      in if dirs = [] then (w, out_usage (''usage: mkdir [-p] <dir> [...]'' @ crlf))
         else work_done (foldl (\<lambda>x dir. try_one ''mkdir'' dir (make dir) x) (w, [], False) dirs))"

text \<open>\<open>Path::exists\<close> is \<open>metadata\<close>, which follows links.\<close>

definition touch_one :: "'w os \<Rightarrow> 'w work \<Rightarrow> string \<Rightarrow> 'w work" where
  "touch_one os = (\<lambda>(w, out, failed) path.
     (if flagged path then (w, out, failed)
      else case os_metadata os w path of
             Inr _ \<Rightarrow> try_one ''touch'' path (\<lambda>w. (w, os_open_write os w path)) (w, out, failed)
           | Inl _ \<Rightarrow> try_one ''touch'' path (os_write os path []) (w, out, failed)))"

definition cmd_touch :: "'w os \<Rightarrow> string list \<Rightarrow> 'w \<Rightarrow> 'w \<times> shell_output" where
  "cmd_touch os args w =
     (if args = [] then (w, out_usage (''usage: touch <file> [...]'' @ crlf))
      else work_done (foldl (touch_one os) (w, [], False) args))"

fun octal_digits :: "nat \<Rightarrow> string \<Rightarrow> nat option" where
  "octal_digits acc [] = Some acc"
| "octal_digits acc (c # cs) =
     (case digit_val c of Some d \<Rightarrow> if d < 8 then octal_digits (8 * acc + d) cs else None | None \<Rightarrow> None)"

text \<open>\<open>u32::from_str_radix(_, 8)\<close>.\<close>

definition parse_octal :: "string \<Rightarrow> u32 option" where
  "parse_octal s =
     (let ds = (case s of CHR ''+'' # cs \<Rightarrow> cs | _ \<Rightarrow> s)
      in if ds = [] then None
         else case octal_digits 0 ds of Some n \<Rightarrow> if n < 2 ^ 32 then Some (of_nat n) else None | None \<Rightarrow> None)"

definition cmd_chmod :: "'w os \<Rightarrow> string list \<Rightarrow> 'w \<Rightarrow> 'w \<times> shell_output" where
  "cmd_chmod os args w =
     (if length args < 2 then (w, out_usage (''usage: chmod <mode> <file> [...]'' @ crlf))
      else case parse_octal (hd args) of
             None \<Rightarrow> (w, out_error (''chmod: invalid mode '' @ [CHR 0x27] @ hd args @ [CHR 0x27] @ crlf))
           | Some mode \<Rightarrow>
               work_done (foldl (\<lambda>x path. try_one ''chmod'' path (os_chmod os path mode) x) (w, [], False) (tl args)))"

definition parse_owner :: "string \<Rightarrow> u32 option" where
  "parse_owner s = map_option of_nat (parse_unsigned (2 ^ 32) s)"

definition cmd_chown :: "'w os \<Rightarrow> string list \<Rightarrow> 'w \<Rightarrow> 'w \<times> shell_output" where
  "cmd_chown os args w =
     (if length args < 2 then (w, out_usage (''usage: chown <user[:group]> <file> [...]'' @ crlf))
      else
        let (u, g) = (case split_once '':'' (hd args) of Some (u, g) \<Rightarrow> (u, Some g) | None \<Rightarrow> (hd args, None))
        in case parse_owner u of
             None \<Rightarrow> (w, out_error (''chown: invalid user '' @ [CHR 0x27] @ u @ [CHR 0x27] @ crlf))
           | Some uid \<Rightarrow>
               (let gid = (case g of Some g \<Rightarrow> parse_owner g | None \<Rightarrow> None)
                in work_done (foldl (\<lambda>x path. try_one ''chown'' path (os_chown os path uid gid) x)
                     (w, [], False) (tl args))))"

definition cmd_ln :: "'w os \<Rightarrow> string list \<Rightarrow> 'w \<Rightarrow> 'w \<times> shell_output" where
  "cmd_ln os args w =
     (let targets = filter operand args
      in if length targets < 2 then (w, out_usage (''usage: ln [-s] <target> <link>'' @ crlf))
         else of_update ''ln'' ((if ''-s'' \<in> set args then os_symlink os else os_hard_link os)
                (targets ! 0) (targets ! 1) w))"

end
