(* ===== verification/ShellTree.thy ===== *)
theory ShellTree
  imports ShellFile
begin

text \<open>
  The file applets that look at files and trees, \<open>crates/stormd/src/shell/file.rs\<close> from \<open>find\<close> on:
  searching with globs, sizes, counts, types, digests, \<open>tee\<close> and \<open>test\<close>.
\<close>

section \<open>find\<close>

fun suffixes_ne :: "'a list \<Rightarrow> 'a list list" where
  "suffixes_ne [] = []"
| "suffixes_ne (x # xs) = (x # xs) # suffixes_ne xs"

primrec glob_match :: "string \<Rightarrow> string \<Rightarrow> bool" where
  "glob_match [] name = (name = [])"
| "glob_match (pc # p) name =
     (if pc = CHR ''*'' then p = [] \<or> list_ex (glob_match p) (suffixes_ne name)
      else case name of
             [] \<Rightarrow> False
           | nc # name' \<Rightarrow> if pc = CHR ''?'' \<or> nc = pc then glob_match p name' else False)"

record find_opts =
  fo_path :: string
  fo_name :: "string option"
  fo_type :: "string option"

function find_args :: "find_opts \<Rightarrow> string list \<Rightarrow> find_opts" where
  "find_args x [] = x"
| "find_args x (a # rest) =
     (if a = ''-name'' \<and> rest \<noteq> [] then find_args (x\<lparr>fo_name := Some (hd rest)\<rparr>) (tl rest)
      else if a = ''-type'' \<and> rest \<noteq> [] then find_args (x\<lparr>fo_type := Some (hd rest)\<rparr>) (tl rest)
      else if operand a \<and> fo_name x = None then find_args (x\<lparr>fo_path := a\<rparr>) rest
      else find_args x rest)"
  by pat_completeness auto
termination
  by (relation "measure (\<lambda>(x, as). length as)") auto

definition type_match :: "string option \<Rightarrow> file_type option \<Rightarrow> bool" where
  "type_match want ft =
     (case want of
        None \<Rightarrow> True
      | Some t \<Rightarrow> t = ''f'' \<and> ft = Some RegularFile \<or> t = ''d'' \<and> ft = Some Directory \<or> t = ''l'' \<and> ft = Some Symlink)"

definition name_match :: "string option \<Rightarrow> string \<Rightarrow> bool" where
  "name_match pattern name = (case pattern of Some pat \<Rightarrow> glob_match pat name | None \<Rightarrow> True)"

definition find_hit :: "find_opts \<Rightarrow> dir_entry \<Rightarrow> bool" where
  "find_hit x e \<longleftrightarrow> type_match (fo_type x) (de_type e) \<and> name_match (fo_name x) (de_name e)"

text \<open>
  \<open>find_recursive\<close>; the number counts the levels left, 21 at the start, since it returns at a depth
  above 20. A directory is left once there are more than 10000 results.
\<close>

primrec find_dir :: "'w os \<Rightarrow> 'w \<Rightarrow> find_opts \<Rightarrow> nat \<Rightarrow> string \<Rightarrow> string list \<Rightarrow> string list" where
  "find_dir os w x 0 dir results = results"
| "find_dir os w x (Suc k) dir results =
     (case os_read_dir os w dir of
        Inl _ \<Rightarrow> results
      | Inr es \<Rightarrow>
          fst (foldl (\<lambda>(rs, stop) e.
            if stop then (rs, True)
            else
              let rs1 = (if find_hit x e then rs @ [de_path e] else rs);
                  rs2 = (if de_type e = Some Directory then find_dir os w x k (de_path e) rs1 else rs1)
              in (rs2, 10000 < length rs2)) (results, False) es))"

definition cmd_find :: "'w os \<Rightarrow> 'w \<Rightarrow> string list \<Rightarrow> shell_output" where
  "cmd_find os w args =
     (let x = find_args \<lparr>fo_path = ''.'', fo_name = None, fo_type = None\<rparr> args;
          results = sort (find_dir os w x 21 (fo_path x) [])
      in out_text (if results = [] then [] else crlf_lines results))"

section \<open>stat, pwd, wc and readlink\<close>

text \<open>The octal digits of \<open>{:04o}\<close>.\<close>

fun octal :: "nat \<Rightarrow> nat \<Rightarrow> string" where
  "octal 0 n = (if n = 0 then [] else octal 0 (n div 8) @ [digit (n mod 8)])"
| "octal (Suc w) n = octal w (n div 8) @ [digit (n mod 8)]"

definition stat_text :: "'w os \<Rightarrow> string \<Rightarrow> meta \<Rightarrow> string" where
  "stat_text os path m =
     ''  File: '' @ path @ crlf
     @ ''  Size: '' @ pad_right 15 (show_nat (unat (md_len m))) @ '' ''
     @ (if md_is_dir m then ''directory'' else if md_is_symlink m then ''symbolic link'' else ''regular file'') @ crlf
     @ ''Device: '' @ pad_right 15 (show_nat (unat (md_dev m)))
     @ '' Inode: '' @ pad_right 10 (show_nat (unat (md_ino m))) @ '' Links: '' @ show_nat (unat (md_nlink m)) @ crlf
     @ ''Access: ('' @ octal 4 (unat (md_mode m AND 0xFFF)) @ ''/'' @ format_permissions m (md_is_dir m) (md_is_symlink m)
     @ '')  Uid: '' @ show_nat (unat (md_uid m)) @ ''  Gid: '' @ show_nat (unat (md_gid m)) @ crlf
     @ (case md_modified m of Some t \<Rightarrow> ''Modify: '' @ os_strftime os ''%Y-%m-%d %H:%M:%S'' t @ crlf | None \<Rightarrow> [])
     @ crlf"

definition stat_one :: "'w os \<Rightarrow> 'w \<Rightarrow> string \<times> bool \<Rightarrow> string \<Rightarrow> string \<times> bool" where
  "stat_one os w = (\<lambda>(out, failed) path.
     (if flagged path then (out, failed)
      else case os_metadata os w path of
             Inr m \<Rightarrow> (out @ stat_text os path m, failed)
           | Inl e \<Rightarrow> (out @ complaint ''stat'' path e, True)))"

definition cmd_stat :: "'w os \<Rightarrow> 'w \<Rightarrow> string list \<Rightarrow> shell_output" where
  "cmd_stat os w args =
     (if args = [] then out_usage (''usage: stat <file> [...]'' @ crlf)
      else case foldl (stat_one os w) ([], False) args of (out, failed) \<Rightarrow> failed_if failed (out_text out))"

definition cmd_pwd :: "'w os \<Rightarrow> 'w \<Rightarrow> shell_output" where
  "cmd_pwd os w =
     (case os_current_dir os w of Inr p \<Rightarrow> out_text (p @ crlf) | Inl e \<Rightarrow> out_error (''pwd: '' @ e @ crlf))"

record wc_opts =
  wo_lines :: bool
  wo_words :: bool
  wo_chars :: bool
  wo_files :: "string list"

definition wc_arg :: "wc_opts \<Rightarrow> string \<Rightarrow> wc_opts" where
  "wc_arg x arg =
     (if arg = ''-l'' then x\<lparr>wo_lines := True\<rparr>
      else if arg = ''-w'' then x\<lparr>wo_words := True\<rparr>
      else if arg = ''-c'' \<or> arg = ''-m'' then x\<lparr>wo_chars := True\<rparr>
      else if arg \<in> {''-lwc'', ''-lw'', ''-lc'', ''-wc''}
      then x\<lparr>wo_lines := wo_lines x \<or> CHR ''l'' \<in> set arg, wo_words := wo_words x \<or> CHR ''w'' \<in> set arg,
             wo_chars := wo_chars x \<or> CHR ''c'' \<in> set arg\<rparr>
      else if operand arg then x\<lparr>wo_files := wo_files x @ [arg]\<rparr> else x)"

definition wc_report :: "wc_opts \<Rightarrow> string \<Rightarrow> shell_output" where
  "wc_report x content =
     (let every = \<not> wo_lines x \<and> \<not> wo_words x \<and> \<not> wo_chars x;
          col = (\<lambda>n. pad_left 8 (show_nat n))
      in out_text ((if wo_lines x \<or> every then col (length (lines content)) else [])
           @ (if wo_words x \<or> every then col (length (split_whitespace content)) else [])
           @ (if wo_chars x \<or> every then col (length content) else [])
           @ (case wo_files x of [f] \<Rightarrow> '' '' @ f | _ \<Rightarrow> []) @ crlf))"

definition cmd_wc :: "'w os \<Rightarrow> 'w \<Rightarrow> string list \<Rightarrow> string option \<Rightarrow> shell_output" where
  "cmd_wc os w args piped =
     (let x = foldl wc_arg \<lparr>wo_lines = False, wo_words = False, wo_chars = False, wo_files = []\<rparr> args
      in if wo_files x \<noteq> []
         then (case read_all (os_read_text os w) (wo_files x) of
                 Inl (f, e) \<Rightarrow> out_error (complaint ''wc'' f e)
               | Inr content \<Rightarrow> wc_report x content)
         else case piped of
                Some input \<Rightarrow> wc_report x (unix_text input)
              | None \<Rightarrow> out_usage (''usage: wc [-lwc] <file>'' @ crlf))"

definition cmd_readlink :: "'w os \<Rightarrow> 'w \<Rightarrow> string list \<Rightarrow> shell_output" where
  "cmd_readlink os w args =
     (case args of
        [] \<Rightarrow> out_usage (''usage: readlink <path>'' @ crlf)
      | path # _ \<Rightarrow>
          (case os_read_link os w path of
             Inr t \<Rightarrow> out_text (t @ crlf)
           | Inl e \<Rightarrow> out_error (complaint ''readlink'' path e)))"

section \<open>du\<close>

text \<open>
  \<open>dir_size\<close> has no bound on its depth: the number is fuel, and \<open>None\<close> that it did not suffice. A sum
  of sizes wraps as \<open>u64\<close> does.
\<close>

primrec dir_size :: "'w os \<Rightarrow> 'w \<Rightarrow> nat \<Rightarrow> string \<Rightarrow> u64 option" where
  "dir_size os w 0 path = None"
| "dir_size os w (Suc k) path =
     (case os_read_dir os w path of
        Inl _ \<Rightarrow> Some 0
      | Inr es \<Rightarrow>
          foldl (\<lambda>total e.
            case total of
              None \<Rightarrow> None
            | Some t \<Rightarrow>
                (case os_symlink_metadata os w (de_path e) of
                   Inl _ \<Rightarrow> Some t
                 | Inr m \<Rightarrow>
                     if md_is_dir m
                     then (case dir_size os w k (de_path e) of Some s \<Rightarrow> Some (t + s) | None \<Rightarrow> None)
                     else Some (t + md_len m))) (Some 0) es)"

definition du_line :: "bool \<Rightarrow> string \<Rightarrow> u64 \<Rightarrow> string" where
  "du_line human path bytes =
     (if human then format_size_human bytes else show_nat (unat bytes div 1024)) @ [tab] @ path @ crlf"

text \<open>\<open>du_recursive\<close> goes down to depth 10: 11 levels.\<close>

primrec du_dir :: "'w os \<Rightarrow> 'w \<Rightarrow> nat \<Rightarrow> bool \<Rightarrow> nat \<Rightarrow> string \<Rightarrow> string \<Rightarrow> string option" where
  "du_dir os w fuel human 0 path out = Some out"
| "du_dir os w fuel human (Suc k) path out =
     (case dir_size os w fuel path of
        None \<Rightarrow> None
      | Some bytes \<Rightarrow>
          (let out1 = out @ du_line human path bytes
           in case os_read_dir os w path of
                Inl _ \<Rightarrow> Some out1
              | Inr es \<Rightarrow>
                  foldl (\<lambda>x e. case x of
                      None \<Rightarrow> None
                    | Some t \<Rightarrow> if de_type e = Some Directory then du_dir os w fuel human k (de_path e) t else Some t)
                    (Some out1) es))"

record du_opts =
  du_human :: bool
  du_summary :: bool
  du_path :: string

definition du_arg :: "du_opts \<Rightarrow> string \<Rightarrow> du_opts" where
  "du_arg x arg =
     (if arg = ''-h'' then x\<lparr>du_human := True\<rparr>
      else if arg = ''-s'' then x\<lparr>du_summary := True\<rparr>
      else if arg = ''-sh'' \<or> arg = ''-hs'' then x\<lparr>du_summary := True, du_human := True\<rparr>
      else if operand arg then x\<lparr>du_path := arg\<rparr> else x)"

definition cmd_du :: "'w os \<Rightarrow> 'w \<Rightarrow> nat \<Rightarrow> string list \<Rightarrow> shell_output option" where
  "cmd_du os w fuel args =
     (let x = foldl du_arg \<lparr>du_human = False, du_summary = False, du_path = ''.''\<rparr> args
      in if du_summary x
         then map_option (\<lambda>s. out_text (du_line (du_human x) (du_path x) s)) (dir_size os w fuel (du_path x))
         else map_option out_text (du_dir os w fuel (du_human x) 11 (du_path x) []))"

section \<open>file and sha256sum\<close>

definition raw_bytes :: "nat list \<Rightarrow> u8 list" where
  "raw_bytes ns = map of_nat ns"

definition plain_byte :: "u8 \<Rightarrow> bool" where
  "plain_byte b \<longleftrightarrow> b = 0x0A \<or> b = 0x0D \<or> b = 9 \<or> 0x20 \<le> b \<and> b < 0x7F"

definition control_byte :: "u8 \<Rightarrow> bool" where
  "control_byte b \<longleftrightarrow> b < 0x20 \<and> b \<noteq> 0x0A \<and> b \<noteq> 0x0D \<and> b \<noteq> 9"

definition detect_file_type :: "u8 list \<Rightarrow> string" where
  "detect_file_type data =
     (if length data < 4 then ''empty or very small file''
      else if starts_with data (raw_bytes [0x7F, 0x45, 0x4C, 0x46]) then ''ELF executable''
      else if starts_with data (raw_bytes [0x1F, 0x8B]) then ''gzip compressed data''
      else if 262 < length data \<and> take 5 (drop 257 data) = as_bytes ''ustar'' then ''tar archive''
      else if starts_with data (raw_bytes [0x89, 0x50, 0x4E, 0x47]) then ''PNG image''
      else if starts_with data (raw_bytes [0xFF, 0xD8, 0xFF]) then ''JPEG image''
      else if starts_with data (as_bytes ''%PDF'') then ''PDF document''
      else if starts_with data (raw_bytes [0x50, 0x4B, 3, 4]) then ''Zip archive''
      else if starts_with data (as_bytes ''#!'') then ''script, text executable''
      else
        let sample = take (min (length data) 512) data
        in if list_all plain_byte sample then ''ASCII text''
           else if length (filter control_byte sample) < length sample div 10 then ''UTF-8 Unicode text''
           else ''data'')"

definition file_one :: "'w os \<Rightarrow> 'w \<Rightarrow> string \<times> bool \<Rightarrow> string \<Rightarrow> string \<times> bool" where
  "file_one os w = (\<lambda>(out, failed) path.
     (if flagged path then (out, failed)
      else case os_symlink_metadata os w path of
             Inl e \<Rightarrow> (out @ path @ '': cannot open ('' @ e @ '')'' @ crlf, True)
           | Inr m \<Rightarrow>
               if md_is_dir m then (out @ path @ '': directory'' @ crlf, failed)
               else if md_is_symlink m
               then (case os_read_link os w path of
                       Inr t \<Rightarrow> (out @ path @ '': symbolic link to '' @ t @ crlf, failed)
                     | Inl _ \<Rightarrow> (out @ path @ '': symbolic link'' @ crlf, failed))
               else case os_read os w path of
                      Inr data \<Rightarrow> (out @ path @ '': '' @ detect_file_type data @ crlf, failed)
                    | Inl e \<Rightarrow> (out @ path @ '': cannot read ('' @ e @ '')'' @ crlf, True)))"

definition cmd_file_type :: "'w os \<Rightarrow> 'w \<Rightarrow> string list \<Rightarrow> shell_output" where
  "cmd_file_type os w args =
     (if args = [] then out_usage (''usage: file <path> [...]'' @ crlf)
      else case foldl (file_one os w) ([], False) args of (out, failed) \<Rightarrow> failed_if failed (out_text out))"

definition sum_one :: "(u8 list \<Rightarrow> string) \<Rightarrow> 'w os \<Rightarrow> 'w \<Rightarrow> string \<times> bool \<Rightarrow> string \<Rightarrow> string \<times> bool" where
  "sum_one sha256 os w = (\<lambda>(out, failed) path.
     (if flagged path then (out, failed)
      else case os_read os w path of
             Inr data \<Rightarrow> (out @ sha256 data @ ''  '' @ path @ crlf, failed)
           | Inl e \<Rightarrow> (out @ complaint ''sha256sum'' path e, True)))"

definition cmd_sha256sum ::
    "(u8 list \<Rightarrow> string) \<Rightarrow> 'w os \<Rightarrow> 'w \<Rightarrow> string list \<Rightarrow> string option \<Rightarrow> shell_output" where
  "cmd_sha256sum sha256 os w args piped =
     (if args = []
      then (case piped of
              None \<Rightarrow> out_usage (''usage: sha256sum <file> [...]'' @ crlf)
            | Some input \<Rightarrow> out_text (sha256 (as_bytes input) @ ''  -'' @ crlf))
      else case foldl (sum_one sha256 os w) ([], False) args of (out, failed) \<Rightarrow> failed_if failed (out_text out))"

section \<open>tee and test\<close>

definition last_operand :: "string list \<Rightarrow> string option" where
  "last_operand args = foldl (\<lambda>file a. if operand a then Some a else file) None args"

definition cmd_tee :: "'w os \<Rightarrow> string list \<Rightarrow> string option \<Rightarrow> 'w \<Rightarrow> 'w \<times> shell_output" where
  "cmd_tee os args piped w =
     (case piped of
        None \<Rightarrow> (w, out_usage (''usage: <cmd> | tee <file>'' @ crlf))
      | Some input \<Rightarrow>
          (case last_operand args of
             None \<Rightarrow> (w, out_text input)
           | Some path \<Rightarrow>
               (case (if ''-a'' \<in> set args then os_append os else os_write os) path (unix_text input) w of
                  (w', None) \<Rightarrow> (w', out_text input)
                | (w', Some e) \<Rightarrow> (w', out_error (complaint ''tee'' path e)))))"

definition test_file :: "'w os \<Rightarrow> 'w \<Rightarrow> string \<Rightarrow> string \<Rightarrow> bool option" where
  "test_file os w op path =
     (let meta = os_metadata os w path
      in if op = ''-e'' then Some (case meta of Inr _ \<Rightarrow> True | Inl _ \<Rightarrow> False)
         else if op = ''-f'' then Some (case meta of Inr m \<Rightarrow> md_is_file m | Inl _ \<Rightarrow> False)
         else if op = ''-d'' then Some (case meta of Inr m \<Rightarrow> md_is_dir m | Inl _ \<Rightarrow> False)
         else if op = ''-s'' then Some (case meta of Inr m \<Rightarrow> 0 < md_len m | Inl _ \<Rightarrow> False)
         else if op \<in> {''-r'', ''-w'', ''-x''} then Some (os_access os w path op)
         else None)"

definition test_expr :: "'w os \<Rightarrow> 'w \<Rightarrow> string list \<Rightarrow> bool option" where
  "test_expr os w args =
     (case args of
        [] \<Rightarrow> Some False
      | [s] \<Rightarrow> Some (s \<noteq> [])
      | [op, path] \<Rightarrow>
          if length op = 2 \<and> flagged op \<and> op \<noteq> ''-n'' \<and> op \<noteq> ''-z'' then test_file os w op path
          else if op = ''-n'' then Some (path \<noteq> [])
          else if op = ''-z'' then Some (path = [])
          else None
      | [a, op, b] \<Rightarrow>
          if op = ''='' \<or> op = ''=='' then Some (a = b)
          else if op = ''!='' then Some (a \<noteq> b)
          else None
      | _ \<Rightarrow> None)"

definition cmd_test :: "'w os \<Rightarrow> 'w \<Rightarrow> string list \<Rightarrow> shell_output" where
  "cmd_test os w args =
     (let (negate, rest) = (case args of a # r \<Rightarrow> if a = ''!'' then (True, r) else (False, args) | [] \<Rightarrow> (False, []))
      in case test_expr os w rest of
           Some r \<Rightarrow> failed_if (r = negate) (out_text [])
         | None \<Rightarrow> out_usage (''test: unknown expression: '' @ join '' '' rest @ crlf))"

section \<open>Globs\<close>

text \<open>What a pattern of \<open>find -name\<close> is meant to match.\<close>

inductive glob :: "string \<Rightarrow> string \<Rightarrow> bool" where
  glob_end: "glob [] []"
| glob_star: "glob p m \<Longrightarrow> glob (CHR ''*'' # p) (n @ m)"
| glob_any: "glob p n \<Longrightarrow> glob (CHR ''?'' # p) (c # n)"
| glob_char: "c \<noteq> CHR ''*'' \<Longrightarrow> c \<noteq> CHR ''?'' \<Longrightarrow> glob p n \<Longrightarrow> glob (c # p) (c # n)"

inductive_simps glob_nil [simp]: "glob [] n"
inductive_simps glob_cons: "glob (c # p) n"

lemma suffixes_ne_iff: "m \<in> set (suffixes_ne n) \<longleftrightarrow> m \<noteq> [] \<and> (\<exists>k. n = k @ m)"
proof (induction n)
  case (Cons x n)
  then show ?case by (auto simp: Cons_eq_append_conv)
qed auto

lemma glob_star_iff: "glob (CHR ''*'' # p) n \<longleftrightarrow> (\<exists>k m. n = k @ m \<and> glob p m)"
  by (auto simp: glob_cons)

lemma glob_empty: "glob p [] \<Longrightarrow> p \<noteq> [] \<Longrightarrow> hd p = CHR ''*''"
  by (erule glob.cases) auto

lemma contains_Cons: "\<not> contains (c # p) q \<Longrightarrow> \<not> contains p q"
  unfolding contains_iff by (metis append_Cons)

lemma glob_match_iff: "\<not> contains p ''**'' \<Longrightarrow> glob_match p n \<longleftrightarrow> glob p n"
proof (induction p arbitrary: n)
  case (Cons c p)
  have IH: "glob_match p n \<longleftrightarrow> glob p n" for n
    using Cons.IH [OF contains_Cons [OF Cons.prems]] .
  show ?case
  proof (cases "c = CHR ''*''")
    case True
    show ?thesis
    proof (cases "p = []")
      case False
      have "hd p \<noteq> CHR ''*''"
      proof
        assume "hd p = CHR ''*''"
        with False True have "c # p = [] @ ''**'' @ tl p" by (cases p) simp_all
        with Cons.prems show False unfolding contains_iff by blast
      qed
      with False have "\<not> glob p []" using glob_empty by blast
      then show ?thesis using True False
        by (auto simp: IH list_ex_iff suffixes_ne_iff glob_star_iff) metis
    qed (simp add: True glob_star_iff)
  next
    case False
    then show ?thesis by (cases n) (auto simp: IH glob_cons)
  qed
qed simp

text \<open>A pattern without two stars in a row matches exactly the names it is meant to: \<open>*\<close> any text,
  \<open>?\<close> any one character, every other character itself, over the whole name.\<close>

theorem glob_match_exact: "\<not> contains p ''**'' \<Longrightarrow> glob_match p n \<longleftrightarrow> glob p n"
  by (rule glob_match_iff)

lemma glob_plain: "CHR ''*'' \<notin> set p \<Longrightarrow> CHR ''?'' \<notin> set p \<Longrightarrow> glob q m \<Longrightarrow> glob (p @ q) (p @ m)"
  by (induction p) (auto intro: glob.intros)

lemma glob_match_plain:
  "CHR ''*'' \<notin> set p \<Longrightarrow> CHR ''?'' \<notin> set p \<Longrightarrow> glob_match (p @ q) (p @ m) \<longleftrightarrow> glob_match q m"
  by (induction p) auto

text \<open>A name followed by two stars is a pattern the name itself does not match, though two stars match
  the empty text: with nothing left to match the second star is never looked at.\<close>

theorem two_stars_miss_the_name:
  assumes "CHR ''*'' \<notin> set p" "CHR ''?'' \<notin> set p"
  shows "glob (p @ ''**'') p \<and> \<not> glob_match (p @ ''**'') p"
proof
  have "glob ''**'' []" using glob_star [OF glob_star [OF glob_end, of "[]"], of "[]"] by simp
  then show "glob (p @ ''**'') p" using glob_plain [OF assms, of "''**''" "[]"] by simp
  show "\<not> glob_match (p @ ''**'') p" using glob_match_plain [OF assms, of "''**''" "[]"] by simp
qed

section \<open>What is found\<close>

definition listed :: "'w os \<Rightarrow> 'w \<Rightarrow> dir_entry \<Rightarrow> bool" where
  "listed os w e \<longleftrightarrow> (\<exists>dir es. os_read_dir os w dir = Inr es \<and> e \<in> set es)"

lemma find_dir_sound:
  "r \<in> set (find_dir os w x k dir rs) \<Longrightarrow> r \<notin> set rs \<Longrightarrow> \<exists>e. listed os w e \<and> find_hit x e \<and> r = de_path e"
proof (induction k arbitrary: dir rs)
  case (Suc k)
  show ?case
  proof (cases "os_read_dir os w dir")
    case (Inr es)
    define step where "step = (\<lambda>(rs, stop) e.
        if stop then (rs, True)
        else
          let rs1 = (if find_hit x e then rs @ [de_path e] else rs);
              rs2 = (if de_type e = Some Directory then find_dir os w x k (de_path e) rs1 else rs1)
          in (rs2, 10000 < length rs2))"
    have "r \<in> set (fst (foldl step (rs, stop) ds)) \<Longrightarrow> r \<notin> set rs \<Longrightarrow> set ds \<subseteq> set es \<Longrightarrow>
        \<exists>e. listed os w e \<and> find_hit x e \<and> r = de_path e" for rs stop ds
    proof (induction ds arbitrary: rs stop)
      case (Cons d ds)
      obtain rs' stop' where s: "step (rs, stop) d = (rs', stop')" by (cases "step (rs, stop) d")
      show ?case
      proof (cases "r \<in> set rs'")
        case False
        with Cons s show ?thesis by (metis foldl_Cons list.set_intros(2) subset_code(1))
      next
        case True
        let ?rs1 = "if find_hit x d then rs @ [de_path d] else rs"
        have d: "listed os w d" using Inr Cons.prems(3) by (auto simp: listed_def)
        have "rs' = (if stop then rs else if de_type d = Some Directory then find_dir os w x k (de_path d) ?rs1 else ?rs1)"
          using s by (auto simp: step_def Let_def split: if_splits)
        with True Cons.prems(2) consider "find_hit x d" "r = de_path d"
          | "r \<in> set (find_dir os w x k (de_path d) ?rs1)" "r \<notin> set ?rs1"
          by (auto split: if_splits)
        then show ?thesis using d Suc.IH by cases blast+
      qed
    qed simp
    from this [of rs False es] Suc.prems Inr show ?thesis by (simp add: step_def)
  qed (use Suc.prems in simp)
qed simp

text \<open>\<open>find\<close> prints, in order, paths of directory entries only, and only of entries of the type and with a
  name the command line asks for.\<close>

theorem find_prints_matches:
  assumes "x = find_args \<lparr>fo_path = ''.'', fo_name = None, fo_type = None\<rparr> args"
  shows "\<exists>rs. cmd_find os w args = out_text (if rs = [] then [] else crlf_lines rs) \<and> sorted rs \<and>
    (\<forall>r \<in> set rs. \<exists>e. listed os w e \<and> find_hit x e \<and> r = de_path e)"
proof -
  let ?rs = "sort (find_dir os w x 21 (fo_path x) [])"
  have "cmd_find os w args = out_text (if ?rs = [] then [] else crlf_lines ?rs)"
    by (simp add: cmd_find_def assms Let_def)
  moreover have "r \<in> set ?rs \<Longrightarrow> \<exists>e. listed os w e \<and> find_hit x e \<and> r = de_path e" for r
    using find_dir_sound [of r os w x 21 "fo_path x" "[]"] by simp
  ultimately show ?thesis using sorted_sort by blast
qed

section \<open>Statuses\<close>

lemma cat_fold: "snd (foldl (cat_one os w) (out, failed) ps) \<longleftrightarrow>
    failed \<or> (\<exists>p \<in> set ps. operand p \<and> (\<exists>e. os_read_text os w p = Inl e))"
  by (induction ps arbitrary: out failed) (auto simp: cat_one_def operand_def split: sum.split)

text \<open>\<open>cat\<close> succeeds exactly when every file it was given could be read (and it was given something):
  one unreadable file among many fails the whole command.\<close>

theorem cat_status:
  "so_status (cmd_cat os w args piped) =
     (if args = [] \<and> piped = None then 2
      else if \<exists>p \<in> set args. operand p \<and> (\<exists>e. os_read_text os w p = Inl e) then 1 else 0)"
  using cat_fold [of os w "[]" False args]
  by (cases "foldl (cat_one os w) ([], False) args") (auto simp: cmd_cat_def split: option.split)

text \<open>\<open>test\<close> is decided: its status is 0, 1 or 2, 2 for an expression it does not know, and a leading
  \<open>!\<close> turns 0 and 1 around and leaves 2.\<close>

theorem test_negation:
  assumes "take 1 args \<noteq> [''!'']"
  shows "so_status (cmd_test os w args) = (case test_expr os w args of Some r \<Rightarrow> if r then 0 else 1 | None \<Rightarrow> 2) \<and>
    so_status (cmd_test os w (''!'' # args)) = (case test_expr os w args of Some r \<Rightarrow> if r then 1 else 0 | None \<Rightarrow> 2)"
  using assms by (cases args) (auto simp: cmd_test_def split: option.split)

text \<open>A link to nothing cannot be removed: \<open>rm\<close> looks through the link, finds nothing, and with \<open>-f\<close> reports
  success with the link still there.\<close>

theorem rm_keeps_dangling_link:
  assumes "operand p" "os_metadata os w p = Inl e" "os_symlink_metadata os w p = Inr m"
  shows "cmd_rm os [''-f'', p] w = (w, out_text [])"
  using assms
  by (simp add: cmd_rm_def rm_one_def work_done_def operand_def flagged_def starts_with_def rm_force_def failed_if_def)

text \<open>Touching a file that exists opens and closes it, which leaves its time as it was.\<close>

lemma touch_existing:
  assumes "operand p" "os_metadata os w p = Inr m" "os_open_write os w p = None"
  shows "cmd_touch os [p] w = (w, out_text [])"
  using assms by (simp add: cmd_touch_def touch_one_def try_one_def work_done_def operand_def failed_if_def)

section \<open>Witnesses\<close>

theorem glob_match_exact_witness: "glob_match ''*.r?'' ''lib.rs'' \<and> glob ''*.r?'' ''lib.rs''"
proof -
  have "\<not> contains ''*.r?'' ''**''" by (simp add: contains_def)
  then show ?thesis using glob_match_exact [of "''*.r?''" "''lib.rs''"] by simp
qed

theorem two_stars_miss_the_name_witness: "\<not> glob_match ''log**'' ''log''"
  using two_stars_miss_the_name [of "''log''"] by simp

text \<open>A flat directory of texts with one link to nothing in it.\<close>

type_synonym flat_dir = "(string \<times> string) list"

definition plain_meta :: "nat \<Rightarrow> meta" where
  "plain_meta n = \<lparr>md_is_dir = False, md_is_file = True, md_is_symlink = False, md_len = of_nat n, md_mode = 0x1A4,
     md_modified = Some 0, md_dev = 1, md_ino = 1, md_nlink = 1, md_uid = 0, md_gid = 0\<rparr>"

definition gone :: string where "gone = ''No such file or directory (os error 2)''"

definition flat_put :: "string \<Rightarrow> string \<Rightarrow> flat_dir \<Rightarrow> flat_dir" where
  "flat_put p t w = (p, t) # filter (\<lambda>(q, _). q \<noteq> p) w"

definition flat_os :: "flat_dir os" where
  "flat_os = \<lparr>
     os_metadata = (\<lambda>w p. case map_of w p of Some t \<Rightarrow> Inr (plain_meta (length t)) | None \<Rightarrow> Inl gone),
     os_symlink_metadata = (\<lambda>w p. if p = ''link'' then Inr ((plain_meta 7)\<lparr>md_is_symlink := True\<rparr>)
        else case map_of w p of Some t \<Rightarrow> Inr (plain_meta (length t)) | None \<Rightarrow> Inl gone),
     os_read = (\<lambda>w p. case map_of w p of Some t \<Rightarrow> Inr (as_bytes t) | None \<Rightarrow> Inl gone),
     os_read_text = (\<lambda>w p. case map_of w p of Some t \<Rightarrow> Inr t | None \<Rightarrow> Inl gone),
     os_read_dir = (\<lambda>w p. if p = ''.'' then Inr (map (\<lambda>(q, t). \<lparr>de_name = q, de_path = ''./'' @ q,
        de_type = Some RegularFile, de_meta = Some (plain_meta (length t))\<rparr>) w) else Inl gone),
     os_read_link = (\<lambda>w p. if p = ''link'' then Inr ''nowhere'' else Inl ''Invalid argument (os error 22)''),
     os_access = (\<lambda>w p op. map_of w p \<noteq> None),
     os_current_dir = (\<lambda>w. Inr ''/''),
     os_open_write = (\<lambda>w p. if map_of w p = None then Some gone else None),
     os_write = (\<lambda>p t w. (flat_put p t w, None)),
     os_append = (\<lambda>p t w. (flat_put p ((case map_of w p of Some s \<Rightarrow> s | None \<Rightarrow> []) @ t) w, None)),
     os_copy = (\<lambda>p q w. case map_of w p of Some t \<Rightarrow> (flat_put q t w, Inr (of_nat (length t))) | None \<Rightarrow> (w, Inl gone)),
     os_rename = (\<lambda>p q w. case map_of w p of
        Some t \<Rightarrow> (flat_put q t (filter (\<lambda>(r, _). r \<noteq> p) w), None) | None \<Rightarrow> (w, Some gone)),
     os_remove_file = (\<lambda>p w. if map_of w p = None then (w, Some gone) else (filter (\<lambda>(q, _). q \<noteq> p) w, None)),
     os_remove_dir_all = (\<lambda>p w. (w, Some gone)),
     os_create_dir = (\<lambda>p w. (w, Some gone)),
     os_create_dir_all = (\<lambda>p w. (w, Some gone)),
     os_chmod = (\<lambda>p m w. (w, if map_of w p = None then Some gone else None)),
     os_chown = (\<lambda>p u g w. (w, if map_of w p = None then Some gone else None)),
     os_symlink = (\<lambda>p q w. (w, Some gone)),
     os_hard_link = (\<lambda>p q w. case map_of w p of Some t \<Rightarrow> (flat_put q t w, None) | None \<Rightarrow> (w, Some gone)),
     os_strftime = (\<lambda>f t. f)\<rparr>"

theorem rm_keeps_dangling_link_witness: "cmd_rm flat_os [''-f'', ''link''] [(''a'', ''x'')] = ([(''a'', ''x'')], out_text [])"
  by (rule rm_keeps_dangling_link) (simp_all add: flat_os_def operand_def flagged_def starts_with_def)

theorem find_prints_matches_witness:
  "\<exists>rs. cmd_find flat_os [(''a'', ''x'')] [''.'', ''-name'', ''a*''] = out_text (if rs = [] then [] else crlf_lines rs)"
  using find_prints_matches [OF refl, of flat_os "[(''a'', ''x'')]" "[''.'', ''-name'', ''a*'']"] by blast

theorem cat_status_witness: "so_status (cmd_cat flat_os [(''a'', ''x'')] [''a'', ''b''] None) = 1"
  using cat_status [of flat_os "[(''a'', ''x'')]" "[''a'', ''b'']" None]
  by (simp add: flat_os_def operand_def flagged_def starts_with_def)

theorem test_negation_witness: "so_status (cmd_test flat_os [(''a'', ''x'')] [''!'', ''-f'', ''a'']) = 1"
  using test_negation [of "[''-f'', ''a'']" flat_os "[(''a'', ''x'')]"]
  by (simp add: flat_os_def test_expr_def test_file_def plain_meta_def flagged_def starts_with_def)

end
