(* ===== verification/ShellProc.thy ===== *)
theory ShellProc
  imports ShellText SupOps LogStore Cron
begin

text \<open>
  The process and log commands of the SSH shell, \<open>crates/stormd/src/shell/proc.rs\<close> and \<open>log.rs\<close>:
  what they print of the supervisor's statuses, the cron jobs and the stored log. The result of a
  request to the supervisor is an argument.
\<close>

section \<open>Process management\<close>

definition reset :: string where "reset = esc ''0m''"

definition debug_state :: "process_state \<Rightarrow> string" where
  "debug_state s =
     (case s of Pending \<Rightarrow> ''Pending'' | Starting \<Rightarrow> ''Starting'' | Running \<Rightarrow> ''Running''
      | Stopping \<Rightarrow> ''Stopping'' | Stopped \<Rightarrow> ''Stopped'' | Failed \<Rightarrow> ''Failed''
      | Restarting \<Rightarrow> ''Restarting'' | CrashLoopBackOff \<Rightarrow> ''CrashLoopBackOff'')"

definition state_color :: "process_state \<Rightarrow> string" where
  "state_color s =
     (case s of Running \<Rightarrow> esc ''32m'' | Failed \<Rightarrow> esc ''31m'' | Stopped \<Rightarrow> esc ''33m''
      | Restarting \<Rightarrow> esc ''36m'' | CrashLoopBackOff \<Rightarrow> esc ''36m'' | _ \<Rightarrow> esc ''37m'')"

text \<open>Columns of the given widths, with a space between them; the last is not padded.\<close>

fun columns :: "(nat \<times> string) list \<Rightarrow> string \<Rightarrow> string" where
  "columns [] final = final"
| "columns ((n, s) # cs) final = pad_right n s @ '' '' @ columns cs final"

definition ps_header :: "bool \<Rightarrow> string" where
  "ps_header any_liveness =
     esc ''1m''
     @ columns ([(20, ''PROCESS''), (12, ''STATE''), (8, ''PID''), (8, ''EXIT''), (12, ''RESTARTS'')]
         @ (if any_liveness then [(10, ''LIVENESS'')] else [])) ''UPTIME''
     @ reset @ crlf"

definition opt_text :: "('a \<Rightarrow> string) \<Rightarrow> 'a option \<Rightarrow> string" where
  "opt_text f x = (case x of Some a \<Rightarrow> f a | None \<Rightarrow> ''-'')"

definition ps_liveness :: "process_status \<Rightarrow> string" where
  "ps_liveness s =
     (if st_has_liveness s
      then (if st_liveness_failures s = 0 then esc ''32m'' @ ''ok'' @ reset
            else esc ''31m'' @ ''fail:'' @ show_nat (st_liveness_failures s) @ reset)
      else ''-'')"

definition ps_line :: "bool \<Rightarrow> process_status \<Rightarrow> string" where
  "ps_line any_liveness s =
     pad_right 20 (st_name s) @ '' '' @ state_color (st_state s)
     @ pad_right 12 (to_lower (debug_state (st_state s))) @ reset @ '' ''
     @ columns ([(8, opt_text (\<lambda>p. show_nat (unat p)) (st_pid s)), (8, opt_text show_int (st_exit_code s)),
         (12, show_nat (st_restarts s))] @ (if any_liveness then [(10, ps_liveness s)] else []))
         (opt_text format_duration (st_uptime_secs s))
     @ crlf"

definition cmd_ps :: "process_status list \<Rightarrow> shell_output" where
  "cmd_ps statuses =
     (let any_liveness = (\<exists>s \<in> set statuses. st_has_liveness s)
      in out_text (ps_header any_liveness @ concat (map (ps_line any_liveness) statuses)))"

definition answer :: "string \<Rightarrow> string \<Rightarrow> string + unit \<Rightarrow> shell_output" where
  "answer verb name r =
     (case r of Inr _ \<Rightarrow> out_text (verb @ '' '' @ name @ crlf) | Inl e \<Rightarrow> out_error (''Error: '' @ e @ crlf))"

definition cmd_start :: "string \<Rightarrow> string + unit \<Rightarrow> shell_output" where
  "cmd_start = answer ''Started''"

definition cmd_stop :: "string \<Rightarrow> string + unit \<Rightarrow> shell_output" where
  "cmd_stop = answer ''Stopped''"

definition cmd_restart :: "string \<Rightarrow> string + unit \<Rightarrow> shell_output" where
  "cmd_restart = answer ''Restarted''"

definition cron_line :: "cron_status \<Rightarrow> string" where
  "cron_line j =
     columns [(20, cx_name j), (25, cx_schedule j), (8, show_nat (cx_run_count j)), (8, show_nat (cx_fail_count j))]
       (opt_text id (cx_next_run j)) @ crlf"

definition cmd_cron :: "cron_status list \<Rightarrow> shell_output" where
  "cmd_cron jobs =
     out_text (if jobs = [] then ''No cron jobs configured'' @ crlf
       else esc ''1m'' @ columns [(20, ''JOB''), (25, ''SCHEDULE''), (8, ''RUNS''), (8, ''FAILS'')] ''NEXT RUN''
         @ reset @ crlf @ concat (map cron_line jobs))"

text \<open>The restarts of all processes are added up as \<open>u32\<close>.\<close>

definition cmd_status :: "string \<Rightarrow> bool \<Rightarrow> process_status list \<Rightarrow> shell_output" where
  "cmd_status container_name failed statuses =
     (let running = length (filter (\<lambda>s. st_state s = Running) statuses);
          restarts = (\<Sum>s \<leftarrow> statuses. of_nat (st_restarts s) :: u32);
          live = length (filter st_has_liveness statuses);
          failing = length (filter (\<lambda>s. st_has_liveness s \<and> 0 < st_liveness_failures s) statuses)
      in out_text
        (''Container:  '' @ container_name @ crlf
         @ ''Status:     '' @ (if failed then esc ''31m'' @ ''FAILED'' else esc ''32m'' @ ''HEALTHY'') @ reset @ crlf
         @ ''Processes:  '' @ show_nat running @ ''/'' @ show_nat (length statuses) @ '' running'' @ crlf
         @ ''Restarts:   '' @ show_nat (unat restarts) @ crlf
         @ (if 0 < live
            then ''Liveness:   '' @ (if 0 < failing then esc ''31m'' else esc ''32m'') @ show_nat (live - failing) @ ''/''
              @ show_nat live @ '' healthy'' @ reset @ crlf
            else [])))"

definition has_probe :: "process_status \<Rightarrow> bool" where
  "has_probe s \<longleftrightarrow> st_startup_probe s \<noteq> None \<or> st_liveness_config s \<noteq> None \<or> st_readiness_probe s \<noteq> None"

definition liveness_text :: "process_status \<Rightarrow> string" where
  "liveness_text s =
     esc ''1m'' @ st_name s @ reset @ crlf
     @ (case st_startup_probe s of
          Some p \<Rightarrow> ''  Startup:   '' @ probe_describe p @ ''  ('' @ probe_timing p @ '')'' @ crlf
        | None \<Rightarrow> [])
     @ (case st_liveness_config s of
          Some p \<Rightarrow>
            ''  Liveness:  '' @ probe_describe p @ ''  ('' @ probe_timing p @ '')  ''
            @ (if st_state s \<noteq> Running then esc ''33m'' @ ''inactive'' @ reset
               else if st_liveness_failures s = 0 then esc ''32m'' @ ''healthy'' @ reset
               else esc ''31m'' @ ''failing ('' @ show_nat (st_liveness_failures s) @ ''/''
                 @ show_nat (unat (failure_threshold p)) @ '')'' @ reset)
            @ crlf
        | None \<Rightarrow> [])
     @ (case st_readiness_probe s of
          Some p \<Rightarrow>
            ''  Readiness: '' @ probe_describe p @ ''  ('' @ probe_timing p @ '')  ''
            @ (if st_ready s then esc ''32m'' @ ''ready'' @ reset else esc ''33m'' @ ''not ready'' @ reset) @ crlf
        | None \<Rightarrow> [])"

definition cmd_liveness :: "string list \<Rightarrow> process_status list \<Rightarrow> shell_output" where
  "cmd_liveness args statuses =
     (let wanted = (case args of name # _ \<Rightarrow> filter (\<lambda>s. st_name s = name) statuses | [] \<Rightarrow> statuses)
      in out_text
        (if wanted = []
         then (case args of
                 name # _ \<Rightarrow> ''liveness: process '' @ [CHR 0x27] @ name @ [CHR 0x27] @ '' not found'' @ crlf
               | [] \<Rightarrow> ''No processes configured'' @ crlf)
         else if \<not> list_ex has_probe wanted then ''No startup, liveness or readiness probes configured'' @ crlf
         else concat (map liveness_text (filter has_probe wanted))))"

definition cmd_uptime :: "string \<Rightarrow> millis \<Rightarrow> millis \<Rightarrow> shell_output" where
  "cmd_uptime container_name started_at now =
     out_text (container_name @ '' up '' @ format_duration (num_seconds (now - started_at)) @ crlf)"

section \<open>systemctl\<close>

text \<open>\<open>of_unit\<close> is \<open>get_status\<close> of a name, \<open>ask\<close> the request to start, stop or restart it.\<close>

definition unit_text :: "string \<Rightarrow> process_status \<Rightarrow> string" where
  "unit_text name s =
     esc ''1m'' @ name @ reset @ '' - '' @ name @ crlf @ ''   Loaded: loaded (stormd)'' @ crlf @ ''   Active: ''
     @ (case st_state s of Running \<Rightarrow> esc ''32m'' | Failed \<Rightarrow> esc ''31m'' | Stopped \<Rightarrow> esc ''33m'' | _ \<Rightarrow> esc ''37m'')
     @ debug_state (st_state s) @ reset @ crlf
     @ (case st_pid s of Some p \<Rightarrow> ''  Main PID: '' @ show_nat (unat p) @ crlf | None \<Rightarrow> [])
     @ (if 0 < st_restarts s then ''  Restarts: '' @ show_nat (st_restarts s) @ crlf else [])
     @ (if st_has_liveness s
        then ''  Liveness: ''
          @ (if st_liveness_failures s = 0 then esc ''32m'' @ ''healthy'' @ reset
             else esc ''31m'' @ show_nat (st_liveness_failures s) @ '' consecutive failure(s)'' @ reset) @ crlf
        else [])"

datatype unit_request = StartUnit string | StopUnit string | RestartUnit string

definition cmd_systemctl ::
    "process_status list \<Rightarrow> (string \<Rightarrow> string + process_status) \<Rightarrow> (unit_request \<Rightarrow> string + unit) \<Rightarrow> string list
     \<Rightarrow> shell_output" where
  "cmd_systemctl statuses of_unit ask args =
     (let subcmd = (case args of a # _ \<Rightarrow> a | [] \<Rightarrow> ''list-units'');
          name = (case args of _ # n # _ \<Rightarrow> Some n | _ \<Rightarrow> None);
          usage = (\<lambda>c. out_usage (''usage: systemctl '' @ c @ '' <unit>'' @ crlf))
      in if subcmd = ''status''
         then (case name of
                 None \<Rightarrow> cmd_ps statuses
               | Some n \<Rightarrow>
                   (case of_unit n of
                      Inr s \<Rightarrow> out_text (unit_text n s)
                    | Inl e \<Rightarrow> out_error (''Unit '' @ n @ '' not found: '' @ e @ crlf)))
         else if subcmd = ''start''
         then (case name of Some n \<Rightarrow> cmd_start n (ask (StartUnit n)) | None \<Rightarrow> usage subcmd)
         else if subcmd = ''stop''
         then (case name of Some n \<Rightarrow> cmd_stop n (ask (StopUnit n)) | None \<Rightarrow> usage subcmd)
         else if subcmd = ''restart''
         then (case name of Some n \<Rightarrow> cmd_restart n (ask (RestartUnit n)) | None \<Rightarrow> usage subcmd)
         else if subcmd = ''list-units'' then cmd_ps statuses
         else if subcmd = ''is-active''
         then (case name of
                 None \<Rightarrow> usage subcmd
               | Some n \<Rightarrow>
                   (case of_unit n of
                      Inr s \<Rightarrow> out_text ((if st_state s = Running then ''active'' else ''inactive'') @ crlf)
                    | Inl _ \<Rightarrow> out_error (''inactive'' @ crlf)))
         else if subcmd = ''is-failed''
         then (case name of
                 None \<Rightarrow> usage subcmd
               | Some n \<Rightarrow>
                   (case of_unit n of
                      Inr s \<Rightarrow> out_text ((if st_state s = Failed then ''failed'' else ''active'') @ crlf)
                    | Inl _ \<Rightarrow> out_error (''unknown'' @ crlf)))
         else if subcmd = ''enable'' \<or> subcmd = ''disable''
         then out_text (''systemctl enable/disable: not supported in stormd (processes are config-driven)'' @ crlf)
         else out_text (''systemctl: unknown command '' @ [CHR 0x27] @ subcmd @ [CHR 0x27] @ crlf
           @ ''Usage: systemctl {status|start|stop|restart|list-units|is-active|is-failed} [unit]'' @ crlf))"

section \<open>Logs\<close>

text \<open>\<open>stored\<close> is \<open>query_logs\<close>, \<open>strftime\<close> the formatting of a time stamp.\<close>

definition no_query :: log_query where
  "no_query = \<lparr>lq_process = None, lq_stream = None, lq_severity_min = None, lq_since = None, lq_until = None,
     lq_search = None, lq_tail = None, lq_run_id = None\<rparr>"

definition following :: "string \<Rightarrow> string option \<Rightarrow> shell_output" where
  "following text process = (out_text text)\<lparr>so_follow := True, so_follow_process := process\<rparr>"

record logs_opts =
  lo_follow :: bool
  lo_process :: "string option"
  lo_tail :: "nat option"

definition logs_arg :: "bool \<Rightarrow> logs_opts \<Rightarrow> string \<Rightarrow> logs_opts" where
  "logs_arg counted_n x arg =
     (if arg = ''-f'' then x\<lparr>lo_follow := True\<rparr>
      else if arg = ''-n'' then x
      else if parse_usize arg \<noteq> None \<and> counted_n then x\<lparr>lo_tail := parse_usize arg\<rparr>
      else if \<not> flagged arg then x\<lparr>lo_process := Some arg\<rparr> else x)"

definition severity_color :: "severity \<Rightarrow> string" where
  "severity_color v =
     (case v of Error \<Rightarrow> esc ''31m'' | Critical \<Rightarrow> esc ''31m'' | Warning \<Rightarrow> esc ''33m'' | Debug \<Rightarrow> esc ''90m''
      | _ \<Rightarrow> esc ''0m'')"

definition logs_line :: "(string \<Rightarrow> millis \<Rightarrow> string) \<Rightarrow> log_entry \<Rightarrow> string" where
  "logs_line strftime e =
     strftime ''%H:%M:%S'' (le_timestamp e) @ '' '' @ esc ''36m'' @ le_process e @ reset @ '' [''
     @ severity_color (le_severity e) @ show_stream (le_stream e) @ reset @ ''] '' @ le_line e @ crlf"

definition cmd_logs ::
    "(string \<Rightarrow> millis \<Rightarrow> string) \<Rightarrow> (log_query \<Rightarrow> log_entry list) \<Rightarrow> string list \<Rightarrow> shell_output" where
  "cmd_logs strftime stored args =
     (let x = foldl (logs_arg (''-n'' \<in> set args)) \<lparr>lo_follow = False, lo_process = None, lo_tail = Some 50\<rparr> args
      in if lo_follow x
         then following (''Following logs'' @ (case lo_process x of Some p \<Rightarrow> '' for '' @ p | None \<Rightarrow> [])
                @ ''... (Ctrl-C to stop)'' @ crlf) (lo_process x)
         else let es = stored (no_query\<lparr>lq_process := lo_process x, lq_tail := lo_tail x\<rparr>)
              in out_text (if es = [] then ''(no stored logs)'' @ crlf else concat (map (logs_line strftime) es)))"

definition cmd_grep_logs :: "(log_query \<Rightarrow> log_entry list) \<Rightarrow> string \<Rightarrow> shell_output" where
  "cmd_grep_logs stored pattern =
     (let out = concat (map (\<lambda>e. le_process e @ '' ['' @ show_stream (le_stream e) @ ''] '' @ le_line e @ crlf)
          (stored (no_query\<lparr>lq_search := Some pattern, lq_tail := Some 50\<rparr>)))
      in out_text (if out = [] then ''(no matches)'' @ crlf else out))"

definition debug_severity :: "severity \<Rightarrow> string" where
  "debug_severity v =
     (case v of Emergency \<Rightarrow> ''Emergency'' | Alert \<Rightarrow> ''Alert'' | Critical \<Rightarrow> ''Critical'' | Error \<Rightarrow> ''Error''
      | Warning \<Rightarrow> ''Warning'' | Notice \<Rightarrow> ''Notice'' | Info \<Rightarrow> ''Info'' | Debug \<Rightarrow> ''Debug'')"

definition ascii_upper :: "char \<Rightarrow> char" where
  "ascii_upper c = (let k = of_char c :: nat in if 97 \<le> k \<and> k \<le> 122 then char_of (k - 32) else c)"

definition dmesg_line :: "(string \<Rightarrow> millis \<Rightarrow> string) \<Rightarrow> log_entry \<Rightarrow> string" where
  "dmesg_line strftime e =
     ''['' @ severity_color (le_severity e) @ map ascii_upper (debug_severity (le_severity e)) @ reset @ ''] ''
     @ strftime ''%H:%M:%S%.3f'' (le_timestamp e) @ '' '' @ esc ''36m'' @ le_process e @ reset @ '' '' @ le_line e @ crlf"

definition dmesg_tail :: "nat option \<Rightarrow> string \<Rightarrow> nat option" where
  "dmesg_tail tail arg =
     (if arg \<in> {''-f'', ''--follow'', ''-n''} then tail
      else case parse_usize arg of Some n \<Rightarrow> Some n | None \<Rightarrow> tail)"

definition cmd_dmesg ::
    "(string \<Rightarrow> millis \<Rightarrow> string) \<Rightarrow> (log_query \<Rightarrow> log_entry list) \<Rightarrow> string list \<Rightarrow> shell_output" where
  "cmd_dmesg strftime stored args =
     (if ''-f'' \<in> set args \<or> ''--follow'' \<in> set args
      then following (''Following system logs... (Ctrl-C to stop)'' @ crlf) None
      else let out = concat (map (dmesg_line strftime) (stored (no_query\<lparr>lq_tail := foldl dmesg_tail (Some 50) args\<rparr>)))
           in out_text (if out = [] then ''(no log entries)'' @ crlf else out))"

section \<open>Facts\<close>

text \<open>A count after \<open>-n\<close> is the number of lines asked for, and what is printed are that many newest
  entries of the process.\<close>

lemma logs_prints_newest:
  assumes "k < 2 ^ 64" "\<not> flagged p" "parse_usize p = None"
    and "es = log_query_run io d (no_query\<lparr>lq_process := Some p, lq_tail := Some k\<rparr>)" "es \<noteq> []"
  shows "cmd_logs strftime (log_query_run io d) [''-n'', show_nat k, p]
    = out_text (concat (map (logs_line strftime) es)) \<and> length es \<le> k"
proof -
  have num: "parse_usize (show_nat k) = Some k"
    using assms(1) unfolding parse_usize_def by (rule parse_unsigned_show)
  have plain: "show_nat k \<noteq> ''-f''" "show_nat k \<noteq> ''-n''" "p \<noteq> ''-f''" "p \<noteq> ''-n''"
    using show_nat_no_char [of "CHR ''-''" k] assms(2) by (auto simp: flagged_def starts_with_def)
  have "length es \<le> k"
    by (simp add: assms(4) log_query_run_def no_query_def Let_def)
  with num plain assms(2,3,5) show ?thesis
    by (simp add: cmd_logs_def logs_arg_def no_query_def Let_def flip: assms(4)) (simp add: assms(4) no_query_def)
qed

end
