(* ===== verification/Stats.thy ===== *)
theory Stats
  imports Complex_Main RustStr
begin

text \<open>
  \<open>crates/stormd/src/stats.rs\<close>: what \<open>/proc\<close> says of memory, processor time and mounts. \<open>rd\<close> is
  reading a file of \<open>/proc\<close>, \<open>fds\<close> the number of names in a directory, \<open>vfs\<close> the call
  \<open>statvfs\<close> (fragment size, blocks, blocks available, blocks free). Shares and seconds are exact here,
  where the code rounds to \<open>f64\<close>.
\<close>

section \<open>Numbers in /proc\<close>

definition parse_u64 :: "string \<Rightarrow> u64 option" where
  "parse_u64 s = map_option of_nat (parse_unsigned (2 ^ 64) s)"

definition parse_kb :: "string \<Rightarrow> u64" where
  "parse_kb s = (case parse_u64 (trim (trim_end_matches ''kB'' (trim s))) of Some n \<Rightarrow> n | None \<Rightarrow> 0)"

record memory_info =
  mem_rss :: u64
  mem_vms :: u64

definition status_line :: "u64 \<times> u64 \<Rightarrow> string \<Rightarrow> u64 \<times> u64" where
  "status_line = (\<lambda>(rss, vm) line.
     (case strip_prefix ''VmRSS:'' line of
        Some v \<Rightarrow> (parse_kb v * 1024, vm)
      | None \<Rightarrow> (case strip_prefix ''VmSize:'' line of Some v \<Rightarrow> (rss, parse_kb v * 1024) | None \<Rightarrow> (rss, vm))))"

definition parse_status_memory :: "string \<Rightarrow> u64 \<times> u64" where
  "parse_status_memory status = foldl status_line (0, 0) (lines status)"

text \<open>The same of stormd itself, which multiplies at the end.\<close>

definition own_line :: "u64 \<times> u64 \<Rightarrow> string \<Rightarrow> u64 \<times> u64" where
  "own_line = (\<lambda>(rss, vms) line.
     (case strip_prefix ''VmRSS:'' line of
        Some v \<Rightarrow> (parse_kb v, vms)
      | None \<Rightarrow> (case strip_prefix ''VmSize:'' line of Some v \<Rightarrow> (rss, parse_kb v) | None \<Rightarrow> (rss, vms))))"

definition read_memory_info :: "(string \<Rightarrow> string option) \<Rightarrow> memory_info option" where
  "read_memory_info rd =
     (case rd ''/proc/self/status'' of
        None \<Rightarrow> None
      | Some content \<Rightarrow>
          (case foldl own_line (0, 0) (lines content) of
             (rss, vms) \<Rightarrow> Some \<lparr>mem_rss = rss * 1024, mem_vms = vms * 1024\<rparr>))"

definition parse_stat_cpu_ticks :: "string \<Rightarrow> u64 option" where
  "parse_stat_cpu_ticks stat =
     (case rsplit_once_char (CHR '')'') stat of
        None \<Rightarrow> None
      | Some (_, after) \<Rightarrow>
          (let f = split_whitespace after
           in if length f \<le> 12 then None
              else case (parse_u64 (f ! 11), parse_u64 (f ! 12)) of
                     (Some u, Some s) \<Rightarrow> Some (u + s)
                   | _ \<Rightarrow> None))"

definition clock_ticks :: "int \<Rightarrow> u64" where
  "clock_ticks sysconf = (if 0 < sysconf then of_int sysconf else 100)"

record proc_usage =
  pu_rss_bytes :: u64
  pu_vm_bytes :: u64
  pu_cpu_seconds :: rat
  pu_open_fds :: u64

definition proc_usage_of ::
    "(string \<Rightarrow> string option) \<Rightarrow> (string \<Rightarrow> nat option) \<Rightarrow> int \<Rightarrow> u32 \<Rightarrow> proc_usage option" where
  "proc_usage_of rd fds sysconf pid =
     (let dir = ''/proc/'' @ show_nat (unat pid)
      in case rd (path_join dir ''status'') of
           None \<Rightarrow> None
         | Some st \<Rightarrow>
             (case rd (path_join dir ''stat'') of
                None \<Rightarrow> None
              | Some stat \<Rightarrow>
                  (case parse_stat_cpu_ticks stat of
                     None \<Rightarrow> None
                   | Some ticks \<Rightarrow>
                       (case fds (path_join dir ''fd'') of
                          None \<Rightarrow> None
                        | Some n \<Rightarrow>
                            (case parse_status_memory st of
                               (rss, vm) \<Rightarrow>
                                 Some \<lparr>pu_rss_bytes = rss, pu_vm_bytes = vm,
                                   pu_cpu_seconds = of_nat (unat ticks) / of_nat (unat (clock_ticks sysconf)),
                                   pu_open_fds = of_nat n\<rparr>)))))"

section \<open>Memory over time\<close>

definition memory_history_max :: nat where "memory_history_max = 360"

record memory_sample =
  ms_timestamp :: millis
  ms_rss :: u64
  ms_vms :: u64

definition remember_sample :: "memory_sample \<Rightarrow> memory_sample list \<Rightarrow> memory_sample list" where
  "remember_sample s history =
     (if memory_history_max \<le> length history then tl history else history) @ [s]"

text \<open>One turn of the sampling loop; a turn that cannot read the memory keeps nothing.\<close>

definition sample_turn :: "millis \<Rightarrow> memory_info option \<Rightarrow> memory_sample list \<Rightarrow> memory_sample list" where
  "sample_turn now mem history =
     (case mem of
        None \<Rightarrow> history
      | Some m \<Rightarrow> remember_sample \<lparr>ms_timestamp = now, ms_rss = mem_rss m, ms_vms = mem_vms m\<rparr> history)"

section \<open>Mounts\<close>

record mount_info =
  mi_device :: string
  mi_mount_point :: string
  mi_fs_type :: string
  mi_total :: u64
  mi_used :: u64
  mi_avail :: u64
  mi_use_percent :: rat

record vfs_stat =
  vf_frsize :: u64
  vf_blocks :: u64
  vf_bavail :: u64
  vf_bfree :: u64

definition statvfs_info :: "(string \<Rightarrow> vfs_stat option) \<Rightarrow> string \<Rightarrow> string \<Rightarrow> string \<Rightarrow> mount_info option" where
  "statvfs_info vfs mount_point device fs_type =
     (case vfs mount_point of
        None \<Rightarrow> None
      | Some s \<Rightarrow>
          (let total = vf_blocks s * vf_frsize s; avail = vf_bavail s * vf_frsize s;
               free = vf_bfree s * vf_frsize s;
               used = (if free \<le> total then total - free else 0)
           in if total = 0 then None
              else Some \<lparr>mi_device = device, mi_mount_point = mount_point, mi_fs_type = fs_type, mi_total = total,
                mi_used = used, mi_avail = avail,
                mi_use_percent = of_int (round (of_nat (unat used) / of_nat (unat total) * 100 * 10 :: rat)) / 10\<rparr>))"

definition interesting_fs :: "string list \<Rightarrow> bool" where
  "interesting_fs parts \<longleftrightarrow> starts_with (parts ! 0) ''/dev/''
     \<or> parts ! 2 \<in> {''ext4'', ''xfs'', ''btrfs'', ''zfs'', ''nfs'', ''nfs4'', ''cifs'', ''fuse'', ''overlay''}"

definition internal_mount :: "string \<Rightarrow> bool" where
  "internal_mount p \<longleftrightarrow> (\<exists>q \<in> set [''/dev/termination-log'', ''/etc/hosts'', ''/etc/hostname'', ''/etc/resolv.conf'',
     ''/proc/'', ''/sys/'']. starts_with p q)"

definition mount_line :: "(string \<Rightarrow> vfs_stat option) \<Rightarrow> mount_info list \<Rightarrow> string \<Rightarrow> mount_info list" where
  "mount_line vfs mounts line =
     (let parts = split_whitespace line
      in if length parts < 3 then mounts
         else if \<not> interesting_fs parts then mounts
         else if internal_mount (parts ! 1) then mounts
         else if (\<exists>m \<in> set mounts. mi_mount_point m = parts ! 1) then mounts
         else case statvfs_info vfs (parts ! 1) (parts ! 0) (parts ! 2) of
                Some info \<Rightarrow> mounts @ [info]
              | None \<Rightarrow> mounts)"

definition read_mount_info :: "(string \<Rightarrow> string option) \<Rightarrow> (string \<Rightarrow> vfs_stat option) \<Rightarrow> mount_info list" where
  "read_mount_info rd vfs =
     (case rd ''/proc/mounts'' of None \<Rightarrow> [] | Some content \<Rightarrow> foldl (mount_line vfs) [] (lines content))"

section \<open>The collector\<close>

record process_stats =
  ps_process_count :: nat
  ps_running_count :: nat
  ps_failed_count :: nat
  ps_total_restarts :: u32

record collector =
  sc_container_name :: string
  sc_started_at :: millis
  sc_process_stats :: process_stats
  sc_memory_history :: "memory_sample list"

definition collector_new :: "string \<Rightarrow> millis \<Rightarrow> collector" where
  "collector_new name now = \<lparr>sc_container_name = name, sc_started_at = now,
     sc_process_stats = \<lparr>ps_process_count = 0, ps_running_count = 0, ps_failed_count = 0, ps_total_restarts = 0\<rparr>,
     sc_memory_history = []\<rparr>"

definition update_process_stats :: "nat \<Rightarrow> nat \<Rightarrow> nat \<Rightarrow> u32 \<Rightarrow> collector \<Rightarrow> collector" where
  "update_process_stats processes running failed restarts c =
     c\<lparr>sc_process_stats := \<lparr>ps_process_count = processes, ps_running_count = running, ps_failed_count = failed,
        ps_total_restarts = restarts\<rparr>\<rparr>"

record system_stats =
  ss_container_name :: string
  ss_started_at :: millis
  ss_uptime_secs :: int
  ss_pid :: u32
  ss_process_count :: nat
  ss_running_count :: nat
  ss_failed_count :: nat
  ss_total_restarts :: u32
  ss_memory :: "memory_info option"

definition get_stats :: "u32 \<Rightarrow> millis \<Rightarrow> (string \<Rightarrow> string option) \<Rightarrow> collector \<Rightarrow> system_stats" where
  "get_stats pid now rd c =
     (let ps = sc_process_stats c
      in \<lparr>ss_container_name = sc_container_name c, ss_started_at = sc_started_at c,
        ss_uptime_secs = num_seconds (now - sc_started_at c), ss_pid = pid,
        ss_process_count = ps_process_count ps, ss_running_count = ps_running_count ps,
        ss_failed_count = ps_failed_count ps, ss_total_restarts = ps_total_restarts ps,
        ss_memory = read_memory_info rd\<rparr>)"

section \<open>Facts\<close>

lemma remember_last: "remember_sample s (last_n memory_history_max ss) = last_n memory_history_max (ss @ [s])"
proof (cases "memory_history_max \<le> length ss")
  case True
  then have "Suc (length ss) - memory_history_max = Suc (length ss - memory_history_max)" by simp
  moreover have "length (drop (length ss - memory_history_max) ss) = memory_history_max" using True by simp
  moreover have "tl (drop (length ss - memory_history_max) ss) = drop (Suc (length ss - memory_history_max)) ss"
    by (simp add: drop_Suc tl_drop)
  moreover have "Suc (length ss - memory_history_max) \<le> length ss" using True by (simp add: memory_history_max_def)
  ultimately show ?thesis by (simp add: remember_sample_def last_n_def)
qed (simp add: remember_sample_def last_n_def)

text \<open>The history is the newest 360 samples, half an hour of them.\<close>

lemma samples_kept: "foldl (\<lambda>h s. remember_sample s h) [] ss = last_n memory_history_max ss"
  by (induction ss rule: rev_induct) (simp_all add: remember_last)

lemma mount_line_cases:
  "mount_line vfs ms line = ms \<or>
     (\<exists>m. mount_line vfs ms line = ms @ [m] \<and> mi_total m \<noteq> 0 \<and> mi_mount_point m \<notin> mi_mount_point ` set ms)"
  by (cases "vfs (split_whitespace line ! 1)")
    (auto simp: mount_line_def statvfs_info_def Let_def image_iff simp del: split_paired_Ex)

definition mounts_ok :: "mount_info list \<Rightarrow> bool" where
  "mounts_ok ms \<longleftrightarrow> distinct (map mi_mount_point ms) \<and> list_all (\<lambda>m. mi_total m \<noteq> 0) ms"

lemma mount_line_ok: "mounts_ok ms \<Longrightarrow> mounts_ok (mount_line vfs ms line)"
  using mount_line_cases [of vfs ms line] by (auto simp: mounts_ok_def)

lemma mount_lines_ok: "mounts_ok ms \<Longrightarrow> mounts_ok (foldl (mount_line vfs) ms ls)"
  by (induction ls arbitrary: ms) (simp_all add: mount_line_ok)

text \<open>However often a mount point is mounted over, it is listed once, and every mount listed holds
  something: its size is not zero.\<close>

theorem mounts_listed_once:
  "distinct (map mi_mount_point (read_mount_info rd vfs)) \<and> list_all (\<lambda>m. mi_total m \<noteq> 0) (read_mount_info rd vfs)"
  using mount_lines_ok [of "[]" vfs]
  by (simp add: mounts_ok_def read_mount_info_def split: option.split)

end
