(* ===== verification/ShellSys.thy ===== *)
theory ShellSys
  imports ShellProc Stats "HOL-Library.AList"
begin

text \<open>
  The system applets, \<open>crates/stormd/src/shell/sys.rs\<close>, on Linux. \<open>rd\<close> reads a file, the environment is
  the list of stormd's variables, which \<open>export\<close> and \<open>unset\<close> change for the whole process. A panic
  of \<open>std::env\<close>, which refuses a name that is empty or holds an equals sign, is \<open>None\<close>. Numbers of
  type \<open>f64\<close> are exact.
\<close>

section \<open>Mounts and memory\<close>

definition cmd_mount :: "mount_info list \<Rightarrow> shell_output" where
  "cmd_mount mounts =
     out_text (if mounts = [] then ''(no mount info available)'' @ crlf
       else concat (map (\<lambda>m. mi_device m @ '' on '' @ mi_mount_point m @ '' type '' @ mi_fs_type m @ '' (rw)'' @ crlf) mounts))"

definition round_rat :: "rat \<Rightarrow> int" where
  "round_rat x =
     (let f = \<lfloor>x\<rfloor>; d = x - of_int f in if 2 * d < 1 \<or> 2 * d = 1 \<and> even f then f else f + 1)"

definition df_line :: "bool \<Rightarrow> mount_info \<Rightarrow> string" where
  "df_line human m =
     (let col = (\<lambda>b. pad_left 8 (if human then format_size_human b else show_nat (unat b div 1024)))
      in pad_right 24 (mi_device m) @ '' '' @ col (mi_total m) @ '' '' @ col (mi_used m) @ '' '' @ col (mi_avail m)
         @ '' '' @ pad_left 5 (show_int (round_rat (mi_use_percent m))) @ ''% '' @ mi_mount_point m @ crlf)"

definition df_plain_line :: "string \<Rightarrow> string" where
  "df_plain_line line =
     (let parts = split_whitespace line
      in if 3 \<le> length parts \<and> starts_with (parts ! 0) ''/dev/''
         then columns [(24, parts ! 0), (8, ''-''), (8, ''-''), (8, ''-''), (6, ''-'')] (parts ! 1) @ crlf
         else [])"

definition cmd_df :: "(string \<Rightarrow> string option) \<Rightarrow> mount_info list \<Rightarrow> string list \<Rightarrow> shell_output" where
  "cmd_df rd mounts args =
     (if mounts = []
      then (case rd ''/proc/mounts'' of
              Some content \<Rightarrow>
                out_text (columns [(24, ''Filesystem''), (8, ''Size''), (8, ''Used''), (8, ''Avail''), (6, ''Use%'')]
                    ''Mounted on'' @ crlf @ concat (map df_plain_line (lines content)))
            | None \<Rightarrow> out_error (''df: no mount info available'' @ crlf))
      else out_text (pad_right 24 ''Filesystem'' @ '' '' @ pad_left 8 ''Size'' @ '' '' @ pad_left 8 ''Used'' @ '' ''
             @ pad_left 8 ''Avail'' @ '' '' @ pad_left 6 ''Use%'' @ '' '' @ ''Mounted on'' @ crlf
             @ concat (map (df_line (''-h'' \<in> set args)) mounts)))"

record mem_table =
  mt_total :: u64
  mt_free :: u64
  mt_available :: u64
  mt_buffers :: u64
  mt_cached :: u64

definition meminfo_line :: "mem_table \<Rightarrow> string \<Rightarrow> mem_table" where
  "meminfo_line t line =
     (case strip_prefix ''MemTotal:'' line of
        Some v \<Rightarrow> t\<lparr>mt_total := parse_kb v\<rparr>
      | None \<Rightarrow> (case strip_prefix ''MemFree:'' line of
          Some v \<Rightarrow> t\<lparr>mt_free := parse_kb v\<rparr>
        | None \<Rightarrow> (case strip_prefix ''MemAvailable:'' line of
            Some v \<Rightarrow> t\<lparr>mt_available := parse_kb v\<rparr>
          | None \<Rightarrow> (case strip_prefix ''Buffers:'' line of
              Some v \<Rightarrow> t\<lparr>mt_buffers := parse_kb v\<rparr>
            | None \<Rightarrow> (case strip_prefix ''Cached:'' line of
                Some v \<Rightarrow> t\<lparr>mt_cached := parse_kb v\<rparr>
              | None \<Rightarrow> t)))))"

definition cmd_free :: "(string \<Rightarrow> string option) \<Rightarrow> string list \<Rightarrow> shell_output" where
  "cmd_free rd args =
     (case rd ''/proc/meminfo'' of
        None \<Rightarrow> out_error (''free: memory info not available'' @ crlf)
      | Some content \<Rightarrow>
          (let t = foldl meminfo_line \<lparr>mt_total = 0, mt_free = 0, mt_available = 0, mt_buffers = 0, mt_cached = 0\<rparr>
                (lines content);
               used = (if mt_free t \<le> mt_total t then mt_total t - mt_free t else 0);
               buff_cache = mt_buffers t + mt_cached t;
               big = (\<lambda>n. pad_left 10 (format_size_human (n * 1024)));
               raw = (\<lambda>n. pad_left 10 (show_nat (unat n)) @ ''K'')
           in out_text
             (if ''-h'' \<in> set args \<or> ''-m'' \<in> set args
              then ''              total        used        free      shared  buff/cache   available'' @ crlf
                @ ''Mem:    '' @ big (mt_total t) @ '' '' @ big used @ '' '' @ big (mt_free t) @ '' '' @ pad_left 10 ''0''
                @ '' '' @ big buff_cache @ '' '' @ big (mt_available t) @ crlf
              else ''              total        used        free   available'' @ crlf
                @ ''Mem:    '' @ raw (mt_total t) @ '' '' @ raw used @ '' '' @ raw (mt_free t) @ '' ''
                @ raw (mt_available t) @ crlf)))"

section \<open>The system and its users\<close>

definition kernel_release :: "(string \<Rightarrow> string option) \<Rightarrow> string option" where
  "kernel_release rd =
     (case rd ''/proc/version'' of
        None \<Rightarrow> None
      | Some v \<Rightarrow> (let ws = split_whitespace v in if 2 < length ws then Some (ws ! 2) else None))"

definition cmd_uname :: "(string \<Rightarrow> string option) \<Rightarrow> string \<Rightarrow> string option \<Rightarrow> string list \<Rightarrow> shell_output" where
  "cmd_uname rd machine hostname args =
     (let release = (case kernel_release rd of Some r \<Rightarrow> r | None \<Rightarrow> ''unknown'');
          host = (case hostname of Some h \<Rightarrow> h | None \<Rightarrow> ''stormd'')
      in out_text
        (if ''-a'' \<in> set args
         then ''Linux '' @ host @ '' '' @ release @ '' '' @ machine @ '' stormd'' @ crlf
         else if ''-m'' \<in> set args then machine @ crlf
         else if ''-r'' \<in> set args then release @ crlf
         else ''Linux'' @ crlf))"

definition cmd_date :: "string \<Rightarrow> shell_output" where
  "cmd_date formatted = out_text (formatted @ crlf)"

definition cmd_id :: "u32 \<Rightarrow> u32 \<Rightarrow> shell_output" where
  "cmd_id uid gid =
     out_text (''uid='' @ show_nat (unat uid) @ ''('' @ (if uid = 0 then ''root'' else ''user'') @ '') gid=''
       @ show_nat (unat gid) @ ''('' @ (if gid = 0 then ''root'' else ''group'') @ '')'' @ crlf)"

definition cmd_whoami :: shell_output where
  "cmd_whoami = out_text (''root'' @ crlf)"

datatype kill_signal = KillHup | KillInt | KillKill | KillTerm | KillUsr1 | KillUsr2

definition kill_signal_of :: "string \<Rightarrow> kill_signal option" where
  "kill_signal_of name =
     (let n = map ascii_upper name
      in if n \<in> {''1'', ''HUP''} then Some KillHup
         else if n \<in> {''2'', ''INT''} then Some KillInt
         else if n \<in> {''9'', ''KILL''} then Some KillKill
         else if n \<in> {''15'', ''TERM''} then Some KillTerm
         else if n \<in> {''USR1'', ''10''} then Some KillUsr1
         else if n \<in> {''USR2'', ''12''} then Some KillUsr2
         else None)"

text \<open>\<open>send\<close> is \<open>kill(2)\<close>: how its error prints, if it fails.\<close>

definition kill_pid :: "(i32 \<Rightarrow> kill_signal \<Rightarrow> string option) \<Rightarrow> kill_signal \<Rightarrow> string \<Rightarrow> shell_output" where
  "kill_pid send sig pid_str =
     (case parse_i32 pid_str of
        None \<Rightarrow> out_usage (''kill: invalid pid '' @ [CHR 0x27] @ pid_str @ [CHR 0x27] @ crlf)
      | Some pid \<Rightarrow>
          (case send pid sig of None \<Rightarrow> out_text [] | Some e \<Rightarrow> out_error (''kill: '' @ e @ crlf)))"

definition cmd_kill :: "(i32 \<Rightarrow> kill_signal \<Rightarrow> string option) \<Rightarrow> string list \<Rightarrow> shell_output" where
  "cmd_kill send args =
     (let usage = out_usage (''usage: kill [-signal] <pid>'' @ crlf)
      in case args of
           [] \<Rightarrow> usage
         | a # rest \<Rightarrow>
             if flagged a
             then (case kill_signal_of (drop 1 a) of
                     None \<Rightarrow> out_text (''kill: unknown signal '' @ [CHR 0x27] @ drop 1 a @ [CHR 0x27] @ crlf)
                   | Some sig \<Rightarrow> (case rest of [] \<Rightarrow> usage | pid # _ \<Rightarrow> kill_pid send sig pid))
             else kill_pid send KillTerm a)"

section \<open>The environment\<close>

type_synonym env = "(string \<times> string) list"

definition set_var :: "string \<Rightarrow> string \<Rightarrow> env \<Rightarrow> env option" where
  "set_var k v e = (if k = [] \<or> CHR ''='' \<in> set k then None else Some (AList.update k v e))"

definition remove_var :: "string \<Rightarrow> env \<Rightarrow> env option" where
  "remove_var k e = (if k = [] \<or> CHR ''='' \<in> set k then None else Some (AList.delete k e))"

definition cmd_env :: "env \<Rightarrow> shell_output" where
  "cmd_env e = out_text (concat (map (\<lambda>(k, v). k @ ''='' @ v @ crlf) e))"

definition cmd_printenv :: "env \<Rightarrow> string list \<Rightarrow> shell_output" where
  "cmd_printenv e args =
     (case args of
        [] \<Rightarrow> cmd_env e
      | v # _ \<Rightarrow> (case map_of e v of Some x \<Rightarrow> out_text (x @ crlf) | None \<Rightarrow> out_error []))"

definition unquote :: "string \<Rightarrow> string" where
  "unquote s =
     (let both = (\<lambda>c s. rev (dropWhile (\<lambda>x. x = c) (rev (dropWhile (\<lambda>x. x = c) s))))
      in both (CHR 0x27) (both (CHR 0x22) s))"

definition cmd_export :: "string list \<Rightarrow> env \<Rightarrow> (env \<times> shell_output) option" where
  "cmd_export args e =
     (if args = [] then Some (e, out_usage (''usage: export VAR=value'' @ crlf))
      else case split_once ''='' (join '' '' args) of
             None \<Rightarrow> Some (e, out_usage (''usage: export VAR=value'' @ crlf))
           | Some (k, v) \<Rightarrow> map_option (\<lambda>e'. (e', out_text [])) (set_var (trim k) (unquote (trim v)) e))"

definition cmd_unset :: "string list \<Rightarrow> env \<Rightarrow> (env \<times> shell_output) option" where
  "cmd_unset args e =
     (case args of
        [] \<Rightarrow> Some (e, out_usage (''usage: unset VAR'' @ crlf))
      | k # _ \<Rightarrow> map_option (\<lambda>e'. (e', out_text [])) (remove_var k e))"

section \<open>sleep, echo, which, type and lsof\<close>

text \<open>For how many milliseconds \<open>sleep\<close> waits; \<open>num\<close> reads a number, the cast to \<open>u64\<close> cuts off.\<close>

definition sleep_ms :: "(string \<Rightarrow> rat option) \<Rightarrow> string \<Rightarrow> nat" where
  "sleep_ms num arg = min (nat \<lfloor>(case num arg of Some x \<Rightarrow> x | None \<Rightarrow> 1) * 1000\<rfloor>) 60000"

definition cmd_sleep :: "(string \<Rightarrow> rat option) \<Rightarrow> string list \<Rightarrow> nat \<times> shell_output" where
  "cmd_sleep num args =
     (case args of [] \<Rightarrow> (0, out_usage (''usage: sleep <seconds>'' @ crlf)) | a # _ \<Rightarrow> (sleep_ms num a, out_text []))"

fun echo_flags :: "bool \<times> bool \<Rightarrow> string list \<Rightarrow> (bool \<times> bool) \<times> string list" where
  "echo_flags (escapes, no_newline) [] = ((escapes, no_newline), [])"
| "echo_flags (escapes, no_newline) (a # rest) =
     (if a = ''-e'' then echo_flags (True, no_newline) rest
      else if a = ''-n'' then echo_flags (escapes, True) rest
      else ((escapes, no_newline), a # rest))"

definition backslash :: char where "backslash = CHR 0x5C"

definition unescape :: "string \<Rightarrow> string" where
  "unescape s =
     replace_all [backslash, backslash] [backslash]
       (replace_all [backslash, CHR ''t''] [tab] (replace_all [backslash, CHR ''n''] crlf s))"

definition cmd_echo :: "string list \<Rightarrow> shell_output" where
  "cmd_echo args =
     (case echo_flags (False, False) args of
        ((escapes, no_newline), rest) \<Rightarrow>
          (let text = join '' '' rest
           in out_text ((if escapes then unescape text else text) @ (if no_newline then [] else crlf))))"

definition cmd_which :: "string list \<Rightarrow> shell_output" where
  "cmd_which args =
     (case args of
        [] \<Rightarrow> out_usage (''usage: which <command>'' @ crlf)
      | cmd # _ \<Rightarrow>
          if is_builtin cmd then out_text (cmd @ '': shell built-in command'' @ crlf)
          else out_error (cmd @ '': not found'' @ crlf))"

definition cmd_type :: "string list \<Rightarrow> shell_output" where
  "cmd_type args =
     (case args of
        [] \<Rightarrow> out_usage (''usage: type <command>'' @ crlf)
      | cmd # _ \<Rightarrow>
          if is_builtin cmd then out_text (cmd @ '' is a shell builtin'' @ crlf)
          else out_error (''-bash: type: '' @ cmd @ '': not found'' @ crlf))"

definition fd_type :: "string \<Rightarrow> string" where
  "fd_type target =
     (if starts_with target ''socket:'' then ''socket''
      else if starts_with target ''pipe:'' then ''pipe''
      else if starts_with target ''anon_inode:'' then ''anon_inode''
      else if starts_with target ''/dev/'' then ''device''
      else ''file'')"

definition fd_key :: "string \<times> string \<Rightarrow> nat" where
  "fd_key = (\<lambda>(fd, _). case parse_unsigned (2 ^ 32) fd of Some n \<Rightarrow> n | None \<Rightarrow> 2 ^ 32 - 1)"

text \<open>\<open>fds\<close> are the names in \<open>/proc/self/fd\<close> with their targets, \<open>?\<close> where they cannot be read.\<close>

definition cmd_lsof :: "(string \<times> string) list option \<Rightarrow> shell_output" where
  "cmd_lsof fds =
     out_text (esc ''1m'' @ columns [(6, ''FD''), (40, ''Target'')] ''Type'' @ reset @ crlf
       @ (case fds of
            None \<Rightarrow> []
          | Some xs \<Rightarrow>
              concat (map (\<lambda>(fd, target). columns [(6, fd), (40, target)] (fd_type target) @ crlf) (sort_key fd_key xs))))"

section \<open>Facts\<close>

text \<open>What is exported is what is read back, quotes and outer white space taken off, and nothing else in
  the environment changes.\<close>

theorem export_then_printenv:
  assumes "k \<noteq> []" "CHR ''='' \<notin> set k" "trim k = k" "cmd_export [k @ ''='' @ v] e = Some (e', out)"
  shows "cmd_printenv e' [k] = out_text (unquote (trim v) @ crlf) \<and> (\<forall>j. j \<noteq> k \<longrightarrow> map_of e' j = map_of e j)"
proof -
  have "split_once ''='' (k @ ''='' @ v) = Some (k, v)"
    using assms(2) by simp
  with assms have "e' = AList.update k (unquote (trim v)) e"
    by (auto simp: cmd_export_def set_var_def)
  then show ?thesis by (simp add: cmd_printenv_def update_conv)
qed

text \<open>An \<open>export\<close> with nothing before its equals sign, or an \<open>unset\<close> of a name with one in it, is handed
  to \<open>std::env\<close> as it is, which panics.\<close>

theorem environment_commands_panic:
  "cmd_export [CHR ''='' # v] e = None \<and> cmd_unset [k @ ''='' @ v] e = None"
  by (simp add: cmd_export_def set_var_def cmd_unset_def remove_var_def trim_def trim_start_def trim_end_def)

text \<open>\<open>kill\<close> with a signal it does not know sends nothing and still reports success.\<close>

lemma kill_unknown_succeeds:
  "kill_signal_of s = None \<Longrightarrow> so_status (cmd_kill send [CHR ''-'' # s, pid]) = 0"
  by (simp add: cmd_kill_def flagged_def starts_with_def)

theorem export_then_printenv_witness:
  "cmd_printenv [(''A'', ''x y'')] [''A''] = out_text (''x y'' @ crlf)"
proof -
  have "cmd_export [''A'' @ ''='' @ ''\"x y\"''] [] = Some ([(''A'', ''x y'')], out_text [])"
    by (simp add: cmd_export_def set_var_def unquote_def trim_def trim_start_def trim_end_def is_ws_def)
  from export_then_printenv [OF _ _ _ this] show ?thesis
    by (simp add: unquote_def trim_def trim_start_def trim_end_def is_ws_def)
qed

end
