(* ===== verification/Http.thy ===== *)
theory Http
  imports RustStr
begin

text \<open>
  JSON values as \<open>serde_json\<close> holds them, and what a \<open>reqwest\<close> client is asked and answers. The
  network itself is a parameter: a client takes a request and the state of the world and gives the
  new state with an answer, or how its error prints.
\<close>

datatype http_method = GET | HEAD | POST | PUT | DELETE

datatype json =
    JNull
  | JBool bool
  | JNum int
  | JStr string
  | JArr "json list"
  | JObj "(string \<times> json) list"

text \<open>Indexing a value with a key gives \<open>null\<close> where there is none.\<close>

fun json_get :: "json \<Rightarrow> string \<Rightarrow> json" where
  "json_get (JObj kvs) k = (case map_of kvs k of Some v \<Rightarrow> v | None \<Rightarrow> JNull)"
| "json_get _ k = JNull"

fun as_str :: "json \<Rightarrow> string option" where
  "as_str (JStr s) = Some s"
| "as_str _ = None"

fun as_array :: "json \<Rightarrow> json list" where
  "as_array (JArr vs) = vs"
| "as_array _ = []"

record http_request =
  rq_method :: http_method
  rq_url :: string
  rq_query :: "(string \<times> string) list"
  rq_headers :: "(string \<times> string) list"
  rq_json :: "json option"

text \<open>
  The status, how it prints with its reason, the body read as text and as JSON, and the headers that
  are text.
\<close>

record http_answer =
  an_status :: nat
  an_shown :: string
  an_text :: "string + string"
  an_json :: "string + json"
  an_headers :: "(string \<times> string) list"

type_synonym 'w http_client = "http_request \<Rightarrow> 'w \<Rightarrow> 'w \<times> (string + http_answer)"

definition ask :: "http_method \<Rightarrow> string \<Rightarrow> http_request" where
  "ask m url = \<lparr>rq_method = m, rq_url = url, rq_query = [], rq_headers = [], rq_json = None\<rparr>"

definition with_header :: "string \<Rightarrow> string \<Rightarrow> http_request \<Rightarrow> http_request" where
  "with_header k v r = r\<lparr>rq_headers := rq_headers r @ [(k, v)]\<rparr>"

definition bearer_auth :: "string \<Rightarrow> http_request \<Rightarrow> http_request" where
  "bearer_auth t r = with_header ''authorization'' (''Bearer '' @ t) r"

definition is_success :: "http_answer \<Rightarrow> bool" where
  "is_success a \<longleftrightarrow> 200 \<le> an_status a \<and> an_status a < 300"

definition text_or_empty :: "http_answer \<Rightarrow> string" where
  "text_or_empty a = (case an_text a of Inr t \<Rightarrow> t | Inl _ \<Rightarrow> [])"

lemma with_header_simps [simp]:
  "rq_method (with_header k v r) = rq_method r" "rq_url (with_header k v r) = rq_url r"
  "rq_query (with_header k v r) = rq_query r" "rq_json (with_header k v r) = rq_json r"
  "rq_headers (with_header k v r) = rq_headers r @ [(k, v)]"
  by (simp_all add: with_header_def)

end
