(* ===== verification/ShellNet.thy ===== *)
theory ShellNet
  imports ShellTree ShellSys Http
begin

text \<open>
  The network applets, \<open>crates/stormd/src/shell/net.rs\<close>, on a little-endian Linux. What the system
  says is the argument: \<open>rd\<close> reads a file, \<open>ioctl\<close> gives an interface's address and netmask, \<open>lookup\<close>
  resolves a name to addresses as they print, \<open>http\<close> is the client.
\<close>

section \<open>Hexadecimal\<close>

definition hex_val :: "char \<Rightarrow> nat option" where
  "hex_val c =
     (let k = of_char c :: nat
      in if 48 \<le> k \<and> k \<le> 57 then Some (k - 48)
         else if 65 \<le> k \<and> k \<le> 70 then Some (k - 55)
         else if 97 \<le> k \<and> k \<le> 102 then Some (k - 87) else None)"

fun hex_digits :: "nat \<Rightarrow> string \<Rightarrow> nat option" where
  "hex_digits acc [] = Some acc"
| "hex_digits acc (c # cs) = (case hex_val c of None \<Rightarrow> None | Some d \<Rightarrow> hex_digits (16 * acc + d) cs)"

text \<open>\<open>from_str_radix(_, 16)\<close> of an unsigned type below \<open>bound\<close>.\<close>

definition parse_hex :: "nat \<Rightarrow> string \<Rightarrow> nat option" where
  "parse_hex bound s =
     (let ds = (case s of CHR ''+'' # cs \<Rightarrow> cs | _ \<Rightarrow> s)
      in if ds = [] then None
         else case hex_digits 0 ds of Some n \<Rightarrow> if n < bound then Some n else None | None \<Rightarrow> None)"

text \<open>\<open>to_ne_bytes\<close>, lowest byte first, as an address prints.\<close>

definition dotted :: "nat \<Rightarrow> string" where
  "dotted n = show_nat (n mod 256) @ ''.'' @ show_nat (n div 256 mod 256) @ ''.''
     @ show_nat (n div 65536 mod 256) @ ''.'' @ show_nat (n div 16777216 mod 256)"

definition hex_to_ip :: "string \<Rightarrow> string" where
  "hex_to_ip h = (case parse_hex (2 ^ 32) h of Some v \<Rightarrow> dotted v | None \<Rightarrow> h)"

definition parse_hex_addr :: "string \<Rightarrow> string option" where
  "parse_hex_addr s =
     (case split_char (CHR '':'') s of
        [a, p] \<Rightarrow>
          (case (parse_hex (2 ^ 32) a, parse_hex (2 ^ 16) p) of
             (Some ip, Some port) \<Rightarrow> Some (dotted ip @ '':'' @ show_nat port)
           | _ \<Rightarrow> None)
      | _ \<Rightarrow> None)"

definition parse_hex_addr6 :: "string \<Rightarrow> string option" where
  "parse_hex_addr6 s =
     (case split_char (CHR '':'') s of
        [h, p] \<Rightarrow>
          (case parse_hex (2 ^ 16) p of
             None \<Rightarrow> None
           | Some port \<Rightarrow>
               if length h = 32 \<and> starts_with h ''0000000000000000FFFF0000''
               then map_option (\<lambda>ip. dotted ip @ '':'' @ show_nat port) (parse_hex (2 ^ 32) (take 8 (drop 24 h)))
               else if h = ''00000000000000000000000000000000'' then Some (''::::'' @ show_nat port)
               else Some (''['' @ take 8 h @ ''..]:'' @ show_nat port))
      | _ \<Rightarrow> None)"

definition tcp_state :: "string \<Rightarrow> string" where
  "tcp_state h =
     (case map_of [(''01'', ''ESTABLISHED''), (''02'', ''SYN_SENT''), (''03'', ''SYN_RECV''), (''04'', ''FIN_WAIT1''),
        (''05'', ''FIN_WAIT2''), (''06'', ''TIME_WAIT''), (''07'', ''CLOSE''), (''08'', ''CLOSE_WAIT''),
        (''09'', ''LAST_ACK''), (''0A'', ''LISTEN''), (''0B'', ''CLOSING'')] h of
        Some s \<Rightarrow> s | None \<Rightarrow> ''UNKNOWN'')"

section \<open>Interfaces\<close>

record interface_info =
  if_name :: string
  if_up :: bool
  if_mtu :: string
  if_mac :: "string option"
  if_ipv4 :: "string option"
  if_netmask :: "string option"
  if_ipv6 :: "string list"
  if_rx_bytes :: u64
  if_tx_bytes :: u64

definition read_sysfs :: "(string \<Rightarrow> string option) \<Rightarrow> string \<Rightarrow> string option" where
  "read_sysfs rd path = map_option trim (rd path)"

definition byte_count :: "(string \<Rightarrow> string option) \<Rightarrow> string \<Rightarrow> u64" where
  "byte_count rd path =
     (case read_sysfs rd path of
        Some s \<Rightarrow> (case parse_u64 s of Some n \<Rightarrow> n | None \<Rightarrow> 0)
      | None \<Rightarrow> 0)"

definition ipv6_groups :: "string \<Rightarrow> string" where
  "ipv6_groups h = join '':'' (map (\<lambda>i. take 4 (drop (4 * i) h)) [0..<8])"

definition ipv6_line :: "string \<Rightarrow> string \<Rightarrow> string list" where
  "ipv6_line ifname line =
     (let parts = split_whitespace line
      in if 6 \<le> length parts \<and> parts ! 5 = ifname \<and> length (parts ! 0) = 32
         then [ipv6_groups (parts ! 0) @ ''/''
               @ show_nat (case parse_hex (2 ^ 32) (parts ! 2) of Some n \<Rightarrow> n | None \<Rightarrow> 0)]
         else [])"

definition interface_ipv6 :: "(string \<Rightarrow> string option) \<Rightarrow> string \<Rightarrow> string list" where
  "interface_ipv6 rd ifname =
     (case rd ''/proc/net/if_inet6'' of None \<Rightarrow> [] | Some c \<Rightarrow> concat (map (ipv6_line ifname) (lines c)))"

definition interface_of ::
    "(string \<Rightarrow> string option) \<Rightarrow> (string \<Rightarrow> string option \<times> string option) \<Rightarrow> string \<Rightarrow> interface_info" where
  "interface_of rd ioctl name =
     (let base = ''/sys/class/net/'' @ name;
          oper = (case read_sysfs rd (base @ ''/operstate'') of Some s \<Rightarrow> s | None \<Rightarrow> [])
      in \<lparr>if_name = name, if_up = (oper = ''up'' \<or> oper = ''unknown''),
        if_mtu = (case read_sysfs rd (base @ ''/mtu'') of Some s \<Rightarrow> s | None \<Rightarrow> ''?''),
        if_mac = read_sysfs rd (base @ ''/address''), if_ipv4 = fst (ioctl name), if_netmask = snd (ioctl name),
        if_ipv6 = interface_ipv6 rd name, if_rx_bytes = byte_count rd (base @ ''/statistics/rx_bytes''),
        if_tx_bytes = byte_count rd (base @ ''/statistics/tx_bytes'')\<rparr>)"

definition list_interfaces ::
    "(string \<Rightarrow> string option) \<Rightarrow> (string \<Rightarrow> string option \<times> string option) \<Rightarrow> string list option \<Rightarrow> interface_info list" where
  "list_interfaces rd ioctl found =
     (case found of None \<Rightarrow> [] | Some ns \<Rightarrow> sort_key if_name (map (interface_of rd ioctl) ns))"

definition ifconfig_text :: "interface_info \<Rightarrow> string" where
  "ifconfig_text i =
     esc ''1m'' @ if_name i @ reset @ '': flags=<'' @ (if if_up i then ''UP'' else ''DOWN'') @ ''> mtu '' @ if_mtu i @ crlf
     @ (case if_ipv4 i of
          Some ip \<Rightarrow> ''        inet '' @ ip @ '' netmask '' @ (case if_netmask i of Some m \<Rightarrow> m | None \<Rightarrow> ''?'') @ crlf
        | None \<Rightarrow> [])
     @ concat (map (\<lambda>a. ''        inet6 '' @ a @ crlf) (if_ipv6 i))
     @ (case if_mac i of Some m \<Rightarrow> ''        ether '' @ m @ crlf | None \<Rightarrow> [])
     @ ''        RX bytes:'' @ format_size_human (if_rx_bytes i) @ '' TX bytes:'' @ format_size_human (if_tx_bytes i)
     @ crlf @ crlf"

definition cmd_ifconfig :: "interface_info list \<Rightarrow> string list \<Rightarrow> shell_output" where
  "cmd_ifconfig interfaces args =
     (let wanted = (case args of a # _ \<Rightarrow> if flagged a then None else Some a | [] \<Rightarrow> None);
          out = concat (map ifconfig_text (filter (\<lambda>i. wanted = None \<or> wanted = Some (if_name i)) interfaces))
      in out_text (if out = [] then ''No interfaces found'' @ crlf else out))"

section \<open>route and ip\<close>

definition flag_string :: "string \<Rightarrow> string" where
  "flag_string flags =
     (let f = (case parse_unsigned (2 ^ 32) flags of Some n \<Rightarrow> n | None \<Rightarrow> 0)
      in (if odd f then ''U'' else []) @ (if odd (f div 2) then ''G'' else []) @ (if odd (f div 4) then ''H'' else []))"

definition route_line :: "string \<Rightarrow> string" where
  "route_line line =
     (let p = split_whitespace line
      in if length p < 8 then []
         else columns [(12, p ! 0), (16, hex_to_ip (p ! 1)), (16, hex_to_ip (p ! 2)), (6, flag_string (p ! 3)),
                (6, p ! 6), (6, ''0'')] ''0'' @ crlf)"

definition cmd_route :: "(string \<Rightarrow> string + string) \<Rightarrow> shell_output" where
  "cmd_route rd =
     (case rd ''/proc/net/route'' of
        Inl e \<Rightarrow> out_error (''route: '' @ e @ crlf)
      | Inr content \<Rightarrow>
          out_text (esc ''1m''
            @ columns [(12, ''Iface''), (16, ''Destination''), (16, ''Gateway''), (6, ''Flags''), (6, ''Metric''), (6, ''Ref'')]
                ''Use'' @ reset @ crlf
            @ concat (map route_line (drop 1 (lines content)))))"

text \<open>A slice \<open>&xs[n..]\<close> panics where it begins after the end: \<open>None\<close>.\<close>

definition slice_from :: "nat \<Rightarrow> 'a list \<Rightarrow> 'a list option" where
  "slice_from n xs = (if n \<le> length xs then Some (drop n xs) else None)"

definition cmd_ip :: "interface_info list \<Rightarrow> (string \<Rightarrow> string + string) \<Rightarrow> string list \<Rightarrow> shell_output option" where
  "cmd_ip interfaces rd args =
     (let subcmd = (case args of a # _ \<Rightarrow> a | [] \<Rightarrow> ''addr'')
      in if subcmd \<in> {''addr'', ''a'', ''address'', ''link'', ''l''}
         then map_option (cmd_ifconfig interfaces) (slice_from 1 args)
         else if subcmd \<in> {''route'', ''r''} then map_option (\<lambda>_. cmd_route rd) (slice_from 1 args)
         else Some (out_text (''ip: unknown subcommand '' @ [CHR 0x27] @ subcmd @ [CHR 0x27] @ crlf
                @ ''Usage: ip {addr|link|route}'' @ crlf)))"

section \<open>netstat\<close>

definition socket_line :: "(string \<Rightarrow> string option) \<Rightarrow> string \<Rightarrow> string \<Rightarrow> string" where
  "socket_line addr proto line =
     (let parts = split_whitespace line
      in if length parts < 4 then []
         else case (addr (parts ! 1), addr (parts ! 2)) of
                (Some local, Some remote) \<Rightarrow>
                  columns [(6, proto), (24, local), (24, remote)] (tcp_state (parts ! 3)) @ crlf
              | _ \<Rightarrow> [])"

definition socket_table :: "(string \<Rightarrow> string option) \<Rightarrow> (string \<Rightarrow> string option) \<Rightarrow> string \<Rightarrow> string" where
  "socket_table rd addr proto =
     (case rd (''/proc/net/'' @ proto) of
        None \<Rightarrow> []
      | Some c \<Rightarrow> concat (map (socket_line addr proto) (drop 1 (lines c))))"

definition cmd_netstat :: "(string \<Rightarrow> string option) \<Rightarrow> shell_output" where
  "cmd_netstat rd =
     out_text (esc ''1m'' @ columns [(6, ''Proto''), (24, ''Local Address''), (24, ''Foreign Address'')] ''State''
       @ reset @ crlf
       @ socket_table rd parse_hex_addr ''tcp'' @ socket_table rd parse_hex_addr6 ''tcp6''
       @ socket_table rd parse_hex_addr ''udp'')"

definition cmd_ss :: "(string \<Rightarrow> string option) \<Rightarrow> shell_output" where
  "cmd_ss rd = cmd_netstat rd"

section \<open>nslookup, hostname and ping\<close>

definition cmd_nslookup :: "(string \<Rightarrow> string + string list) \<Rightarrow> string list \<Rightarrow> shell_output" where
  "cmd_nslookup lookup args =
     (case args of
        [] \<Rightarrow> out_usage (''usage: nslookup <hostname>'' @ crlf)
      | host # _ \<Rightarrow>
          (case lookup (host @ '':0'') of
             Inl e \<Rightarrow> out_error (''** server can'' @ [CHR 0x27] @ ''t find '' @ host @ '': '' @ e @ crlf)
           | Inr as \<Rightarrow>
               out_text (''Name:    '' @ host @ crlf
                 @ (if as = [] then ''(no addresses found)'' @ crlf
                    else concat (map (\<lambda>a. ''Address: '' @ a @ crlf) as)))))"

definition cmd_hostname :: "(string \<Rightarrow> string option) \<Rightarrow> string \<Rightarrow> string list \<Rightarrow> shell_output" where
  "cmd_hostname rd container_name args =
     (let named = (if ''-f'' \<in> set args \<or> ''--fqdn'' \<in> set args
          then (case rd ''/etc/hostname'' of
                  Some n \<Rightarrow> if trim n \<noteq> [] then Some (trim n) else None
                | None \<Rightarrow> None)
          else None)
      in out_text ((case named of Some n \<Rightarrow> n | None \<Rightarrow> container_name) @ crlf))"

function ping_args :: "nat \<times> string \<Rightarrow> string list \<Rightarrow> nat \<times> string" where
  "ping_args (n, host) [] = (n, host)"
| "ping_args (n, host) (a # rest) =
     (if a = ''-c'' \<and> rest \<noteq> []
      then ping_args (case parse_unsigned (2 ^ 32) (hd rest) of Some k \<Rightarrow> k | None \<Rightarrow> 4, host) (tl rest)
      else if operand a then ping_args (n, a) rest
      else ping_args (n, host) rest)"
  by pat_completeness auto
termination
  by (relation "measure (\<lambda>(x, as). length as)") auto

text \<open>
  One try: connected or refused after so many milliseconds, failed with a message, or timed out.
  \<open>ms\<close> and \<open>pct\<close> print a number of milliseconds and a share.
\<close>

datatype attempt = Connected rat | Refused rat | ConnectFailed string | NoAnswer

definition try_line :: "(rat \<Rightarrow> string) \<Rightarrow> string \<Rightarrow> nat \<Rightarrow> attempt \<Rightarrow> string" where
  "try_line ms ip seq t =
     (case t of
        Connected r \<Rightarrow> ''Connected to '' @ ip @ '': seq='' @ show_nat seq @ '' time='' @ ms r @ ''ms'' @ crlf
      | Refused r \<Rightarrow> ''Host reachable (port closed): seq='' @ show_nat seq @ '' time='' @ ms r @ ''ms'' @ crlf
      | ConnectFailed e \<Rightarrow> ''seq='' @ show_nat seq @ '': '' @ e @ crlf
      | NoAnswer \<Rightarrow> ''seq='' @ show_nat seq @ '': timeout'' @ crlf)"

definition try_rtt :: "attempt \<Rightarrow> rat list" where
  "try_rtt t = (case t of Connected r \<Rightarrow> [r] | Refused r \<Rightarrow> [r] | _ \<Rightarrow> [])"

definition dash :: string where "dash = [CHR 0xE2, CHR 0x80, CHR 0x94]"

definition ping_report ::
    "(rat \<Rightarrow> string) \<Rightarrow> (rat \<Rightarrow> string) \<Rightarrow> string \<Rightarrow> string \<Rightarrow> attempt list \<Rightarrow> string" where
  "ping_report ms pct host ip tries =
     (let rtts = concat (map try_rtt tries); sent = length tries; success = length rtts;
          loss = (if 0 < sent then of_nat (sent - success) / of_nat sent * 100 else 100)
      in ''PING '' @ host @ '' ('' @ ip @ '') '' @ dash @ '' TCP probe'' @ crlf
         @ concat (map (\<lambda>(seq, t). try_line ms ip seq t) (enumerate 0 tries))
         @ crlf @ ''--- '' @ host @ '' ping statistics ---'' @ crlf
         @ show_nat sent @ '' probes, '' @ show_nat success @ '' successful, '' @ pct loss @ ''% loss'' @ crlf
         @ (if rtts = [] then []
            else ''rtt min/avg/max = '' @ ms (foldl min (hd rtts) rtts) @ ''/'' @ ms (sum_list rtts / of_nat (length rtts))
              @ ''/'' @ ms (foldl max (hd rtts) rtts) @ '' ms'' @ crlf))"

text \<open>\<open>probe\<close> gives the tries of an address, one after the other.\<close>

definition cmd_ping ::
    "(rat \<Rightarrow> string) \<Rightarrow> (rat \<Rightarrow> string) \<Rightarrow> (string \<Rightarrow> string + string list) \<Rightarrow> (string \<Rightarrow> nat \<Rightarrow> attempt)
     \<Rightarrow> string list \<Rightarrow> shell_output" where
  "cmd_ping ms pct lookup probe args =
     (case ping_args (4, []) args of
        (n, host) \<Rightarrow>
          if host = [] then out_usage (''usage: ping [-c count] <host>'' @ crlf)
          else case lookup (host @ '':80'') of
                 Inl e \<Rightarrow> out_error (''ping: '' @ host @ '': '' @ e @ crlf)
               | Inr [] \<Rightarrow> out_text (''ping: '' @ host @ '': Name or service not known'' @ crlf)
               | Inr (ip # _) \<Rightarrow> out_text (ping_report ms pct host ip (map (probe ip) [0..<n])))"

section \<open>curl\<close>

record http_response =
  hr_status :: string
  hr_headers :: "(string \<times> string) list"
  hr_body :: "string + string"

record curl_opts =
  cu_url :: string
  cu_headers :: bool
  cu_method :: string
  cu_output :: "string option"

function curl_args :: "curl_opts \<Rightarrow> string list \<Rightarrow> curl_opts" where
  "curl_args x [] = x"
| "curl_args x (a # rest) =
     (if a = ''-I'' \<or> a = ''--head'' then curl_args (x\<lparr>cu_headers := True, cu_method := ''HEAD''\<rparr>) rest
      else if a = ''-X'' \<and> rest \<noteq> [] then curl_args (x\<lparr>cu_method := hd rest\<rparr>) (tl rest)
      else if a = ''-o'' \<and> rest \<noteq> [] then curl_args (x\<lparr>cu_output := Some (hd rest)\<rparr>) (tl rest)
      else if a = ''-s'' \<or> a = ''--silent'' then curl_args x rest
      else if operand a \<and> cu_url x = [] then curl_args (x\<lparr>cu_url := a\<rparr>) rest
      else curl_args x rest)"
  by pat_completeness auto
termination
  by (relation "measure (\<lambda>(x, as). length as)") auto

definition curl_method :: "string \<Rightarrow> http_method" where
  "curl_method m =
     (if m = ''HEAD'' then HEAD else if m = ''POST'' then POST else if m = ''PUT'' then PUT
      else if m = ''DELETE'' then DELETE else GET)"

definition curl_url :: "string \<Rightarrow> string" where
  "curl_url u = (if starts_with u ''http://'' \<or> starts_with u ''https://'' then u else ''https://'' @ u)"

definition curl_body :: "string \<Rightarrow> string" where
  "curl_body body = (let text = dos_text body in if ends_crlf text then text else text @ crlf)"

definition cmd_curl ::
    "'w os \<Rightarrow> (http_method \<Rightarrow> string \<Rightarrow> string + http_response) \<Rightarrow> string list \<Rightarrow> 'w \<Rightarrow> 'w \<times> shell_output" where
  "cmd_curl os http args w =
     (let x = curl_args \<lparr>cu_url = [], cu_headers = False, cu_method = ''GET'', cu_output = None\<rparr> args;
          failed = (\<lambda>e. out_error (''curl: '' @ e @ crlf))
      in if cu_url x = [] then (w, out_usage (''usage: curl [-I] [-X METHOD] [-o file] <url>'' @ crlf))
         else case http (curl_method (cu_method x)) (curl_url (cu_url x)) of
                Inl e \<Rightarrow> (w, failed e)
              | Inr resp \<Rightarrow>
                  (if cu_headers x
                   then (w, out_text (''HTTP/1.1 '' @ hr_status resp @ crlf
                          @ concat (map (\<lambda>(k, v). k @ '': '' @ v @ crlf) (hr_headers resp))))
                   else case hr_body resp of
                          Inl e \<Rightarrow> (w, failed e)
                        | Inr body \<Rightarrow>
                            (case cu_output x of
                               None \<Rightarrow> (w, out_text (curl_body body))
                             | Some path \<Rightarrow>
                                 (case os_write os path body w of
                                    (w', None) \<Rightarrow>
                                      (w', out_text (''saved '' @ show_nat (length body) @ '' bytes to '' @ path @ crlf))
                                  | (w', Some e) \<Rightarrow> (w', out_error (''curl: write error: '' @ e @ crlf))))))"

section \<open>Facts\<close>

text \<open>\<open>ip\<close> on its own takes \<open>addr\<close> for its subcommand and then cuts the subcommand off the empty
  list of arguments: it panics, and \<open>ip\<close> with any argument does not.\<close>

theorem ip_alone_panics: "cmd_ip interfaces rd args = None \<longleftrightarrow> args = []"
  by (auto simp: cmd_ip_def slice_from_def Let_def split: list.split)

text \<open>A method \<open>curl -X\<close> does not know, \<open>PATCH\<close> among them, is sent as \<open>GET\<close>, without a word.\<close>

theorem curl_unknown_method_gets:
  assumes "m \<notin> {''HEAD'', ''POST'', ''PUT'', ''DELETE''}" "operand url" "url \<noteq> []"
  shows "cmd_curl os http [''-X'', m, url] w = cmd_curl os http [url] w"
proof -
  let ?x = "\<lparr>cu_url = [], cu_headers = False, cu_method = ''GET'', cu_output = None\<rparr>"
  have url: "url \<noteq> ''-I'' \<and> url \<noteq> ''--head'' \<and> url \<noteq> ''-s'' \<and> url \<noteq> ''--silent''"
    using assms(2) by (auto simp: operand_def flagged_def starts_with_def)
  have "curl_args ?x [''-X'', m, url] = ?x\<lparr>cu_url := url, cu_method := m\<rparr>" "curl_args ?x [url] = ?x\<lparr>cu_url := url\<rparr>"
    using assms(2) url by simp_all
  moreover have "curl_method m = curl_method ''GET''" using assms(1) by (simp add: curl_method_def)
  ultimately show ?thesis unfolding cmd_curl_def Let_def by (simp only: curl_opts.simps)
qed

text \<open>An address prints as it is written: \<open>/proc\<close> gives the four bytes lowest first.\<close>

lemma dotted_bytes:
  assumes "a < 256" "b < 256" "c < 256" "d < 256"
  shows "dotted (a + 256 * (b + 256 * (c + 256 * d)))
    = show_nat a @ ''.'' @ show_nat b @ ''.'' @ show_nat c @ ''.'' @ show_nat d"
proof -
  have div_step: "(x + 256 * y) div 256 = y" and mod_step: "(x + 256 * y) mod 256 = x" if "x < 256" for x y :: nat
    using that by simp_all
  have shifts: "n div 65536 = n div 256 div 256" "n div 16777216 = n div 256 div 256 div 256" for n :: nat
    by (simp_all add: div_mult2_eq [symmetric])
  show ?thesis
    unfolding dotted_def shifts
    by (simp only: div_step [OF assms(1)] mod_step [OF assms(1)] div_step [OF assms(2)] mod_step [OF assms(2)]
        div_step [OF assms(3)] mod_step [OF assms(3)] mod_less [OF assms(4)])
qed

theorem curl_unknown_method_gets_witness:
  "cmd_curl flat_os (\<lambda>_ _. Inl ''refused'') [''-X'', ''PATCH'', ''host''] [] = ([], out_error (''curl: refused'' @ crlf))"
  using curl_unknown_method_gets [of "''PATCH''" "''host''" flat_os "\<lambda>_ _. Inl ''refused''" "[]"]
  by (simp add: cmd_curl_def operand_def flagged_def starts_with_def)

end
