(* ===== verification/Shell.thy ===== *)
theory Shell
  imports ShellNet
begin

text \<open>
  The shell itself, \<open>crates/stormd/src/shell/mod.rs\<close>: the dispatch of a command, pipes, redirection,
  \<open>xargs\<close>, the standalone applets and completion. \<open>'w\<close> is everything the applets can see or change;
  the record \<open>host\<close> says how. A run is \<open>None\<close> where an applet panics (or, for \<open>du\<close>, where the fuel
  does not reach the bottom of the tree).
\<close>

record 'w host =
  ho_os :: "'w os"
  ho_rd :: "'w \<Rightarrow> string \<Rightarrow> string option"
  ho_env :: "'w \<Rightarrow> env"
  ho_set_env :: "env \<Rightarrow> 'w \<Rightarrow> 'w"
  ho_statuses :: "'w \<Rightarrow> process_status list"
  ho_unit :: "'w \<Rightarrow> string \<Rightarrow> string + process_status"
  ho_ask :: "unit_request \<Rightarrow> 'w \<Rightarrow> 'w \<times> (string + unit)"
  ho_failed :: "'w \<Rightarrow> bool"
  ho_cron :: "'w \<Rightarrow> cron_status list"
  ho_stored :: "'w \<Rightarrow> log_query \<Rightarrow> log_entry list"
  ho_mounts :: "'w \<Rightarrow> mount_info list"
  ho_interfaces :: "'w \<Rightarrow> interface_info list"
  ho_fds :: "'w \<Rightarrow> (string \<times> string) list option"
  ho_lookup :: "string \<Rightarrow> string + string list"
  ho_probe :: "string \<Rightarrow> nat \<Rightarrow> attempt"
  ho_http :: "http_method \<Rightarrow> string \<Rightarrow> string + http_response"
  ho_kill :: "i32 \<Rightarrow> kill_signal \<Rightarrow> string option"
  ho_strftime :: "string \<Rightarrow> millis \<Rightarrow> string"
  ho_sha256 :: "u8 list \<Rightarrow> string"
  ho_lossy :: "u8 list \<Rightarrow> string"
  ho_num :: "string \<Rightarrow> rat option"
  ho_ms :: "rat \<Rightarrow> string"
  ho_pct :: "rat \<Rightarrow> string"
  ho_machine :: string
  ho_uid :: u32
  ho_gid :: u32
  ho_now :: millis
  ho_date :: string
  ho_started_at :: millis
  ho_container :: string
  ho_fuel :: nat

type_synonym 'w run = "'w \<Rightarrow> ('w \<times> shell_output) option"

definition says :: "shell_output \<Rightarrow> 'w run" where
  "says out w = Some (w, out)"

definition does :: "('w \<Rightarrow> 'w \<times> shell_output) \<Rightarrow> 'w run" where
  "does f w = Some (f w)"

definition need_name :: "string \<Rightarrow> string list \<Rightarrow> (string \<Rightarrow> 'w run) \<Rightarrow> 'w run" where
  "need_name cmd args f =
     (case args of [] \<Rightarrow> says (out_usage (''usage: '' @ cmd @ '' <process>'' @ crlf)) | n # _ \<Rightarrow> f n)"

definition attach_to :: "string \<Rightarrow> shell_output" where
  "attach_to n = (out_text (''Attaching to '' @ n @ ''... (Ctrl-C to detach)'' @ crlf))\<lparr>so_attach := Some n\<rparr>"

definition ask_unit :: "'w host \<Rightarrow> unit_request \<Rightarrow> string \<Rightarrow> (string \<Rightarrow> string + unit \<Rightarrow> shell_output) \<Rightarrow> 'w run" where
  "ask_unit h req n say = does (\<lambda>w. case ho_ask h req w of (w', r) \<Rightarrow> (w', say n r))"

text \<open>Of \<open>systemctl\<close> only \<open>start\<close>, \<open>stop\<close> and \<open>restart\<close> of a unit change anything.\<close>

definition run_systemctl :: "'w host \<Rightarrow> string list \<Rightarrow> 'w run" where
  "run_systemctl h args =
     does (\<lambda>w.
       (let asked = (case args of
              c # n # _ \<Rightarrow> if c = ''start'' then Some (StartUnit n) else if c = ''stop'' then Some (StopUnit n)
                else if c = ''restart'' then Some (RestartUnit n) else None
            | _ \<Rightarrow> None);
            (w', r) = (case asked of Some q \<Rightarrow> ho_ask h q w | None \<Rightarrow> (w, Inr ()))
        in (w', cmd_systemctl (ho_statuses h w) (ho_unit h w) (\<lambda>_. r) args)))"

section \<open>The commands\<close>

text \<open>Each group of the dispatch is \<open>None\<close> for a command that is not in it.\<close>

definition process_command :: "'w host \<Rightarrow> string \<Rightarrow> string list \<Rightarrow> 'w run option" where
  "process_command h cmd args =
     (if cmd = ''ps'' \<or> cmd = ''top'' then Some (\<lambda>w. says (cmd_ps (ho_statuses h w)) w)
      else if cmd = ''start'' then Some (need_name cmd args (\<lambda>n. ask_unit h (StartUnit n) n cmd_start))
      else if cmd = ''stop'' then Some (need_name cmd args (\<lambda>n. ask_unit h (StopUnit n) n cmd_stop))
      else if cmd = ''restart'' then Some (need_name cmd args (\<lambda>n. ask_unit h (RestartUnit n) n cmd_restart))
      else if cmd = ''attach'' then Some (need_name cmd args (\<lambda>n. says (attach_to n)))
      else if cmd = ''cron'' then Some (\<lambda>w. says (cmd_cron (ho_cron h w)) w)
      else if cmd = ''liveness'' then Some (\<lambda>w. says (cmd_liveness args (ho_statuses h w)) w)
      else if cmd = ''status'' then Some (\<lambda>w. says (cmd_status (ho_container h) (ho_failed h w) (ho_statuses h w)) w)
      else if cmd = ''uptime'' then Some (says (cmd_uptime (ho_container h) (ho_started_at h) (ho_now h)))
      else None)"

definition log_command :: "'w host \<Rightarrow> string \<Rightarrow> string list \<Rightarrow> string option \<Rightarrow> 'w run option" where
  "log_command h cmd args piped =
     (if cmd = ''logs'' then Some (\<lambda>w. says (cmd_logs (ho_strftime h) (ho_stored h w) args) w)
      else if cmd = ''dmesg'' then Some (\<lambda>w. says (cmd_dmesg (ho_strftime h) (ho_stored h w) args) w)
      else if cmd = ''grep''
      then Some (\<lambda>w. says
        (if piped \<noteq> None \<or> 2 \<le> length args then cmd_grep (os_read_text (ho_os h) w) args piped
         else case args of
                p # _ \<Rightarrow> cmd_grep_logs (ho_stored h w) p
              | [] \<Rightarrow> out_usage (''usage: grep <pattern> [file]'' @ crlf)) w)
      else None)"

definition file_command :: "'w host \<Rightarrow> string \<Rightarrow> string list \<Rightarrow> string option \<Rightarrow> 'w run option" where
  "file_command h cmd args piped =
     (let os = ho_os h
      in if cmd = ''ls'' \<or> cmd = ''dir'' then Some (\<lambda>w. says (cmd_ls os w args) w)
         else if cmd = ''cat'' then Some (\<lambda>w. says (cmd_cat os w args piped) w)
         else if cmd = ''head'' then Some (\<lambda>w. says (cmd_head os w args piped) w)
         else if cmd = ''tail'' then Some (\<lambda>w. says (cmd_tail os w args piped) w)
         else if cmd = ''cp'' then Some (does (cmd_cp os args))
         else if cmd = ''mv'' then Some (does (cmd_mv os args))
         else if cmd = ''rm'' then Some (does (cmd_rm os args))
         else if cmd = ''mkdir'' then Some (does (cmd_mkdir os args))
         else if cmd = ''touch'' then Some (does (cmd_touch os args))
         else if cmd = ''chmod'' then Some (does (cmd_chmod os args))
         else if cmd = ''chown'' then Some (does (cmd_chown os args))
         else if cmd = ''find'' then Some (\<lambda>w. says (cmd_find os w args) w)
         else if cmd = ''ln'' then Some (does (cmd_ln os args))
         else if cmd = ''stat'' then Some (\<lambda>w. says (cmd_stat os w args) w)
         else if cmd = ''pwd'' then Some (\<lambda>w. says (cmd_pwd os w) w)
         else if cmd = ''wc'' then Some (\<lambda>w. says (cmd_wc os w args piped) w)
         else if cmd = ''du'' then Some (\<lambda>w. map_option (\<lambda>out. (w, out)) (cmd_du os w (ho_fuel h) args))
         else if cmd = ''readlink'' then Some (\<lambda>w. says (cmd_readlink os w args) w)
         else if cmd = ''file'' then Some (\<lambda>w. says (cmd_file_type os w args) w)
         else if cmd = ''sha256sum'' \<or> cmd = ''md5sum''
         then Some (\<lambda>w. says (cmd_sha256sum (ho_sha256 h) os w args piped) w)
         else if cmd = ''tee'' then Some (does (cmd_tee os args piped))
         else None)"

definition net_read :: "'w host \<Rightarrow> 'w \<Rightarrow> string \<Rightarrow> string + string" where
  "net_read h w p = os_read_text (ho_os h) w p"

definition net_command :: "'w host \<Rightarrow> string \<Rightarrow> string \<Rightarrow> string list \<Rightarrow> 'w run option" where
  "net_command h container cmd args =
     (if cmd = ''ifconfig'' then Some (\<lambda>w. says (cmd_ifconfig (ho_interfaces h w) args) w)
      else if cmd = ''ip''
      then Some (\<lambda>w. map_option (\<lambda>out. (w, out)) (cmd_ip (ho_interfaces h w) (net_read h w) args))
      else if cmd = ''ping'' then Some (says (cmd_ping (ho_ms h) (ho_pct h) (ho_lookup h) (ho_probe h) args))
      else if cmd = ''curl'' \<or> cmd = ''wget'' then Some (does (cmd_curl (ho_os h) (ho_http h) args))
      else if cmd = ''netstat'' then Some (\<lambda>w. says (cmd_netstat (ho_rd h w)) w)
      else if cmd = ''ss'' then Some (\<lambda>w. says (cmd_ss (ho_rd h w)) w)
      else if cmd = ''nslookup'' \<or> cmd = ''dig'' then Some (says (cmd_nslookup (ho_lookup h) args))
      else if cmd = ''hostname'' then Some (\<lambda>w. says (cmd_hostname (ho_rd h w) container args) w)
      else if cmd = ''route'' then Some (\<lambda>w. says (cmd_route (net_read h w)) w)
      else None)"

definition with_env :: "'w host \<Rightarrow> (env \<Rightarrow> (env \<times> shell_output) option) \<Rightarrow> 'w run" where
  "with_env h f w = map_option (\<lambda>(e, out). (ho_set_env h e w, out)) (f (ho_env h w))"

definition system_command :: "'w host \<Rightarrow> string \<Rightarrow> string list \<Rightarrow> 'w run option" where
  "system_command h cmd args =
     (if cmd = ''mount'' then Some (\<lambda>w. says (cmd_mount (ho_mounts h w)) w)
      else if cmd = ''df'' then Some (\<lambda>w. says (cmd_df (ho_rd h w) (ho_mounts h w) args) w)
      else if cmd = ''free'' then Some (\<lambda>w. says (cmd_free (ho_rd h w) args) w)
      else if cmd = ''uname''
      then Some (\<lambda>w. says (cmd_uname (ho_rd h w) (ho_machine h) (map_of (ho_env h w) ''HOSTNAME'') args) w)
      else if cmd = ''date'' then Some (says (cmd_date (ho_date h)))
      else if cmd = ''id'' then Some (says (cmd_id (ho_uid h) (ho_gid h)))
      else if cmd = ''kill'' then Some (says (cmd_kill (ho_kill h) args))
      else if cmd = ''printenv'' then Some (\<lambda>w. says (cmd_printenv (ho_env h w) args) w)
      else if cmd = ''export'' then Some (with_env h (cmd_export args))
      else if cmd = ''unset'' then Some (with_env h (cmd_unset args))
      else if cmd = ''sleep'' then Some (says (snd (cmd_sleep (ho_num h) args)))
      else if cmd = ''echo'' then Some (says (cmd_echo args))
      else if cmd = ''env'' then Some (\<lambda>w. says (cmd_env (ho_env h w)) w)
      else if cmd = ''whoami'' then Some (says cmd_whoami)
      else if cmd = ''which'' then Some (says (cmd_which args))
      else if cmd = ''type'' then Some (says (cmd_type args))
      else if cmd = ''lsof'' then Some (\<lambda>w. says (cmd_lsof (ho_fds h w)) w)
      else None)"

definition text_command :: "'w host \<Rightarrow> string \<Rightarrow> string list \<Rightarrow> string option \<Rightarrow> 'w run option" where
  "text_command h cmd args piped =
     (let rd = os_read_text (ho_os h)
      in if cmd = ''sort'' then Some (\<lambda>w. says (cmd_sort (rd w) (ho_num h) args piped) w)
         else if cmd = ''uniq'' then Some (\<lambda>w. says (cmd_uniq (rd w) args piped) w)
         else if cmd = ''cut'' then Some (\<lambda>w. says (cmd_cut (rd w) args piped) w)
         else if cmd = ''tr'' then Some (says (cmd_tr args piped))
         else if cmd = ''sed'' then Some (\<lambda>w. says (cmd_sed (rd w) args piped) w)
         else if cmd = ''rev'' then Some (says (cmd_rev piped))
         else if cmd = ''base64'' then Some (says (cmd_base64 (ho_lossy h) args piped))
         else if cmd = ''xxd'' then Some (says (cmd_xxd piped))
         else None)"

definition clear_screen :: string where
  "clear_screen = esc ''2J'' @ esc ''H''"

text \<open>\<open>manual\<close> is the text of \<open>cmd_help\<close>.\<close>

definition builtin_command :: "string \<Rightarrow> string \<Rightarrow> 'w run option" where
  "builtin_command manual cmd =
     (if cmd = ''help'' \<or> cmd = ''?'' then Some (says (out_text manual))
      else if cmd = ''exit'' \<or> cmd = ''logout'' \<or> cmd = ''quit'' then Some (says out_exit)
      else if cmd = ''clear'' then Some (says (out_text clear_screen))
      else None)"

fun first_of :: "'a option list \<Rightarrow> 'a option" where
  "first_of [] = None"
| "first_of (x # xs) = (case x of Some a \<Rightarrow> Some a | None \<Rightarrow> first_of xs)"

definition xargs_usage :: shell_output where
  "xargs_usage = out_usage (''usage: <cmd> | xargs <command>'' @ crlf)"

text \<open>Every command of the SSH shell but \<open>xargs\<close> with an input.\<close>

definition shell_command :: "'w host \<Rightarrow> string \<Rightarrow> string \<Rightarrow> string list \<Rightarrow> string option \<Rightarrow> 'w run option" where
  "shell_command h manual cmd args piped =
     first_of [process_command h cmd args, log_command h cmd args piped, file_command h cmd args piped,
       net_command h (ho_container h) cmd args, system_command h cmd args,
       (if cmd = ''systemctl'' then Some (run_systemctl h args)
        else if cmd = ''true'' \<or> cmd = ''false'' then Some (says (out_text [])) else None),
       text_command h cmd args piped,
       (if cmd = ''xargs'' then Some (says xargs_usage) else None),
       builtin_command manual cmd]"

definition not_found :: "string \<Rightarrow> shell_output" where
  "not_found cmd = out_text (cmd @ '': command not found'' @ crlf)"

definition plain_line :: "'w host \<Rightarrow> string \<Rightarrow> string \<Rightarrow> string option \<Rightarrow> 'w run" where
  "plain_line h manual line piped =
     (case split_whitespace line of
        [] \<Rightarrow> says (out_text [])
      | cmd # args \<Rightarrow>
          (case shell_command h manual cmd args piped of
             Some r \<Rightarrow> r
           | None \<Rightarrow> says (not_found cmd)))"

text \<open>\<open>cmd_xargs\<close>: the lines it runs get no input, so an \<open>xargs\<close> among them runs nothing.\<close>

fun xargs_lines :: "(string \<Rightarrow> 'w run) \<Rightarrow> string \<Rightarrow> string list \<Rightarrow> string \<Rightarrow> 'w run" where
  "xargs_lines run cmd [] out w = Some (w, out_text out)"
| "xargs_lines run cmd (l # ls) out w =
     (if trim l = [] then xargs_lines run cmd ls out w
      else case run (cmd @ '' '' @ trim l) w of
             None \<Rightarrow> None
           | Some (w', o1) \<Rightarrow> xargs_lines run cmd ls (out @ so_text o1) w')"

definition cmd_xargs :: "(string \<Rightarrow> 'w run) \<Rightarrow> string list \<Rightarrow> string option \<Rightarrow> 'w run" where
  "cmd_xargs run args piped =
     (case piped of
        None \<Rightarrow> says xargs_usage
      | Some input \<Rightarrow>
          if args = [] then says xargs_usage
          else xargs_lines run (join '' '' args) (lines (unix_text input)) [])"

definition execute_single :: "'w host \<Rightarrow> string \<Rightarrow> string \<Rightarrow> string option \<Rightarrow> 'w run" where
  "execute_single h manual line piped =
     (case split_whitespace line of
        cmd # args \<Rightarrow>
          if cmd = ''xargs'' then cmd_xargs (\<lambda>l. plain_line h manual l None) args piped
          else plain_line h manual line piped
      | [] \<Rightarrow> plain_line h manual line piped)"

section \<open>Pipes and redirection\<close>

definition ends_pipe :: "shell_output \<Rightarrow> bool" where
  "ends_pipe out \<longleftrightarrow> so_exit out \<or> so_follow out \<or> so_attach out \<noteq> None"

text \<open>The rest of a pipe; \<open>Inl\<close> where a command ends it early.\<close>

fun pipe :: "'w host \<Rightarrow> string \<Rightarrow> string list \<Rightarrow> shell_output \<Rightarrow> 'w \<Rightarrow> ('w \<times> (shell_output + shell_output)) option" where
  "pipe h manual [] out w = Some (w, Inr out)"
| "pipe h manual (seg # segs) out w =
     (if ends_pipe out then Some (w, Inl out)
      else case execute_single h manual (trim seg) (Some (so_text out)) w of
             None \<Rightarrow> None
           | Some (w', out') \<Rightarrow> pipe h manual segs out' w')"

definition redirect :: "'w host \<Rightarrow> (string \<times> bool) option \<Rightarrow> shell_output \<Rightarrow> 'w run" where
  "redirect h target out =
     (case target of
        None \<Rightarrow> says out
      | Some (path, appending) \<Rightarrow>
          if so_exit out then says out
          else (\<lambda>w.
            (case (if appending then os_append (ho_os h) else os_write (ho_os h)) path (unix_text (so_text out)) w of
               (w', None) \<Rightarrow> Some (w', out_text [])
             | (w', Some e) \<Rightarrow> Some (w', out_error (''redirect: '' @ e @ crlf)))))"

definition execute_command :: "'w host \<Rightarrow> string \<Rightarrow> string \<Rightarrow> 'w run" where
  "execute_command h manual line w =
     (if trim line = [] then Some (w, out_text [])
      else
        let segments = split_str '' | '' (trim line);
            (last_cmd, target) = parse_redirect (last segments);
            final = butlast segments @ [last_cmd]
        in case execute_single h manual (hd final) None w of
             None \<Rightarrow> None
           | Some (w1, out1) \<Rightarrow>
               (case pipe h manual (tl final) out1 w1 of
                  None \<Rightarrow> None
                | Some (w2, Inl out) \<Rightarrow> Some (w2, out)
                | Some (w2, Inr out) \<Rightarrow> redirect h target out w2))"

section \<open>Standalone applets\<close>

definition standalone_applet :: "'w host \<Rightarrow> string \<Rightarrow> string \<Rightarrow> string list \<Rightarrow> string option \<Rightarrow> 'w run option" where
  "standalone_applet h container cmd args piped =
     first_of [file_command h cmd args piped, net_command h container cmd args, system_command h cmd args,
       (if cmd = ''true'' then Some (says (out_text []))
        else if cmd = ''false'' then Some (says (out_error []))
        else if cmd = ''test'' then Some (\<lambda>w. says (cmd_test (ho_os h) w args) w)
        else if cmd = ''[''
        then Some (\<lambda>w. says (if args \<noteq> [] \<and> last args = '']'' then cmd_test (ho_os h) w (butlast args)
               else out_usage (''[: missing '' @ [CHR 0x27] @ '']'' @ [CHR 0x27] @ crlf)) w)
        else if cmd = ''clear'' then Some (says (out_text clear_screen))
        else None),
       text_command h cmd args piped,
       (if cmd = ''grep'' then Some (\<lambda>w. says (cmd_grep (os_read_text (ho_os h) w) args piped) w) else None)]"

text \<open>What the applet prints and its exit status; \<open>stdin\<close> is the text the input holds, when read.\<close>

definition execute_standalone ::
    "'w host \<Rightarrow> bool \<Rightarrow> string option \<Rightarrow> string \<Rightarrow> string list \<Rightarrow> 'w \<Rightarrow> ('w \<times> string \<times> i32) option" where
  "execute_standalone h terminal stdin cmd args w =
     (let piped = (if \<not> terminal \<and> wants_stdin cmd args
            then (case stdin of Some [] \<Rightarrow> None | x \<Rightarrow> x) else None);
          container = (case map_of (ho_env h w) ''HOSTNAME'' of Some n \<Rightarrow> n | None \<Rightarrow> ''stormd'')
      in case standalone_applet h container cmd args piped of
           None \<Rightarrow> Some (w, [], 127)
         | Some r \<Rightarrow> map_option (\<lambda>(w', out). (w', unix_text (so_text out), so_status out)) (r w))"

fun link_all :: "'w os \<Rightarrow> string \<Rightarrow> string \<Rightarrow> string list \<Rightarrow> nat \<Rightarrow> 'w \<Rightarrow> 'w \<times> (string + nat)" where
  "link_all os dir binary [] n w = (w, Inr n)"
| "link_all os dir binary (c # cs) n w =
     (let link = path_join dir c
      in case (os_metadata os w link, os_symlink_metadata os w link) of
           (Inl _, Inl _) \<Rightarrow>
             (case os_symlink os binary link w of
                (w', Some e) \<Rightarrow> (w', Inl e)
              | (w', None) \<Rightarrow> link_all os dir binary cs (n + 1) w')
         | _ \<Rightarrow> link_all os dir binary cs n w)"

definition install_symlinks :: "'w os \<Rightarrow> string \<Rightarrow> string \<Rightarrow> 'w \<Rightarrow> 'w \<times> (string + nat)" where
  "install_symlinks os dir binary w =
     (case os_create_dir_all os dir w of
        (w', Some e) \<Rightarrow> (w', Inl e)
      | (w', None) \<Rightarrow> link_all os dir binary standalone_commands 0 w')"

end
