(* ===== verification/ShellUse.thy ===== *)
theory ShellUse
  imports Shell
begin

text \<open>
  Completion (\<open>complete\<close>, \<open>complete_path\<close> of \<open>crates/stormd/src/shell/mod.rs\<close>) and what the shell
  promises as a whole: the commands it knows, redirection and pipes, the applets' input.
\<close>

section \<open>Completion\<close>

text \<open>\<open>ls\<close> is \<open>read_dir\<close>, \<open>cwd\<close> the working directory or \<open>/\<close>.\<close>

definition completed :: "string \<Rightarrow> string \<Rightarrow> dir_entry \<Rightarrow> string list" where
  "completed dir typed e =
     (let full = (if CHR ''/'' \<in> set typed then dir @ ''/'' @ de_name e else de_name e)
      in [if de_type e = Some Directory then full @ ''/'' else full])"

definition complete_path :: "(string \<Rightarrow> string + dir_entry list) \<Rightarrow> string \<Rightarrow> string \<Rightarrow> string list" where
  "complete_path ls cwd typed =
     (let (dir, file_prefix) =
          (if CHR ''/'' \<in> set typed
           then (case path_parent typed of Some d \<Rightarrow> d | None \<Rightarrow> ''/'',
                 case file_name typed of Some f \<Rightarrow> f | None \<Rightarrow> [])
           else (cwd, typed))
      in case ls dir of
           Inl _ \<Rightarrow> []
         | Inr es \<Rightarrow>
             sort (concat (map (completed dir typed) (filter (\<lambda>e. starts_with (de_name e) file_prefix) es))))"

definition complete ::
    "(string \<Rightarrow> string + dir_entry list) \<Rightarrow> string \<Rightarrow> string list \<Rightarrow> string \<Rightarrow> string list" where
  "complete ls cwd process_names partial =
     (case split_whitespace partial of
        [] \<Rightarrow> all_commands
      | [typed] \<Rightarrow> filter (\<lambda>c. starts_with c typed) all_commands
      | cmd # rest \<Rightarrow>
          (let typed = last rest
           in if cmd = ''systemctl'' \<and> length rest = 1
              then filter (\<lambda>c. starts_with c typed)
                [''status'', ''start'', ''stop'', ''restart'', ''list-units'', ''is-active'', ''is-failed'', ''enable'', ''disable'']
              else if cmd \<in> {''start'', ''stop'', ''restart'', ''attach'', ''logs'', ''liveness''} \<or> cmd = ''systemctl''
              then filter (\<lambda>n. starts_with n typed) process_names
              else if cmd \<in> {''cat'', ''head'', ''tail'', ''ls'', ''cp'', ''mv'', ''rm'', ''mkdir'', ''touch'', ''chmod'',
                ''chown'', ''find'', ''ln'', ''stat'', ''du'', ''readlink'', ''file'', ''sha256sum'', ''wc'', ''tee''}
              then complete_path ls cwd typed
              else []))"

section \<open>The commands known\<close>

lemma first_of_None: "first_of xs = None \<longleftrightarrow> (\<forall>x \<in> set xs. x = None)"
  by (induction xs) (auto split: option.split)

lemma process_known: "process_command h cmd args = None \<longleftrightarrow>
    cmd \<notin> {''ps'', ''top'', ''start'', ''stop'', ''restart'', ''attach'', ''cron'', ''liveness'', ''status'', ''uptime''}"
  by (simp add: process_command_def)

lemma log_known: "log_command h cmd args piped = None \<longleftrightarrow> cmd \<notin> {''logs'', ''dmesg'', ''grep''}"
  by (simp add: log_command_def)

lemma file_known: "file_command h cmd args piped = None \<longleftrightarrow>
    cmd \<notin> {''ls'', ''dir'', ''cat'', ''head'', ''tail'', ''cp'', ''mv'', ''rm'', ''mkdir'', ''touch'', ''chmod'', ''chown'',
      ''find'', ''ln'', ''stat'', ''pwd'', ''wc'', ''du'', ''readlink'', ''file'', ''sha256sum'', ''md5sum'', ''tee''}"
  by (simp add: file_command_def Let_def)

lemma net_known: "net_command h container cmd args = None \<longleftrightarrow>
    cmd \<notin> {''ifconfig'', ''ip'', ''ping'', ''curl'', ''wget'', ''netstat'', ''ss'', ''nslookup'', ''dig'', ''hostname'', ''route''}"
  by (simp add: net_command_def)

lemma system_known: "system_command h cmd args = None \<longleftrightarrow>
    cmd \<notin> {''mount'', ''df'', ''free'', ''uname'', ''date'', ''id'', ''kill'', ''printenv'', ''export'', ''unset'', ''sleep'',
      ''echo'', ''env'', ''whoami'', ''which'', ''type'', ''lsof''}"
  by (simp add: system_command_def)

lemma text_known: "text_command h cmd args piped = None \<longleftrightarrow>
    cmd \<notin> {''sort'', ''uniq'', ''cut'', ''tr'', ''sed'', ''rev'', ''base64'', ''xxd''}"
  by (simp add: text_command_def Let_def)

lemma builtin_known: "builtin_command manual cmd = None \<longleftrightarrow>
    cmd \<notin> {''help'', ''?'', ''exit'', ''logout'', ''quit'', ''clear''}"
  by (simp add: builtin_command_def)

lemmas known = process_known log_known file_known net_known system_known text_known builtin_known

lemma shell_known: "shell_command h manual cmd args piped = None \<longleftrightarrow> \<not> is_builtin cmd \<and> cmd \<noteq> ''?'' \<and> cmd \<noteq> ''md5sum''"
  unfolding shell_command_def first_of_None
  by (simp add: known is_builtin_def all_commands_def) (intro impI, rule iffI; elim conjE; intro conjI; assumption)

lemma standalone_known: "standalone_applet h container cmd args piped = None \<longleftrightarrow> cmd \<notin> set standalone_commands"
  unfolding standalone_applet_def first_of_None
  by (simp add: known standalone_commands_def) (intro impI, rule iffI; elim conjE; intro conjI; assumption)

text \<open>The table \<open>which\<close>, \<open>type\<close> and completion go by and the dispatch agree: a command is carried out
  exactly when it is in the table, but for \<open>?\<close> and \<open>md5sum\<close>, which are carried out and not listed; and
  the names stormd can be linked under are exactly the applets it can be.\<close>

theorem commands_agree:
  "(shell_command h manual cmd args piped \<noteq> None \<longleftrightarrow> is_builtin cmd \<or> cmd = ''?'' \<or> cmd = ''md5sum'') \<and>
   (standalone_applet h container cmd args piped \<noteq> None \<longleftrightarrow> cmd \<in> set standalone_commands)"
  unfolding shell_known standalone_known by blast

section \<open>Pipes and redirection\<close>

lemma split_str_single: "\<not> contains s p \<Longrightarrow> p \<noteq> [] \<Longrightarrow> split_str p s = [s]"
  by (subst split_str.simps) (simp add: not_contains_split)

lemma plain_segment:
  assumes "trim line = line" "line \<noteq> []" "\<not> contains line '' | ''"
  shows "execute_command h manual line w =
    (case parse_redirect line of (cmd, target) \<Rightarrow>
       (case execute_single h manual cmd None w of
          None \<Rightarrow> None
        | Some (w1, out) \<Rightarrow> redirect h target out w1))"
  using assms
  by (simp add: execute_command_def split_str_single Let_def split: prod.split option.split)

text \<open>\<open>cmd > file\<close> runs the command, writes what it printed to the file with Unix line ends and prints
  nothing; \<open>>>\<close> appends the same.\<close>

theorem redirect_writes_output:
  assumes "trim line = line" "line \<noteq> []" "\<not> contains line '' | ''"
    and "parse_redirect line = (cmd, Some (path, appending))"
    and "execute_single h manual cmd None w = Some (w1, out)" "\<not> so_exit out"
    and "(if appending then os_append (ho_os h) else os_write (ho_os h)) path (unix_text (so_text out)) w1 = (w2, None)"
  shows "execute_command h manual line w = Some (w2, out_text [])"
proof -
  have "redirect h (Some (path, appending)) out w1 = Some (w2, out_text [])"
    using assms(6,7) by (simp add: redirect_def)
  then show ?thesis using plain_segment [OF assms(1-3), of h manual w] assms(4,5) by simp
qed

text \<open>A stream to follow or a process to attach to goes past redirection: \<open>logs -f > file\<close> writes the
  line that announces the following to the file and follows nothing.\<close>

theorem redirect_stops_following:
  assumes "trim line = line" "line \<noteq> []" "\<not> contains line '' | ''"
    and "parse_redirect line = (cmd, Some (path, False))"
    and "execute_single h manual cmd None w = Some (w1, out)" "so_follow out" "\<not> so_exit out"
    and "os_write (ho_os h) path (unix_text (so_text out)) w1 = (w2, None)"
  shows "execute_command h manual line w = Some (w2, out_text []) \<and> \<not> so_follow (out_text [])"
proof -
  have "redirect h (Some (path, False)) out w1 = Some (w2, out_text [])"
    using assms(7,8) by (simp add: redirect_def)
  then show ?thesis using plain_segment [OF assms(1-3), of h manual w] assms(4,5) by (simp add: out_text_def)
qed

section \<open>The applets' input\<close>

lemma grep_e_opts:
  assumes "operand p" "operand f"
  shows "foldl grep_arg grep_none [''-e'', p, f] = grep_none\<lparr>go_pattern := Some p, go_files := [f]\<rparr>"
proof -
  have other: "x \<notin> {''-i'', ''-v'', ''-c'', ''-n'', ''-iv'', ''-vi'', ''-in'', ''-ni''}" if "operand x" for x
    using that by (auto simp: operand_def flagged_def starts_with_def)
  have e: "grep_arg g ''-e'' = g" for g by (simp add: grep_arg_def flagged_def starts_with_def)
  have "grep_arg grep_none p = grep_none\<lparr>go_pattern := Some p\<rparr>"
    using other [OF assms(1)] assms(1) by (simp add: grep_arg_def operand_def grep_none_def)
  moreover have "grep_arg (grep_none\<lparr>go_pattern := Some p\<rparr>) f = grep_none\<lparr>go_pattern := Some p, go_files := [f]\<rparr>"
    using other [OF assms(2)] assms(2) by (simp add: grep_arg_def operand_def grep_none_def)
  ultimately show ?thesis by (simp add: e)
qed

text \<open>\<open>grep -e PATTERN FILE\<close> never looks at its input, and yet waits for the end of it, which for a process
  stormd starts never comes: the pattern is taken for the value of \<open>-e\<close> and the file for the pattern.\<close>

theorem grep_e_waits_for_input:
  assumes "operand p" "operand f"
  shows "wants_stdin ''grep'' [''-e'', p, f] \<and> cmd_grep rd [''-e'', p, f] piped = cmd_grep rd [''-e'', p, f] None"
proof
  have "operands [''-e''] [''-e'', p, f] = 1"
    using assms(2) by (auto simp: operands_def operand_def flagged_def starts_with_def)
  then show "wants_stdin ''grep'' [''-e'', p, f]" by (simp add: wants_stdin_def)
  show "cmd_grep rd [''-e'', p, f] piped = cmd_grep rd [''-e'', p, f] None"
    unfolding cmd_grep_def grep_e_opts [OF assms] by simp
qed

section \<open>What completion offers\<close>

lemma complete_commands: "set (complete ls cwd ps c) \<subseteq> set all_commands" if "length (split_whitespace c) \<le> 1"
proof (cases "split_whitespace c")
  case (Cons p ps)
  with that have "ps = []" by simp
  with Cons show ?thesis by (auto simp: complete_def)
qed (simp add: complete_def)

text \<open>Completing a directory with its slash already typed lists the directory above it again: of
  \<open>cat /etc/\<close> it offers \<open>//etc/\<close> and nothing that \<open>/etc\<close> holds.\<close>

theorem completion_stays_above:
  assumes "ls ''/'' = Inr [\<lparr>de_name = ''etc'', de_path = ''/etc'', de_type = Some Directory, de_meta = None\<rparr>]"
  shows "complete ls cwd ps ''cat /etc/'' = [''//etc/'']"
  using assms
  by (simp add: complete_def split_whitespace_def is_ws_def complete_path_def path_parent_def file_name_def
      completed_def starts_with_def)

section \<open>Witnesses\<close>

definition demo_host :: "flat_dir host" where
  "demo_host = \<lparr>ho_os = flat_os, ho_rd = (\<lambda>w. map_of w), ho_env = (\<lambda>_. []), ho_set_env = (\<lambda>_ w. w),
     ho_statuses = (\<lambda>_. []), ho_unit = (\<lambda>_ n. Inl ''process not found''),
     ho_ask = (\<lambda>_ w. (w, Inl ''process not found'')), ho_failed = (\<lambda>_. False), ho_cron = (\<lambda>_. []),
     ho_stored = (\<lambda>_ _. []), ho_mounts = (\<lambda>_. []), ho_interfaces = (\<lambda>_. []), ho_fds = (\<lambda>_. None),
     ho_lookup = (\<lambda>_. Inr []), ho_probe = (\<lambda>_ _. NoAnswer), ho_http = (\<lambda>_ _. Inl ''refused''),
     ho_kill = (\<lambda>_ _. None), ho_strftime = (\<lambda>f _. f), ho_sha256 = (\<lambda>_. []), ho_lossy = (\<lambda>_. []),
     ho_num = (\<lambda>_. None), ho_ms = (\<lambda>_. []), ho_pct = (\<lambda>_. []), ho_machine = ''x86_64'', ho_uid = 0, ho_gid = 0,
     ho_now = 0, ho_date = [], ho_started_at = 0, ho_container = ''stormd'', ho_fuel = 9\<rparr>"

lemma demo_echo: "execute_single demo_host m ''echo hi'' None w = Some (w, out_text (''hi'' @ crlf))"
  by (simp add: execute_single_def plain_line_def split_whitespace_def is_ws_def shell_command_def process_command_def
      log_command_def file_command_def net_command_def system_command_def cmd_echo_def says_def Let_def)

lemma demo_logs: "execute_single demo_host m ''logs -f'' None w
    = Some (w, following (''Following logs... (Ctrl-C to stop)'' @ crlf) None)"
  by (simp add: execute_single_def plain_line_def split_whitespace_def is_ws_def shell_command_def process_command_def
      log_command_def cmd_logs_def logs_arg_def says_def)

lemma demo_text: "unix_text (''hi'' @ crlf) = [CHR ''h'', CHR ''i'', newline]"
  by (simp add: unix_text_def crlf_def replace_all.simps)

theorem redirect_writes_output_witness:
  "execute_command demo_host m ''echo hi > f'' [] = Some ([(''f'', [CHR ''h'', CHR ''i'', newline])], out_text [])"
proof (rule redirect_writes_output)
  show "execute_single demo_host m ''echo hi'' None [] = Some ([], out_text (''hi'' @ crlf))" by (rule demo_echo)
  show "parse_redirect ''echo hi > f'' = (''echo hi'', Some (''f'', False))"
    by (simp add: parse_redirect_def trim_def trim_start_def trim_end_def is_ws_def)
qed (simp_all only: if_False out_simps demo_text,
     simp_all add: trim_def trim_start_def trim_end_def is_ws_def contains_def out_text_def demo_host_def flat_os_def flat_put_def)

theorem redirect_stops_following_witness:
  "\<exists>w. execute_command demo_host m ''logs -f > f'' [] = Some (w, out_text [])"
proof -
  have "execute_command demo_host m ''logs -f > f'' []
      = Some ([(''f'', unix_text (''Following logs... (Ctrl-C to stop)'' @ crlf))], out_text [])
      \<and> \<not> so_follow (out_text [])"
  proof (rule redirect_stops_following)
    show "execute_single demo_host m ''logs -f'' None []
        = Some ([], following (''Following logs... (Ctrl-C to stop)'' @ crlf) None)" by (rule demo_logs)
    show "parse_redirect ''logs -f > f'' = (''logs -f'', Some (''f'', False))"
      by (simp add: parse_redirect_def trim_def trim_start_def trim_end_def is_ws_def)
  qed (simp_all add: trim_def trim_start_def trim_end_def is_ws_def contains_def following_def out_text_def demo_host_def
      flat_os_def flat_put_def)
  then show ?thesis by blast
qed

theorem grep_e_waits_for_input_witness: "wants_stdin ''grep'' [''-e'', ''pat'', ''/x'']"
  using grep_e_waits_for_input [of "''pat''" "''/x''"] by (simp add: operand_def flagged_def starts_with_def)

theorem completion_stays_above_witness:
  "complete (\<lambda>_. Inr [\<lparr>de_name = ''etc'', de_path = ''/etc'', de_type = Some Directory, de_meta = None\<rparr>]) ''/'' []
     ''cat /etc/'' = [''//etc/'']"
  by (rule completion_stays_above) simp

end
