(* ===== verification/Goldens.thy ===== *)
theory Goldens
  imports Config NodeVars Http FileSys "HOL-Library.List_Lexorder" "HOL-Library.Char_ord" "HOL-Library.Product_Lexorder"
begin

text \<open>
  \<open>crates/stormd/src/goldens.rs\<close>: the goldens of a process, attached read-only at the node's
  stormblock engine and presented to it. The engine, the file system and the device nodes are the
  state of the world \<open>'w\<close>; a \<open>golden_host\<close> is what the trait \<open>Host\<close> asks of it, a \<open>node_os\<close> the calls
  \<open>RealHost\<close> makes. The table of presented goldens is the listing of a \<open>HashMap\<close>.
\<close>

section \<open>The host\<close>

record 'w golden_host =
  gh_devno :: "string \<Rightarrow> 'w \<Rightarrow> string + u64"
  gh_make_node :: "string \<Rightarrow> u64 \<Rightarrow> u32 \<Rightarrow> (u32 \<times> u32) option \<Rightarrow> 'w \<Rightarrow> 'w \<times> string option"
  gh_mkdir_p :: "string \<Rightarrow> 'w \<Rightarrow> 'w \<times> string option"
  gh_mount_ro :: "string \<Rightarrow> string \<Rightarrow> string \<Rightarrow> 'w \<Rightarrow> 'w \<times> string option"
  gh_unmount :: "string \<Rightarrow> 'w \<Rightarrow> 'w \<times> string option"
  gh_remove :: "string \<Rightarrow> 'w \<Rightarrow> 'w \<times> string option"

text \<open>
  \<open>no_block_dev\<close> is the device number of a path that is a block device; an error of removing a file
  comes with whether it says that there is none; a mode is cut to the bits \<open>Mode\<close> knows by \<open>mknod\<close>.
\<close>

record 'w node_os =
  no_block_dev :: "'w \<Rightarrow> string \<Rightarrow> u64 option"
  no_read :: "'w \<Rightarrow> string \<Rightarrow> string + string"
  no_parse :: "string \<Rightarrow> string + u64"
  no_makedev :: "u64 \<Rightarrow> u64 \<Rightarrow> u64"
  no_create_dir_all :: "string \<Rightarrow> 'w \<Rightarrow> 'w \<times> string option"
  no_remove_file :: "string \<Rightarrow> 'w \<Rightarrow> 'w \<times> (string \<times> bool) option"
  no_mknod :: "string \<Rightarrow> u32 \<Rightarrow> u64 \<Rightarrow> 'w \<Rightarrow> 'w \<times> string option"
  no_set_mode :: "string \<Rightarrow> u32 \<Rightarrow> 'w \<Rightarrow> 'w \<times> string option"
  no_chown :: "string \<Rightarrow> u32 \<Rightarrow> u32 \<Rightarrow> 'w \<Rightarrow> 'w \<times> string option"
  no_mount :: "string \<Rightarrow> string \<Rightarrow> string \<Rightarrow> string list \<Rightarrow> 'w \<Rightarrow> 'w \<times> string option"
  no_umount :: "string \<Rightarrow> 'w \<Rightarrow> 'w \<times> string option"

definition real_devno :: "'w node_os \<Rightarrow> string \<Rightarrow> 'w \<Rightarrow> string + u64" where
  "real_devno os device w =
     (case no_block_dev os w device of
        Some d \<Rightarrow> Inr d
      | None \<Rightarrow>
          (case file_name device of
             None \<Rightarrow> Inl (device @ '' names no device'')
           | Some name \<Rightarrow>
               (let sys = path_join (path_join ''/sys/block'' name) ''dev''
                in case no_read os w sys of
                     Inl e \<Rightarrow> Inl e
                   | Inr t \<Rightarrow>
                       (case split_once '':'' (trim t) of
                          None \<Rightarrow> Inl (sys @ '': not maj:min'')
                        | Some (a, b) \<Rightarrow>
                            (case no_parse os a of
                               Inl e \<Rightarrow> Inl e
                             | Inr maj \<Rightarrow>
                                 (case no_parse os b of Inl e \<Rightarrow> Inl e | Inr mn \<Rightarrow> Inr (no_makedev os maj mn)))))))"

definition real_make_node ::
    "'w node_os \<Rightarrow> string \<Rightarrow> u64 \<Rightarrow> u32 \<Rightarrow> (u32 \<times> u32) option \<Rightarrow> 'w \<Rightarrow> 'w \<times> string option" where
  "real_make_node os path devno mode owner w =
     then_do (then_do (then_do
       (case path_parent path of Some dir \<Rightarrow> no_create_dir_all os dir w | None \<Rightarrow> (w, None))
       (\<lambda>w. if no_block_dev os w path = Some devno then (w, None)
            else no_mknod os path mode devno (fst (no_remove_file os path w))))
       (no_set_mode os path mode))
       (\<lambda>w. case owner of Some (uid, gid) \<Rightarrow> no_chown os path uid gid w | None \<Rightarrow> (w, None))"

definition real_remove :: "'w node_os \<Rightarrow> string \<Rightarrow> 'w \<Rightarrow> 'w \<times> string option" where
  "real_remove os path w =
     (case no_remove_file os path w of
        (w1, Some (e, not_found)) \<Rightarrow> (w1, if not_found then None else Some e)
      | (w1, None) \<Rightarrow> (w1, None))"

definition real_host :: "'w node_os \<Rightarrow> 'w golden_host" where
  "real_host os = \<lparr>gh_devno = real_devno os, gh_make_node = real_make_node os,
     gh_mkdir_p = no_create_dir_all os,
     gh_mount_ro = (\<lambda>device path fstype. no_mount os device path fstype [''MS_RDONLY'', ''MS_NODEV'', ''MS_NOSUID'']),
     gh_unmount = no_umount os, gh_remove = real_remove os\<rparr>"

section \<open>The state\<close>

record presented =
  pr_process :: string
  pr_name :: string
  pr_golden :: "string option"
  pr_volume_id :: string
  pr_content :: golden_content
  pr_device :: string
  pr_path :: string
  pr_size_bytes :: "u64 option"

type_synonym golden_key = "string \<times> string"

record 'w goldens =
  gs_cfg :: goldens_config
  gs_container :: string
  gs_host :: "'w golden_host"
  gs_client :: "'w http_client"
  gs_token :: "'w \<Rightarrow> string \<Rightarrow> string option"
  gs_vars :: "string \<Rightarrow> string option"
  gs_show_json :: "json \<Rightarrow> string"

type_synonym table = "(golden_key \<times> presented) list"

definition table_insert :: "golden_key \<Rightarrow> presented \<Rightarrow> table \<Rightarrow> table" where
  "table_insert k p t = (k, p) # filter (\<lambda>e. fst e \<noteq> k) t"

definition table_remove :: "golden_key \<Rightarrow> table \<Rightarrow> table" where
  "table_remove k t = filter (\<lambda>e. fst e \<noteq> k) t"

section \<open>The engine\<close>

definition engine :: "'w goldens \<Rightarrow> string" where
  "engine g = trim_end_matches ''/'' (expand (gs_vars g) (gd_engine_url (gs_cfg g)))"

definition auth :: "'w goldens \<Rightarrow> 'w \<Rightarrow> http_request \<Rightarrow> http_request" where
  "auth g w r =
     (case gs_token g w (gd_token_file (gs_cfg g)) of
        Some t \<Rightarrow> if trim t \<noteq> [] then bearer_auth (trim t) r else r
      | None \<Rightarrow> r)"

definition path_of :: "'w goldens \<Rightarrow> golden_mount \<Rightarrow> string" where
  "path_of g m = (case gm_path m of Some p \<Rightarrow> p | None \<Rightarrow> path_join (gd_dir (gs_cfg g)) (gm_name m))"

definition holder :: "'w goldens \<Rightarrow> string \<Rightarrow> string \<Rightarrow> string" where
  "holder g process name = ''stormd/'' @ gs_container g @ ''/'' @ process @ ''/'' @ name"

definition refused :: "string \<Rightarrow> http_answer \<Rightarrow> string" where
  "refused url a = url @ '': '' @ an_shown a @ '': '' @ text_or_empty a"

text \<open>The first item of that name, which must have a textual id.\<close>

definition find_golden :: "string \<Rightarrow> json \<Rightarrow> string option" where
  "find_golden want body =
     (case List.find (\<lambda>v. json_get v ''name'' = JStr want) (as_array (json_get body ''items'')) of
        Some v \<Rightarrow> as_str (json_get v ''id'') | None \<Rightarrow> None)"

definition resolve :: "'w goldens \<Rightarrow> golden_mount \<Rightarrow> 'w \<Rightarrow> 'w \<times> (string + string)" where
  "resolve g m w =
     (case gm_volume_id m of
        Some i \<Rightarrow> (w, Inr i)
      | None \<Rightarrow>
          (let want = (case gm_golden m of Some n \<Rightarrow> n | None \<Rightarrow> []);
               url = engine g @ ''/api/v1/volumes?kind=golden''
           in case gs_client g (auth g w (ask GET url)) w of
                (w1, Inl e) \<Rightarrow> (w1, Inl e)
              | (w1, Inr a) \<Rightarrow>
                  (w1, if \<not> is_success a then Inl (refused url a)
                       else case an_json a of
                              Inl e \<Rightarrow> Inl e
                            | Inr body \<Rightarrow>
                                (case find_golden want body of
                                   Some i \<Rightarrow> Inr i
                                 | None \<Rightarrow> Inl (''no golden named '' @ want @ '' on the engine'')))))"

definition attach_url :: "'w goldens \<Rightarrow> string \<Rightarrow> string" where
  "attach_url g volume = engine g @ ''/api/v1/volumes/'' @ volume @ ''/attach''"

definition attach_request :: "'w goldens \<Rightarrow> string \<Rightarrow> string \<Rightarrow> http_request" where
  "attach_request g volume h = (ask POST (attach_url g volume))\<lparr>rq_json :=
     Some (JObj [(''mode'', JStr ''ro''), (''transport'', JStr ''ublk''), (''holder'', JStr h)])\<rparr>"

definition detach_request :: "'w goldens \<Rightarrow> string \<Rightarrow> string \<Rightarrow> http_request" where
  "detach_request g volume h = (ask DELETE (attach_url g volume))\<lparr>rq_query := [(''holder'', h)]\<rparr>"

definition not_local :: "'w goldens \<Rightarrow> string \<Rightarrow> json \<Rightarrow> string" where
  "not_local g volume info = attach_url g volume @ '': not a local ublk attach: '' @ gs_show_json g info"

definition attach :: "'w goldens \<Rightarrow> string \<Rightarrow> string \<Rightarrow> 'w \<Rightarrow> 'w \<times> (string + string)" where
  "attach g volume h w =
     (case gs_client g (auth g w (attach_request g volume h)) w of
        (w1, Inl e) \<Rightarrow> (w1, Inl e)
      | (w1, Inr a) \<Rightarrow>
          (w1, if \<not> is_success a then Inl (refused (attach_url g volume) a)
               else case an_json a of
                      Inl e \<Rightarrow> Inl e
                    | Inr info \<Rightarrow>
                        (case (as_str (json_get info ''transport''), as_str (json_get info ''device_hint'')) of
                           (Some t, Some dev) \<Rightarrow>
                             if t = ''ublk'' then Inr dev
                             else Inl (not_local g volume info)
                         | _ \<Rightarrow> Inl (not_local g volume info))))"

definition detach :: "'w goldens \<Rightarrow> string \<Rightarrow> string \<Rightarrow> 'w \<Rightarrow> 'w \<times> string option" where
  "detach g volume h w =
     (case gs_client g (auth g w (detach_request g volume h)) w of
        (w1, Inl e) \<Rightarrow> (w1, Some e)
      | (w1, Inr a) \<Rightarrow>
          (w1, if \<not> is_success a \<and> an_status a \<noteq> 404 then Some (refused (attach_url g volume) a) else None))"

section \<open>Presenting and releasing\<close>

definition place :: "'w goldens \<Rightarrow> golden_mount \<Rightarrow> string \<Rightarrow> string \<Rightarrow> 'w \<Rightarrow> 'w \<times> string option" where
  "place g m device path w =
     (case gh_devno (gs_host g) device w of
        Inl e \<Rightarrow> (w, Some e)
      | Inr devno \<Rightarrow>
          (case gm_content m of
             Filesystem \<Rightarrow>
               then_do (then_do (gh_make_node (gs_host g) device devno 0x100 None w)
                 (gh_mkdir_p (gs_host g) path))
                 (gh_mount_ro (gs_host g) device path (gm_fstype m))
           | Image \<Rightarrow> gh_make_node (gs_host g) path devno (gm_mode m) (owner_ids m) w))"

definition presented_as :: "'w goldens \<Rightarrow> string \<Rightarrow> golden_mount \<Rightarrow> string \<Rightarrow> string \<Rightarrow> presented" where
  "presented_as g process m volume device =
     \<lparr>pr_process = process, pr_name = gm_name m, pr_golden = gm_golden m, pr_volume_id = volume,
      pr_content = gm_content m, pr_device = device, pr_path = path_of g m, pr_size_bytes = gm_size_bytes m\<rparr>"

definition present ::
    "'w goldens \<Rightarrow> string \<Rightarrow> golden_mount \<Rightarrow> 'w \<times> table \<Rightarrow> ('w \<times> table) \<times> (string + presented)" where
  "present g process m = (\<lambda>(w, t).
     (case resolve g m w of
        (w1, Inl e) \<Rightarrow> ((w1, t), Inl e)
      | (w1, Inr volume) \<Rightarrow>
          (let h = holder g process (gm_name m)
           in case attach g volume h w1 of
                (w2, Inl e) \<Rightarrow> ((w2, t), Inl e)
              | (w2, Inr device) \<Rightarrow>
                  (case place g m device (path_of g m) w2 of
                     (w3, Some e) \<Rightarrow> ((fst (detach g volume h w3), t), Inl e)
                   | (w3, None) \<Rightarrow>
                       (let p = presented_as g process m volume device
                        in ((w3, table_insert (process, gm_name m) p t), Inr p))))))"

definition undo :: "'w goldens \<Rightarrow> presented \<Rightarrow> 'w \<Rightarrow> 'w \<times> string option" where
  "undo g p w =
     (case pr_content p of
        Filesystem \<Rightarrow> gh_unmount (gs_host g) (pr_path p) w
      | Image \<Rightarrow> gh_remove (gs_host g) (pr_path p) w)"

definition release ::
    "'w goldens \<Rightarrow> string \<Rightarrow> string \<Rightarrow> 'w \<times> table \<Rightarrow> ('w \<times> table) \<times> string option" where
  "release g process name = (\<lambda>(w, t).
     (case map_of t (process, name) of
        None \<Rightarrow> ((w, t), None)
      | Some p \<Rightarrow>
          (case undo g p w of
             (w1, Some e) \<Rightarrow>
               ((w1, table_insert (process, name) p (table_remove (process, name) t)),
                Some (pr_path p @ '': '' @ e))
           | (w1, None) \<Rightarrow>
               (let (w2, r) = detach g (pr_volume_id p) (holder g process name) w1
                in ((w2, table_remove (process, name) t), r)))))"

text \<open>
  \<open>present_all\<close>: \<open>stop\<close> is asked before every try, \<open>sleep\<close> is two seconds going by. A golden that never
  attaches is tried for as long as \<open>stop\<close> says no, so the loop may not end: \<open>None\<close>.
\<close>

partial_function (option) present_until ::
    "'w goldens \<Rightarrow> ('w \<Rightarrow> bool) \<Rightarrow> ('w \<Rightarrow> 'w) \<Rightarrow> string \<Rightarrow> golden_mount \<Rightarrow> 'w \<times> table
     \<Rightarrow> (('w \<times> table) \<times> bool) option" where
  "present_until g stop sleep process m s =
     (if stop (fst s) then Some (s, False)
      else case present g process m s of
             (s1, Inr _) \<Rightarrow> Some (s1, True)
           | (s1, Inl _) \<Rightarrow> present_until g stop sleep process m (sleep (fst s1), snd s1))"

fun present_all ::
    "'w goldens \<Rightarrow> ('w \<Rightarrow> bool) \<Rightarrow> ('w \<Rightarrow> 'w) \<Rightarrow> string \<Rightarrow> golden_mount list \<Rightarrow> 'w \<times> table
     \<Rightarrow> (('w \<times> table) \<times> bool) option" where
  "present_all g stop sleep process [] s = Some (s, True)"
| "present_all g stop sleep process (m # ms) s =
     (if map_of (snd s) (process, gm_name m) \<noteq> None then present_all g stop sleep process ms s
      else case present_until g stop sleep process m s of
             None \<Rightarrow> None
           | Some (s1, ok) \<Rightarrow> if ok then present_all g stop sleep process ms s1 else Some (s1, False))"

text \<open>\<open>arrange\<close> is the order in which the map hands out its keys.\<close>

definition release_all ::
    "'w goldens \<Rightarrow> (golden_key list \<Rightarrow> golden_key list) \<Rightarrow> 'w \<times> table \<Rightarrow> 'w \<times> table" where
  "release_all g arrange s =
     foldl (\<lambda>s (process, name). fst (release g process name s)) s (arrange (map fst (snd s)))"

definition list_goldens :: "table \<Rightarrow> presented list" where
  "list_goldens t = sort_key (\<lambda>p. (pr_process p, pr_name p)) (map snd t)"

section \<open>Swapping a golden\<close>

text \<open>
  What \<open>swap_golden\<close> of \<open>supervisor.rs\<close> does with the goldens: the old one is released, the new one
  presented, and when that fails the old one is presented again if it can be.
\<close>

definition swap_presented ::
    "'w goldens \<Rightarrow> string \<Rightarrow> golden_mount \<Rightarrow> golden_mount \<Rightarrow> 'w \<times> table \<Rightarrow> ('w \<times> table) \<times> (string + presented)" where
  "swap_presented g process old new s =
     (case present g process new s of
        (s1, Inr p) \<Rightarrow> (s1, Inr p)
      | (s1, Inl e) \<Rightarrow> (fst (present g process old s1), Inl e))"

text \<open>
  The calls of the supervisor it makes: a process's configuration, whether it is running, stopping it,
  waiting until it has stopped, spawning it, and writing a golden into its configuration.
\<close>

record 'w swap_calls =
  sw_config :: "'w \<Rightarrow> string \<Rightarrow> process_config option"
  sw_running :: "'w \<Rightarrow> string \<Rightarrow> bool"
  sw_stop :: "string \<Rightarrow> 'w \<Rightarrow> 'w \<times> string option"
  sw_wait_stopped :: "string \<Rightarrow> 'w \<Rightarrow> 'w"
  sw_spawn :: "string \<Rightarrow> 'w \<Rightarrow> 'w \<times> string option"
  sw_set_golden :: "string \<Rightarrow> golden_mount \<Rightarrow> 'w \<Rightarrow> 'w"

definition on_world :: "('w \<Rightarrow> 'w) \<Rightarrow> 'w \<times> table \<Rightarrow> 'w \<times> table" where
  "on_world f s = (f (fst s), snd s)"

definition respawn ::
    "'w swap_calls \<Rightarrow> bool \<Rightarrow> string \<Rightarrow> 'w \<times> table \<Rightarrow> (string + presented) \<Rightarrow> ('w \<times> table) \<times> (string + presented)" where
  "respawn sv was_running process s result =
     (if was_running
      then case sw_spawn sv process (fst s) of
             (w, Some e) \<Rightarrow> ((w, snd s), Inl e) | (w, None) \<Rightarrow> ((w, snd s), result)
      else (s, result))"

definition swap_stop :: "'w swap_calls \<Rightarrow> bool \<Rightarrow> string \<Rightarrow> 'w \<Rightarrow> 'w \<times> string option" where
  "swap_stop sv was_running process w =
     (if was_running
      then case sw_stop sv process w of
             (w1, Some e) \<Rightarrow> (w1, Some e) | (w1, None) \<Rightarrow> (sw_wait_stopped sv process w1, None)
      else (w, None))"

definition swap_golden ::
    "'w swap_calls \<Rightarrow> 'w goldens option \<Rightarrow> string \<Rightarrow> string \<Rightarrow> string option \<Rightarrow> string option \<Rightarrow> 'w \<times> table
     \<Rightarrow> ('w \<times> table) \<times> (string + presented)" where
  "swap_golden sv goldens process name golden volume s =
     (case goldens of
        None \<Rightarrow> (s, Inl ''no goldens configured'')
      | Some g \<Rightarrow>
          if (golden \<noteq> None) = (volume \<noteq> None) then (s, Inl ''give exactly one of golden and volume_id'')
          else case sw_config sv (fst s) process of
                 None \<Rightarrow> (s, Inl (''process not found: '' @ process))
               | Some cfg \<Rightarrow>
                   (case List.find (\<lambda>m. gm_name m = name) (pc_golden cfg) of
                      None \<Rightarrow> (s, Inl (''process '' @ [CHR 0x27] @ process @ [CHR 0x27] @ '' names no golden '' @ [CHR 0x27]
                                  @ name @ [CHR 0x27]))
                    | Some old \<Rightarrow>
                        (let new = old\<lparr>gm_golden := golden, gm_volume_id := volume\<rparr>;
                             was_running = sw_running sv (fst s) process;
                             (w1, stopped) = swap_stop sv was_running process (fst s)
                         in case stopped of
                              Some e \<Rightarrow> ((w1, snd s), Inl e)
                            | None \<Rightarrow>
                                (case release g process name (w1, snd s) of
                                   (s2, Some e) \<Rightarrow> respawn sv was_running process s2 (Inl e)
                                 | (s2, None) \<Rightarrow>
                                     (let (s3, r) = swap_presented g process old new s2;
                                          s4 = (case r of Inr _ \<Rightarrow> on_world (sw_set_golden sv process new) s3 | Inl _ \<Rightarrow> s3)
                                      in respawn sv was_running process s4 r)))))"

section \<open>Every presented golden is attached\<close>

text \<open>
  What the engine and the host keep of the attaches: \<open>held w\<close> is the set of volumes attached with their
  holders. An attach answered with success is held, a detach answered with success or with 404 is gone;
  a request that failed on the way may have been carried out or not; the listing and the host change
  no attach.
\<close>

definition host_keeps :: "'w golden_host \<Rightarrow> ('w \<Rightarrow> 'a) \<Rightarrow> bool" where
  "host_keeps h held \<longleftrightarrow>
     (\<forall>p d m o' w. held (fst (gh_make_node h p d m o' w)) = held w) \<and> (\<forall>p w. held (fst (gh_mkdir_p h p w)) = held w) \<and>
     (\<forall>d p f w. held (fst (gh_mount_ro h d p f w)) = held w) \<and> (\<forall>p w. held (fst (gh_unmount h p w)) = held w) \<and>
     (\<forall>p w. held (fst (gh_remove h p w)) = held w)"

definition done_with :: "string + http_answer \<Rightarrow> bool" where
  "done_with r \<longleftrightarrow> (case r of Inl _ \<Rightarrow> False | Inr a \<Rightarrow> is_success a \<or> an_status a = 404)"

definition engine_keeps :: "'w goldens \<Rightarrow> ('w \<Rightarrow> (string \<times> string) set) \<Rightarrow> bool" where
  "engine_keeps g held \<longleftrightarrow>
     (\<forall>w url. held (fst (gs_client g (auth g w (ask GET url)) w)) = held w) \<and>
     (\<forall>v h w. let (w1, r) = gs_client g (auth g w (attach_request g v h)) w in
        held w \<subseteq> held w1 \<and> held w1 \<subseteq> insert (v, h) (held w) \<and>
        ((\<exists>a. r = Inr a \<and> is_success a) \<longrightarrow> (v, h) \<in> held w1)) \<and>
     (\<forall>v h w. let (w1, r) = gs_client g (auth g w (detach_request g v h)) w in
        held w - {(v, h)} \<subseteq> held w1 \<and> held w1 \<subseteq> held w \<and> (done_with r \<longrightarrow> (v, h) \<notin> held w1))"

definition ledger :: "'w goldens \<Rightarrow> ('w \<Rightarrow> (string \<times> string) set) \<Rightarrow> 'w \<times> table \<Rightarrow> bool" where
  "ledger g held s \<longleftrightarrow> distinct (map fst (snd s)) \<and>
     (\<forall>(k, p) \<in> set (snd s). CHR ''/'' \<notin> set (snd k) \<and> (pr_volume_id p, holder g (fst k) (snd k)) \<in> held (fst s))"

lemma holder_inject:
  assumes "CHR ''/'' \<notin> set n" "CHR ''/'' \<notin> set n'"
  shows "holder g p n = holder g p' n' \<longleftrightarrow> p = p' \<and> n = n'"
proof
  assume "holder g p n = holder g p' n'"
  then have "p @ CHR ''/'' # n = p' @ CHR ''/'' # n'" by (simp add: holder_def)
  then have "rsplit_once_char (CHR ''/'') (p @ CHR ''/'' # n) = rsplit_once_char (CHR ''/'') (p' @ CHR ''/'' # n')"
    by simp
  moreover have "rsplit_once_char (CHR ''/'') (p @ CHR ''/'' # n) = Some (p, n)"
    "rsplit_once_char (CHR ''/'') (p' @ CHR ''/'' # n') = Some (p', n')"
    using assms by (simp_all add: rsplit_once_char_Some)
  ultimately show "p = p' \<and> n = n'" by simp
qed simp

lemma held_resolve:
  assumes "engine_keeps g held"
  shows "held (fst (resolve g m w)) = held w"
proof (cases "gm_volume_id m")
  case None
  let ?r = "auth g w (ask GET (engine g @ ''/api/v1/volumes?kind=golden''))"
  have "held (fst (gs_client g ?r w)) = held w"
    using assms by (simp add: engine_keeps_def)
  then show ?thesis
    using None by (cases "gs_client g ?r w") (simp add: resolve_def Let_def split: sum.split)
qed (simp add: resolve_def)

lemma held_attach:
  assumes "engine_keeps g held"
  shows "held w \<subseteq> held (fst (attach g v h w))" "held (fst (attach g v h w)) \<subseteq> insert (v, h) (held w)"
    and "attach g v h w = (w1, Inr d) \<Longrightarrow> (v, h) \<in> held w1"
proof -
  have keeps: "let (w1, r) = gs_client g (auth g w (attach_request g v h)) w in
        held w \<subseteq> held w1 \<and> held w1 \<subseteq> insert (v, h) (held w) \<and>
        ((\<exists>a. r = Inr a \<and> is_success a) \<longrightarrow> (v, h) \<in> held w1)"
    using assms by (simp add: engine_keeps_def)
  then show "held w \<subseteq> held (fst (attach g v h w))" "held (fst (attach g v h w)) \<subseteq> insert (v, h) (held w)"
    by (cases "gs_client g (auth g w (attach_request g v h)) w"; simp add: attach_def split: sum.split)+
  show "(v, h) \<in> held w1" if "attach g v h w = (w1, Inr d)"
    using keeps that
    by (cases "gs_client g (auth g w (attach_request g v h)) w")
      (auto simp: attach_def split: sum.splits if_splits)
qed

lemma held_detach:
  assumes "engine_keeps g held"
  shows "held w - {(v, h)} \<subseteq> held (fst (detach g v h w))" "held (fst (detach g v h w)) \<subseteq> held w"
    and "detach g v h w = (w1, None) \<Longrightarrow> (v, h) \<notin> held w1"
proof -
  have keeps: "let (w1, r) = gs_client g (auth g w (detach_request g v h)) w in
        held w - {(v, h)} \<subseteq> held w1 \<and> held w1 \<subseteq> held w \<and> (done_with r \<longrightarrow> (v, h) \<notin> held w1)"
    using assms by (simp add: engine_keeps_def)
  then show "held w - {(v, h)} \<subseteq> held (fst (detach g v h w))" "held (fst (detach g v h w)) \<subseteq> held w"
    by (cases "gs_client g (auth g w (detach_request g v h)) w"; simp add: detach_def split: sum.split)+
  show "(v, h) \<notin> held w1" if "detach g v h w = (w1, None)"
    using keeps that
    by (cases "gs_client g (auth g w (detach_request g v h)) w")
      (auto simp: detach_def done_with_def split: sum.splits if_splits)
qed

lemma held_then: "(\<And>w. held (fst (f w)) = held w) \<Longrightarrow> held (fst (then_do r f)) = held (fst r)"
  by (simp add: then_do_def split: prod.split option.split)

lemma held_place: "host_keeps (gs_host g) held \<Longrightarrow> held (fst (place g m d p w)) = held w"
  by (simp add: place_def host_keeps_def held_then split: sum.split golden_content.split)

lemma held_undo: "host_keeps (gs_host g) held \<Longrightarrow> held (fst (undo g p w)) = held w"
  by (simp add: undo_def host_keeps_def split: golden_content.split)

lemmas held_simps = held_resolve held_place held_undo

lemma ledger_mono:
  "ledger g held (w, t) \<Longrightarrow> held w \<subseteq> held w' \<Longrightarrow> ledger g held (w', t)"
  by (auto simp: ledger_def)

lemma ledger_insert:
  assumes "ledger g held (w, t)" "CHR ''/'' \<notin> set (snd k)" "(pr_volume_id p, holder g (fst k) (snd k)) \<in> held w"
  shows "ledger g held (w, table_insert k p t)"
  using assms by (auto simp: ledger_def table_insert_def distinct_map_filter)

lemma map_of_remove [simp]: "map_of (table_remove k t) k' = (if k' = k then None else map_of t k')"
  by (induction t) (auto simp: table_remove_def)

lemma map_of_insert [simp]: "map_of (table_insert k p t) k' = (if k' = k then Some p else map_of t k')"
  using map_of_remove [of k t k'] by (simp add: table_insert_def table_remove_def)

lemma table_remove_absent: "map_of t k = None \<Longrightarrow> table_remove k t = t"
  by (auto simp: table_remove_def map_of_eq_None_iff filter_id_conv image_iff)

lemma ledger_without:
  assumes ok: "ledger g held (w, t)" and slash: "CHR ''/'' \<notin> set (snd k)"
    and less: "held w - {(v, holder g (fst k) (snd k))} \<subseteq> held w'"
  shows "ledger g held (w', table_remove k t)"
proof -
  have "(pr_volume_id p, holder g (fst k') (snd k')) \<in> held w'" if "(k', p) \<in> set (table_remove k t)" for k' p
  proof -
    from that have "k' \<noteq> k" and mem: "(k', p) \<in> set t" by (auto simp: table_remove_def)
    moreover from mem ok have "CHR ''/'' \<notin> set (snd k')"
      and held: "(pr_volume_id p, holder g (fst k') (snd k')) \<in> held w"
      by (auto simp: ledger_def)
    ultimately have "holder g (fst k') (snd k') \<noteq> holder g (fst k) (snd k)"
      using slash by (simp add: holder_inject prod_eq_iff)
    with held less show ?thesis by blast
  qed
  with ok show ?thesis by (auto simp: ledger_def table_remove_def distinct_map_filter)
qed

lemma held_at:
  assumes "engine_keeps g held"
  shows "resolve g m w = (w1, r) \<Longrightarrow> held w1 = held w"
    and "attach g v h w = (w1, r) \<Longrightarrow> held w \<subseteq> held w1"
    and "detach g v h w = (w1, e) \<Longrightarrow> held w - {(v, h)} \<subseteq> held w1"
  using held_resolve [OF assms, of m w] held_attach(1) [OF assms, of w v h] held_detach(1) [OF assms, of w v h]
  by simp_all

lemma held_host:
  assumes "host_keeps (gs_host g) held"
  shows "place g m d p w = (w1, r) \<Longrightarrow> held w1 = held w" and "undo g q w = (w1, e) \<Longrightarrow> held w1 = held w"
  using held_place [OF assms, of m d p w] held_undo [OF assms, of q w] by simp_all

text \<open>The table after presenting: unchanged on an error, the entry added on success.\<close>

lemma present_table:
  "present g process m (w, t) = ((w', t'), Inl e) \<Longrightarrow> t' = t"
  "present g process m (w, t) = ((w', t'), Inr p) \<Longrightarrow> t' = table_insert (process, gm_name m) p t"
  by (auto simp: present_def Let_def split: prod.splits sum.splits option.splits)

lemma ledger_present:
  assumes keeps: "engine_keeps g held" "host_keeps (gs_host g) held"
    and ok: "ledger g held (w, t)" and new: "map_of t (process, gm_name m) = None"
    and slash: "CHR ''/'' \<notin> set (gm_name m)"
  shows "ledger g held (fst (present g process m (w, t)))"
proof -
  let ?h = "holder g process (gm_name m)"
  obtain w1 r where r: "resolve g m w = (w1, r)" by fastforce
  show ?thesis
  proof (cases r)
    case (Inl e)
    with r ok show ?thesis by (simp add: present_def ledger_mono held_at(1) [OF keeps(1) r])
  next
    case (Inr v)
    obtain w2 a where a: "attach g v ?h w1 = (w2, a)" by fastforce
    have grow: "held w \<subseteq> held w2" using held_at(1) [OF keeps(1) r] held_at(2) [OF keeps(1) a] by simp
    show ?thesis
    proof (cases a)
      case (Inl e)
      with r Inr a ok grow show ?thesis by (simp add: present_def ledger_mono)
    next
      case (Inr device)
      obtain w3 q where q: "place g m device (path_of g m) w2 = (w3, q)" by fastforce
      have w3: "held w3 = held w2" by (rule held_host(1) [OF keeps(2) q])
      show ?thesis
      proof (cases q)
        case (Some e)
        have "ledger g held (w3, t)" using ok grow w3 by (simp add: ledger_mono)
        from ledger_without [OF this, of "(process, gm_name m)" v] held_detach(1) [OF keeps(1), of w3 v ?h]
        have "ledger g held (fst (detach g v ?h w3), t)"
          using slash by (simp add: table_remove_absent [OF new])
        with r \<open>r = Inr v\<close> a \<open>a = Inr device\<close> q Some show ?thesis by (simp add: present_def)
      next
        case None
        have "(v, ?h) \<in> held w3" using held_attach(3) [OF keeps(1)] a \<open>a = Inr device\<close> w3 by simp
        moreover have "ledger g held (w3, t)" using ok grow w3 by (simp add: ledger_mono)
        ultimately show ?thesis
          using r \<open>r = Inr v\<close> a \<open>a = Inr device\<close> q None slash
          by (simp add: present_def Let_def ledger_insert presented_as_def)
      qed
    qed
  qed
qed

lemma ledger_release:
  assumes keeps: "engine_keeps g held" "host_keeps (gs_host g) held" and ok: "ledger g held (w, t)"
  shows "ledger g held (fst (release g process name (w, t)))"
proof (cases "map_of t (process, name)")
  case None
  with ok show ?thesis by (simp add: release_def)
next
  case (Some p)
  then have "((process, name), p) \<in> set t" by (rule map_of_SomeD)
  with ok have slash: "CHR ''/'' \<notin> set name" and p: "(pr_volume_id p, holder g process name) \<in> held w"
    by (auto simp: ledger_def)
  obtain w1 u where u: "undo g p w = (w1, u)" by fastforce
  have w1: "held w1 = held w" by (rule held_host(2) [OF keeps(2) u])
  then have ok1: "ledger g held (w1, t)" using ok by (simp add: ledger_mono)
  show ?thesis
  proof (cases u)
    case (Some e)
    have "ledger g held (w1, table_insert (process, name) p (table_remove (process, name) t))"
      using ledger_without [OF ok1, of "(process, name)" undefined w1] slash p w1
      by (intro ledger_insert) auto
    with \<open>map_of t (process, name) = Some p\<close> u Some show ?thesis by (simp add: release_def)
  next
    case None
    obtain w2 d where d: "detach g (pr_volume_id p) (holder g process name) w1 = (w2, d)" by fastforce
    have "ledger g held (w2, table_remove (process, name) t)"
      using ledger_without [OF ok1, of "(process, name)"] held_at(3) [OF keeps(1) d] slash by simp
    with \<open>map_of t (process, name) = Some p\<close> u None d show ?thesis by (simp add: release_def)
  qed
qed

lemma ledger_present_until:
  assumes keeps: "engine_keeps g held" "host_keeps (gs_host g) held" and sleep: "\<And>w. held (sleep w) = held w"
    and slash: "CHR ''/'' \<notin> set (gm_name m)"
    and "ledger g held s" "map_of (snd s) (process, gm_name m) = None"
    and ret: "present_until g stop sleep process m s = Some (s', ok)"
  shows "ledger g held s' \<and> (if ok then map_of (snd s') (process, gm_name m) \<noteq> None \<and>
      (\<forall>k. map_of (snd s) k \<noteq> None \<longrightarrow> map_of (snd s') k \<noteq> None) else stop (fst s') \<and> snd s' = snd s)"
proof -
  let ?P = "\<lambda>g' stop' sleep' process' m' s r. g' = g \<longrightarrow> stop' = stop \<longrightarrow> sleep' = sleep \<longrightarrow> process' = process \<longrightarrow>
     m' = m \<longrightarrow> ledger g held s \<longrightarrow> map_of (snd s) (process, gm_name m) = None \<longrightarrow> ledger g held (fst r) \<and>
     (if snd r then map_of (snd (fst r)) (process, gm_name m) \<noteq> None \<and>
        (\<forall>k. map_of (snd s) k \<noteq> None \<longrightarrow> map_of (snd (fst r)) k \<noteq> None)
      else stop (fst (fst r)) \<and> snd (fst r) = snd s)"
  have "?P g stop sleep process m s (s', ok)"
  proof (rule present_until.raw_induct [where P = ?P, OF _ ret], intro impI, goal_cases)
    case (1 f g' stop' sleep' process' m' s r)
    note IH = "1"(1) and eqs = "1"(3-7) and ok = "1"(8) and new = "1"(9)
    obtain w t where s: "s = (w, t)" by fastforce
    show ?case
    proof (cases "stop w")
      case True
      with "1"(2) ok s eqs show ?thesis by auto
    next
      case False
      obtain w1 t1 q where q: "present g process m s = ((w1, t1), q)" by (metis prod.collapse)
      have ok1: "ledger g held (w1, t1)"
        using ledger_present [OF keeps _ _ slash, of w t process] ok new s q by simp
      show ?thesis
      proof (cases q)
        case (Inr p)
        have t1: "t1 = table_insert (process, gm_name m) p t" using present_table(2) q Inr s by metis
        have "r = ((w1, t1), True)" using "1"(2) False s eqs q Inr by simp
        with ok1 t1 s show ?thesis by simp
      next
        case (Inl e)
        have t1: "t1 = t" using present_table(1) q Inl s by metis
        have "f g stop sleep process m (sleep w1, t) = Some r" using "1"(2) False s eqs q Inl t1 by simp
        from IH [OF this] ok1 new t1 s sleep show ?thesis by (auto simp: ledger_def)
      qed
    qed
  qed
  with assms(5,6) show ?thesis unfolding fst_conv snd_conv by blast
qed

lemma ledger_present_all:
  assumes keeps: "engine_keeps g held" "host_keeps (gs_host g) held" and sleep: "\<And>w. held (sleep w) = held w"
  shows "present_all g stop sleep process ms s = Some (s', ok) \<Longrightarrow> \<forall>m \<in> set ms. CHR ''/'' \<notin> set (gm_name m) \<Longrightarrow>
    ledger g held s \<Longrightarrow> ledger g held s' \<and> (\<forall>k. map_of (snd s) k \<noteq> None \<longrightarrow> map_of (snd s') k \<noteq> None) \<and>
      (if ok then \<forall>m \<in> set ms. map_of (snd s') (process, gm_name m) \<noteq> None else stop (fst s'))"
proof (induction ms arbitrary: s)
  case Nil
  then show ?case by simp
next
  case (Cons m ms)
  show ?case
  proof (cases "map_of (snd s) (process, gm_name m)")
    case (Some p)
    with Cons.prems(1) have "present_all g stop sleep process ms s = Some (s', ok)" by simp
    from Cons.IH [OF this] Cons.prems(2,3) Some show ?thesis by auto
  next
    case None
    then obtain s1 ok1 where one: "present_until g stop sleep process m s = Some (s1, ok1)"
      and more: "(if ok1 then present_all g stop sleep process ms s1 else Some (s1, False)) = Some (s', ok)"
      using Cons.prems(1) by (auto split: option.splits)
    have slash: "CHR ''/'' \<notin> set (gm_name m)" using Cons.prems(2) by simp
    note first = ledger_present_until [OF keeps sleep slash Cons.prems(3) None one]
    show ?thesis
    proof (cases ok1)
      case True
      with more have "present_all g stop sleep process ms s1 = Some (s', ok)" by simp
      from Cons.IH [OF this] Cons.prems(2) first True show ?thesis by auto
    next
      case False
      with more first show ?thesis by auto
    qed
  qed
qed

lemma ledger_release_all:
  assumes keeps: "engine_keeps g held" "host_keeps (gs_host g) held" and ok: "ledger g held s"
  shows "ledger g held (release_all g arrange s)"
proof -
  have "ledger g held (foldl (\<lambda>s (process, name). fst (release g process name s)) s ks)" for ks
    using ok
  proof (induction ks arbitrary: s)
    case (Cons k ks)
    obtain process name w t where k: "k = (process, name)" "s = (w, t)" by fastforce
    with Cons.prems have "ledger g held (fst (release g process name s))"
      by (simp add: ledger_release [OF keeps])
    from Cons.IH [OF this] k show ?case by simp
  qed simp
  then show ?thesis by (simp add: release_all_def)
qed

lemma release_done:
  "release g process name s = (s', None) \<Longrightarrow> map_of (snd s') (process, name) = None"
  by (cases s) (auto simp: release_def split: option.splits prod.splits)

lemma ledger_swap:
  assumes keeps: "engine_keeps g held" "host_keeps (gs_host g) held" and ok: "ledger g held s"
    and free: "map_of (snd s) (process, gm_name old) = None"
    and same: "gm_name new = gm_name old" "CHR ''/'' \<notin> set (gm_name old)"
  shows "ledger g held (fst (swap_presented g process old new s))"
proof -
  obtain w t where s: "s = (w, t)" by fastforce
  obtain w1 t1 r where r: "present g process new (w, t) = ((w1, t1), r)" by (metis prod.collapse)
  have ok1: "ledger g held (w1, t1)"
    using ledger_present [OF keeps, of w t process new] ok free same s r by simp
  show ?thesis
  proof (cases r)
    case (Inl e)
    with r have "t1 = t" by (auto dest: present_table(1))
    with ok1 free same s have "ledger g held (fst (present g process old (w1, t1)))"
      by (intro ledger_present [OF keeps]) simp_all
    with s r Inl show ?thesis by (simp add: swap_presented_def)
  next
    case (Inr p)
    with s r ok1 show ?thesis by (simp add: swap_presented_def)
  qed
qed

section \<open>The life of the table\<close>

text \<open>
  What the supervisor and the shutdown do with the goldens, and the rest of the world going on
  (\<open>moves\<close>) in between.
\<close>

inductive golden_step ::
    "'w goldens \<Rightarrow> ('w \<Rightarrow> 'w \<Rightarrow> bool) \<Rightarrow> ('w \<Rightarrow> 'w) \<Rightarrow> 'w \<times> table \<Rightarrow> 'w \<times> table \<Rightarrow> bool"
  for g moves sleep where
    starting: "present_all g stop sleep process ms s = Some (s', ok) \<Longrightarrow>
      \<forall>m \<in> set ms. CHR ''/'' \<notin> set (gm_name m) \<Longrightarrow> golden_step g moves sleep s s'"
  | releasing: "golden_step g moves sleep s (fst (release g process name s))"
  | swapping: "release g process (gm_name old) s = (s', None) \<Longrightarrow> gm_name new = gm_name old \<Longrightarrow>
      CHR ''/'' \<notin> set (gm_name old) \<Longrightarrow> golden_step g moves sleep s (fst (swap_presented g process old new s'))"
  | shutdown: "golden_step g moves sleep s (release_all g arrange s)"
  | elsewhere: "moves w w' \<Longrightarrow> golden_step g moves sleep (w, t) (w', t)"

definition undisturbed :: "('w \<Rightarrow> 'w \<Rightarrow> bool) \<Rightarrow> ('w \<Rightarrow> 'w) \<Rightarrow> ('w \<Rightarrow> 'a) \<Rightarrow> bool" where
  "undisturbed moves sleep held \<longleftrightarrow> (\<forall>w w'. moves w w' \<longrightarrow> held w' = held w) \<and> (\<forall>w. held (sleep w) = held w)"

lemma golden_step_ledger:
  assumes keeps: "engine_keeps g held" "host_keeps (gs_host g) held" and still: "undisturbed moves sleep held"
  shows "golden_step g moves sleep s s' \<Longrightarrow> ledger g held s \<Longrightarrow> ledger g held s'"
proof (induction rule: golden_step.induct)
  case (starting stop process ms s s' ok)
  have sleep: "held (sleep w) = held w" for w using still by (simp add: undisturbed_def)
  from ledger_present_all [OF keeps sleep starting.hyps starting.prems] show ?case by blast
next
  case (releasing s process name)
  then show ?case by (cases s) (simp add: ledger_release [OF keeps])
next
  case (swapping process old s s' new)
  have "ledger g held s'"
    using ledger_release [OF keeps, of "fst s" "snd s" process "gm_name old"] swapping by simp
  with swapping release_done [OF swapping.hyps(1)] show ?case by (simp add: ledger_swap [OF keeps])
next
  case (shutdown s arrange)
  then show ?case by (simp add: ledger_release_all [OF keeps])
next
  case (elsewhere w w' t)
  with still show ?case by (simp add: undisturbed_def ledger_def)
qed

section \<open>When presenting ends\<close>

text \<open>The state before the \<open>k\<close>-th try, when every try before failed.\<close>

fun before_try :: "'w goldens \<Rightarrow> ('w \<Rightarrow> 'w) \<Rightarrow> string \<Rightarrow> golden_mount \<Rightarrow> nat \<Rightarrow> 'w \<times> table \<Rightarrow> 'w \<times> table" where
  "before_try g sleep process m 0 s = s"
| "before_try g sleep process m (Suc k) s =
     before_try g sleep process m k (on_world sleep (fst (present g process m s)))"

definition settles :: "'w goldens \<Rightarrow> ('w \<Rightarrow> bool) \<Rightarrow> string \<Rightarrow> golden_mount \<Rightarrow> 'w \<times> table \<Rightarrow> bool" where
  "settles g stop process m s \<longleftrightarrow> stop (fst s) \<or> (\<exists>p. snd (present g process m s) = Inr p)"

definition settled :: "'w goldens \<Rightarrow> ('w \<Rightarrow> bool) \<Rightarrow> string \<Rightarrow> golden_mount \<Rightarrow> 'w \<times> table \<Rightarrow> ('w \<times> table) \<times> bool" where
  "settled g stop process m s =
     (if stop (fst s) then (s, False) else (fst (present g process m s), True))"

lemma present_until_step:
  "present_until g stop sleep process m s =
     (if settles g stop process m s then Some (settled g stop process m s)
      else present_until g stop sleep process m (on_world sleep (fst (present g process m s))))"
  by (subst present_until.simps)
    (auto simp: settles_def settled_def on_world_def split: prod.split sum.split)

lemma present_until_at:
  "(\<And>j. j < k \<Longrightarrow> \<not> settles g stop process m (before_try g sleep process m j s)) \<Longrightarrow>
   settles g stop process m (before_try g sleep process m k s) \<Longrightarrow>
   present_until g stop sleep process m s = Some (settled g stop process m (before_try g sleep process m k s))"
proof (induction k arbitrary: s)
  case 0
  then show ?case by (subst present_until_step) simp
next
  case (Suc k)
  from Suc.prems(1) [of 0] have "\<not> settles g stop process m s" by simp
  moreover have "present_until g stop sleep process m (on_world sleep (fst (present g process m s))) =
      Some (settled g stop process m (before_try g sleep process m (Suc k) s))"
    using Suc.prems(1) [of "Suc _"] Suc.prems(2) by (subst Suc.IH) simp_all
  ultimately show ?case by (subst present_until_step) simp
qed

lemma present_until_settles:
  "present_until g stop sleep process m s = Some r \<Longrightarrow> \<exists>k. settles g stop process m (before_try g sleep process m k s)"
proof (rule present_until.raw_induct
    [where P = "\<lambda>g stop sleep process m s r. \<exists>k. settles g stop process m (before_try g sleep process m k s)"])
  fix f g stop sleep process m s and r :: "('a \<times> table) \<times> bool"
  assume IH: "\<And>g stop sleep process m s r. f g stop sleep process m s = Some r \<Longrightarrow>
      \<exists>k. settles g stop process m (before_try g sleep process m k s)"
    and eq: "(if stop (fst s) then Some (s, False)
      else case present g process m s of (s1, Inl b) \<Rightarrow> f g stop sleep process m (sleep (fst s1), snd s1)
           | (s1, Inr b) \<Rightarrow> Some (s1, True)) = Some r"
  show "\<exists>k. settles g stop process m (before_try g sleep process m k s)"
  proof (cases "settles g stop process m s")
    case True
    then have "settles g stop process m (before_try g sleep process m 0 s)" by simp
    then show ?thesis by blast
  next
    case False
    with eq have "f g stop sleep process m (on_world sleep (fst (present g process m s))) = Some r"
      by (auto simp: settles_def on_world_def split: prod.splits sum.splits)
    from IH [OF this] obtain k where "settles g stop process m (before_try g sleep process m (Suc k) s)" by auto
    then show ?thesis by blast
  qed
qed

section \<open>Properties\<close>

text \<open>C30: Presenting a golden returns exactly when some try finds the shutdown begun or succeeds, and then
  with the outcome of the first such try; a golden the engine never attaches is tried for ever.\<close>

theorem presenting_ends_exactly:
  "present_until g stop sleep process m s =
     (if \<exists>k. settles g stop process m (before_try g sleep process m k s)
      then Some (settled g stop process m
             (before_try g sleep process m (LEAST k. settles g stop process m (before_try g sleep process m k s)) s))
      else None)"
proof (cases "\<exists>k. settles g stop process m (before_try g sleep process m k s)")
  case True
  then show ?thesis by (auto dest: not_less_Least intro!: present_until_at intro: LeastI_ex)
next
  case False
  then show ?thesis
    using present_until_settles [of g stop sleep process m s]
    by (cases "present_until g stop sleep process m s") auto
qed


text \<open>Releasing a golden that was presented gives back its attach and nothing else, and leaves the
  table as it was before.\<close>

theorem release_undoes_present:
  assumes "engine_keeps g held" and "host_keeps (gs_host g) held"
    and "map_of t (process, gm_name m) = None"
    and "present g process m (w, t) = ((w1, t1), Inr p)"
    and "release g process (gm_name m) (w1, t1) = ((w2, t2), None)"
    and "(pr_volume_id p, holder g process (gm_name m)) \<notin> held w"
  shows "held w2 = held w \<and> t2 = t"
proof -
  let ?a = "(pr_volume_id p, holder g process (gm_name m))"
  have t1: "t1 = table_insert (process, gm_name m) p t" using assms(4) by (rule present_table(2))
  then have here: "map_of t1 (process, gm_name m) = Some p" by simp
  obtain wr wa where r: "resolve g m w = (wr, Inr (pr_volume_id p))"
    and a: "attach g (pr_volume_id p) (holder g process (gm_name m)) wr = (wa, Inr (pr_device p))"
    and q: "place g m (pr_device p) (path_of g m) wa = (w1, None)"
    using assms(4) by (auto simp: present_def Let_def presented_as_def split: prod.splits sum.splits option.splits)
  have up: "held w \<subseteq> held w1" "held w1 \<subseteq> insert ?a (held w)"
    using held_at(1) [OF assms(1) r] held_at(2) [OF assms(1) a] held_host(1) [OF assms(2) q]
      held_attach(2) [OF assms(1), where w = wr and v = "pr_volume_id p" and h = "holder g process (gm_name m)"] a
    by simp_all
  obtain wu where u: "undo g p w1 = (wu, None)"
    and d: "detach g (pr_volume_id p) (holder g process (gm_name m)) wu = (w2, None)"
    and t2: "t2 = table_remove (process, gm_name m) t1"
    using assms(5) here by (auto simp: release_def split: prod.splits option.splits)
  have "held w1 - {?a} \<subseteq> held w2" "held w2 \<subseteq> held w1" "?a \<notin> held w2"
    using held_host(2) [OF assms(2) u] held_at(3) [OF assms(1) d] held_detach(3) [OF assms(1) d]
      held_detach(2) [OF assms(1), where w = wu and v = "pr_volume_id p" and h = "holder g process (gm_name m)"] d
    by simp_all
  with up assms(6) have "held w2 = held w" by blast
  moreover have "t2 = t"
    using t2 t1 table_remove_absent [OF assms(3)] by (simp add: table_insert_def table_remove_def)
  ultimately show ?thesis by simp
qed

text \<open>C31: A release whose detach fails has already dropped the entry: the caller gets the error once, every
  later release finds nothing to do and succeeds, and the engine is never asked again.\<close>

theorem failed_detach_is_forgotten:
  assumes "map_of t (process, name) = Some p"
    and "undo g p w = (w1, None)"
    and "detach g (pr_volume_id p) (holder g process name) w1 = (w2, Some e)"
  shows "release g process name (w, t) = ((w2, table_remove (process, name) t), Some e)
    \<and> release g process name (w2, table_remove (process, name) t) = ((w2, table_remove (process, name) t), None)"
  using assms by (simp add: release_def)

text \<open>An attach the engine answers with another transport than ublk is an error after which no detach
  is sent: the attach stays at the engine, though nothing is presented.\<close>

theorem foreign_attach_is_kept:
  assumes "engine_keeps g held" and "resolve g m w = (w1, Inr v)"
    and "gs_client g (auth g w1 (attach_request g v (holder g process (gm_name m)))) w1 = (w2, Inr a)"
    and "is_success a" and "an_json a = Inr info" and "as_str (json_get info ''transport'') \<noteq> Some ''ublk''"
  shows "present g process m (w, t) = ((w2, t), Inl (not_local g v info))
    \<and> (v, holder g process (gm_name m)) \<in> held w2"
proof -
  let ?h = "holder g process (gm_name m)"
  have "attach g v ?h w1 = (w2, Inl (not_local g v info))"
    using assms(3-6) by (auto simp: attach_def split: option.splits)
  moreover have "(v, ?h) \<in> held w2"
    using assms(1,3,4) by (simp add: engine_keeps_def Let_def split: prod.splits) blast
  ultimately show ?thesis using assms(2) by (simp add: present_def)
qed

section \<open>A small engine\<close>

text \<open>The world is the set of attaches, each the URL asked and the holder named.\<close>

type_synonym attaches = "(string \<times> string) set"

definition reply_json :: "nat \<Rightarrow> json \<Rightarrow> http_answer" where
  "reply_json st body = \<lparr>an_status = st, an_shown = show_nat st, an_text = Inr [], an_json = Inr body,
     an_headers = []\<rparr>"

definition holder_of :: "http_request \<Rightarrow> string" where
  "holder_of r = (case rq_json r of
      Some j \<Rightarrow> (case as_str (json_get j ''holder'') of Some h \<Rightarrow> h | None \<Rightarrow> []) | None \<Rightarrow> [])"

definition gone_with :: "nat \<Rightarrow> bool" where
  "gone_with st \<longleftrightarrow> 200 \<le> st \<and> st < 300 \<or> st = 404"

definition small_client :: "string \<Rightarrow> nat \<Rightarrow> attaches http_client" where
  "small_client transport st r w =
     (case rq_method r of
        POST \<Rightarrow> (insert (rq_url r, holder_of r) w,
           Inr (reply_json 200 (JObj [(''transport'', JStr transport), (''device_hint'', JStr ''/dev/ublkb1'')])))
      | DELETE \<Rightarrow> (if gone_with st then w - {(rq_url r, snd (hd (rq_query r)))} else w, Inr (reply_json st JNull))
      | _ \<Rightarrow> (w, Inr (reply_json 200 JNull)))"

definition small_host :: "attaches golden_host" where
  "small_host = \<lparr>gh_devno = (\<lambda>_ _. Inr 1), gh_make_node = (\<lambda>_ _ _ _ w. (w, None)), gh_mkdir_p = (\<lambda>_ w. (w, None)),
     gh_mount_ro = (\<lambda>_ _ _ w. (w, None)), gh_unmount = (\<lambda>_ w. (w, None)), gh_remove = (\<lambda>_ w. (w, None))\<rparr>"

definition small :: "string \<Rightarrow> nat \<Rightarrow> attaches goldens" where
  "small transport st =
     \<lparr>gs_cfg = \<lparr>gd_engine_url = ''http://e'', gd_token_file = ''/t'', gd_dir = ''/goldens''\<rparr>, gs_container = ''c'',
      gs_host = small_host, gs_client = small_client transport st, gs_token = (\<lambda>_ _. None), gs_vars = (\<lambda>_. None),
      gs_show_json = (\<lambda>_. [])\<rparr>"

definition small_held :: "string \<Rightarrow> nat \<Rightarrow> attaches \<Rightarrow> (string \<times> string) set" where
  "small_held transport st w = {(v, h). (attach_url (small transport st) v, h) \<in> w}"

definition boot :: golden_mount where
  "boot = \<lparr>gm_name = ''boot'', gm_golden = None, gm_volume_id = Some ''v'', gm_content = Image, gm_path = None,
     gm_fstype = ''ext4'', gm_owner = None, gm_mode = 0, gm_size_bytes = None\<rparr>"

lemma small_simps [simp]:
  "gs_client (small x st) = small_client x st" "gs_host (small x st) = small_host" "auth (small x st) w r = r"
  by (simp_all add: small_def auth_def)

lemma holder_of_attach [simp]: "holder_of (attach_request g v h) = h"
  by (simp add: holder_of_def attach_request_def)

lemma small_keeps: "engine_keeps (small x st) (small_held x st)" "host_keeps (gs_host (small x st)) held"
  by (auto simp: engine_keeps_def small_held_def small_client_def ask_def attach_request_def
      gone_with_def detach_request_def attach_url_def holder_of_def done_with_def reply_json_def is_success_def
      host_keeps_def small_host_def Let_def)

lemma boot_simps [simp]: "gm_name boot = ''boot''" "gm_volume_id boot = Some ''v''" "gm_content boot = Image"
  by (simp_all add: boot_def)

definition boot_presented :: "nat \<Rightarrow> presented" where
  "boot_presented st = presented_as (small ''ublk'' st) ''p'' boot ''v'' ''/dev/ublkb1''"

definition boot_attach :: "nat \<Rightarrow> string \<times> string" where
  "boot_attach st = (attach_url (small ''ublk'' st) ''v'', holder (small ''ublk'' st) ''p'' ''boot'')"

lemma small_present: "present (small ''ublk'' st) ''p'' boot (w, t) =
    ((insert (boot_attach st) w, table_insert (''p'', ''boot'') (boot_presented st) t), Inr (boot_presented st))"
  by (simp add: present_def resolve_def attach_def small_client_def attach_request_def ask_def place_def
      small_host_def reply_json_def is_success_def boot_presented_def boot_attach_def holder_of_def Let_def)

lemma small_start: "present_all (small ''ublk'' st) (\<lambda>_. False) (\<lambda>w. w) ''p'' [boot] ({}, []) =
    Some (({boot_attach st}, [((''p'', ''boot''), boot_presented st)]), True)"
  by (simp, subst present_until.simps) (simp add: small_present table_insert_def)

lemma small_detach: "detach (small ''ublk'' st) v h w =
    (if gone_with st then w - {(attach_url (small ''ublk'' st) v, h)} else w,
     if gone_with st then None else Some (refused (attach_url (small ''ublk'' st) v) (reply_json st JNull)))"
  by (simp add: detach_def small_client_def detach_request_def ask_def is_success_def reply_json_def gone_with_def)

lemma gone_with_simps [simp]: "gone_with 200" "\<not> gone_with 500"
  by (simp_all add: gone_with_def)

lemma boot_presented_simps [simp]: "pr_content (boot_presented st) = Image" "pr_volume_id (boot_presented st) = ''v''"
  by (simp_all add: boot_presented_def presented_as_def)


lemma release_undoes_present_witness:
  "\<exists>w t. release (small ''ublk'' 200) ''p'' ''boot'' ({boot_attach 200}, [((''p'', ''boot''), boot_presented 200)]) = ((w, t), None)
   \<and> small_held ''ublk'' 200 w = small_held ''ublk'' 200 {} \<and> t = []"
proof -
  have undone: "release (small ''ublk'' 200) ''p'' ''boot'' ({boot_attach 200}, [((''p'', ''boot''), boot_presented 200)]) = (({}, []), None)"
    by (simp add: release_def undo_def small_host_def small_detach table_remove_def boot_attach_def)
  have "present (small ''ublk'' 200) ''p'' boot ({}, []) =
      (({boot_attach 200}, [((''p'', ''boot''), boot_presented 200)]), Inr (boot_presented 200))"
    by (simp add: small_present table_insert_def)
  from release_undoes_present [OF small_keeps _ this] undone show ?thesis by (simp add: small_held_def)
qed

lemma failed_detach_is_forgotten_witness:
  "\<exists>e. release (small ''ublk'' 500) ''p'' ''boot'' ({boot_attach 500}, [((''p'', ''boot''), boot_presented 500)])
     = (({boot_attach 500}, []), Some e)
   \<and> release (small ''ublk'' 500) ''p'' ''boot'' ({boot_attach 500}, []) = (({boot_attach 500}, []), None)"
  using failed_detach_is_forgotten [of "[((''p'', ''boot''), boot_presented 500)]" "''p''" "''boot''" "boot_presented 500"
      "small ''ublk'' 500" "{boot_attach 500}" "{boot_attach 500}" "{boot_attach 500}"]
  by (simp add: undo_def small_host_def small_detach table_remove_def)

lemma foreign_attach_is_kept_witness:
  "\<exists>w e. present (small ''nbd'' 200) ''p'' boot ({}, []) = ((w, []), Inl e)
     \<and> (''v'', holder (small ''nbd'' 200) ''p'' ''boot'') \<in> small_held ''nbd'' 200 w"
proof -
  have r: "resolve (small ''nbd'' 200) boot {} = ({}, Inr ''v'')" by (simp add: resolve_def)
  show ?thesis
    using foreign_attach_is_kept [OF small_keeps(1) r, of "''p''"]
    by (simp add: small_client_def attach_request_def ask_def reply_json_def is_success_def)
qed

end
