(* ===== verification/Updater.thy ===== *)
theory Updater
  imports Config Http FileSys Events
begin

text \<open>
  \<open>crates/stormd/src/updater.rs\<close>: processes that run from an image. An image is pulled into a new
  root file system, the old one is swapped out while the process is stopped, and what was started is
  recorded beside it. The registry client, the OCI configuration and the tar archives are libraries of
  others: their results are arguments (\<open>up_env\<close>), as are the file system (\<open>os\<close>) and the calls of
  the supervisor. \<open>'w\<close> is the state of all of them.
\<close>

section \<open>Images and records\<close>

datatype update_status = Idle | Checking | Pulling | Pivoting | Failed

record image_state =
  im_image :: string
  im_current_digest :: "string option"
  im_rootfs_path :: "string option"
  im_last_check :: "millis option"
  im_last_update :: "millis option"
  im_status :: update_status

record rootfs_record =
  rr_image :: string
  rr_digest :: "string option"
  rr_cmd :: "string list"
  rr_env :: "(string \<times> string) list"
  rr_working_dir :: "string option"

definition record_path :: "string \<Rightarrow> string \<Rightarrow> string" where
  "record_path rootfs_dir name = path_join rootfs_dir (name @ ''.image.json'')"

text \<open>The record as JSON, the fields in their order; an absent option is \<open>null\<close>.\<close>

definition opt_json :: "string option \<Rightarrow> json" where
  "opt_json x = (case x of None \<Rightarrow> JNull | Some s \<Rightarrow> JStr s)"

definition record_json :: "rootfs_record \<Rightarrow> json" where
  "record_json r = JObj
     [(''image'', JStr (rr_image r)), (''digest'', opt_json (rr_digest r)), (''cmd'', JArr (map JStr (rr_cmd r))),
      (''env'', JObj (map (\<lambda>(k, v). (k, JStr v)) (rr_env r))), (''working_dir'', opt_json (rr_working_dir r))]"

text \<open>
  Reading it back: a field twice, a required field missing or a value of another type is an error, an
  option may be missing, other fields are passed over, and the fields may come as an array. Keys of the environment given twice: the
  last counts.
\<close>

datatype 'a field = Absent | Given 'a | Bad

definition field_of :: "string \<Rightarrow> (string \<times> json) list \<Rightarrow> json field" where
  "field_of k kvs = (case filter (\<lambda>e. fst e = k) kvs of [] \<Rightarrow> Absent | [(_, v)] \<Rightarrow> Given v | _ \<Rightarrow> Bad)"

definition opt_string :: "json field \<Rightarrow> string option option" where
  "opt_string f =
     (case f of Absent \<Rightarrow> Some None | Given JNull \<Rightarrow> Some None | Given (JStr s) \<Rightarrow> Some (Some s) | _ \<Rightarrow> None)"

fun all_strings :: "json list \<Rightarrow> string list option" where
  "all_strings [] = Some []"
| "all_strings (JStr s # vs) = map_option (Cons s) (all_strings vs)"
| "all_strings _ = None"

definition env_insert :: "string \<Rightarrow> string \<Rightarrow> (string \<times> string) list \<Rightarrow> (string \<times> string) list" where
  "env_insert k v env = filter (\<lambda>e. fst e \<noteq> k) env @ [(k, v)]"

fun string_map :: "(string \<times> json) list \<Rightarrow> (string \<times> string) list \<Rightarrow> (string \<times> string) list option" where
  "string_map [] env = Some env"
| "string_map ((k, JStr v) # kvs) env = string_map kvs (env_insert k v env)"
| "string_map _ env = None"

definition record_from :: "json field \<Rightarrow> json field \<Rightarrow> json field \<Rightarrow> json field \<Rightarrow> json field \<Rightarrow> rootfs_record option" where
  "record_from img digest cmd env wd =
     (case (img, opt_string digest, cmd, env, opt_string wd) of
        (Given (JStr i), Some d, Given (JArr c), Given (JObj e), Some dir) \<Rightarrow>
          (case (all_strings c, string_map e []) of
             (Some c', Some e') \<Rightarrow>
               Some \<lparr>rr_image = i, rr_digest = d, rr_cmd = c', rr_env = e', rr_working_dir = dir\<rparr>
           | _ \<Rightarrow> None)
      | _ \<Rightarrow> None)"

definition parse_record :: "json \<Rightarrow> rootfs_record option" where
  "parse_record j =
     (case j of
        JObj kvs \<Rightarrow>
          record_from (field_of ''image'' kvs) (field_of ''digest'' kvs) (field_of ''cmd'' kvs)
            (field_of ''env'' kvs) (field_of ''working_dir'' kvs)
      | JArr [img, digest, cmd, env, wd] \<Rightarrow>
          record_from (Given img) (Given digest) (Given cmd) (Given env) (Given wd)
      | _ \<Rightarrow> None)"

text \<open>\<open>parse\<close> and \<open>print\<close> are \<open>serde_json\<close> on texts.\<close>

definition read_record :: "'w os \<Rightarrow> (string \<Rightarrow> json option) \<Rightarrow> string \<Rightarrow> string \<Rightarrow> 'w \<Rightarrow> rootfs_record option" where
  "read_record os parse rootfs_dir name w =
     (case os_read_text os w (record_path rootfs_dir name) of
        Inl _ \<Rightarrow> None
      | Inr t \<Rightarrow> (case parse t of None \<Rightarrow> None | Some j \<Rightarrow> parse_record j))"

definition write_record ::
    "'w os \<Rightarrow> (json \<Rightarrow> string) \<Rightarrow> rootfs_record \<Rightarrow> string \<Rightarrow> string \<Rightarrow> 'w \<Rightarrow> 'w \<times> string option" where
  "write_record os print r rootfs_dir name w =
     (let path = record_path rootfs_dir name;
          tmp = with_extension path ''json.tmp''
      in then_do (os_write os tmp (print (record_json r)) w) (os_rename os tmp path))"

section \<open>The configuration of an img process\<close>

text \<open>\<open>Path::strip_prefix("/")\<close> of an absolute path: what its components leave.\<close>

fun trim_front :: "string \<Rightarrow> string" where
  "trim_front (CHR ''/'' # r) = trim_front r"
| "trim_front (CHR ''.'' # CHR ''/'' # r) = trim_front r"
| "trim_front r = (if r = ''.'' then [] else r)"

definition inside :: "string \<Rightarrow> string \<Rightarrow> string" where
  "inside rootfs p = path_join rootfs (if starts_with p ''/'' then trim_front p else p)"

text \<open>\<open>named\<close> reads the table with nothing but the name and an empty command.\<close>

definition image_process_config ::
    "(string \<Rightarrow> string + process_config) \<Rightarrow> process_config option \<Rightarrow> string \<Rightarrow> string \<Rightarrow> string list
     \<Rightarrow> (string \<times> string) list \<Rightarrow> string option \<Rightarrow> string + process_config" where
  "image_process_config named original name rootfs cmd env working_dir =
     (case cmd of
        [] \<Rightarrow> Inl (''image for '' @ [CHR 0x27] @ name @ [CHR 0x27] @ '' has no entrypoint or cmd'')
      | command # args \<Rightarrow>
          (case (case original of Some c \<Rightarrow> Inr c | None \<Rightarrow> named name) of
             Inl e \<Rightarrow> Inl e
           | Inr cfg \<Rightarrow>
               Inr (cfg\<lparr>pc_command :=
                      (case strip_prefix ''/'' command of Some rel \<Rightarrow> path_join rootfs rel | None \<Rightarrow> command),
                    pc_args := args,
                    pc_working_dir := Some (case working_dir of Some wd \<Rightarrow> inside rootfs wd | None \<Rightarrow> rootfs),
                    pc_env := foldl (\<lambda>m (k, v). env_insert k v m) env (pc_env cfg)\<rparr>)))"

section \<open>The parts around it\<close>

record image_ref =
  ir_registry_url :: string
  ir_repository :: string
  ir_tag :: string

record pulled_image =
  pi_manifest_digest :: string
  pi_config_digest :: string
  pi_layer_digests :: "string list"

record oci_config =
  oc_entrypoint :: "string list option"
  oc_cmd :: "string list option"
  oc_env :: "string list option"
  oc_working_dir :: "string option"

text \<open>An entry of an archive: its path as it stands there, and its content.\<close>

record tar_entry =
  te_path :: "string + string"
  te_content :: "u8 list"

text \<open>
  The libraries and the other components: the registry client with its blob store (\<open>ue_store_init\<close>,
  \<open>ue_pull\<close>, \<open>ue_blob\<close>), the OCI configuration of a blob, the entries of an archive (of a gzip stream
  or not), \<open>tar\<close>'s \<open>unpack_in\<close>, \<open>serde_json\<close>, the clock, the supervisor and the event bus.
\<close>

record 'w up_env =
  ue_config :: updater_config
  ue_processes :: "process_config list"
  ue_os :: "'w os"
  ue_http :: "'w http_client"
  ue_parse_ref :: "string \<Rightarrow> string + image_ref"
  ue_store_init :: "string \<Rightarrow> 'w \<Rightarrow> 'w \<times> string option"
  ue_pull :: "string \<Rightarrow> string \<Rightarrow> 'w \<Rightarrow> 'w \<times> (string + pulled_image)"
  ue_blob :: "string \<Rightarrow> 'w \<Rightarrow> string \<Rightarrow> string + u8 list"
  ue_oci :: "u8 list \<Rightarrow> string + oci_config option"
  ue_entries :: "bool \<Rightarrow> u8 list \<Rightarrow> string + (string + tar_entry) list"
  ue_unpack_in :: "tar_entry \<Rightarrow> string \<Rightarrow> 'w \<Rightarrow> 'w \<times> string option"
  ue_type_error :: "string \<Rightarrow> string"
  ue_parse :: "string \<Rightarrow> json option"
  ue_print :: "json \<Rightarrow> string"
  ue_named :: "string \<Rightarrow> string + process_config"
  ue_now :: "'w \<Rightarrow> millis"
  ue_stop :: "string \<Rightarrow> 'w \<Rightarrow> 'w \<times> string option"
  ue_wait_stopped :: "string \<Rightarrow> 'w \<Rightarrow> 'w"
  ue_update_config :: "string \<Rightarrow> process_config \<Rightarrow> 'w \<Rightarrow> 'w \<times> string option"
  ue_start :: "string \<Rightarrow> 'w \<Rightarrow> 'w \<times> string option"
  ue_known :: "'w \<Rightarrow> string \<Rightarrow> bool"
  ue_register :: "process_config \<Rightarrow> 'w \<Rightarrow> 'w"
  ue_emit :: "event_kind \<Rightarrow> string option \<Rightarrow> (string \<times> json) list \<Rightarrow> 'w \<Rightarrow> 'w"

type_synonym image_states = "(string \<times> image_state) list"

definition get_state :: "image_states \<Rightarrow> string \<Rightarrow> image_state option" where
  "get_state st name = map_of st name"

definition get_all_states :: "image_states \<Rightarrow> image_state list" where
  "get_all_states st = map snd st"

text \<open>\<open>get_mut\<close>: what is not tracked stays as it is.\<close>

definition on_state :: "string \<Rightarrow> (image_state \<Rightarrow> image_state) \<Rightarrow> image_states \<Rightarrow> image_states" where
  "on_state name f st = map (\<lambda>(n, s). (n, if n = name then f s else s)) st"

definition set_status :: "string \<Rightarrow> update_status \<Rightarrow> image_states \<Rightarrow> image_states" where
  "set_status name v = on_state name (\<lambda>s. s\<lparr>im_status := v\<rparr>)"

section \<open>The registry\<close>

definition digest_request :: "image_ref \<Rightarrow> http_request" where
  "digest_request r = with_header ''Accept''
     ''application/vnd.oci.image.manifest.v1+json, application/vnd.docker.distribution.manifest.v2+json''
     (ask HEAD (ir_registry_url r @ ''/v2/'' @ ir_repository r @ ''/manifests/'' @ ir_tag r))"

definition check_digest :: "'w up_env \<Rightarrow> image_ref \<Rightarrow> 'w \<Rightarrow> 'w \<times> string option" where
  "check_digest e r w =
     (case ue_http e (digest_request r) w of
        (w1, Inl _) \<Rightarrow> (w1, None)
      | (w1, Inr a) \<Rightarrow> (w1, if is_success a then map_of (an_headers a) ''docker-content-digest'' else None))"

section \<open>Layers\<close>

text \<open>An opaque whiteout empties a directory, entry by entry, up to the first error.\<close>

fun clear_children :: "'w up_env \<Rightarrow> dir_entry list \<Rightarrow> 'w \<Rightarrow> 'w \<times> string option" where
  "clear_children e [] w = (w, None)"
| "clear_children e (c # cs) w =
     (case de_type c of
        None \<Rightarrow> (w, Some (ue_type_error e (de_path c)))
      | Some t \<Rightarrow>
          then_do (if t = Directory then os_remove_dir_all (ue_os e) (de_path c) w
                   else os_remove_file (ue_os e) (de_path c) w) (clear_children e cs))"

definition entry_name :: "string \<Rightarrow> string" where
  "entry_name path = (case file_name path of Some f \<Rightarrow> f | None \<Rightarrow> [])"

definition entry_parent :: "string \<Rightarrow> string" where
  "entry_parent path = (case path_parent path of Some d \<Rightarrow> d | None \<Rightarrow> [])"

definition unpack_entry :: "'w up_env \<Rightarrow> string \<Rightarrow> tar_entry \<Rightarrow> 'w \<Rightarrow> 'w \<times> string option" where
  "unpack_entry e target entry w =
     (case te_path entry of
        Inl err \<Rightarrow> (w, Some err)
      | Inr path \<Rightarrow>
          (let name = entry_name path;
               dir = path_join target (entry_parent path)
           in if name = ''.wh..wh..opq''
              then if path_exists (ue_os e) w dir
                   then case os_read_dir (ue_os e) w dir of
                          Inl err \<Rightarrow> (w, Some err) | Inr cs \<Rightarrow> clear_children e cs w
                   else (w, None)
              else if starts_with name ''.wh.''
              then let gone = path_join dir (drop 4 name)
                   in if path_is_dir (ue_os e) w gone then (fst (os_remove_dir_all (ue_os e) gone w), None)
                      else (fst (os_remove_file (ue_os e) gone w), None)
              else ue_unpack_in e entry target w))"

fun unpack_entries :: "'w up_env \<Rightarrow> string \<Rightarrow> (string + tar_entry) list \<Rightarrow> 'w \<Rightarrow> 'w \<times> string option" where
  "unpack_entries e target [] w = (w, None)"
| "unpack_entries e target (Inl err # es) w = (w, Some err)"
| "unpack_entries e target (Inr entry # es) w =
     then_do (unpack_entry e target entry w) (unpack_entries e target es)"

definition is_gzip :: "u8 list \<Rightarrow> bool" where
  "is_gzip data \<longleftrightarrow> 2 \<le> length data \<and> data ! 0 = 0x1f \<and> data ! 1 = 0x8b"

definition extract_layer :: "'w up_env \<Rightarrow> u8 list \<Rightarrow> string \<Rightarrow> 'w \<Rightarrow> 'w \<times> string option" where
  "extract_layer e data target w =
     (case ue_entries e (is_gzip data) data of
        Inl err \<Rightarrow> (w, Some err) | Inr es \<Rightarrow> unpack_entries e target es w)"

fun extract_layers :: "'w up_env \<Rightarrow> string \<Rightarrow> string list \<Rightarrow> 'w \<Rightarrow> 'w \<times> string option" where
  "extract_layers e target [] w = (w, None)"
| "extract_layers e target (d # ds) w =
     (case ue_blob e (uc_data_dir (ue_config e)) w d of
        Inl err \<Rightarrow> (w, Some err)
      | Inr data \<Rightarrow> then_do (extract_layer e data target w) (extract_layers e target ds))"

section \<open>Pulling\<close>

definition oci_command :: "oci_config option \<Rightarrow> string list" where
  "oci_command oci =
     (case oci of None \<Rightarrow> []
      | Some c \<Rightarrow> (case oc_entrypoint c of Some ep \<Rightarrow> ep | None \<Rightarrow> []) @ (case oc_cmd c of Some cmd \<Rightarrow> cmd | None \<Rightarrow> []))"

definition oci_env :: "oci_config option \<Rightarrow> (string \<times> string) list" where
  "oci_env oci =
     foldl (\<lambda>m e. case split_once ''='' e of Some (k, v) \<Rightarrow> env_insert k v m | None \<Rightarrow> m) []
       (case oci of None \<Rightarrow> [] | Some c \<Rightarrow> (case oc_env c of Some es \<Rightarrow> es | None \<Rightarrow> []))"

definition oci_working_dir :: "oci_config option \<Rightarrow> string option" where
  "oci_working_dir oci =
     (case oci of None \<Rightarrow> None
      | Some c \<Rightarrow> (case oc_working_dir c of Some wd \<Rightarrow> if wd = [] then None else Some wd | None \<Rightarrow> None))"

record assembled =
  as_rootfs :: string
  as_cmd :: "string list"
  as_env :: "(string \<times> string) list"
  as_working_dir :: "string option"

definition fresh_dir :: "'w os \<Rightarrow> string \<Rightarrow> 'w \<Rightarrow> 'w \<times> string option" where
  "fresh_dir os p w =
     then_do (if path_exists os w p then os_remove_dir_all os p w else (w, None)) (os_create_dir_all os p)"

definition rootfs_of :: "'w up_env \<Rightarrow> string \<Rightarrow> string" where
  "rootfs_of e name = path_join (uc_rootfs_dir (ue_config e)) name"

definition assemble :: "'w up_env \<Rightarrow> string \<Rightarrow> string \<Rightarrow> pulled_image \<Rightarrow> 'w \<Rightarrow> 'w \<times> (string + assembled)" where
  "assemble e name img pulled w =
     (case ue_blob e (uc_data_dir (ue_config e)) w (pi_config_digest pulled) of
        Inl err \<Rightarrow> (w, Inl err)
      | Inr bytes \<Rightarrow>
          (case ue_oci e bytes of
             Inl err \<Rightarrow> (w, Inl err)
           | Inr oci \<Rightarrow>
               if oci_command oci = [] then (w, Inl (''image '' @ img @ '' has no CMD or ENTRYPOINT''))
               else (let new_rootfs = rootfs_of e (name @ ''.new'')
                     in try_do (then_do (fresh_dir (ue_os e) new_rootfs w)
                                  (extract_layers e new_rootfs (pi_layer_digests pulled)))
                          (\<lambda>w1. (w1, Inr \<lparr>as_rootfs = new_rootfs, as_cmd = oci_command oci, as_env = oci_env oci,
                                  as_working_dir = oci_working_dir oci\<rparr>)))))"

definition pull_and_assemble :: "'w up_env \<Rightarrow> string \<Rightarrow> string \<Rightarrow> 'w \<Rightarrow> 'w \<times> (string + assembled)" where
  "pull_and_assemble e name img w =
     try_do (ue_store_init e (uc_data_dir (ue_config e)) w)
       (\<lambda>w1. try_with (ue_pull e (uc_data_dir (ue_config e)) img w1) (assemble e name img))"

section \<open>Pivoting\<close>

definition original_of :: "'w up_env \<Rightarrow> string \<Rightarrow> process_config option" where
  "original_of e name = List.find (\<lambda>p. pc_name p = name) (ue_processes e)"

definition stop_and_wait :: "'w up_env \<Rightarrow> string \<Rightarrow> 'w \<Rightarrow> 'w" where
  "stop_and_wait e name w =
     (case ue_stop e name w of (w1, None) \<Rightarrow> ue_wait_stopped e name w1 | (w1, Some _) \<Rightarrow> w1)"

definition swap_dirs :: "'w os \<Rightarrow> string \<Rightarrow> string \<Rightarrow> string \<Rightarrow> 'w \<Rightarrow> 'w \<times> string option" where
  "swap_dirs os new current old w =
     then_do (then_do
       (if path_exists os w old then os_remove_dir_all os old w else (w, None))
       (\<lambda>w. if path_exists os w current then os_rename os current old w else (w, None)))
       (os_rename os new current)"

text \<open>Configuring and starting a process from a root file system, after a pivot or from a record.\<close>

definition start_from ::
    "'w up_env \<Rightarrow> string \<Rightarrow> string \<Rightarrow> string list \<Rightarrow> (string \<times> string) list \<Rightarrow> string option \<Rightarrow> 'w \<Rightarrow> 'w \<times> string option" where
  "start_from e name rootfs cmd env working_dir w =
     (case image_process_config (ue_named e) (original_of e name) name rootfs cmd env working_dir of
        Inl err \<Rightarrow> (w, Some err)
      | Inr cfg \<Rightarrow> then_do (ue_update_config e name cfg w) (ue_start e name))"

text \<open>
  The old tree is removed by a task of its own when it is there; \<open>cleaned\<close> says that the task has run
  before anything else looks.
\<close>

definition pivot :: "'w up_env \<Rightarrow> bool \<Rightarrow> string \<Rightarrow> assembled \<Rightarrow> 'w \<Rightarrow> 'w \<times> string option" where
  "pivot e cleaned name a w =
     (let current = rootfs_of e name;
          old = rootfs_of e (name @ ''.old'')
      in then_do (then_do (swap_dirs (ue_os e) (as_rootfs a) current old (stop_and_wait e name w))
           (start_from e name current (as_cmd a) (as_env a) (as_working_dir a)))
           (\<lambda>w1. if path_exists (ue_os e) w1 old \<and> cleaned then (fst (os_remove_dir_all (ue_os e) old w1), None)
                else (w1, None)))"

definition start_recorded :: "'w up_env \<Rightarrow> string \<Rightarrow> string \<Rightarrow> rootfs_record \<Rightarrow> 'w \<Rightarrow> 'w \<times> string option" where
  "start_recorded e name rootfs r w = start_from e name rootfs (rr_cmd r) (rr_env r) (rr_working_dir r) w"

section \<open>One update\<close>

definition update_detail :: "string \<Rightarrow> string \<Rightarrow> (string \<times> json) list" where
  "update_detail img msg = [(''image'', JStr img), (''detail'', JStr msg)]"

text \<open>A failure: the status and the event, and the error to the caller.\<close>

definition update_fails ::
    "'w up_env \<Rightarrow> string \<Rightarrow> string \<Rightarrow> string \<Rightarrow> string \<Rightarrow> 'w \<times> image_states \<Rightarrow> ('w \<times> image_states) \<times> string option" where
  "update_fails e name img what err = (\<lambda>(w, st).
     ((ue_emit e UpdateFailed (Some name) (update_detail img (what @ '' failed: '' @ err)) w,
       set_status name Failed st), Some err))"

definition record_of :: "string \<Rightarrow> string option \<Rightarrow> assembled \<Rightarrow> rootfs_record" where
  "record_of img digest a = \<lparr>rr_image = img, rr_digest = digest, rr_cmd = as_cmd a, rr_env = as_env a,
     rr_working_dir = as_working_dir a\<rparr>"

definition new_digest :: "'w up_env \<Rightarrow> string \<Rightarrow> 'w \<Rightarrow> 'w \<times> string option" where
  "new_digest e img w = (case ue_parse_ref e img of Inr r \<Rightarrow> check_digest e r w | Inl _ \<Rightarrow> (w, None))"

text \<open>What follows a pivot that succeeded.\<close>

definition update_done :: "'w up_env \<Rightarrow> string \<Rightarrow> string \<Rightarrow> assembled \<Rightarrow> 'w \<times> image_states \<Rightarrow> 'w \<times> image_states" where
  "update_done e name img a = (\<lambda>(w, st).
     (let (w1, digest) = new_digest e img w;
          w2 = fst (write_record (ue_os e) (ue_print e) (record_of img digest a) (uc_rootfs_dir (ue_config e)) name w1)
      in (ue_emit e UpdateCompleted (Some name) (update_detail img ''update completed'') w2,
          on_state name (\<lambda>s. s\<lparr>im_current_digest := digest, im_rootfs_path := Some (rootfs_of e name),
            im_last_update := Some (ue_now e w2), im_status := Idle\<rparr>) st)))"

definition do_update ::
    "'w up_env \<Rightarrow> bool \<Rightarrow> string \<Rightarrow> string \<Rightarrow> 'w \<times> image_states \<Rightarrow> ('w \<times> image_states) \<times> string option" where
  "do_update e cleaned name img = (\<lambda>(w, st).
     (let st1 = set_status name Pulling st;
          w1 = ue_emit e UpdatePulling (Some name) (update_detail img ''pulling image'') w
      in case pull_and_assemble e name img w1 of
           (w2, Inl err) \<Rightarrow> update_fails e name img ''pull'' err (w2, st1)
         | (w2, Inr a) \<Rightarrow>
             (let st2 = set_status name Pivoting st1;
                  w3 = ue_emit e UpdatePivoting (Some name) (update_detail img ''pivoting rootfs'') w2
              in case pivot e cleaned name a w3 of
                   (w4, Some err) \<Rightarrow> update_fails e name img ''pivot'' err (w4, st2)
                 | (w4, None) \<Rightarrow> (update_done e name img a (w4, st2), None))))"

definition trigger_update ::
    "'w up_env \<Rightarrow> bool \<Rightarrow> string \<Rightarrow> 'w \<times> image_states \<Rightarrow> ('w \<times> image_states) \<times> string option" where
  "trigger_update e cleaned name s =
     (case get_state (snd s) name of
        None \<Rightarrow> (s, Some (''process '' @ [CHR 0x27] @ name @ [CHR 0x27] @ '' is not tracked by updater''))
      | Some i \<Rightarrow> do_update e cleaned name (im_image i) s)"

section \<open>The poll loop\<close>

definition tracked :: "'w up_env \<Rightarrow> (string \<times> string) list" where
  "tracked e = List.map_filter (\<lambda>p. map_option (\<lambda>img. (pc_name p, img)) (pc_image p)) (ue_processes e)"

definition untouched :: "string \<Rightarrow> image_state" where
  "untouched img = \<lparr>im_image = img, im_current_digest = None, im_rootfs_path = None, im_last_check = None,
     im_last_update = None, im_status = Idle\<rparr>"

definition state_insert :: "string \<Rightarrow> image_state \<Rightarrow> image_states \<Rightarrow> image_states" where
  "state_insert n i st = (n, i) # filter (\<lambda>x. fst x \<noteq> n) st"

definition init_states :: "'w up_env \<Rightarrow> image_states \<Rightarrow> image_states" where
  "init_states e st = foldl (\<lambda>st (n, img). state_insert n (untouched img) st) st (tracked e)"

definition register_if_new :: "'w up_env \<Rightarrow> string \<Rightarrow> 'w \<Rightarrow> 'w" where
  "register_if_new e name w =
     (if ue_known e w name then w
      else case original_of e name of Some c \<Rightarrow> ue_register e c w | None \<Rightarrow> w)"

definition start_one :: "'w up_env \<Rightarrow> bool \<Rightarrow> string \<times> string \<Rightarrow> 'w \<times> image_states \<Rightarrow> 'w \<times> image_states" where
  "start_one e cleaned = (\<lambda>(name, img) (w, st).
     (let w1 = register_if_new e name w;
          rootfs = rootfs_of e name
      in case (if path_exists (ue_os e) w1 rootfs
               then read_record (ue_os e) (ue_parse e) (uc_rootfs_dir (ue_config e)) name w1 else None) of
           Some r \<Rightarrow>
             (case start_recorded e name rootfs r w1 of
                (w2, Some _) \<Rightarrow> fst (do_update e cleaned name img (w2, st))
              | (w2, None) \<Rightarrow>
                  (w2, on_state name (\<lambda>s. s\<lparr>im_current_digest := rr_digest r, im_rootfs_path := Some rootfs,
                         im_last_check := Some (ue_now e w2)\<rparr>) st))
         | None \<Rightarrow> fst (do_update e cleaned name img (w1, st))))"

definition needs_update :: "image_states \<Rightarrow> string \<Rightarrow> string \<Rightarrow> bool" where
  "needs_update st name digest =
     (case map_of st name of Some s \<Rightarrow> im_current_digest s \<noteq> Some digest | None \<Rightarrow> True)"

definition poll_one :: "'w up_env \<Rightarrow> bool \<Rightarrow> string \<times> string \<Rightarrow> 'w \<times> image_states \<Rightarrow> 'w \<times> image_states" where
  "poll_one e cleaned = (\<lambda>(name, img) (w, st).
     (case ue_parse_ref e img of
        Inl _ \<Rightarrow> (w, st)
      | Inr r \<Rightarrow>
          (let st1 = on_state name (\<lambda>s. s\<lparr>im_last_check := Some (ue_now e w), im_status := Checking\<rparr>) st;
               w1 = ue_emit e UpdateCheckStarted (Some name) [] w
           in case check_digest e r w1 of
                (w2, None) \<Rightarrow> (w2, set_status name Idle st1)
              | (w2, Some digest) \<Rightarrow>
                  if \<not> needs_update st1 name digest then (w2, set_status name Idle st1)
                  else fst (do_update e cleaned name img
                         (ue_emit e UpdateAvailable (Some name) [] w2, st1)))))"

definition poll_round :: "'w up_env \<Rightarrow> bool \<Rightarrow> 'w \<times> image_states \<Rightarrow> 'w \<times> image_states" where
  "poll_round e cleaned s = foldl (\<lambda>s p. poll_one e cleaned p s) s (tracked e)"

text \<open>
  The loop itself after \<open>rounds\<close> turns; \<open>None\<close> when it returned at once: a directory could not be made,
  or there is nothing to track.
\<close>

definition poll_loop ::
    "'w up_env \<Rightarrow> bool \<Rightarrow> ('w \<Rightarrow> 'w) \<Rightarrow> nat \<Rightarrow> 'w \<times> image_states \<Rightarrow> ('w \<times> image_states) option" where
  "poll_loop e cleaned sleep rounds = (\<lambda>(w, st).
     (case then_do (os_create_dir_all (ue_os e) (uc_data_dir (ue_config e)) w)
             (os_create_dir_all (ue_os e) (uc_rootfs_dir (ue_config e))) of
        (w1, Some _) \<Rightarrow> None
      | (w1, None) \<Rightarrow>
          if tracked e = [] then None
          else Some (((\<lambda>(w, st). poll_round e cleaned (sleep w, st)) ^^ rounds)
                 (foldl (\<lambda>s p. start_one e cleaned p s) (w1, init_states e st) (tracked e)))))"

section \<open>Correctness\<close>

lemma env_insert_keys: "set (map fst (env_insert k v m)) = insert k (set (map fst m))"
  by (auto simp: env_insert_def)

lemma distinct_env_insert: "distinct (map fst m) \<Longrightarrow> distinct (map fst (env_insert k v m))"
  by (auto simp: env_insert_def distinct_map_filter)

lemma map_of_env_insert: "map_of (env_insert k v m) k' = (if k' = k then Some v else map_of m k')"
proof -
  have "map_of (filter (\<lambda>e. fst e \<noteq> k) m) k' = (if k' = k then None else map_of m k')"
    by (induction m) auto
  then show ?thesis by (simp add: env_insert_def map_add_def split: option.split)
qed

lemma env_merge_lookup: "distinct (map fst own) \<Longrightarrow>
    map_of (foldl (\<lambda>m (k, v). env_insert k v m) env own) x
      = (case map_of own x of Some v \<Rightarrow> Some v | None \<Rightarrow> map_of env x)"
proof (induction own arbitrary: env)
  case (Cons kv own)
  obtain k v where kv: "kv = (k, v)" by fastforce
  with Cons.prems have "map_of own k = None" by (simp add: map_of_eq_None_iff)
  with Cons kv show ?case by (simp add: map_of_env_insert split: option.split)
qed simp

lemma distinct_oci_env: "distinct (map fst (oci_env oci))"
proof -
  have "distinct (map fst m) \<Longrightarrow> distinct (map fst
      (foldl (\<lambda>m e. case split_once ''='' e of Some (k, v) \<Rightarrow> env_insert k v m | None \<Rightarrow> m) m es))" for m es
    by (induction es arbitrary: m) (auto simp: distinct_env_insert split: option.split prod.split)
  then show ?thesis by (simp add: oci_env_def)
qed

lemma all_strings_map: "all_strings (map JStr xs) = Some xs"
  by (induction xs) auto

lemma string_map_map:
  "distinct (map fst (acc @ kvs)) \<Longrightarrow> string_map (map (\<lambda>(k, v). (k, JStr v)) kvs) acc = Some (acc @ kvs)"
proof (induction kvs arbitrary: acc)
  case (Cons kv kvs)
  obtain k v where kv: "kv = (k, v)" by fastforce
  have "filter (\<lambda>e. fst e \<noteq> k) acc = acc"
    using Cons.prems kv by (auto simp: filter_id_conv)
  with Cons kv show ?case by (simp add: env_insert_def)
qed simp

lemma opt_string_json [simp]: "opt_string (Given (opt_json x)) = Some x"
  by (simp add: opt_string_def opt_json_def split: option.split)

lemma parse_record_json: "distinct (map fst (rr_env r)) \<Longrightarrow> parse_record (record_json r) = Some r"
  using string_map_map [of "[]" "rr_env r"]
  by (simp add: parse_record_def record_json_def record_from_def field_of_def all_strings_map)

interpretation record_codec: codec record_json parse_record "\<lambda>r. distinct (map fst (rr_env r))"
  by unfold_locales (rule parse_record_json)

lemma assemble_env:
  "assemble e name img pulled w = (w', Inr a) \<Longrightarrow> distinct (map fst (as_env a)) \<and> as_cmd a \<noteq> []"
proof (cases "ue_blob e (uc_data_dir (ue_config e)) w (pi_config_digest pulled)")
  case (Inr bytes)
  then show "assemble e name img pulled w = (w', Inr a) \<Longrightarrow> distinct (map fst (as_env a)) \<and> as_cmd a \<noteq> []"
    by (cases "ue_oci e bytes") (auto simp: assemble_def Let_def try_Inr distinct_oci_env split: if_splits)
qed (simp add: assemble_def)

lemma assembled_env:
  "pull_and_assemble e name img w = (w', Inr a) \<Longrightarrow> distinct (map fst (as_env a)) \<and> as_cmd a \<noteq> []"
  by (auto simp: pull_and_assemble_def try_Inr dest: assemble_env)

text \<open>Every image is idle or has failed.\<close>

definition resting :: "image_state \<Rightarrow> bool" where
  "resting s \<longleftrightarrow> im_status s = Idle \<or> im_status s = Failed"

definition at_rest_states :: "image_states \<Rightarrow> bool" where
  "at_rest_states st \<longleftrightarrow> list_all (\<lambda>(n, s). resting s) st"

definition others_at_rest :: "string \<Rightarrow> image_states \<Rightarrow> bool" where
  "others_at_rest name st \<longleftrightarrow> list_all (\<lambda>(n, s). n \<noteq> name \<longrightarrow> resting s) st"

lemma at_rest_others: "at_rest_states st \<Longrightarrow> others_at_rest name st"
  by (induction st) (auto simp: at_rest_states_def others_at_rest_def)

lemma others_on_state: "others_at_rest name st \<Longrightarrow> others_at_rest name (on_state name f st)"
  by (induction st) (auto simp: others_at_rest_def on_state_def)

lemma others_set_status: "others_at_rest name st \<Longrightarrow> others_at_rest name (set_status name v st)"
  by (simp add: set_status_def others_on_state)

lemma at_rest_on_state:
  "others_at_rest name st \<Longrightarrow> (\<And>s. resting (f s)) \<Longrightarrow> at_rest_states (on_state name f st)"
  by (induction st) (auto simp: at_rest_states_def others_at_rest_def on_state_def)

lemma at_rest_kept:
  "at_rest_states st \<Longrightarrow> (\<And>s. im_status (f s) = im_status s) \<Longrightarrow> at_rest_states (on_state name f st)"
  by (induction st) (auto simp: at_rest_states_def on_state_def resting_def split: if_splits)

lemma at_rest_update_fails: "others_at_rest name (snd s) \<Longrightarrow> at_rest_states (snd (fst (update_fails e name img what err s)))"
  by (cases s) (simp add: update_fails_def set_status_def at_rest_on_state resting_def)

lemma at_rest_update_done: "others_at_rest name (snd s) \<Longrightarrow> at_rest_states (snd (update_done e name img a s))"
  by (cases s) (simp add: update_done_def Let_def at_rest_on_state resting_def split: prod.split)

lemma at_rest_do_update: "others_at_rest name (snd s) \<Longrightarrow> at_rest_states (snd (fst (do_update e cleaned name img s)))"
  by (cases s) (simp add: do_update_def Let_def others_set_status at_rest_update_fails at_rest_update_done
      split: prod.split sum.split option.split)

lemma at_rest_start_one: "at_rest_states (snd s) \<Longrightarrow> at_rest_states (snd (start_one e cleaned p s))"
  by (cases s; cases p)
    (simp add: start_one_def Let_def at_rest_do_update at_rest_others at_rest_kept split: prod.split option.split)

lemma at_rest_poll_one: "at_rest_states (snd s) \<Longrightarrow> at_rest_states (snd (poll_one e cleaned p s))"
  by (cases s; cases p)
    (simp add: poll_one_def Let_def at_rest_do_update at_rest_others others_on_state set_status_def at_rest_on_state resting_def
      split: prod.split option.split sum.split)

lemma at_rest_foldl:
  "(\<And>s p. at_rest_states (snd s) \<Longrightarrow> at_rest_states (snd (f p s))) \<Longrightarrow> at_rest_states (snd s) \<Longrightarrow>
   at_rest_states (snd (foldl (\<lambda>s p. f p s) s ps))"
  by (induction ps arbitrary: s) auto

lemma at_rest_init: "at_rest_states st \<Longrightarrow> at_rest_states (init_states e st)"
proof -
  have "at_rest_states st \<Longrightarrow> at_rest_states (foldl (\<lambda>st (n, img). state_insert n (untouched img) st) st ps)" for ps
  proof (induction ps arbitrary: st)
    case (Cons p ps)
    obtain n img where "p = (n, img)" by fastforce
    with Cons.prems have "at_rest_states (state_insert n (untouched img) st)"
      by (induction st) (auto simp: at_rest_states_def state_insert_def untouched_def resting_def)
    with Cons.IH \<open>p = (n, img)\<close> show ?case by simp
  qed simp
  then show "at_rest_states st \<Longrightarrow> at_rest_states (init_states e st)" by (simp add: init_states_def)
qed

lemma at_rest_rounds:
  fixes s :: "'w \<times> image_states" and sleep :: "'w \<Rightarrow> 'w"
  shows "at_rest_states (snd s) \<Longrightarrow> at_rest_states (snd (((\<lambda>(w, st). poll_round e cleaned (sleep w, st)) ^^ k) s))"
proof (induction k)
  case (Suc k)
  let ?s = "((\<lambda>(w, st). poll_round e cleaned (sleep w, st)) ^^ k) s"
  have "at_rest_states (snd ?s)" using Suc by simp
  then have "at_rest_states (snd (poll_round e cleaned (sleep (fst ?s), snd ?s)))"
    by (simp add: poll_round_def at_rest_foldl [where f = "poll_one e cleaned"] at_rest_poll_one)
  then show ?case unfolding funpow.simps comp_def by (subst case_prod_beta) simp
qed simp

text \<open>
  What the supervisor has, \<open>sv\<close>, is not changed by the registry, the files, the archives and the events.
\<close>

definition apart :: "'w up_env \<Rightarrow> ('w \<Rightarrow> 'v) \<Rightarrow> bool" where
  "apart e sv \<longleftrightarrow>
     (\<forall>d w. sv (fst (ue_store_init e d w)) = sv w) \<and> (\<forall>d i w. sv (fst (ue_pull e d i w)) = sv w) \<and>
     (\<forall>t p w. sv (fst (ue_unpack_in e t p w)) = sv w) \<and> (\<forall>k p d w. sv (ue_emit e k p d w) = sv w) \<and>
     (\<forall>p w. sv (fst (os_remove_file (ue_os e) p w)) = sv w) \<and>
     (\<forall>p w. sv (fst (os_remove_dir_all (ue_os e) p w)) = sv w) \<and>
     (\<forall>p w. sv (fst (os_create_dir_all (ue_os e) p w)) = sv w)"

lemma sv_then_do:
  "sv (fst r) = sv w \<Longrightarrow> (\<And>w. sv (fst (f w)) = sv w) \<Longrightarrow> sv (fst (then_do r f)) = sv w"
  by (cases r) (auto simp: then_do_def split: option.split)

lemma sv_try:
  "sv (fst q) = sv w \<Longrightarrow> (\<And>w. sv (fst (g w)) = sv w) \<Longrightarrow> sv (fst (try_do q g)) = sv w"
  "sv (fst r) = sv w \<Longrightarrow> (\<And>a w. sv (fst (f a w)) = sv w) \<Longrightarrow> sv (fst (try_with r f)) = sv w"
  by (cases q, auto simp: try_do_def split: option.split) (cases r, auto simp: try_with_def split: sum.split)

lemma sv_clear: "apart e sv \<Longrightarrow> sv (fst (clear_children e cs w)) = sv w"
  by (induction cs arbitrary: w) (simp_all add: apart_def sv_then_do split: option.split)

lemma sv_unpack_entry: "apart e sv \<Longrightarrow> sv (fst (unpack_entry e target entry w)) = sv w"
  using sv_clear [of e sv] by (simp add: unpack_entry_def apart_def Let_def split: sum.split)

lemma sv_unpack_entries: "apart e sv \<Longrightarrow> sv (fst (unpack_entries e target es w)) = sv w"
  by (induction e target es w rule: unpack_entries.induct) (simp_all add: sv_then_do sv_unpack_entry)

lemma sv_extract: "apart e sv \<Longrightarrow> sv (fst (extract_layers e target ds w)) = sv w"
  by (induction ds arbitrary: w)
    (simp_all add: sv_then_do extract_layer_def sv_unpack_entries split: sum.split)

lemma sv_fresh_dir: "apart e sv \<Longrightarrow> sv (fst (fresh_dir (ue_os e) p w)) = sv w"
  by (simp add: fresh_dir_def apart_def sv_then_do)

lemma sv_assemble: "apart e sv \<Longrightarrow> sv (fst (assemble e name img pulled w)) = sv w"
  by (simp add: assemble_def Let_def sv_try sv_then_do sv_fresh_dir sv_extract split: sum.split)

lemma sv_pull: "apart e sv \<Longrightarrow> sv (fst (pull_and_assemble e name img w)) = sv w"
  unfolding pull_and_assemble_def by (intro sv_try sv_assemble) (simp_all add: apart_def)

section \<open>Properties\<close>

text \<open>An update that fails to pull or to assemble its image leaves the supervisor exactly as it was: the
  process goes on running from the tree it had, and the image is marked failed.\<close>

theorem failed_pull_leaves_process:
  assumes "apart e sv"
    and "snd (pull_and_assemble e name img (ue_emit e UpdatePulling (Some name) (update_detail img ''pulling image'') w)) = Inl err"
  shows "sv (fst (fst (do_update e cleaned name img (w, st)))) = sv w
    \<and> snd (do_update e cleaned name img (w, st)) = Some err
    \<and> snd (fst (do_update e cleaned name img (w, st))) = set_status name Failed (set_status name Pulling st)"
proof -
  let ?w = "ue_emit e UpdatePulling (Some name) (update_detail img ''pulling image'') w"
  obtain w2 where p: "pull_and_assemble e name img ?w = (w2, Inl err)" using assms(2) by (metis prod.collapse)
  have "sv w2 = sv w"
    using sv_pull [OF assms(1), of name img ?w] p assms(1) by (simp add: apart_def)
  with p show ?thesis using assms(1) by (simp add: do_update_def update_fails_def apart_def)
qed



text \<open>The digest kept as the current one is the registry's after the pivot, not that of the image pulled:
  when another image was pushed in between, every later check that finds the registry unchanged sees
  nothing to do, and the image pushed never arrives.\<close>

theorem image_pushed_during_update_is_missed:
  assumes "pull_and_assemble e name img (ue_emit e UpdatePulling (Some name) (update_detail img ''pulling image'') w) = (w2, Inr a)"
    and "pivot e cleaned name a (ue_emit e UpdatePivoting (Some name) (update_detail img ''pivoting rootfs'') w2) = (w4, None)"
    and "new_digest e img w4 = (w5, Some d)" and "do_update e cleaned name img (w, st) = ((w', st'), None)"
    and "map_of st name = Some s" and "ue_parse_ref e img = Inr r"
    and "check_digest e r (ue_emit e UpdateCheckStarted (Some name) [] w6) = (w7, Some d)"
  shows "\<exists>s'. map_of st' name = Some s' \<and> im_current_digest s' = Some d
    \<and> poll_one e cleaned (name, img) (w6, st')
        = (w7, on_state name (\<lambda>s. s\<lparr>im_last_check := Some (ue_now e w6), im_status := Idle\<rparr>) st')"
proof -
  have lookup: "map_of (on_state name f x) name = map_option f (map_of x name)" for f x
    by (induction x) (auto simp: on_state_def)
  have twice: "on_state name f (on_state name g x) = on_state name (\<lambda>s. f (g s)) x" for f g x
    by (simp add: on_state_def comp_def case_prod_beta)
  obtain t where st': "st' = on_state name (\<lambda>s. s\<lparr>im_current_digest := Some d, im_rootfs_path := Some (rootfs_of e name),
            im_last_update := Some t, im_status := Idle\<rparr>) (set_status name Pivoting (set_status name Pulling st))"
    using assms(1-4) by (auto simp: do_update_def update_done_def Let_def)
  then obtain s' where s': "map_of st' name = Some s'" "im_current_digest s' = Some d"
    using assms(5) by (simp add: lookup set_status_def)
  then have "\<not> needs_update (on_state name (\<lambda>s. s\<lparr>im_last_check := Some (ue_now e w6), im_status := Checking\<rparr>) st') name d"
    by (simp add: needs_update_def lookup)
  with assms(6,7) s' show ?thesis by (simp add: poll_one_def set_status_def twice)
qed

text \<open>C34: A whiteout is looked for where the entry's path says, and joining an absolute path leaves the
  target: an image with such an entry removes a file or a whole tree of the container itself.\<close>

theorem whiteout_leaves_the_target:
  assumes "te_path entry = Inr p" and "entry_name p = ''.wh.'' @ f" and "f \<noteq> ''.wh..opq''"
    and "starts_with (entry_parent p) ''/''"
  shows "unpack_entry e target entry w =
    (let gone = path_join (entry_parent p) f in
       (fst (if path_is_dir (ue_os e) w gone then os_remove_dir_all (ue_os e) gone w
             else os_remove_file (ue_os e) gone w), None))"
proof -
  have "path_join target (entry_parent p) = entry_parent p"
    using assms(4) by (simp add: path_join_def)
  moreover have "starts_with (''.wh.'' @ f) ''.wh.''" by (simp add: starts_with_def)
  ultimately show ?thesis using assms(1-3) by (simp add: unpack_entry_def Let_def)
qed

text \<open>The configuration of an image process keeps everything the configuration file says but the
  command, its arguments and its directory, and lets a variable of the file win over the image's.\<close>

theorem image_config_keeps_the_rest:
  assumes "distinct (map fst (pc_env c))"
  shows "\<exists>cfg. image_process_config named (Some c) name rootfs (command # args) env wd = Inr cfg
    \<and> pc_args cfg = args
    \<and> pc_command cfg = (case strip_prefix ''/'' command of Some rel \<Rightarrow> path_join rootfs rel | None \<Rightarrow> command)
    \<and> (\<forall>k. map_of (pc_env cfg) k = (case map_of (pc_env c) k of Some v \<Rightarrow> Some v | None \<Rightarrow> map_of env k))
    \<and> cfg\<lparr>pc_command := pc_command c, pc_args := pc_args c, pc_working_dir := pc_working_dir c, pc_env := pc_env c\<rparr> = c"
  using env_merge_lookup [OF assms] by (simp add: image_process_config_def)

text \<open>A pivot stops the process before it touches the trees, and an error there ends it: nothing starts
  the process again, although its old tree may still be in place.\<close>

theorem failed_swap_leaves_process_stopped:
  assumes "swap_dirs (ue_os e) (as_rootfs a) (rootfs_of e name) (rootfs_of e (name @ ''.old'')) (stop_and_wait e name w)
      = (w2, Some err)"
  shows "pivot e cleaned name a w = (w2, Some err)"
  using assms by (simp add: pivot_def)

section \<open>A small registry\<close>

text \<open>
  Whether a new image was pushed, whether the process runs, and what was removed. The registry is
  pushed to while an image is being pulled.
\<close>

record demo =
  dm_pushed :: bool
  dm_running :: bool
  dm_removed :: "string list"

definition demo_os :: "bool \<Rightarrow> demo os" where
  "demo_os there = \<lparr>
     os_metadata = (\<lambda>w p. if there then Inr \<lparr>md_is_dir = False, md_is_file = True, md_is_symlink = False, md_len = 0,
        md_mode = 0, md_modified = None, md_dev = 0, md_ino = 0, md_nlink = 1, md_uid = 0, md_gid = 0\<rparr> else Inl ''gone''),
     os_symlink_metadata = (\<lambda>w p. Inl ''gone''), os_read = (\<lambda>w p. Inl ''gone''),
     os_read_text = (\<lambda>w p. if there then Inr ''record'' else Inl ''gone''),
     os_read_dir = (\<lambda>w p. Inl ''gone''), os_read_link = (\<lambda>w p. Inl ''gone''), os_access = (\<lambda>w p op. there),
     os_current_dir = (\<lambda>w. Inr ''/''), os_open_write = (\<lambda>w p. None), os_write = (\<lambda>p t w. (w, None)),
     os_append = (\<lambda>p t w. (w, None)), os_copy = (\<lambda>p q w. (w, Inr 0)), os_rename = (\<lambda>p q w. (w, None)),
     os_remove_file = (\<lambda>p w. (w\<lparr>dm_removed := p # dm_removed w\<rparr>, None)),
     os_remove_dir_all = (\<lambda>p w. (w\<lparr>dm_removed := p # dm_removed w\<rparr>, None)),
     os_create_dir = (\<lambda>p w. (w, None)), os_create_dir_all = (\<lambda>p w. (w, None)), os_chmod = (\<lambda>p m w. (w, None)),
     os_chown = (\<lambda>p u g w. (w, None)), os_symlink = (\<lambda>p q w. (w, None)), os_hard_link = (\<lambda>p q w. (w, None)),
     os_strftime = (\<lambda>f t. f)\<rparr>"

definition demo_digest :: "demo \<Rightarrow> string" where
  "demo_digest w = (if dm_pushed w then ''B'' else ''A'')"

definition demo_ref :: image_ref where
  "demo_ref = \<lparr>ir_registry_url = ''http://r'', ir_repository = ''app'', ir_tag = ''1''\<rparr>"

definition demo_up :: "bool \<Rightarrow> bool \<Rightarrow> json option \<Rightarrow> demo up_env" where
  "demo_up there reachable parsed = \<lparr>
     ue_config = updater_config_default,
     ue_processes = [(process_config_default ''app'' [])\<lparr>pc_image := Some ''r/app:1''\<rparr>],
     ue_os = demo_os there,
     ue_http = (\<lambda>r w. (w, if reachable then Inr \<lparr>an_status = 200, an_shown = ''200 OK'', an_text = Inr [], an_json = Inl [],
        an_headers = [(''docker-content-digest'', demo_digest w)]\<rparr> else Inl ''unreachable'')),
     ue_parse_ref = (\<lambda>i. Inr demo_ref),
     ue_store_init = (\<lambda>d w. (w, None)),
     ue_pull = (\<lambda>d i w. if reachable then (w\<lparr>dm_pushed := True\<rparr>, Inr \<lparr>pi_manifest_digest = demo_digest w,
        pi_config_digest = ''c'', pi_layer_digests = []\<rparr>) else (w, Inl ''unreachable'')),
     ue_blob = (\<lambda>d w i. Inr []),
     ue_oci = (\<lambda>b. Inr (Some \<lparr>oc_entrypoint = Some [''/bin/app''], oc_cmd = None, oc_env = None, oc_working_dir = None\<rparr>)),
     ue_entries = (\<lambda>z b. Inr []), ue_unpack_in = (\<lambda>t p w. (w, None)), ue_type_error = (\<lambda>p. p),
     ue_parse = (\<lambda>t. parsed), ue_print = (\<lambda>j. ''record''), ue_named = (\<lambda>n. Inl []), ue_now = (\<lambda>w. 0),
     ue_stop = (\<lambda>n w. (w\<lparr>dm_running := False\<rparr>, None)), ue_wait_stopped = (\<lambda>n w. w),
     ue_update_config = (\<lambda>n c w. (w, None)), ue_start = (\<lambda>n w. (w\<lparr>dm_running := True\<rparr>, None)),
     ue_known = (\<lambda>w n. True), ue_register = (\<lambda>c w. w), ue_emit = (\<lambda>k p d w. w)\<rparr>"

definition demo_world :: demo where
  "demo_world = \<lparr>dm_pushed = False, dm_running = True, dm_removed = []\<rparr>"

definition demo_image :: assembled where
  "demo_image = \<lparr>as_rootfs = ''/data/rootfs/app.new'', as_cmd = [''/bin/app''], as_env = [], as_working_dir = None\<rparr>"

lemma update_simps [simp]:
  "ue_emit (demo_up x y z) k q d w = w" "ue_os (demo_up x y z) = demo_os x" "ue_known (demo_up x y z) w n"
  "ue_config (demo_up x y z) = updater_config_default" "ue_now (demo_up x y z) w = 0"
  "ue_parse_ref (demo_up x y z) i = Inr demo_ref"
  "uc_rootfs_dir updater_config_default = ''/data/rootfs''"
  by (simp_all add: demo_up_def updater_config_default_def)

lemma demo_dirs [simp]: "rootfs_of (demo_up x y z) ''app'' = ''/data/rootfs/app''"
  "rootfs_of (demo_up x y z) ''app.new'' = ''/data/rootfs/app.new''"
  by (simp_all add: rootfs_of_def path_join_def starts_with_def ends_with_def strip_suffix_def)

lemma demo_pull: "pull_and_assemble (demo_up False True z) ''app'' ''r/app:1'' w = (w\<lparr>dm_pushed := True\<rparr>, Inr demo_image)"
  by (simp add: pull_and_assemble_def demo_up_def assemble_def fresh_dir_def path_exists_def demo_os_def
      oci_command_def oci_env_def oci_working_dir_def demo_image_def rootfs_of_def updater_config_default_def
      path_join_def starts_with_def ends_with_def strip_suffix_def Let_def)

lemma demo_start: "start_from (demo_up x y z) ''app'' rootfs (c # cs) env wd w = (w\<lparr>dm_running := True\<rparr>, None)"
  by (simp add: start_from_def image_process_config_def original_of_def demo_up_def process_config_default_def)

lemma demo_pivot: "pivot (demo_up False y z) True ''app'' demo_image w = (w\<lparr>dm_running := True\<rparr>, None)"
  by (simp add: pivot_def swap_dirs_def path_exists_def demo_os_def stop_and_wait_def demo_image_def demo_start Let_def)
    (simp add: demo_up_def)

lemma demo_check: "check_digest (demo_up x True z) r w = (w, Some (demo_digest w))"
  by (simp add: check_digest_def demo_up_def is_success_def)

lemma failed_pull_leaves_process_witness:
  "dm_running (fst (fst (do_update (demo_up False False None) True ''app'' ''r/app:1'' (demo_world, []))))
    = dm_running demo_world"
proof -
  have "apart (demo_up False False None) dm_running"
    by (simp add: apart_def demo_os_def) (simp add: demo_up_def)
  from failed_pull_leaves_process [OF this, of "''app''" "''r/app:1''" demo_world]
  show ?thesis by (simp add: pull_and_assemble_def) (simp add: demo_up_def)
qed



lemma image_pushed_during_update_is_missed_witness:
  "\<exists>st' s'. do_update (demo_up False True None) True ''app'' ''r/app:1'' (demo_world, [(''app'', untouched ''r/app:1'')])
      = ((demo_world\<lparr>dm_pushed := True\<rparr>, st'), None)
    \<and> map_of st' ''app'' = Some s' \<and> im_current_digest s' = Some ''B''
    \<and> demo_digest demo_world = ''A''"
proof -
  let ?e = "demo_up False True None"
  let ?w = "demo_world\<lparr>dm_pushed := True\<rparr>"
  have w: "?w\<lparr>dm_running := True\<rparr> = ?w" by (simp add: demo_world_def)
  have p: "pull_and_assemble ?e ''app'' ''r/app:1'' (ue_emit ?e UpdatePulling (Some ''app'')
      (update_detail ''r/app:1'' ''pulling image'') demo_world) = (?w, Inr demo_image)"
    by (simp add: demo_pull)
  have q: "pivot ?e True ''app'' demo_image (ue_emit ?e UpdatePivoting (Some ''app'')
      (update_detail ''r/app:1'' ''pivoting rootfs'') ?w) = (?w, None)"
    by (simp add: demo_pivot w)
  have d: "new_digest ?e ''r/app:1'' ?w = (?w, Some ''B'')"
    by (simp add: new_digest_def demo_check demo_digest_def)
  obtain st' where u: "do_update ?e True ''app'' ''r/app:1'' (demo_world, [(''app'', untouched ''r/app:1'')]) = ((?w, st'), None)"
    using p q d by (simp add: do_update_def update_done_def write_record_def then_do_def Let_def)
      (simp add: demo_os_def)
  from image_pushed_during_update_is_missed [OF p q d u, of "untouched ''r/app:1''" _ ?w ?w] u
  show ?thesis
    by (auto simp: demo_check demo_digest_def demo_world_def)
qed

lemma whiteout_leaves_the_target_witness:
  "unpack_entry (demo_up False True None) ''/data/rootfs/app.new''
     \<lparr>te_path = Inr ''/etc/.wh.passwd'', te_content = []\<rparr> demo_world
   = (demo_world\<lparr>dm_removed := [''/etc/passwd'']\<rparr>, None)"
proof -
  have "entry_name ''/etc/.wh.passwd'' = ''.wh.'' @ ''passwd''" "entry_parent ''/etc/.wh.passwd'' = ''/etc''"
    by (simp_all add: entry_name_def file_name_def entry_parent_def path_parent_def Let_def)
  with whiteout_leaves_the_target [of "\<lparr>te_path = Inr ''/etc/.wh.passwd'', te_content = []\<rparr>"
      "''/etc/.wh.passwd''" "''passwd''" "demo_up False True None" "''/data/rootfs/app.new''" demo_world]
  show ?thesis
    by (simp add: starts_with_def path_join_def ends_with_def strip_suffix_def path_is_dir_def demo_os_def
        demo_world_def Let_def)
qed

lemma image_config_keeps_the_rest_witness:
  "\<exists>cfg. image_process_config named (Some (process_config_default ''app'' [])) ''app'' ''/r'' (''/bin/app'' # []) [] None = Inr cfg
    \<and> pc_command cfg = ''/r/bin/app''"
  using image_config_keeps_the_rest [of "process_config_default ''app'' []" named "''app''" "''/r''" "''/bin/app''" "[]" "[]" None]
  by (auto simp: process_config_default_def path_join_def starts_with_def ends_with_def strip_suffix_def)

end
