(* ===== verification/Ssh.thy ===== *)
theory Ssh
  imports ShellUse
begin

text \<open>
  \<open>crates/stormd/src/ssh.rs\<close>: who gets in over SSH, and the line editor of a session. The protocol is
  russh's: what a handler sends is a list of replies. Keys have a type \<open>'k\<close> of their own; \<open>se_parse_key\<close>
  reads one field of an \<open>authorized_keys\<close> line. The state of the world \<open>'w\<close> is the shell's; \<open>None\<close> is a
  panic, which ends the whole of stormd. A character typed is one byte (\<open>byte as char\<close>).
\<close>

section \<open>Configuration and state\<close>

type_synonym channel_id = u32

datatype auth_method = PublicKey | Password

datatype auth_answer = Accept | Reject "auth_method list"

datatype reply =
    SendText channel_id string
  | SendBytes channel_id "u8 list"
  | CloseChannel channel_id
  | ChannelSuccess channel_id
  | ChannelFailure channel_id

type_synonym 'k key_store = "('k \<times> string) list"

record channel_state =
  ch_line :: string
  ch_history :: "string list"

record ('w, 'k) ssh_env =
  se_config :: ssh_config
  se_cloud_id :: string
  se_container :: string
  se_cloudid_keys :: "'w \<Rightarrow> 'k key_store option"
  se_read :: "'w \<Rightarrow> string \<Rightarrow> string option"
  se_parse_key :: "string \<Rightarrow> 'k option"
  se_exec :: "string \<Rightarrow> 'w \<Rightarrow> ('w \<times> shell_output) option"
  se_complete :: "'w \<Rightarrow> string \<Rightarrow> string list"

text \<open>The channels of a session and the raw channels kept for a subsystem.\<close>

record ssh_session =
  ss_channels :: "(channel_id \<times> channel_state) list"
  ss_raw :: "channel_id list"

definition new_client :: ssh_session where
  "new_client = \<lparr>ss_channels = [], ss_raw = []\<rparr>"

section \<open>The host key\<close>

text \<open>
  \<open>load\<close> reads a key from a text, \<open>fresh\<close> is the generated key and \<open>encode\<close> its PEM text, if it has one.
\<close>

definition load_or_generate_host_key ::
    "'w os \<Rightarrow> (string \<Rightarrow> 'h option) \<Rightarrow> 'h \<Rightarrow> ('h \<Rightarrow> string option) \<Rightarrow> string \<Rightarrow> 'w \<Rightarrow> 'w \<times> 'h" where
  "load_or_generate_host_key os load fresh encode path w =
     (let loaded = (if path_exists os w path
            then (case os_read_text os w path of Inr t \<Rightarrow> load t | Inl _ \<Rightarrow> None) else None)
      in case loaded of
           Some k \<Rightarrow> (w, k)
         | None \<Rightarrow>
             (let w1 = (case path_parent path of Some d \<Rightarrow> fst (os_create_dir_all os d w) | None \<Rightarrow> w)
              in case encode fresh of
                   None \<Rightarrow> (w1, fresh)
                 | Some pem \<Rightarrow> (fst (os_write os path pem w1), fresh)))"

section \<open>Who gets in\<close>

definition authorized_keys_contains :: "(string \<Rightarrow> 'k option) \<Rightarrow> string \<Rightarrow> 'k \<Rightarrow> bool" where
  "authorized_keys_contains parse text key \<longleftrightarrow>
     list_ex (\<lambda>k. k = key)
       (List.map_filter (\<lambda>l. first_of (map parse (split_whitespace l)))
         (filter (\<lambda>l. l \<noteq> [] \<and> \<not> starts_with l ''#'') (map trim (lines text))))"

definition has_keys :: "('w, 'k) ssh_env \<Rightarrow> 'w \<Rightarrow> bool" where
  "has_keys e w \<longleftrightarrow> se_cloudid_keys e w \<noteq> None \<or> sc_authorized_keys (se_config e) \<noteq> None"

definition in_authorized_keys :: "('w, 'k) ssh_env \<Rightarrow> 'w \<Rightarrow> 'k \<Rightarrow> bool" where
  "in_authorized_keys e w key =
     (case sc_authorized_keys (se_config e) of
        None \<Rightarrow> False
      | Some path \<Rightarrow>
          (case se_read e w path of Some t \<Rightarrow> authorized_keys_contains (se_parse_key e) t key | None \<Rightarrow> False))"

definition store_contains :: "'k key_store \<Rightarrow> 'k \<Rightarrow> bool" where
  "store_contains ks key \<longleftrightarrow> list_ex (\<lambda>(k, _). k = key) ks"

definition offered_methods :: "('w, 'k) ssh_env \<Rightarrow> 'w \<Rightarrow> auth_method list" where
  "offered_methods e w = (if has_keys e w then [PublicKey, Password] else [Password])"

definition auth_password :: "('w, 'k) ssh_env \<Rightarrow> 'w \<Rightarrow> string \<Rightarrow> string \<Rightarrow> auth_answer" where
  "auth_password e w user password =
     (if password = sc_password (se_config e) \<or> password = se_cloud_id e then Accept
      else Reject (offered_methods e w))"

definition key_known :: "('w, 'k) ssh_env \<Rightarrow> 'w \<Rightarrow> 'k \<Rightarrow> bool" where
  "key_known e w key \<longleftrightarrow> in_authorized_keys e w key
     \<or> (case se_cloudid_keys e w of Some ks \<Rightarrow> store_contains ks key | None \<Rightarrow> False)"

definition auth_publickey_offered :: "('w, 'k) ssh_env \<Rightarrow> 'w \<Rightarrow> string \<Rightarrow> 'k \<Rightarrow> auth_answer" where
  "auth_publickey_offered e w user key =
     (if in_authorized_keys e w key then Accept
      else case se_cloudid_keys e w of
             Some ks \<Rightarrow> if store_contains ks key then Accept else Reject [PublicKey, Password]
           | None \<Rightarrow> Reject [PublicKey, Password])"

definition auth_publickey :: "('w, 'k) ssh_env \<Rightarrow> 'w \<Rightarrow> string \<Rightarrow> 'k \<Rightarrow> auth_answer" where
  "auth_publickey e w user key =
     (if in_authorized_keys e w key then Accept
      else case se_cloudid_keys e w of
             Some ks \<Rightarrow> if store_contains ks key then Accept else Reject [Password]
           | None \<Rightarrow> Reject [Password])"

definition auth_none :: "('w, 'k) ssh_env \<Rightarrow> 'w \<Rightarrow> string \<Rightarrow> auth_answer" where
  "auth_none e w user = Reject (offered_methods e w)"

section \<open>Channels\<close>

definition channel_open_session :: "channel_id \<Rightarrow> ssh_session \<Rightarrow> ssh_session" where
  "channel_open_session c s =
     s\<lparr>ss_channels := (c, \<lparr>ch_line = [], ch_history = []\<rparr>) # filter (\<lambda>x. fst x \<noteq> c) (ss_channels s),
       ss_raw := c # filter (\<lambda>x. x \<noteq> c) (ss_raw s)\<rparr>"

definition channel_close :: "channel_id \<Rightarrow> ssh_session \<Rightarrow> ssh_session" where
  "channel_close c s = s\<lparr>ss_channels := filter (\<lambda>x. fst x \<noteq> c) (ss_channels s)\<rparr>"

definition channel_eof :: "channel_id \<Rightarrow> reply list" where
  "channel_eof c = [CloseChannel c]"

text \<open>The SFTP server runs on the raw channel taken out (\<open>True\<close>), or nothing runs.\<close>

definition subsystem_request :: "channel_id \<Rightarrow> string \<Rightarrow> ssh_session \<Rightarrow> ssh_session \<times> reply list \<times> bool" where
  "subsystem_request c name s =
     (if name = ''sftp'' then
        if c \<in> set (ss_raw s)
        then (s\<lparr>ss_raw := filter (\<lambda>x. x \<noteq> c) (ss_raw s)\<rparr>, [ChannelSuccess c], True)
        else (s, [ChannelFailure c], False)
      else (s, [ChannelFailure c], False))"

definition prompt :: "('w, 'k) ssh_env \<Rightarrow> channel_id \<Rightarrow> reply" where
  "prompt e c = SendText c (esc ''1;32m'' @ ''root@'' @ se_container e @ esc ''0m'' @ '':'' @ esc ''1;34m'' @ ''~''
     @ esc ''0m'' @ ''# '')"

definition pty_request :: "('w, 'k) ssh_env \<Rightarrow> channel_id \<Rightarrow> reply list" where
  "pty_request e c =
     [SendText c (crlf @ esc ''1m'' @ ''stormd'' @ esc ''0m'' @ '' -- container management shell'' @ crlf
        @ ''Container: '' @ se_container e @ crlf
        @ ''Type '' @ esc ''1m'' @ ''help'' @ esc ''0m'' @ '' for available commands.'' @ crlf @ crlf),
      prompt e c]"

definition shell_request :: "('w, 'k) ssh_env \<Rightarrow> channel_id \<Rightarrow> reply list" where
  "shell_request e c =
     [SendText c (crlf @ ''stormd -- container management shell'' @ crlf @ ''Container: '' @ se_container e @ crlf
        @ ''Type help for available commands.'' @ crlf @ crlf),
      prompt e c]"

section \<open>The line editor\<close>

text \<open>Lengths and positions of a Rust string count the bytes of its UTF-8.\<close>

definition utf8_width :: "char \<Rightarrow> nat" where
  "utf8_width c = (if (of_char c :: nat) < 128 then 1 else 2)"

definition utf8_len :: "string \<Rightarrow> nat" where
  "utf8_len s = sum_list (map utf8_width s)"

fun str_from :: "nat \<Rightarrow> string \<Rightarrow> string option" where
  "str_from 0 s = Some s"
| "str_from (Suc n) [] = None"
| "str_from (Suc n) (c # s) =
     (if utf8_width c \<le> Suc n then str_from (Suc n - utf8_width c) s else None)"

definition last_word :: "string \<Rightarrow> string" where
  "last_word line = (let ws = split_whitespace line in if ws = [] then [] else last ws)"

text \<open>
  One byte of input: the state after it, what is sent, and whether the handler returns there, leaving
  the rest of the input.
\<close>

type_synonym 'w keyed = "('w \<times> channel_state \<times> reply list \<times> bool) option"

definition enter :: "('w, 'k) ssh_env \<Rightarrow> channel_id \<Rightarrow> channel_state \<Rightarrow> 'w \<Rightarrow> 'w keyed" where
  "enter e c st w =
     (let line = ch_line st;
          st1 = (if trim line \<noteq> [] then st\<lparr>ch_history := ch_history st @ [line]\<rparr> else st)\<lparr>ch_line := []\<rparr>
      in case se_exec e line w of
           None \<Rightarrow> None
         | Some (w1, out) \<Rightarrow>
             Some (w1, st1, SendBytes c [0x0D, 0x0A] # SendText c (so_text out)
                     # (if so_exit out then [CloseChannel c] else [prompt e c]), True))"

definition tab_key :: "('w, 'k) ssh_env \<Rightarrow> channel_id \<Rightarrow> channel_state \<Rightarrow> 'w \<Rightarrow> 'w keyed" where
  "tab_key e c st w =
     (let partial = ch_line st; found = se_complete e w partial
      in case found of
           [] \<Rightarrow> Some (w, st, [], False)
         | [completion] \<Rightarrow>
             (case str_from (utf8_len (last_word partial)) completion of
                None \<Rightarrow> None
              | Some rest \<Rightarrow>
                  Some (w, st\<lparr>ch_line := ch_line st @ rest @ '' ''\<rparr>, [SendText c (rest @ '' '')], False))
         | _ \<Rightarrow>
             Some (w, st, [SendText c (crlf @ join ''  '' found @ crlf), prompt e c, SendText c (ch_line st)], True))"

definition key_press :: "('w, 'k) ssh_env \<Rightarrow> channel_id \<Rightarrow> u8 \<Rightarrow> channel_state \<Rightarrow> 'w \<Rightarrow> 'w keyed" where
  "key_press e c b st w =
     (if b = 0x0D \<or> b = 0x0A then enter e c st w
      else if b = 0x7F \<or> b = 0x08 then
        (if ch_line st \<noteq> [] then Some (w, st\<lparr>ch_line := butlast (ch_line st)\<rparr>, [SendBytes c [0x08, 0x20, 0x08]], False)
         else Some (w, st, [], False))
      else if b = 0x03 then
        Some (w, st\<lparr>ch_line := []\<rparr>, [SendBytes c [0x5E, 0x43, 0x0D, 0x0A], prompt e c], True)
      else if b = 0x04 then
        (if ch_line st = [] then Some (w, st, [SendText c (crlf @ ''logout'' @ crlf), CloseChannel c], True)
         else Some (w, st, [], False))
      else if b = 0x09 then tab_key e c st w
      else if 0x20 \<le> b then
        Some (w, st\<lparr>ch_line := ch_line st @ [char_of (unat b)]\<rparr>, [SendBytes c [b]], False)
      else Some (w, st, [], False))"

fun key_presses ::
    "('w, 'k) ssh_env \<Rightarrow> channel_id \<Rightarrow> u8 list \<Rightarrow> channel_state \<Rightarrow> 'w \<Rightarrow> ('w \<times> channel_state \<times> reply list) option" where
  "key_presses e c [] st w = Some (w, st, [])"
| "key_presses e c (b # bs) st w =
     (case key_press e c b st w of
        None \<Rightarrow> None
      | Some (w1, st1, out, returns) \<Rightarrow>
          if returns then Some (w1, st1, out)
          else (case key_presses e c bs st1 w1 of
                  None \<Rightarrow> None | Some (w2, st2, out2) \<Rightarrow> Some (w2, st2, out @ out2)))"

definition ssh_data ::
    "('w, 'k) ssh_env \<Rightarrow> channel_id \<Rightarrow> u8 list \<Rightarrow> ssh_session \<Rightarrow> 'w \<Rightarrow> ('w \<times> ssh_session \<times> reply list) option" where
  "ssh_data e c bytes s w =
     (case map_of (ss_channels s) c of
        None \<Rightarrow> Some (w, s, [])
      | Some st \<Rightarrow>
          (case key_presses e c bytes st w of
             None \<Rightarrow> None
           | Some (w1, st1, out) \<Rightarrow>
               Some (w1, s\<lparr>ss_channels := map (\<lambda>(d, x). (d, if d = c then st1 else x)) (ss_channels s)\<rparr>, out)))"

section \<open>Correctness\<close>

text \<open>Keys the editor puts into the line as they are.\<close>

definition plain_key :: "u8 \<Rightarrow> bool" where
  "plain_key b \<longleftrightarrow> 0x20 \<le> b \<and> b \<noteq> 0x7F"

definition as_typed :: "u8 list \<Rightarrow> string" where
  "as_typed bs = map (\<lambda>b. char_of (unat b)) bs"

lemma plain_key_press:
  "plain_key b \<Longrightarrow> key_press e c b st w = Some (w, st\<lparr>ch_line := ch_line st @ [char_of (unat b)]\<rparr>, [SendBytes c [b]], False)"
  by (auto simp: plain_key_def key_press_def)

lemma key_presses_plain:
  "list_all plain_key bs \<Longrightarrow> key_presses e c (bs @ rest) st w =
     (case key_presses e c rest (st\<lparr>ch_line := ch_line st @ as_typed bs\<rparr>) w of
        None \<Rightarrow> None | Some (w2, st2, out) \<Rightarrow> Some (w2, st2, map (\<lambda>b. SendBytes c [b]) bs @ out))"
proof (induction bs arbitrary: st)
  case Nil
  then show ?case by (simp add: as_typed_def split: option.split prod.split)
next
  case (Cons b bs)
  then show ?case by (simp add: plain_key_press as_typed_def split: option.split prod.split)
qed

lemma enter_press: "b = 0x0D \<or> b = 0x0A \<Longrightarrow> key_press e c b st w = enter e c st w"
  by (auto simp: key_press_def)

lemma enter_returns: "enter e c st w = Some (w1, st1, out, r) \<Longrightarrow> r"
  by (auto simp: enter_def Let_def split: option.splits prod.splits)

lemma str_from_prefix: "str_from (utf8_len p) (p @ r) = Some r"
proof (induction p)
  case (Cons a p)
  have "utf8_len (a # p) = Suc (utf8_len (a # p) - 1)" by (simp add: utf8_len_def utf8_width_def)
  moreover have "utf8_len (a # p) - utf8_width a = utf8_len p" "utf8_width a \<le> utf8_len (a # p)"
    by (simp_all add: utf8_len_def)
  ultimately show ?case using Cons by (metis append_Cons str_from.simps(3))
qed (simp add: utf8_len_def)

lemma str_from_short: "utf8_len s < n \<Longrightarrow> str_from n s = None"
proof (induction n s rule: str_from.induct)
  case (3 n c s)
  then show ?case by (auto simp: utf8_len_def)
qed (auto simp: utf8_len_def)

lemma complete_shape:
  "split_whitespace line = a # b # rest \<Longrightarrow> \<exists>P Q R X. complete ls cwd ns line =
     (if P then filter (\<lambda>c. starts_with c (last (b # rest))) X
      else if Q then filter (\<lambda>n. starts_with n (last (b # rest))) ns
      else if R then complete_path ls cwd (last (b # rest)) else [])"
  unfolding complete_def by (simp only: list.case Let_def) (intro exI, rule refl)

lemma complete_starts:
  assumes "CHR ''/'' \<notin> set (last_word line)" and "c \<in> set (complete ls cwd ns line)"
  shows "starts_with c (last_word line)"
proof (cases "split_whitespace line")
  case Nil
  then show ?thesis by (simp add: last_word_def starts_with_def)
next
  case (Cons a rest)
  show ?thesis
  proof (cases rest)
    case Nil
    with assms(2) \<open>split_whitespace line = a # rest\<close> show ?thesis by (simp add: complete_def last_word_def)
  next
    case (Cons b rest')
    have word: "last_word line = last rest"
      using \<open>split_whitespace line = a # rest\<close> Cons by (simp add: last_word_def)
    have path: "x \<in> set (complete_path ls cwd (last rest)) \<Longrightarrow> starts_with x (last rest)" for x
      using assms(1) word
      by (auto simp: complete_path_def completed_def Let_def starts_with_iff split: sum.splits if_splits)
    from complete_shape [of line a b rest' ls cwd ns] \<open>split_whitespace line = a # rest\<close> Cons
    obtain P Q R X where "complete ls cwd ns line =
        (if P then filter (\<lambda>c. starts_with c (last rest)) X else if Q then filter (\<lambda>n. starts_with n (last rest)) ns
         else if R then complete_path ls cwd (last rest) else [])"
      by auto
    with assms(2) word path [of c] show ?thesis by (simp split: if_splits)
  qed
qed

section \<open>Properties\<close>

text \<open>What follows a line end in the same packet is lost: a text of several lines pasted at once runs its
  first line, and the other lines never reach the editor.\<close>

theorem input_after_line_end_is_lost:
  "b = 0x0D \<or> b = 0x0A \<Longrightarrow> ssh_data e c (typed @ b # rest) s w = ssh_data e c (typed @ [b]) s w"
proof -
  assume b: "b = 0x0D \<or> b = 0x0A"
  have "key_presses e c (typed @ b # rest) st w = key_presses e c (typed @ [b]) st w" for st
  proof (induction typed arbitrary: st w)
    case Nil
    show ?case by (cases "enter e c st w") (auto simp: enter_press [OF b] dest: enter_returns)
  next
    case (Cons x xs)
    then show ?case by (simp split: option.split prod.split)
  qed
  then show ?thesis by (simp add: ssh_data_def split: option.split prod.split)
qed

text \<open>A line typed byte by byte and ended runs as it was typed: the command is the line there was with
  one character per byte appended, the line is emptied, and the handler returns.\<close>

theorem typed_line_is_run:
  assumes "list_all plain_key typed" and "se_exec e (ch_line st @ as_typed typed) w = Some (w1, out)"
  shows "\<exists>st1 sent. key_presses e c (typed @ [0x0D]) st w = Some (w1, st1, sent)
    \<and> ch_line st1 = [] \<and> SendText c (so_text out) \<in> set sent
    \<and> (CloseChannel c \<in> set sent \<longleftrightarrow> so_exit out)"
  using assms by (auto simp: key_presses_plain enter_press enter_def Let_def prompt_def)

text \<open>A Tab on a path with a doubled slash ends all of stormd: the one completion is shorter than what
  was typed, and cutting the typed length off it panics.\<close>

theorem tab_on_doubled_slash_panics:
  assumes "se_complete e w = complete ls cwd ns" and "ls ''a'' = Inr [entry]" and "de_name entry = ''bc''"
    and "de_type entry = Some RegularFile" and "map_of (ss_channels s) c = Some st" and "ch_line st = ''cat a////b''"
  shows "ssh_data e c [0x09] s w = None"
proof -
  have words: "split_whitespace ''cat a////b'' = [''cat'', ''a////b'']"
    by (simp add: split_whitespace_def is_ws_def)
  have "path_parent ''a////b'' = Some ''a''" "file_name ''a////b'' = Some ''b''"
    by (simp_all add: path_parent_def file_name_def Let_def)
  then have "complete_path ls cwd ''a////b'' = [''a/bc'']"
    using assms(2-4) by (simp add: complete_path_def completed_def starts_with_def)
  then have "complete ls cwd ns ''cat a////b'' = [''a/bc'']"
    unfolding complete_def words by simp
  moreover have "str_from (utf8_len (last_word ''cat a////b'')) ''a/bc'' = None"
    by (rule str_from_short) (simp add: last_word_def words utf8_len_def utf8_width_def)
  ultimately show ?thesis
    using assms(1,5,6) by (simp add: ssh_data_def key_press_def tab_key_def Let_def)
qed

text \<open>Where the last word has no slash a Tab never panics, and what it adds keeps the line as typed.\<close>

theorem tab_extends_the_line:
  assumes "se_complete e w = complete ls cwd ns" and "CHR ''/'' \<notin> set (last_word (ch_line st))"
  shows "\<exists>r more. tab_key e c st w = Some r \<and> ch_line (fst (snd r)) = ch_line st @ more"
proof (cases "complete ls cwd ns (ch_line st)")
  case Nil
  with assms(1) show ?thesis by (simp add: tab_key_def)
next
  case (Cons x xs)
  then have "starts_with x (last_word (ch_line st))"
    using complete_starts [OF assms(2), of x ls cwd ns] by simp
  then obtain r where "x = last_word (ch_line st) @ r" by (auto simp: starts_with_iff)
  with Cons assms(1) show ?thesis
    by (cases xs) (simp_all add: tab_key_def str_from_prefix Let_def)
qed

text \<open>A public key gets in exactly when a line of the authorized keys file, read at that moment, has it
  as its first readable field, or CloudID delivered it; what is said to an offer and to the signed
  request agrees.\<close>

theorem public_key_accepted_exactly_when:
  "(auth_publickey e w user key = Accept \<longleftrightarrow>
      (\<exists>path text l. sc_authorized_keys (se_config e) = Some path \<and> se_read e w path = Some text \<and> l \<in> set (lines text)
         \<and> trim l \<noteq> [] \<and> hd (trim l) \<noteq> CHR ''#''
         \<and> first_of (map (se_parse_key e) (split_whitespace (trim l))) = Some key)
      \<or> (\<exists>ks owner. se_cloudid_keys e w = Some ks \<and> (key, owner) \<in> set ks))
   \<and> (auth_publickey_offered e w user key = Accept \<longleftrightarrow> auth_publickey e w user key = Accept)"
proof -
  have hash: "starts_with l ''#'' \<longleftrightarrow> l \<noteq> [] \<and> hd l = CHR ''#''" for l
    by (cases l) (auto simp: starts_with_iff)
  have store: "store_contains ks key \<longleftrightarrow> (\<exists>owner. (key, owner) \<in> set ks)" for ks
    by (auto simp: store_contains_def list_ex_iff)
  have listed: "authorized_keys_contains parse t key \<longleftrightarrow>
      (\<exists>l. l \<in> set (lines t) \<and> trim l \<noteq> [] \<and> hd (trim l) \<noteq> CHR ''#''
         \<and> first_of (map parse (split_whitespace (trim l))) = Some key)" for parse t
    by (auto simp: authorized_keys_contains_def list_ex_iff hash)
  show ?thesis
    by (simp add: auth_publickey_def auth_publickey_offered_def in_authorized_keys_def listed store split: option.split)
qed

section \<open>A session to try them on\<close>

definition demo_ssh :: "(unit, string) ssh_env" where
  "demo_ssh = \<lparr>se_config = ssh_config_default, se_cloud_id = ''id'', se_container = ''c'', se_cloudid_keys = (\<lambda>w. None),
     se_read = (\<lambda>w p. None), se_parse_key = (\<lambda>s. Some s), se_exec = (\<lambda>l w. Some (w, out_text l)),
     se_complete = (\<lambda>w. complete (\<lambda>d. if d = ''a'' then Inr [\<lparr>de_name = ''bc'', de_path = ''a/bc'',
        de_type = Some RegularFile, de_meta = None\<rparr>] else Inl []) ''/'' [])\<rparr>"

lemma input_after_line_end_is_lost_witness:
  "ssh_data demo_ssh 0 ([0x61] @ 0x0A # [0x62, 0x0A]) new_client () = ssh_data demo_ssh 0 ([0x61] @ [0x0A]) new_client ()"
  by (rule input_after_line_end_is_lost) simp

lemma typed_line_is_run_witness:
  "\<exists>st1 sent. key_presses demo_ssh 0 ([0x6C, 0x73] @ [0x0D]) \<lparr>ch_line = [], ch_history = []\<rparr> () = Some ((), st1, sent)
    \<and> SendText 0 ''ls'' \<in> set sent"
proof -
  have "as_typed [0x6C, 0x73] = ''ls''" by (simp add: as_typed_def) code_simp
  then have "se_exec demo_ssh (ch_line \<lparr>ch_line = [], ch_history = []\<rparr> @ as_typed [0x6C, 0x73]) () = Some ((), out_text ''ls'')"
    by (simp add: demo_ssh_def)
  moreover have "list_all plain_key [0x6C, 0x73]" by (simp add: plain_key_def)
  ultimately show ?thesis using typed_line_is_run [of "[0x6C, 0x73]" demo_ssh] by fastforce
qed

lemma tab_on_doubled_slash_panics_witness:
  "ssh_data demo_ssh 0 [0x09] \<lparr>ss_channels = [(0, \<lparr>ch_line = ''cat a////b'', ch_history = []\<rparr>)], ss_raw = []\<rparr> () = None"
  by (rule tab_on_doubled_slash_panics [where st = "\<lparr>ch_line = ''cat a////b'', ch_history = []\<rparr>"
        and entry = "\<lparr>de_name = ''bc'', de_path = ''a/bc'', de_type = Some RegularFile, de_meta = None\<rparr>"
        and ls = "\<lambda>d. if d = ''a'' then Inr [\<lparr>de_name = ''bc'', de_path = ''a/bc'', de_type = Some RegularFile, de_meta = None\<rparr>] else Inl []"
        and cwd = "''/''" and ns = "[]"])
    (simp_all add: demo_ssh_def)

lemma tab_extends_the_line_witness:
  "\<exists>r more. tab_key demo_ssh 0 \<lparr>ch_line = ''upti'', ch_history = []\<rparr> () = Some r \<and> ch_line (fst (snd r)) = ''upti'' @ more"
  using tab_extends_the_line [of demo_ssh "()" "\<lambda>d. if d = ''a'' then Inr [\<lparr>de_name = ''bc'', de_path = ''a/bc'',
        de_type = Some RegularFile, de_meta = None\<rparr>] else Inl []" "''/''" "[]" "\<lparr>ch_line = ''upti'', ch_history = []\<rparr>" 0]
  by (simp add: demo_ssh_def last_word_def split_whitespace_def is_ws_def Let_def)

end
