(* ===== verification/CloudId.thy ===== *)
theory CloudId
  imports Http Ssh
begin

text \<open>
  \<open>crates/stormd/src/cloudid.rs\<close>: the public keys an EC2-compatible metadata service lists. A client
  asks for an IMDSv2 token and sends it along until a minute before it expires; a status that is not
  2xx is an error. The service is the HTTP client, \<open>now\<close> its clock in milliseconds, \<open>parse\<close> the
  base64 reader of \<open>russh_keys\<close>.
\<close>

record imds =
  im_base :: string
  im_token :: "(string \<times> millis) option"

record ('w, 'k) imds_env =
  ie_http :: "'w http_client"
  ie_now :: "'w \<Rightarrow> millis"
  ie_parse :: "string \<Rightarrow> 'k option"

definition token_ttl_secs :: int where "token_ttl_secs = 21600"

definition imds_new :: "string \<Rightarrow> imds" where
  "imds_new base_url = \<lparr>im_base = trim_end_matches ''/'' base_url, im_token = None\<rparr>"

section \<open>The token\<close>

definition token_request :: "string \<Rightarrow> http_request" where
  "token_request base = with_header ''Metadata-Flavor'' ''StormIMDS''
     (with_header ''X-aws-ec2-metadata-token-ttl-seconds'' (show_int token_ttl_secs)
       (ask PUT (base @ ''/latest/api/token'')))"

definition fresh_token :: "('w, 'k) imds_env \<Rightarrow> imds \<Rightarrow> 'w \<Rightarrow> string option" where
  "fresh_token e m w =
     (case im_token m of Some (t, until) \<Rightarrow> if ie_now e w < until then Some t else None | None \<Rightarrow> None)"

definition imds_token :: "('w, 'k) imds_env \<Rightarrow> imds \<times> 'w \<Rightarrow> (imds \<times> 'w) \<times> string option" where
  "imds_token e = (\<lambda>(m, w).
     (case fresh_token e m w of
        Some t \<Rightarrow> ((m, w), Some t)
      | None \<Rightarrow>
          (let m1 = m\<lparr>im_token := None\<rparr>
           in case ie_http e (token_request (im_base m)) w of
                (w1, Inl _) \<Rightarrow> ((m1, w1), None)
              | (w1, Inr a) \<Rightarrow>
                  if is_success a then
                    (let t = trim (text_or_empty a)
                     in if t = [] then ((m1, w1), None)
                        else ((m1\<lparr>im_token := Some (t, ie_now e w1 + (token_ttl_secs - 60) * 1000)\<rparr>, w1), Some t))
                  else ((m1, w1), None))))"

section \<open>Requests\<close>

definition refusal :: "string \<Rightarrow> http_answer \<Rightarrow> string" where
  "refusal url a =
     (if an_status a = 404
      then ''GET '' @ url @ '': HTTP '' @ an_shown a
        @ '' -- the metadata service does not know this host ''
        @ ''(on a stormcos node the link-local address is stormimds, not cloudid: stormd#30)''
      else ''GET '' @ url @ '': HTTP '' @ an_shown a)"

definition metadata_request :: "string \<Rightarrow> string option \<Rightarrow> http_request" where
  "metadata_request url token =
     (let r = with_header ''Metadata-Flavor'' ''StormIMDS'' (ask GET url)
      in case token of Some t \<Rightarrow> with_header ''X-aws-ec2-metadata-token'' t r | None \<Rightarrow> r)"

text \<open>
  The loop over the attempts left: \<open>again\<close> is \<open>attempt == 0\<close>. After the second attempt the code has
  \<open>unreachable!\<close>, which is \<open>None\<close> here.
\<close>

fun imds_attempts ::
    "('w, 'k) imds_env \<Rightarrow> string \<Rightarrow> nat \<Rightarrow> nat \<Rightarrow> imds \<times> 'w \<Rightarrow> ((imds \<times> 'w) \<times> (string + string)) option" where
  "imds_attempts e url attempt 0 s = None"
| "imds_attempts e url attempt (Suc left') s =
     (let ((m, w), token) = imds_token e s
      in case ie_http e (metadata_request url token) w of
           (w1, Inl err) \<Rightarrow> Some ((m, w1), Inl (''GET '' @ url @ '': '' @ err))
         | (w1, Inr a) \<Rightarrow>
             if an_status a = 401 \<and> token \<noteq> None \<and> attempt = 0
             then imds_attempts e url (Suc attempt) left' (m\<lparr>im_token := None\<rparr>, w1)
             else if \<not> is_success a then Some ((m, w1), Inl (refusal url a))
             else Some ((m, w1), (case an_text a of Inl err \<Rightarrow> Inl (''GET '' @ url @ '': '' @ err) | Inr t \<Rightarrow> Inr t)))"

definition trim_start_slashes :: "string \<Rightarrow> string" where
  "trim_start_slashes s = dropWhile (\<lambda>c. c = CHR ''/'') s"

definition imds_get :: "('w, 'k) imds_env \<Rightarrow> string \<Rightarrow> imds \<times> 'w \<Rightarrow> ((imds \<times> 'w) \<times> (string + string)) option" where
  "imds_get e path s = imds_attempts e (im_base (fst s) @ ''/'' @ trim_start_slashes path) 0 2 s"

section \<open>The keys\<close>

text \<open>A line of a key file: its second field, or all of it.\<close>

definition key_field :: "string \<Rightarrow> string" where
  "key_field l = (case split_whitespace l of _ # b # _ \<Rightarrow> b | _ \<Rightarrow> l)"

definition keys_of :: "(string \<Rightarrow> 'k option) \<Rightarrow> string \<Rightarrow> string \<Rightarrow> 'k key_store" where
  "keys_of parse user text =
     List.map_filter (\<lambda>l. map_option (\<lambda>k. (k, user)) (parse (key_field l)))
       (filter (\<lambda>l. l \<noteq> [] \<and> \<not> starts_with l ''#'') (map trim (lines text)))"

definition index_entry :: "string \<Rightarrow> (string \<times> string) option" where
  "index_entry l = (let t = trim l in if t = [] then None else split_once ''='' t)"

definition key_path :: "string \<Rightarrow> string" where
  "key_path idx = ''latest/meta-data/public-keys/'' @ idx @ ''/openssh-key''"

fun fetch_entries ::
    "('w, 'k) imds_env \<Rightarrow> (string \<times> string) list \<Rightarrow> 'k key_store \<Rightarrow> imds \<times> 'w \<Rightarrow> ((imds \<times> 'w) \<times> 'k key_store) option" where
  "fetch_entries e [] ks s = Some (s, ks)"
| "fetch_entries e ((idx, user) # es) ks s =
     (case imds_get e (key_path idx) s of
        None \<Rightarrow> None
      | Some (s1, Inl _) \<Rightarrow> fetch_entries e es ks s1
      | Some (s1, Inr text) \<Rightarrow> fetch_entries e es (ks @ keys_of (ie_parse e) user text) s1)"

definition fetch_keys :: "('w, 'k) imds_env \<Rightarrow> imds \<times> 'w \<Rightarrow> ((imds \<times> 'w) \<times> (string + 'k key_store)) option" where
  "fetch_keys e s =
     (case imds_get e ''latest/meta-data/public-keys/'' s of
        None \<Rightarrow> None
      | Some (s1, Inl err) \<Rightarrow> Some (s1, Inl (''CloudID index: '' @ err))
      | Some (s1, Inr text) \<Rightarrow>
          map_option (\<lambda>(s2, ks). (s2, Inr ks)) (fetch_entries e (List.map_filter index_entry (lines text)) [] s1))"

definition store_lookup :: "'k key_store \<Rightarrow> 'k \<Rightarrow> string option" where
  "store_lookup ks key = map_option snd (List.find (\<lambda>(k, _). k = key) ks)"

section \<open>The refresh loop\<close>

datatype refresh_note = WarnedRefresh string | StillFailing string | Recovered nat | Refreshed nat

record ('w, 'k) refresher =
  rf_imds :: imds
  rf_world :: 'w
  rf_store :: "'k key_store"
  rf_last_error :: "string option"
  rf_notes :: "refresh_note list"

definition refresh_start :: "('w, 'k) imds_env \<Rightarrow> string \<Rightarrow> 'w \<Rightarrow> ('w, 'k) refresher option" where
  "refresh_start e url w =
     map_option (\<lambda>((m, w1), r).
        \<lparr>rf_imds = m, rf_world = w1, rf_store = (case r of Inr ks \<Rightarrow> ks | Inl _ \<Rightarrow> []),
         rf_last_error = (case r of Inr _ \<Rightarrow> None | Inl err \<Rightarrow> Some err),
         rf_notes = (case r of Inr _ \<Rightarrow> [] | Inl err \<Rightarrow> [WarnedRefresh err])\<rparr>)
       (fetch_keys e (imds_new url, w))"

text \<open>One turn, thirty seconds after the one before: \<open>sleep\<close>.\<close>

definition refresh_turn :: "('w, 'k) imds_env \<Rightarrow> ('w \<Rightarrow> 'w) \<Rightarrow> ('w, 'k) refresher \<Rightarrow> ('w, 'k) refresher option" where
  "refresh_turn e sleep f =
     map_option (\<lambda>((m, w1), r).
        (case r of
           Inr ks \<Rightarrow>
             f\<lparr>rf_imds := m, rf_world := w1, rf_store := ks, rf_last_error := None,
               rf_notes := rf_notes f @ (if rf_last_error f \<noteq> None then [Recovered (length ks)] else []) @ [Refreshed (length ks)]\<rparr>
         | Inl err \<Rightarrow>
             f\<lparr>rf_imds := m, rf_world := w1, rf_last_error := Some err,
               rf_notes := rf_notes f @ [if rf_last_error f \<noteq> Some err then WarnedRefresh err else StillFailing err]\<rparr>))
       (fetch_keys e (rf_imds f, sleep (rf_world f)))"

section \<open>Correctness\<close>

lemma imds_get_returns: "imds_get e path s \<noteq> None"
proof -
  have "imds_attempts e url 1 1 s \<noteq> None" for url s
    unfolding One_nat_def imds_attempts.simps
    by (simp add: Let_def split: prod.split sum.split)
  then have "imds_attempts e url 0 (Suc (Suc 0)) s \<noteq> None" for url
    by (simp add: Let_def split: prod.split sum.split del: not_None_eq)
  then show ?thesis by (simp add: imds_get_def numeral_2_eq_2 del: imds_attempts.simps not_None_eq)
qed

lemma fetch_entries_return: "fetch_entries e es ks s \<noteq> None"
proof (induction es arbitrary: ks s)
  case (Cons x es)
  obtain idx user where "x = (idx, user)" by fastforce
  with Cons imds_get_returns [of e "key_path idx" s] show ?case
    by (auto simp del: not_None_eq split: option.split prod.split sum.split)
qed simp

section \<open>Properties\<close>

text \<open>Whatever the service answers, a refresh returns: neither of its requests reaches the
  \<open>unreachable!\<close> after the second attempt.\<close>

theorem refresh_never_panics: "refresh_start e url w \<noteq> None \<and> refresh_turn e sleep f \<noteq> None"
proof -
  have "fetch_keys e s \<noteq> None" for s
    using imds_get_returns [of e "''latest/meta-data/public-keys/''" s]
    by (auto simp: fetch_keys_def fetch_entries_return simp del: not_None_eq split: option.split prod.split sum.split)
  then show ?thesis by (simp add: refresh_start_def refresh_turn_def del: not_None_eq)
qed

text \<open>A token the service has forgotten costs one more request, not the answer: after a 401 the client
  asks for a new token, sends it, and keeps it.\<close>

theorem forgotten_token_is_replaced:
  assumes "fresh_token e m w = Some t"
    and "ie_http e (metadata_request url (Some t)) w = (w1, Inr refused)" and "an_status refused = 401"
    and "ie_http e (token_request (im_base m)) w1 = (w2, Inr issued)" and "is_success issued"
    and "trim (text_or_empty issued) = t2" and "t2 \<noteq> []"
    and "ie_http e (metadata_request url (Some t2)) w2 = (w3, Inr a)" and "is_success a" and "an_text a = Inr body"
  shows "imds_attempts e url 0 2 (m, w)
    = Some ((m\<lparr>im_token := Some (t2, ie_now e w2 + (token_ttl_secs - 60) * 1000)\<rparr>, w3), Inr body)"
proof -
  have "an_status a \<noteq> 401" using assms(9) by (auto simp: is_success_def)
  moreover have "fresh_token e (m\<lparr>im_token := None\<rparr>) w1 = None" by (simp add: fresh_token_def)
  ultimately show ?thesis
    using assms unfolding numeral_2_eq_2
    by (simp add: imds_token_def Let_def)
qed

text \<open>The keys of a refresh replace those before, also when the request for one of them was refused: its
  owner is locked out until a later turn, though the refresh counts as having worked.\<close>

theorem one_refused_key_is_dropped:
  assumes "imds_get e ''latest/meta-data/public-keys/'' (rf_imds f, sleep (rf_world f)) = Some (s1, Inr index)"
    and "List.map_filter index_entry (lines index) = [(idx, user)]"
    and "imds_get e (key_path idx) s1 = Some (s2, Inl refused)"
  shows "\<exists>f'. refresh_turn e sleep f = Some f' \<and> rf_store f' = [] \<and> rf_last_error f' = None"
  using assms by (cases s2) (simp add: refresh_turn_def fetch_keys_def)

text \<open>A refresh whose index cannot be read leaves the keys there were.\<close>

theorem failed_index_keeps_the_keys:
  assumes "imds_get e ''latest/meta-data/public-keys/'' (rf_imds f, sleep (rf_world f)) = Some (s1, Inl refused)"
  shows "\<exists>f'. refresh_turn e sleep f = Some f' \<and> rf_store f' = rf_store f \<and> rf_last_error f' \<noteq> None"
  using assms by (cases s1) (simp add: refresh_turn_def fetch_keys_def)

section \<open>A service\<close>

text \<open>The world is the token the service knows, if any; it issues \<open>new\<close>, and has an index but no keys.\<close>

definition ok_text :: "string \<Rightarrow> http_answer" where
  "ok_text t = \<lparr>an_status = 200, an_shown = ''200 OK'', an_text = Inr t, an_json = Inl [], an_headers = []\<rparr>"

definition not_ok :: "nat \<Rightarrow> http_answer" where
  "not_ok st = \<lparr>an_status = st, an_shown = show_nat st, an_text = Inr [], an_json = Inl [], an_headers = []\<rparr>"

definition demo_imds :: "(string option, string) imds_env" where
  "demo_imds = \<lparr>ie_http = (\<lambda>r w.
       if rq_method r = PUT then (Some ''new'', Inr (ok_text ''new''))
       else if map_of (rq_headers r) ''X-aws-ec2-metadata-token'' \<noteq> w then (w, Inr (not_ok 401))
       else if rq_url r = ''http://m/latest/meta-data/public-keys/'' then (w, Inr (ok_text ''0=ann''))
       else (w, Inr (not_ok 500))),
     ie_now = (\<lambda>w. 0), ie_parse = (\<lambda>s. Some s)\<rparr>"

definition demo_refresher :: "(string option, string) refresher" where
  "demo_refresher = \<lparr>rf_imds = \<lparr>im_base = ''http://m'', im_token = Some (''old'', 1)\<rparr>, rf_world = None,
     rf_store = [(''key'', ''ann'')], rf_last_error = None, rf_notes = []\<rparr>"

lemma forgotten_token_is_replaced_witness:
  "imds_attempts demo_imds ''http://m/latest/meta-data/public-keys/'' 0 2 (\<lparr>im_base = ''http://m'', im_token = Some (''old'', 1)\<rparr>, None)
   = Some ((\<lparr>im_base = ''http://m'', im_token = Some (''new'', 21540000)\<rparr>, Some ''new''), Inr ''0=ann'')"
  using forgotten_token_is_replaced [of demo_imds "\<lparr>im_base = ''http://m'', im_token = Some (''old'', 1)\<rparr>" None "''old''"
      "''http://m/latest/meta-data/public-keys/''" None "not_ok 401" "Some ''new''" "ok_text ''new''" "''new''" "Some ''new''"
      "ok_text ''0=ann''" "''0=ann''"]
  by (simp add: demo_imds_def fresh_token_def metadata_request_def token_request_def ask_def with_header_def ok_text_def
      not_ok_def is_success_def text_or_empty_def trim_def trim_start_def trim_end_def is_ws_def token_ttl_secs_def)

lemma demo_base [simp]: "im_base (rf_imds demo_refresher) = ''http://m''"
  by (simp add: demo_refresher_def)

lemma demo_answers:
  "ie_http demo_imds (metadata_request url (Some t)) w =
     (if Some t \<noteq> w then (w, Inr (not_ok 401))
      else if url = ''http://m/latest/meta-data/public-keys/'' then (w, Inr (ok_text ''0=ann''))
      else (w, Inr (not_ok 500)))"
  "ie_http demo_imds (metadata_request url None) w =
     (if w \<noteq> None then (w, Inr (not_ok 401))
      else if url = ''http://m/latest/meta-data/public-keys/'' then (w, Inr (ok_text ''0=ann''))
      else (w, Inr (not_ok 500)))"
  "ie_http demo_imds (token_request b) w = (Some ''new'', Inr (ok_text ''new''))" "ie_now demo_imds w = 0"
  by (auto simp: demo_imds_def metadata_request_def token_request_def ask_def with_header_def)

lemma demo_status [simp]:
  "an_status (not_ok st) = st" "is_success (not_ok st) \<longleftrightarrow> 200 \<le> st \<and> st < 300" "is_success (ok_text t)"
  "an_status (ok_text t) = 200" "an_text (ok_text t) = Inr t"
  by (simp_all add: not_ok_def is_success_def ok_text_def)

lemma one_refused_key_is_dropped_witness:
  "\<exists>f'. refresh_turn demo_imds (\<lambda>w. Some ''old'') demo_refresher = Some f' \<and> rf_store f' = [] \<and> rf_last_error f' = None"
proof -
  let ?m = "\<lparr>im_base = ''http://m'', im_token = Some (''old'', 1)\<rparr>"
  have "imds_get demo_imds ''latest/meta-data/public-keys/'' (rf_imds demo_refresher, Some ''old'')
      = Some ((?m, Some ''old''), Inr ''0=ann'')"
    by (simp add: imds_get_def numeral_2_eq_2 imds_token_def fresh_token_def demo_refresher_def demo_answers
        trim_start_slashes_def)
  moreover have "imds_get demo_imds (key_path ''0'') (?m, Some ''old'')
      = Some ((?m, Some ''old''), Inl (refusal (''http://m/'' @ key_path ''0'') (not_ok 500)))"
    by (simp add: imds_get_def numeral_2_eq_2 imds_token_def fresh_token_def demo_answers trim_start_slashes_def key_path_def)
  moreover have "List.map_filter index_entry (lines ''0=ann'') = [(''0'', ''ann'')]"
    by (simp add: lines_def Let_def newline_def index_entry_def trim_def trim_start_def trim_end_def is_ws_def)
  ultimately show ?thesis
    using one_refused_key_is_dropped [of demo_imds demo_refresher "\<lambda>w. Some ''old''"] by blast
qed

lemma failed_index_keeps_the_keys_witness:
  "\<exists>f'. refresh_turn demo_imds (\<lambda>w. Some ''other'') (demo_refresher\<lparr>rf_imds := \<lparr>im_base = ''http://x'', im_token = None\<rparr>\<rparr>) = Some f'
    \<and> rf_store f' = [(''key'', ''ann'')]"
proof -
  let ?f = "demo_refresher\<lparr>rf_imds := \<lparr>im_base = ''http://x'', im_token = None\<rparr>\<rparr>"
  have "\<exists>s1 err. imds_get demo_imds ''latest/meta-data/public-keys/'' (rf_imds ?f, Some ''other'') = Some (s1, Inl err)"
    by (simp add: imds_get_def numeral_2_eq_2 imds_token_def fresh_token_def demo_refresher_def demo_answers
        trim_start_slashes_def text_or_empty_def trim_def trim_start_def trim_end_def is_ws_def Let_def)
  then show ?thesis
    using failed_index_keeps_the_keys [of demo_imds ?f "\<lambda>w. Some ''other''"] by (auto simp: demo_refresher_def)
qed

end
