(* ===== verification/Sftp.thy ===== *)
theory Sftp
  imports FileSys
begin

text \<open>
  \<open>crates/stormd/src/sftp.rs\<close>: a session of the SFTP server over the file system of the container, on
  Unix. The requests and answers are those of \<open>russh_sftp\<close>: attributes have a type \<open>'a\<close> of their own.
  \<open>'w\<close> is the file system with its open files, \<open>sftp_os\<close> the calls, an open file a number.
\<close>

datatype io_kind = NotFound | Denied | OtherKind

datatype status_code = Ok | Eof | NoSuchFile | PermissionDenied | Failure | OpUnsupported | ConnectionLost

definition io_to_status :: "io_kind \<Rightarrow> status_code" where
  "io_to_status k = (case k of NotFound \<Rightarrow> NoSuchFile | Denied \<Rightarrow> PermissionDenied | OtherKind \<Rightarrow> Failure)"

record open_options =
  oo_read :: bool
  oo_write :: bool
  oo_append :: bool
  oo_create :: bool
  oo_truncate :: bool
  oo_create_new :: bool

type_synonym fd = nat

record ('w, 'a) sftp_os =
  so_open :: "open_options \<Rightarrow> string \<Rightarrow> 'w \<Rightarrow> 'w \<times> (io_kind + fd)"
  so_seek :: "fd \<Rightarrow> u64 \<Rightarrow> 'w \<Rightarrow> 'w \<times> io_kind option"
  so_read :: "fd \<Rightarrow> nat \<Rightarrow> 'w \<Rightarrow> 'w \<times> (io_kind + u8 list)"
  so_write_all :: "fd \<Rightarrow> u8 list \<Rightarrow> 'w \<Rightarrow> 'w \<times> io_kind option"
  so_drop :: "fd \<Rightarrow> 'w \<Rightarrow> 'w"
  so_fstat :: "'w \<Rightarrow> fd \<Rightarrow> io_kind + meta"
  so_metadata :: "'w \<Rightarrow> string \<Rightarrow> io_kind + meta"
  so_symlink_metadata :: "'w \<Rightarrow> string \<Rightarrow> io_kind + meta"
  so_read_dir :: "'w \<Rightarrow> string \<Rightarrow> io_kind + (string \<times> meta option) list"
  so_read_link :: "'w \<Rightarrow> string \<Rightarrow> io_kind + string"
  so_canonicalize :: "'w \<Rightarrow> string \<Rightarrow> io_kind + string"
  so_remove_file :: "string \<Rightarrow> 'w \<Rightarrow> 'w \<times> io_kind option"
  so_create_dir :: "string \<Rightarrow> 'w \<Rightarrow> 'w \<times> io_kind option"
  so_remove_dir :: "string \<Rightarrow> 'w \<Rightarrow> 'w \<times> io_kind option"
  so_rename :: "string \<Rightarrow> string \<Rightarrow> 'w \<Rightarrow> 'w \<times> io_kind option"
  so_symlink :: "string \<Rightarrow> string \<Rightarrow> 'w \<Rightarrow> 'w \<times> io_kind option"
  so_set_mode :: "string \<Rightarrow> u32 \<Rightarrow> 'w \<Rightarrow> 'w \<times> io_kind option"
  so_attrs :: "meta \<Rightarrow> 'a"
  so_no_attrs :: 'a
  so_dummy_attrs :: 'a
  so_permissions :: "'a \<Rightarrow> u32 option"

datatype handle_state = FileHandle string fd | DirHandle string bool

record sftp_session =
  sx_version :: "u32 option"
  sx_handles :: "(string \<times> handle_state) list"
  sx_next :: u64

definition sftp_default :: sftp_session where
  "sftp_default = \<lparr>sx_version = None, sx_handles = [], sx_next = 0\<rparr>"

text \<open>What a request answers: an error status, or its kind of answer.\<close>

datatype 'a sftp_answer =
    Status status_code
  | HandleIs string
  | DataIs "u8 list"
  | AttrsAre 'a
  | NamesAre "(string \<times> 'a) list"
  | VersionIs

type_synonym ('w, 'a) sftp_op = "sftp_session \<times> 'w \<Rightarrow> (sftp_session \<times> 'w) \<times> (status_code + 'a sftp_answer)"

section \<open>Handles and paths\<close>

definition handle_name :: "u64 \<Rightarrow> string" where
  "handle_name n = ''h'' @ show_nat (unat n)"

text \<open>\<open>alloc_handle\<close> and the insertion that follows it.\<close>

definition new_handle :: "handle_state \<Rightarrow> sftp_session \<Rightarrow> sftp_session \<times> string" where
  "new_handle h s =
     (let n = handle_name (sx_next s)
      in (s\<lparr>sx_handles := (n, h) # filter (\<lambda>x. fst x \<noteq> n) (sx_handles s), sx_next := sx_next s + 1\<rparr>, n))"

definition resolve_path :: "string \<Rightarrow> string" where
  "resolve_path p = (if starts_with p ''/'' then p else path_join ''/'' p)"

definition done_or :: "'w \<times> io_kind option \<Rightarrow> sftp_session \<Rightarrow> (sftp_session \<times> 'w) \<times> (status_code + 'a sftp_answer)" where
  "done_or r s = (case r of (w, None) \<Rightarrow> ((s, w), Inr (Status Ok)) | (w, Some k) \<Rightarrow> ((s, w), Inl (io_to_status k)))"

definition attrs_or :: "('w, 'a) sftp_os \<Rightarrow> io_kind + meta \<Rightarrow> status_code + 'a sftp_answer" where
  "attrs_or os r = (case r of Inl k \<Rightarrow> Inl (io_to_status k) | Inr m \<Rightarrow> Inr (AttrsAre (so_attrs os m)))"

section \<open>Requests\<close>

definition sftp_init :: "u32 \<Rightarrow> ('w, 'a) sftp_op" where
  "sftp_init version = (\<lambda>(s, w).
     (case sx_version s of
        Some _ \<Rightarrow> ((s, w), Inl ConnectionLost)
      | None \<Rightarrow> ((s\<lparr>sx_version := Some version\<rparr>, w), Inr VersionIs)))"

definition sftp_open :: "('w, 'a) sftp_os \<Rightarrow> string \<Rightarrow> open_options \<Rightarrow> ('w, 'a) sftp_op" where
  "sftp_open os filename flags = (\<lambda>(s, w).
     (let path = resolve_path filename
      in case so_open os flags path w of
           (w1, Inl k) \<Rightarrow> ((s, w1), Inl (io_to_status k))
         | (w1, Inr fd) \<Rightarrow> (let (s1, h) = new_handle (FileHandle path fd) s in ((s1, w1), Inr (HandleIs h)))))"

definition sftp_close :: "('w, 'a) sftp_os \<Rightarrow> string \<Rightarrow> ('w, 'a) sftp_op" where
  "sftp_close os h = (\<lambda>(s, w).
     ((s\<lparr>sx_handles := filter (\<lambda>x. fst x \<noteq> h) (sx_handles s)\<rparr>,
       case map_of (sx_handles s) h of Some (FileHandle _ fd) \<Rightarrow> so_drop os fd w | _ \<Rightarrow> w), Inr (Status Ok)))"

definition sftp_read :: "('w, 'a) sftp_os \<Rightarrow> string \<Rightarrow> u64 \<Rightarrow> u32 \<Rightarrow> ('w, 'a) sftp_op" where
  "sftp_read os h offset len = (\<lambda>(s, w).
     (case map_of (sx_handles s) h of
        Some (FileHandle _ fd) \<Rightarrow>
          (case so_seek os fd offset w of
             (w1, Some k) \<Rightarrow> ((s, w1), Inl (io_to_status k))
           | (w1, None) \<Rightarrow>
               (case so_read os fd (unat len) w1 of
                  (w2, Inl k) \<Rightarrow> ((s, w2), Inl (io_to_status k))
                | (w2, Inr data) \<Rightarrow> ((s, w2), if data = [] then Inl Eof else Inr (DataIs data))))
      | _ \<Rightarrow> ((s, w), Inl Failure)))"

definition sftp_write :: "('w, 'a) sftp_os \<Rightarrow> string \<Rightarrow> u64 \<Rightarrow> u8 list \<Rightarrow> ('w, 'a) sftp_op" where
  "sftp_write os h offset data = (\<lambda>(s, w).
     (case map_of (sx_handles s) h of
        Some (FileHandle _ fd) \<Rightarrow> done_or (then_do (so_seek os fd offset w) (so_write_all os fd data)) s
      | _ \<Rightarrow> ((s, w), Inl Failure)))"

definition sftp_lstat :: "('w, 'a) sftp_os \<Rightarrow> string \<Rightarrow> ('w, 'a) sftp_op" where
  "sftp_lstat os p = (\<lambda>(s, w). ((s, w), attrs_or os (so_symlink_metadata os w (resolve_path p))))"

definition sftp_stat :: "('w, 'a) sftp_os \<Rightarrow> string \<Rightarrow> ('w, 'a) sftp_op" where
  "sftp_stat os p = (\<lambda>(s, w). ((s, w), attrs_or os (so_metadata os w (resolve_path p))))"

definition sftp_fstat :: "('w, 'a) sftp_os \<Rightarrow> string \<Rightarrow> ('w, 'a) sftp_op" where
  "sftp_fstat os h = (\<lambda>(s, w). ((s, w),
     (case map_of (sx_handles s) h of
        None \<Rightarrow> Inl Failure
      | Some (FileHandle _ fd) \<Rightarrow> attrs_or os (so_fstat os w fd)
      | Some (DirHandle p _) \<Rightarrow> attrs_or os (so_metadata os w p))))"

definition apply_attrs :: "('w, 'a) sftp_os \<Rightarrow> string \<Rightarrow> 'a \<Rightarrow> 'w \<Rightarrow> 'w \<times> io_kind option" where
  "apply_attrs os p attrs w =
     (case so_permissions os attrs of Some mode \<Rightarrow> so_set_mode os p (mode AND 0xFFF) w | None \<Rightarrow> (w, None))"

definition sftp_setstat :: "('w, 'a) sftp_os \<Rightarrow> string \<Rightarrow> 'a \<Rightarrow> ('w, 'a) sftp_op" where
  "sftp_setstat os p attrs = (\<lambda>(s, w). done_or (apply_attrs os (resolve_path p) attrs w) s)"

definition sftp_fsetstat :: "('w, 'a) sftp_os \<Rightarrow> string \<Rightarrow> 'a \<Rightarrow> ('w, 'a) sftp_op" where
  "sftp_fsetstat os h attrs = (\<lambda>(s, w).
     (case map_of (sx_handles s) h of
        None \<Rightarrow> ((s, w), Inl Failure)
      | Some (FileHandle p _) \<Rightarrow> done_or (apply_attrs os p attrs w) s
      | Some (DirHandle p _) \<Rightarrow> done_or (apply_attrs os p attrs w) s))"

definition sftp_opendir :: "('w, 'a) sftp_os \<Rightarrow> string \<Rightarrow> ('w, 'a) sftp_op" where
  "sftp_opendir os p = (\<lambda>(s, w).
     (let path = resolve_path p
      in if (case so_metadata os w path of Inr m \<Rightarrow> md_is_dir m | Inl _ \<Rightarrow> False)
         then (let (s1, h) = new_handle (DirHandle path False) s in ((s1, w), Inr (HandleIs h)))
         else ((s, w), Inl NoSuchFile)))"

definition dir_names :: "('w, 'a) sftp_os \<Rightarrow> string \<Rightarrow> 'w \<Rightarrow> io_kind + (string \<times> 'a) list" where
  "dir_names os path w =
     (let self = (case so_metadata os w path of Inr m \<Rightarrow> [(''.'', so_attrs os m)] | Inl _ \<Rightarrow> []);
          up = (case path_parent path of
                  Some d \<Rightarrow> (case so_metadata os w d of Inr m \<Rightarrow> [(''..'', so_attrs os m)] | Inl _ \<Rightarrow> [])
                | None \<Rightarrow> [])
      in case so_read_dir os w path of
           Inl k \<Rightarrow> Inl k
         | Inr es \<Rightarrow>
             Inr (self @ up @ List.map_filter (\<lambda>(n, m). map_option (\<lambda>m. (n, so_attrs os m)) m) es))"

definition sftp_readdir :: "('w, 'a) sftp_os \<Rightarrow> string \<Rightarrow> ('w, 'a) sftp_op" where
  "sftp_readdir os h = (\<lambda>(s, w).
     (case map_of (sx_handles s) h of
        Some (DirHandle path read_done) \<Rightarrow>
          if read_done then ((s, w), Inl Eof)
          else
            (let s1 = s\<lparr>sx_handles := map (\<lambda>(n, x). (n, if n = h then DirHandle path True else x)) (sx_handles s)\<rparr>
             in case dir_names os path w of
                  Inl k \<Rightarrow> ((s1, w), Inl (io_to_status k)) | Inr ns \<Rightarrow> ((s1, w), Inr (NamesAre ns)))
      | _ \<Rightarrow> ((s, w), Inl Failure)))"

definition sftp_remove :: "('w, 'a) sftp_os \<Rightarrow> string \<Rightarrow> ('w, 'a) sftp_op" where
  "sftp_remove os p = (\<lambda>(s, w). done_or (so_remove_file os (resolve_path p) w) s)"

definition sftp_mkdir :: "('w, 'a) sftp_os \<Rightarrow> string \<Rightarrow> ('w, 'a) sftp_op" where
  "sftp_mkdir os p = (\<lambda>(s, w). done_or (so_create_dir os (resolve_path p) w) s)"

definition sftp_rmdir :: "('w, 'a) sftp_os \<Rightarrow> string \<Rightarrow> ('w, 'a) sftp_op" where
  "sftp_rmdir os p = (\<lambda>(s, w). done_or (so_remove_dir os (resolve_path p) w) s)"

definition sftp_realpath :: "('w, 'a) sftp_os \<Rightarrow> string \<Rightarrow> ('w, 'a) sftp_op" where
  "sftp_realpath os p = (\<lambda>(s, w).
     (let resolved = resolve_path p;
          canonical = (case so_canonicalize os w resolved of Inr c \<Rightarrow> c | Inl _ \<Rightarrow> resolved);
          attrs = (case so_metadata os w canonical of Inr m \<Rightarrow> so_attrs os m | Inl _ \<Rightarrow> so_no_attrs os)
      in ((s, w), Inr (NamesAre [(canonical, attrs)]))))"

definition sftp_rename :: "('w, 'a) sftp_os \<Rightarrow> string \<Rightarrow> string \<Rightarrow> ('w, 'a) sftp_op" where
  "sftp_rename os p q = (\<lambda>(s, w). done_or (so_rename os (resolve_path p) (resolve_path q) w) s)"

definition sftp_readlink :: "('w, 'a) sftp_os \<Rightarrow> string \<Rightarrow> ('w, 'a) sftp_op" where
  "sftp_readlink os p = (\<lambda>(s, w). ((s, w),
     (case so_read_link os w (resolve_path p) of
        Inl k \<Rightarrow> Inl (io_to_status k) | Inr t \<Rightarrow> Inr (NamesAre [(t, so_dummy_attrs os)]))))"

definition sftp_symlink :: "('w, 'a) sftp_os \<Rightarrow> string \<Rightarrow> string \<Rightarrow> ('w, 'a) sftp_op" where
  "sftp_symlink os link target = (\<lambda>(s, w). done_or (so_symlink os target (resolve_path link) w) s)"

section \<open>A session\<close>

text \<open>The requests of the protocol, as the \<open>Handler\<close> of the session serves them.\<close>

datatype 'a sftp_request =
    Init u32
  | Open string open_options
  | Close string
  | Read string u64 u32
  | Write string u64 "u8 list"
  | Lstat string
  | Fstat string
  | Setstat string 'a
  | Fsetstat string 'a
  | Opendir string
  | Readdir string
  | Remove string
  | Mkdir string
  | Rmdir string
  | Realpath string
  | Stat string
  | Rename string string
  | Readlink string
  | SymlinkTo string string
  | Extended

fun sftp_serve :: "('w, 'a) sftp_os \<Rightarrow> 'a sftp_request \<Rightarrow> ('w, 'a) sftp_op" where
  "sftp_serve os (Init v) = sftp_init v"
| "sftp_serve os (Open p flags) = sftp_open os p flags"
| "sftp_serve os (Close h) = sftp_close os h"
| "sftp_serve os (Read h offset len) = sftp_read os h offset len"
| "sftp_serve os (Write h offset data) = sftp_write os h offset data"
| "sftp_serve os (Lstat p) = sftp_lstat os p"
| "sftp_serve os (Fstat h) = sftp_fstat os h"
| "sftp_serve os (Setstat p a) = sftp_setstat os p a"
| "sftp_serve os (Fsetstat h a) = sftp_fsetstat os h a"
| "sftp_serve os (Opendir p) = sftp_opendir os p"
| "sftp_serve os (Readdir h) = sftp_readdir os h"
| "sftp_serve os (Remove p) = sftp_remove os p"
| "sftp_serve os (Mkdir p) = sftp_mkdir os p"
| "sftp_serve os (Rmdir p) = sftp_rmdir os p"
| "sftp_serve os (Realpath p) = sftp_realpath os p"
| "sftp_serve os (Stat p) = sftp_stat os p"
| "sftp_serve os (Rename p q) = sftp_rename os p q"
| "sftp_serve os (Readlink p) = sftp_readlink os p"
| "sftp_serve os (SymlinkTo l t) = sftp_symlink os l t"
| "sftp_serve os Extended = (\<lambda>sw. (sw, Inl OpUnsupported))"

fun sftp_session_of :: "('w, 'a) sftp_os \<Rightarrow> 'a sftp_request list \<Rightarrow> sftp_session \<times> 'w
    \<Rightarrow> (sftp_session \<times> 'w) \<times> (status_code + 'a sftp_answer) list" where
  "sftp_session_of os [] sw = (sw, [])"
| "sftp_session_of os (r # rs) sw =
     (let (sw1, a) = sftp_serve os r sw; (sw2, as) = sftp_session_of os rs sw1 in (sw2, a # as))"

definition handle_in :: "status_code + 'a sftp_answer \<Rightarrow> string option" where
  "handle_in a = (case a of Inr (HandleIs h) \<Rightarrow> Some h | _ \<Rightarrow> None)"

definition handles_in :: "(status_code + 'a sftp_answer) list \<Rightarrow> string list" where
  "handles_in as = List.map_filter handle_in as"

lemma handles_in_simps [simp]:
  "handles_in [] = []" "handles_in (a # as) = (case handle_in a of Some h \<Rightarrow> [h] | None \<Rightarrow> []) @ handles_in as"
  by (simp_all add: handles_in_def split: option.split)

lemma handle_in_simps [simp]:
  "handle_in (Inl k) = None" "handle_in (Inr (HandleIs h)) = Some h" "handle_in (Inr (Status c)) = None"
  "handle_in (Inr (DataIs d)) = None" "handle_in (Inr (AttrsAre x)) = None" "handle_in (Inr (NamesAre n)) = None"
  "handle_in (Inr VersionIs) = None"
  by (simp_all add: handle_in_def)

definition given_of :: "sftp_session \<Rightarrow> string set" where
  "given_of s = handle_name ` {k. k < sx_next s}"

definition open_of :: "sftp_session \<Rightarrow> string set" where
  "open_of s = fst ` set (sx_handles s)"

lemma handle_name_eq [simp]: "handle_name m = handle_name n \<longleftrightarrow> m = n"
  by (simp add: handle_name_def show_nat_inj word_unat_eq_iff)

text \<open>A request opens one new handle, or none and keeps at most those there were.\<close>

definition opens_none :: "sftp_session \<Rightarrow> sftp_session \<Rightarrow> bool" where
  "opens_none s s1 \<longleftrightarrow> sx_next s1 = sx_next s \<and> open_of s1 \<subseteq> open_of s"

definition opens_one :: "sftp_session \<Rightarrow> sftp_session \<Rightarrow> bool" where
  "opens_one s s1 \<longleftrightarrow> sx_next s1 = sx_next s + 1 \<and> open_of s1 \<subseteq> insert (handle_name (sx_next s)) (open_of s)"

lemma opens_none_refl [simp]: "opens_none s s"
  by (simp add: opens_none_def)

lemma done_or_shape: "fst (fst (done_or r s)) = s" "handle_in (snd (done_or r s)) = None"
  by (auto simp: done_or_def split: prod.split option.split)

lemma attrs_or_none [simp]: "handle_in (attrs_or os r) = None"
  by (auto simp: attrs_or_def split: sum.split)

lemma new_handle_opens: "new_handle h s = (s1, n) \<Longrightarrow> opens_one s s1 \<and> n = handle_name (sx_next s)"
  by (auto simp: new_handle_def opens_one_def open_of_def Let_def)

lemma sftp_open_shape:
  "(case handle_in (snd (sftp_open os p f (s, w))) of
      None \<Rightarrow> opens_none s (fst (fst (sftp_open os p f (s, w))))
    | Some h \<Rightarrow> h = handle_name (sx_next s) \<and> opens_one s (fst (fst (sftp_open os p f (s, w)))))"
  by (auto dest!: new_handle_opens simp: sftp_open_def Let_def split: prod.split sum.split)

lemma sftp_opendir_shape:
  "(case handle_in (snd (sftp_opendir os p (s, w))) of
      None \<Rightarrow> opens_none s (fst (fst (sftp_opendir os p (s, w))))
    | Some h \<Rightarrow> h = handle_name (sx_next s) \<and> opens_one s (fst (fst (sftp_opendir os p (s, w)))))"
  by (auto dest!: new_handle_opens simp: sftp_opendir_def Let_def split: prod.split sum.split)

lemma other_requests_open_none:
  assumes "\<forall>p f. r \<noteq> Open p f" "\<forall>p. r \<noteq> Opendir p"
  shows "handle_in (snd (sftp_serve os r (s, w))) = None \<and> opens_none s (fst (fst (sftp_serve os r (s, w))))"
  using assms
  by (cases r)
     (auto simp: sftp_init_def sftp_close_def sftp_read_def sftp_write_def sftp_lstat_def sftp_stat_def
        sftp_fstat_def sftp_setstat_def sftp_fsetstat_def sftp_readdir_def sftp_remove_def sftp_mkdir_def
        sftp_rmdir_def sftp_realpath_def sftp_rename_def sftp_readlink_def sftp_symlink_def done_or_shape
        opens_none_def open_of_def Let_def intro: rev_image_eqI
        split: option.splits handle_state.splits prod.splits sum.splits)

lemma request_shape:
  "(case handle_in (snd (sftp_serve os r (s, w))) of
      None \<Rightarrow> opens_none s (fst (fst (sftp_serve os r (s, w))))
    | Some h \<Rightarrow> h = handle_name (sx_next s) \<and> opens_one s (fst (fst (sftp_serve os r (s, w)))))"
proof (cases r)
  case (Open p f)
  then show ?thesis using sftp_open_shape[of s os p f w] unfolding Open sftp_serve.simps by simp
next
  case (Opendir p)
  then show ?thesis using sftp_opendir_shape[of s os p w] unfolding Opendir sftp_serve.simps by simp
qed (use other_requests_open_none[of r os s w] in simp_all)

lemma session_handles:
  assumes "unat (sx_next s) + length rs < 2 ^ 64" "sftp_session_of os rs (s, w) = ((s1, w1), as)"
  shows "distinct (handles_in as) \<and> set (handles_in as) \<subseteq> handle_name ` {k. sx_next s \<le> k \<and> k < sx_next s1}
    \<and> sx_next s \<le> sx_next s1 \<and> unat (sx_next s1) \<le> unat (sx_next s) + length rs
    \<and> open_of s1 \<subseteq> open_of s \<union> set (handles_in as)"
  using assms
proof (induction rs arbitrary: s w as)
  case Nil
  then show ?case by simp
next
  case (Cons r rs)
  obtain s2 w2 a where first: "sftp_serve os r (s, w) = ((s2, w2), a)"
    by (metis surj_pair)
  obtain bs where rest: "sftp_session_of os rs (s2, w2) = ((s1, w1), bs)" and as: "as = a # bs"
    using Cons.prems(2) first by (auto split: prod.splits)
  have shape: "case handle_in a of None \<Rightarrow> opens_none s s2
      | Some h \<Rightarrow> h = handle_name (sx_next s) \<and> opens_one s s2"
    using request_shape[of s os r w] first by (auto split: option.splits)
  show ?case
  proof (cases "handle_in a")
    case None
    then have "opens_none s s2" using shape by simp
    then show ?thesis using Cons.IH[of s2 w2 bs] rest Cons.prems(1) as None by (auto simp: opens_none_def)
  next
    case (Some h)
    then have h: "h = handle_name (sx_next s)" and one: "opens_one s s2" using shape by simp_all
    have step: "unat (sx_next s2) = Suc (unat (sx_next s))"
      using one Cons.prems(1) by (simp add: opens_one_def unat_word_ariths)
    have less: "sx_next s < sx_next s2" using step by (simp add: word_less_nat_alt)
    have "distinct (handles_in bs) \<and> set (handles_in bs) \<subseteq> handle_name ` {k. sx_next s2 \<le> k \<and> k < sx_next s1}
        \<and> sx_next s2 \<le> sx_next s1 \<and> unat (sx_next s1) \<le> unat (sx_next s2) + length rs
        \<and> open_of s1 \<subseteq> open_of s2 \<union> set (handles_in bs)"
      using Cons.IH[of s2 w2 bs] rest Cons.prems(1) step by simp
    then show ?thesis using less one step as Some h by (auto simp: opens_one_def)
  qed
qed

lemma session_of_append:
  "sftp_session_of os (rs @ qs) sw =
     (let (sw1, as) = sftp_session_of os rs sw; (sw2, bs) = sftp_session_of os qs sw1 in (sw2, as @ bs))"
  by (induction rs arbitrary: sw) (simp_all add: Let_def split: prod.split)

text \<open>
  A handle is given out once: as long as fewer than \<open>2 ^ 64\<close> requests are served, all handles that
  \<open>open\<close> and \<open>opendir\<close> answer in one session are different, also from those already closed.
\<close>
lemma handles_are_never_reused:
  assumes "length rs < 2 ^ 64"
  shows "distinct (handles_in (snd (sftp_session_of os rs (sftp_default, w))))"
proof -
  obtain s1 w1 as where "sftp_session_of os rs (sftp_default, w) = ((s1, w1), as)"
    by (metis surj_pair)
  then show ?thesis using session_handles[of sftp_default rs os w s1 w1 as] assms by (simp add: sftp_default_def)
qed

lemma not_open_fails:
  assumes "h \<notin> open_of s"
  shows "sftp_read os h offset len (s, w) = ((s, w), Inl Failure)"
    "sftp_write os h offset data (s, w) = ((s, w), Inl Failure)"
    "sftp_fstat os h (s, w) = ((s, w), Inl Failure)"
    "sftp_fsetstat os h a (s, w) = ((s, w), Inl Failure)"
    "sftp_readdir os h (s, w) = ((s, w), Inl Failure)"
proof -
  have "map_of (sx_handles s) h = None" using assms by (simp add: open_of_def map_of_eq_None_iff)
  then show "sftp_read os h offset len (s, w) = ((s, w), Inl Failure)"
    "sftp_write os h offset data (s, w) = ((s, w), Inl Failure)"
    "sftp_fstat os h (s, w) = ((s, w), Inl Failure)"
    "sftp_fsetstat os h a (s, w) = ((s, w), Inl Failure)"
    "sftp_readdir os h (s, w) = ((s, w), Inl Failure)"
    by (simp_all add: sftp_read_def sftp_write_def sftp_fstat_def sftp_fsetstat_def sftp_readdir_def)
qed

lemma closed_is_not_open:
  assumes fits: "length rs + length qs + 1 < 2 ^ 64" and given: "h \<in> set (handles_in (snd (sftp_session_of os rs (sftp_default, w))))"
    and all: "sftp_session_of os (rs @ Close h # qs) (sftp_default, w) = ((s, w1), as)"
  shows "h \<notin> open_of s"
proof -
  obtain s1 w2 as1 where first: "sftp_session_of os rs (sftp_default, w) = ((s1, w2), as1)" by (metis surj_pair)
  obtain s2 w3 a where closed: "sftp_close os h (s1, w2) = ((s2, w3), a)" by (metis surj_pair)
  obtain as2 where last: "sftp_session_of os qs (s2, w3) = ((s, w1), as2)"
    using all first closed by (auto simp: session_of_append split: prod.splits)
  have one: "set (handles_in as1) \<subseteq> handle_name ` {k. k < sx_next s1}" "unat (sx_next s1) \<le> length rs"
    using session_handles[of sftp_default rs os w s1 w2 as1] first fits by (auto simp: sftp_default_def)
  have s2: "sx_next s2 = sx_next s1" "h \<notin> open_of s2"
    using closed by (auto simp: sftp_close_def open_of_def)
  have "set (handles_in as2) \<subseteq> handle_name ` {k. sx_next s1 \<le> k \<and> k < sx_next s}"
      "open_of s \<subseteq> open_of s2 \<union> set (handles_in as2)"
    using session_handles[of s2 qs os w3 s w1 as2] last fits one s2 by auto
  moreover have "h \<in> set (handles_in as1)" using given first by simp
  moreover have "h \<notin> handle_name ` {k. sx_next s1 \<le> k \<and> k < sx_next s}" if "h \<in> handle_name ` {k. k < sx_next s1}"
    using that by (auto simp: word_less_nat_alt word_le_nat_alt)
  ultimately show ?thesis using one(1) s2(2) by blast
qed


text \<open>A directory is listed once: the second \<open>readdir\<close> of a handle ends the listing, also after one that failed.\<close>

lemma listed_once:
  assumes "map_of (sx_handles s) h = Some (DirHandle path done)"
  shows "snd (sftp_readdir os h (fst (sftp_readdir os h (s, w)))) = Inl Eof"
proof -
  have "map_of (map (\<lambda>(n, x). (n, if n = h then DirHandle path True else x)) xs) h = Some (DirHandle path True)"
    if "map_of xs h = Some y" for xs :: "(string \<times> handle_state) list" and y
    using that by (induction xs) (auto split: if_splits)
  then show ?thesis using assms by (auto simp: sftp_readdir_def Let_def split: sum.split)
qed

text \<open>Only the permissions of the attributes are set: a request to change the size or the times is answered \<open>Ok\<close>.\<close>

lemma only_permissions_are_set:
  assumes "so_permissions os a = None"
  shows "sftp_setstat os p a (s, w) = ((s, w), Inr (Status Ok))"
  by (simp add: sftp_setstat_def apply_attrs_def assms done_or_def)

section \<open>Witnesses\<close>

definition demo_sftp :: "(unit, unit) sftp_os" where
  "demo_sftp = \<lparr>so_open = \<lambda>_ _ w. (w, Inr 7), so_seek = \<lambda>_ _ w. (w, None), so_read = \<lambda>_ _ w. (w, Inr [1]),
     so_write_all = \<lambda>_ _ w. (w, None), so_drop = \<lambda>_ w. w, so_fstat = \<lambda>_ _. Inl OtherKind,
     so_metadata = \<lambda>_ _. Inl NotFound, so_symlink_metadata = \<lambda>_ _. Inl NotFound,
     so_read_dir = \<lambda>_ _. Inl NotFound, so_read_link = \<lambda>_ _. Inl NotFound, so_canonicalize = \<lambda>_ _. Inl NotFound,
     so_remove_file = \<lambda>_ w. (w, Some NotFound), so_create_dir = \<lambda>_ w. (w, None),
     so_remove_dir = \<lambda>_ w. (w, Some NotFound), so_rename = \<lambda>_ _ w. (w, Some NotFound),
     so_symlink = \<lambda>_ _ w. (w, None), so_set_mode = \<lambda>_ _ w. (w, None), so_attrs = \<lambda>_. (), so_no_attrs = (),
     so_dummy_attrs = (), so_permissions = \<lambda>_. None\<rparr>"

definition demo_flags :: open_options where
  "demo_flags = \<lparr>oo_read = True, oo_write = False, oo_append = False, oo_create = False, oo_truncate = False,
     oo_create_new = False\<rparr>"

lemma handles_are_never_reused_witness:
  "distinct (handles_in (snd (sftp_session_of demo_sftp
     [Open ''/a'' demo_flags, Close ''h0'', Open ''/a'' demo_flags] (sftp_default, ()))))"
  by (rule handles_are_never_reused) simp

lemma demo_opens: "sftp_session_of demo_sftp [Open ''/a'' demo_flags] (sftp_default, ()) =
    ((\<lparr>sx_version = None, sx_handles = [(''h0'', FileHandle ''/a'' 7)], sx_next = 1\<rparr>, ()), [Inr (HandleIs ''h0'')])"
  by code_simp

lemma demo_closes: "sftp_session_of demo_sftp ([Open ''/a'' demo_flags] @ Close ''h0'' # [Open ''/a'' demo_flags])
    (sftp_default, ()) =
    ((\<lparr>sx_version = None, sx_handles = [(''h1'', FileHandle ''/a'' 7)], sx_next = 2\<rparr>, ()),
     [Inr (HandleIs ''h0''), Inr (Status Ok), Inr (HandleIs ''h1'')])"
  by code_simp


end
