(* ===== verification/Components.thy ===== *)
theory Components
  imports ShellProc Stats Updater
begin

text \<open>
  \<open>crates/stormd/src/components.rs\<close>: the cards both dashboards show, from what the parts of stormd say
  of themselves. The card types are those of the \<open>stormview\<close> crate: a metric and a relation keep the
  calls that made them, and how durations, sizes and dates are written is a parameter.
\<close>

datatype health = Ok | Warn | Error | Idle | HealthUnknown

record metric =
  me_name :: string
  me_value :: string
  me_unit :: "string option"
  me_tone :: "string option"

definition metric_new :: "string \<Rightarrow> string \<Rightarrow> metric" where
  "metric_new n v = \<lparr>me_name = n, me_value = v, me_unit = None, me_tone = None\<rparr>"

definition toned :: "string \<Rightarrow> metric \<Rightarrow> metric" where
  "toned t m = m\<lparr>me_tone := Some t\<rparr>"

record card_action =
  ac_id :: string
  ac_label :: string
  ac_method :: string
  ac_path :: string
  ac_enabled :: bool
  ac_danger :: bool

datatype relation =
    HasMany string "string list"
  | HasOne string string "string option"
  | BelongsTo string string

record card =
  cd_id :: string
  cd_kind :: string
  cd_label :: string
  cd_health :: health
  cd_detail :: string
  cd_metrics :: "metric list"
  cd_actions :: "card_action list"
  cd_relations :: "relation list"
  cd_link :: "string option"

record ui_plugin =
  pl_name :: string
  pl_label :: string
  pl_proxy_url :: string
  pl_host :: "string option"
  pl_summary_url :: "string option"

record remote_summary =
  rs_health :: "health option"
  rs_detail :: "string option"
  rs_metrics :: "metric list"

record card_env =
  ce_duration :: "int \<Rightarrow> string"
  ce_bytes :: "u64 \<Rightarrow> string"
  ce_date :: "millis \<Rightarrow> string"
  ce_summary :: "string \<Rightarrow> remote_summary option"

definition middle_dot :: string where
  "middle_dot = [CHR 0x20, CHR 0xC2, CHR 0xB7, CHR 0x20]"

section \<open>The cards\<close>

definition process_action :: "string \<Rightarrow> string \<Rightarrow> string \<Rightarrow> bool \<Rightarrow> bool \<Rightarrow> card_action" where
  "process_action i label process enabled danger =
     \<lparr>ac_id = i, ac_label = label, ac_method = ''POST'', ac_path = ''/api/v1/processes/'' @ process @ ''/'' @ i,
      ac_enabled = enabled, ac_danger = danger\<rparr>"

definition count_state :: "process_state \<Rightarrow> process_status list \<Rightarrow> nat" where
  "count_state st ps = length (filter (\<lambda>p. st_state p = st) ps)"

definition system_card :: "card_env \<Rightarrow> string \<Rightarrow> process_status list \<Rightarrow> system_stats \<Rightarrow> card" where
  "system_card e container ps sys =
     (let running = count_state Running ps; failed = count_state process_state.Failed ps;
          share = show_nat running @ ''/'' @ show_nat (length ps)
      in \<lparr>cd_id = ''system'', cd_kind = ''system'', cd_label = container,
          cd_health = (if 0 < failed then Warn else Ok),
          cd_detail = ''up '' @ ce_duration e (ss_uptime_secs sys) @ middle_dot @ share @ '' running'',
          cd_metrics =
            [metric_new ''uptime'' (ce_duration e (ss_uptime_secs sys)),
             toned (if 0 < failed then ''warn'' else ''ok'') (metric_new ''processes'' share),
             metric_new ''restarts'' (show_nat (sum_list (map st_restarts ps)))]
            @ (case ss_memory sys of Some m \<Rightarrow> [metric_new ''rss'' (ce_bytes e (mem_rss m))] | None \<Rightarrow> []),
          cd_actions = [], cd_relations = [], cd_link = None\<rparr>)"

definition process_health :: "process_status \<Rightarrow> health" where
  "process_health p =
     (case st_state p of
        Running \<Rightarrow> (if 0 < st_liveness_failures p then Warn else Ok)
      | process_state.Failed \<Rightarrow> Error
      | Starting \<Rightarrow> Warn
      | Restarting \<Rightarrow> Warn
      | CrashLoopBackOff \<Rightarrow> Error
      | _ \<Rightarrow> Idle)"

definition process_detail :: "card_env \<Rightarrow> process_status \<Rightarrow> string" where
  "process_detail e p =
     to_lower (debug_state (st_state p))
     @ (case st_pid p of Some pid \<Rightarrow> middle_dot @ ''pid '' @ show_nat (unat pid) | None \<Rightarrow> [])
     @ (if st_state p = Running
        then (case st_uptime_secs p of Some u \<Rightarrow> middle_dot @ ''up '' @ ce_duration e u | None \<Rightarrow> [])
        else (case st_exit_code p of Some c \<Rightarrow> middle_dot @ ''exit '' @ show_int c | None \<Rightarrow> []))"

definition tone_over :: "nat \<Rightarrow> string \<Rightarrow> string \<Rightarrow> string" where
  "tone_over n some none = (if 0 < n then some else none)"

definition process_metrics :: "process_status \<Rightarrow> metric list" where
  "process_metrics p =
     [toned (tone_over (st_restarts p) ''warn'' ''muted'') (metric_new ''restarts'' (show_nat (st_restarts p))),
      toned (tone_over (st_crashes p) ''error'' ''muted'') (metric_new ''crashes'' (show_nat (st_crashes p)))]
     @ (if st_has_liveness p
        then [toned (tone_over (st_liveness_failures p) ''warn'' ''ok'')
                (metric_new ''liveness fails'' (show_nat (st_liveness_failures p)))]
        else [])"

definition process_actions :: "process_status \<Rightarrow> card_action list" where
  "process_actions p =
     (let stopped = st_state p \<in> {Stopped, process_state.Failed, Pending}
      in [process_action ''start'' ''Start'' (st_name p) stopped False,
          process_action ''stop'' ''Stop'' (st_name p) (\<not> stopped) True,
          process_action ''restart'' ''Restart'' (st_name p) (\<not> stopped) False])"

definition process_card :: "card_env \<Rightarrow> ui_plugin list \<Rightarrow> process_status \<Rightarrow> card" where
  "process_card e plugins p =
     (let plugin = find (\<lambda>u. pl_name u = st_name p) plugins
      in \<lparr>cd_id = ''process:'' @ st_name p,
          cd_kind = (case plugin of Some _ \<Rightarrow> ''plugin'' | None \<Rightarrow> ''process''),
          cd_label = (case plugin of Some u \<Rightarrow> pl_label u | None \<Rightarrow> st_name p),
          cd_health = process_health p, cd_detail = process_detail e p, cd_metrics = process_metrics p,
          cd_actions = process_actions p, cd_relations = [],
          cd_link = Some (case plugin of Some u \<Rightarrow> ''#/ext/'' @ pl_name u | None \<Rightarrow> ''#/process/'' @ st_name p)\<rparr>)"

definition cron_card :: "cron_status \<Rightarrow> card" where
  "cron_card j =
     \<lparr>cd_id = ''cron:'' @ cx_name j, cd_kind = ''cron'', cd_label = cx_name j,
      cd_health = (if 0 < cx_fail_count j then Warn else if cx_run_count j = 0 then Idle else Ok),
      cd_detail = (case cx_next_run j of Some t \<Rightarrow> ''next '' @ t | None \<Rightarrow> ''not scheduled''),
      cd_metrics =
        [toned ''muted'' (metric_new ''schedule'' (cx_schedule j)), metric_new ''runs'' (show_nat (cx_run_count j)),
         toned (tone_over (cx_fail_count j) ''error'' ''muted'') (metric_new ''failed'' (show_nat (cx_fail_count j)))],
      cd_actions = [], cd_relations = [], cd_link = None\<rparr>"

text \<open>\<open>{:.0}\<close> of a share with one decimal rounds a half to the even number.\<close>

definition whole :: "rat \<Rightarrow> string" where
  "whole x = (let t = nat \<lfloor>x * 10\<rfloor> in show_nat (half_even t 10))"

definition mount_health :: "mount_info \<Rightarrow> health" where
  "mount_health m = (if 95 \<le> mi_use_percent m then Error else if 85 \<le> mi_use_percent m then Warn else Ok)"

definition mount_card :: "card_env \<Rightarrow> mount_info \<Rightarrow> card" where
  "mount_card e m =
     \<lparr>cd_id = ''mount:'' @ mi_mount_point m, cd_kind = ''storage'', cd_label = mi_mount_point m,
      cd_health = mount_health m,
      cd_detail = ce_bytes e (mi_used m) @ '' of '' @ ce_bytes e (mi_total m) @ '' used'' @ middle_dot @ mi_fs_type m,
      cd_metrics =
        [toned (case mount_health m of Error \<Rightarrow> ''error'' | Warn \<Rightarrow> ''warn'' | _ \<Rightarrow> ''ok'')
           ((metric_new ''used'' (whole (mi_use_percent m)))\<lparr>me_unit := Some ''%''\<rparr>),
         metric_new ''free'' (ce_bytes e (mi_avail m))],
      cd_actions = [], cd_relations = [], cd_link = None\<rparr>"

definition log_dir_totals :: "'w os \<Rightarrow> 'w \<Rightarrow> string \<Rightarrow> nat \<times> u64" where
  "log_dir_totals os w dir =
     (case os_read_dir os w dir of
        Inl _ \<Rightarrow> (0, 0)
      | Inr es \<Rightarrow>
          (let ms = filter md_is_file (List.map_filter de_meta es)
           in (length ms, sum_list (map md_len ms))))"

definition logs_card :: "card_env \<Rightarrow> nat \<times> u64 \<Rightarrow> card" where
  "logs_card e t =
     \<lparr>cd_id = ''logs'', cd_kind = ''logs'', cd_label = ''Logs'', cd_health = Ok,
      cd_detail = show_nat (fst t) @ '' files'' @ middle_dot @ ce_bytes e (snd t),
      cd_metrics = [metric_new ''files'' (show_nat (fst t)), metric_new ''size'' (ce_bytes e (snd t))],
      cd_actions = [], cd_relations = [], cd_link = Some ''#/logs''\<rparr>"

text \<open>
  The digest is cut to 12 bytes, counted on the digest with its \<open>sha256:\<close>: where less is left after
  the prefix, or the cut is within a character, slicing panics. \<open>None\<close> is that panic.
\<close>

fun strip_all :: "nat \<Rightarrow> string \<Rightarrow> string \<Rightarrow> string" where
  "strip_all 0 p s = s"
| "strip_all (Suc n) p s = (case strip_prefix p s of Some r \<Rightarrow> strip_all n p r | None \<Rightarrow> s)"

definition between_chars :: "string \<Rightarrow> nat \<Rightarrow> bool" where
  "between_chars s n \<longleftrightarrow> n = length s \<or> n < length s \<and> of_char (s ! n) \<notin> {0x80 ..< (0xC0 :: nat)}"

definition short_digest :: "string option \<Rightarrow> string option" where
  "short_digest digest =
     (case digest of
        None \<Rightarrow> Some ''-''
      | Some d \<Rightarrow>
          (let r = strip_all (length d) ''sha256:'' d; n = min 12 (length d)
           in if between_chars r n then Some (take n r) else None))"

definition debug_status :: "update_status \<Rightarrow> string" where
  "debug_status s =
     (case s of update_status.Idle \<Rightarrow> ''Idle'' | Checking \<Rightarrow> ''Checking'' | Pulling \<Rightarrow> ''Pulling''
      | Pivoting \<Rightarrow> ''Pivoting'' | update_status.Failed \<Rightarrow> ''Failed'')"

definition update_card :: "card_env \<Rightarrow> image_state \<Rightarrow> card option" where
  "update_card e i =
     (case short_digest (im_current_digest i) of
        None \<Rightarrow> None
      | Some digest \<Rightarrow> Some
          \<lparr>cd_id = ''update:'' @ im_image i, cd_kind = ''updater'', cd_label = im_image i,
           cd_health = (case im_status i of update_status.Failed \<Rightarrow> Error | update_status.Idle \<Rightarrow> Ok | _ \<Rightarrow> Warn),
           cd_detail = to_lower (debug_status (im_status i) @ middle_dot
             @ (case im_last_update i of Some t \<Rightarrow> ''updated '' @ ce_date e t | None \<Rightarrow> ''never updated'')),
           cd_metrics = [toned ''muted'' (metric_new ''digest'' digest)],
           cd_actions = [\<lparr>ac_id = ''trigger'', ac_label = ''Update'', ac_method = ''POST'',
             ac_path = ''/api/v1/updates/'' @ im_image i @ ''/trigger'',
             ac_enabled = im_status i \<in> {update_status.Idle, update_status.Failed}, ac_danger = False\<rparr>],
           cd_relations = [], cd_link = None\<rparr>)"

section \<open>The relations\<close>

definition ids_of_kind :: "string set \<Rightarrow> card list \<Rightarrow> string list" where
  "ids_of_kind ks cs = map cd_id (filter (\<lambda>c. cd_kind c \<in> ks) cs)"

definition add_relations :: "relation list \<Rightarrow> card \<Rightarrow> card" where
  "add_relations rs c = c\<lparr>cd_relations := cd_relations c @ rs\<rparr>"

definition many :: "string \<Rightarrow> string list \<Rightarrow> relation list" where
  "many name ids = (if ids = [] then [] else [HasMany name ids])"

definition after_prefix :: "string \<Rightarrow> string \<Rightarrow> string" where
  "after_prefix p s = (case strip_prefix p s of Some r \<Rightarrow> r | None \<Rightarrow> s)"

definition relations_of :: "card list \<Rightarrow> card \<Rightarrow> relation list" where
  "relations_of cs c =
     (let processes = ids_of_kind {''process'', ''plugin''} cs; updates = ids_of_kind {''updater''} cs;
          k = cd_kind c
      in if k = ''system'' then
           many ''processes'' processes @ many ''cron'' (ids_of_kind {''cron''} cs)
           @ many ''storage'' (ids_of_kind {''storage''} cs) @ [HasOne ''logs'' ''logs'' None]
         else if k = ''process'' \<or> k = ''plugin'' then
           (let name = after_prefix ''process:'' (cd_id c); u = ''update:'' @ name
            in [BelongsTo ''system'' ''system'', HasOne ''logs'' ''logs'' (Some (''#/logs?process='' @ name))]
               @ (if u \<in> set updates then [HasOne ''update'' u None] else []))
         else if k = ''updater'' then
           (let p = ''process:'' @ after_prefix ''update:'' (cd_id c)
            in if p \<in> set processes then [BelongsTo ''process'' p] else [])
         else if k = ''cron'' \<or> k = ''storage'' \<or> k = ''logs'' then [BelongsTo ''system'' ''system'']
         else [])"

definition relate :: "card list \<Rightarrow> card list" where
  "relate cs = map (\<lambda>c. add_relations (relations_of cs c) c) cs"

section \<open>What plugins say of themselves\<close>

definition merge_summary :: "remote_summary \<Rightarrow> card \<Rightarrow> card" where
  "merge_summary r c =
     c\<lparr>cd_health := (case rs_health r of Some h \<Rightarrow> h | None \<Rightarrow> cd_health c),
       cd_detail := (case rs_detail r of Some d \<Rightarrow> d | None \<Rightarrow> cd_detail c),
       cd_metrics := cd_metrics c @ rs_metrics r\<rparr>"

definition plugin_summary :: "card_env \<Rightarrow> ui_plugin \<Rightarrow> card list \<Rightarrow> card list" where
  "plugin_summary e u cs =
     (case pl_summary_url u of
        None \<Rightarrow> cs
      | Some url \<Rightarrow>
          (case ce_summary e url of
             None \<Rightarrow> cs
           | Some r \<Rightarrow> update_first (\<lambda>c. cd_id c = ''process:'' @ pl_name u) (merge_summary r) cs))"

text \<open>What is read of the daemon, one part after another, and the list made of it.\<close>

record feed =
  fe_container :: string
  fe_plugins :: "ui_plugin list"
  fe_statuses :: "process_status list"
  fe_stats :: system_stats
  fe_cron :: "cron_status list"
  fe_mounts :: "mount_info list"
  fe_logs :: "nat \<times> u64"
  fe_images :: "image_states option"

definition plain_cards :: "card_env \<Rightarrow> feed \<Rightarrow> card list \<Rightarrow> card list" where
  "plain_cards e f updates =
     system_card e (fe_container f) (fe_statuses f) (fe_stats f)
     # map (process_card e (fe_plugins f)) (fe_statuses f) @ map cron_card (fe_cron f)
     @ map (mount_card e) (fe_mounts f) @ [logs_card e (fe_logs f)] @ updates"

definition feed_images :: "feed \<Rightarrow> image_state list" where
  "feed_images f = (case fe_images f of Some st \<Rightarrow> get_all_states st | None \<Rightarrow> [])"

definition update_cards :: "card_env \<Rightarrow> feed \<Rightarrow> card list option" where
  "update_cards e f = those (map (update_card e) (feed_images f))"

definition collect :: "card_env \<Rightarrow> feed \<Rightarrow> card list option" where
  "collect e f =
     map_option (\<lambda>us. fold (plugin_summary e) (fe_plugins f) (relate (plain_cards e f us))) (update_cards e f)"

section \<open>What the list keeps\<close>

definition card_ids :: "card list \<Rightarrow> string set" where
  "card_ids cs = cd_id ` set cs"

fun relation_targets :: "relation \<Rightarrow> string set" where
  "relation_targets (HasMany _ ts) = set ts"
| "relation_targets (HasOne _ t _) = {t}"
| "relation_targets (BelongsTo _ t) = {t}"

definition targets :: "card list \<Rightarrow> string set" where
  "targets cs = (\<Union>c \<in> set cs. \<Union>(relation_targets ` set (cd_relations c)))"

lemma ids_of_kind_in: "x \<in> set (ids_of_kind ks cs) \<Longrightarrow> x \<in> card_ids cs"
  by (auto simp: ids_of_kind_def card_ids_def)

lemma relations_of_targets:
  assumes "''system'' \<in> card_ids cs" "''logs'' \<in> card_ids cs" "r \<in> set (relations_of cs c)"
  shows "relation_targets r \<subseteq> card_ids cs"
  using assms by (auto simp: relations_of_def many_def Let_def dest: ids_of_kind_in split: if_splits)

definition same_frame :: "card list \<Rightarrow> card list \<Rightarrow> bool" where
  "same_frame cs ds \<longleftrightarrow> map cd_id cs = map cd_id ds \<and> map cd_kind cs = map cd_kind ds
     \<and> map cd_relations cs = map cd_relations ds \<and> map cd_actions cs = map cd_actions ds"

lemma plugin_summary_frame: "same_frame (plugin_summary e u cs) cs"
  by (simp add: plugin_summary_def same_frame_def merge_summary_def update_first_map split: option.split)

lemma same_frame_trans: "same_frame cs ds \<Longrightarrow> same_frame ds es \<Longrightarrow> same_frame cs es"
  by (simp add: same_frame_def)

lemma fold_summaries_frame: "same_frame (fold (plugin_summary e) us cs) cs"
proof (induction us arbitrary: cs)
  case Nil
  then show ?case by (simp add: same_frame_def)
next
  case (Cons u us)
  then show ?case using same_frame_trans plugin_summary_frame by fastforce
qed

lemma same_frame_nth:
  assumes "same_frame cs ds" "n < length ds"
  shows "cd_id (cs ! n) = cd_id (ds ! n)" "cd_kind (cs ! n) = cd_kind (ds ! n)"
    "cd_relations (cs ! n) = cd_relations (ds ! n)" "cd_actions (cs ! n) = cd_actions (ds ! n)"
proof -
  have "length cs = length ds" using assms(1) unfolding same_frame_def by (metis length_map)
  then show "cd_id (cs ! n) = cd_id (ds ! n)" "cd_kind (cs ! n) = cd_kind (ds ! n)"
      "cd_relations (cs ! n) = cd_relations (ds ! n)" "cd_actions (cs ! n) = cd_actions (ds ! n)"
    using assms unfolding same_frame_def by (metis nth_map)+
qed

lemma same_frame_ids: "same_frame cs ds \<Longrightarrow> card_ids cs = card_ids ds"
  unfolding same_frame_def card_ids_def by (metis list.set_map)

lemma same_frame_targets: "same_frame cs ds \<Longrightarrow> targets cs = targets ds"
proof -
  assume "same_frame cs ds"
  then have "cd_relations ` set cs = cd_relations ` set ds" unfolding same_frame_def by (metis list.set_map)
  moreover have "targets xs = (\<Union>rs \<in> cd_relations ` set xs. \<Union>(relation_targets ` set rs))" for xs
    by (simp add: targets_def)
  ultimately show ?thesis by metis
qed

lemma relate_ids [simp]: "map cd_id (relate cs) = map cd_id cs" "card_ids (relate cs) = card_ids cs"
  by (simp_all add: relate_def add_relations_def card_ids_def image_image)

lemma plain_cards_bare: "c \<in> set (plain_cards e f us) \<Longrightarrow> c \<in> set us \<or> cd_relations c = []"
  by (auto simp: plain_cards_def system_card_def process_card_def cron_card_def mount_card_def logs_card_def Let_def)

lemma update_card_shape:
  "update_card e i = Some c \<Longrightarrow> cd_id c = ''update:'' @ im_image i \<and> cd_kind c = ''updater'' \<and> cd_relations c = []
     \<and> map ac_path (cd_actions c) = [''/api/v1/updates/'' @ im_image i @ ''/trigger'']"
  by (auto simp: update_card_def split: option.splits)

lemma those_Some_iff: "those xs = Some ys \<longleftrightarrow> xs = map Some ys"
  by (induction xs arbitrary: ys) (auto split: option.splits)

lemma update_cards_Some: "update_cards e f = Some us \<longleftrightarrow> map (update_card e) (feed_images f) = map Some us"
  by (simp add: update_cards_def those_Some_iff)

lemma in_update_cards:
  assumes "update_cards e f = Some us" "c \<in> set us"
  obtains i where "i \<in> set (feed_images f)" "update_card e i = Some c"
proof -
  have "Some c \<in> set (map (update_card e) (feed_images f))"
    using assms by (simp add: update_cards_Some)
  then show ?thesis using that by (metis in_set_conv_decomp image_iff set_map)
qed

lemma update_card_ids: "map (update_card e) is = map Some us \<Longrightarrow> map cd_id us = map (\<lambda>i. ''update:'' @ im_image i) is"
  by (induction us arbitrary: "is") (use update_card_shape in \<open>auto simp: map_eq_Cons_conv\<close>)

text \<open>
  Every relation of the feed points at a card of the same list: no card names a component the list does
  not hold, whatever the parts report and whatever the plugins answer.
\<close>
lemma relations_stay_inside: "pred_option (\<lambda>cs. targets cs \<subseteq> card_ids cs) (collect e f)"
proof (cases "update_cards e f")
  case None
  then show ?thesis by (simp add: collect_def)
next
  case (Some us)
  let ?cs = "plain_cards e f us"
  have bare: "cd_relations c = []" if "c \<in> set ?cs" for c
    using plain_cards_bare[OF that] in_update_cards[OF Some] update_card_shape by metis
  have "''system'' \<in> card_ids ?cs" "''logs'' \<in> card_ids ?cs"
    by (auto simp: card_ids_def plain_cards_def system_card_def logs_card_def Let_def)
  then have "targets (relate ?cs) \<subseteq> card_ids ?cs"
    using relations_of_targets bare by (fastforce simp: targets_def relate_def add_relations_def)
  then show ?thesis
    using Some same_frame_ids[OF fold_summaries_frame] same_frame_targets[OF fold_summaries_frame]
    by (simp add: collect_def)
qed

text \<open>Distinct parts have distinct cards.\<close>

lemma cards_are_distinct:
  assumes "distinct (map st_name (fe_statuses f))" "distinct (map cx_name (fe_cron f))"
    "distinct (map mi_mount_point (fe_mounts f))"
    "distinct (map im_image (feed_images f))" "update_cards e f = Some us"
  shows "distinct (map cd_id (plain_cards e f us))"
proof -
  have us: "map cd_id us = map (\<lambda>i. ''update:'' @ im_image i) (feed_images f)"
    using assms(5) by (intro update_card_ids) (simp add: update_cards_Some)
  have "map cd_id (plain_cards e f us) = ''system'' # map (\<lambda>p. ''process:'' @ st_name p) (fe_statuses f)
      @ map (\<lambda>j. ''cron:'' @ cx_name j) (fe_cron f) @ map (\<lambda>m. ''mount:'' @ mi_mount_point m) (fe_mounts f)
      @ [''logs''] @ map (\<lambda>i. ''update:'' @ im_image i) (feed_images f)"
    unfolding us[symmetric]
    by (simp add: plain_cards_def system_card_def process_card_def cron_card_def mount_card_def logs_card_def Let_def)
  then show ?thesis using assms(1-4) by (auto simp: distinct_map inj_on_def)
qed

lemma process_ids:
  assumes "update_cards e f = Some us"
  shows "ids_of_kind {''process'', ''plugin''} (plain_cards e f us) = map (\<lambda>p. ''process:'' @ st_name p) (fe_statuses f)"
proof -
  have "cd_kind c = ''updater''" if "c \<in> set us" for c
    using in_update_cards[OF assms that] update_card_shape by metis
  then have "filter (\<lambda>c. cd_kind c \<in> {''process'', ''plugin''}) us = []" by (simp add: filter_empty_conv)
  moreover have "filter (\<lambda>c. cd_kind c \<in> {''process'', ''plugin''}) (map (process_card e ps) xs) = map (process_card e ps) xs"
    for ps xs by (induction xs) (auto simp: process_card_def Let_def split: option.splits)
  ultimately show ?thesis
    by (simp add: ids_of_kind_def plain_cards_def system_card_def cron_card_def mount_card_def logs_card_def
        process_card_def Let_def filter_map comp_def)
qed

text \<open>
  An update card is named after the image, but the updater and its API know an image by the name of its
  process. Where no image reference is also a process name, the button of every update card asks for an
  update that is refused, and no update card is related to its process.
\<close>
lemma update_button_is_refused:
  assumes "collect e f = Some cs" "fe_images f = Some st" "c \<in> set cs" "cd_kind c = ''updater''"
    and apart: "im_image ` snd ` set st \<inter> (fst ` set st \<union> st_name ` set (fe_statuses f)) = {}"
  shows "\<exists>img. cd_id c = ''update:'' @ img \<and> cd_relations c = []
    \<and> map ac_path (cd_actions c) = [''/api/v1/updates/'' @ img @ ''/trigger'']
    \<and> fst (trigger_update u cleaned img (w, st)) = (w, st) \<and> snd (trigger_update u cleaned img (w, st)) \<noteq> None"
proof -
  obtain us where us: "update_cards e f = Some us" and
    cs: "cs = fold (plugin_summary e) (fe_plugins f) (relate (plain_cards e f us))"
    using assms(1) by (auto simp: collect_def)
  obtain n where n: "n < length cs" "c = cs ! n" using assms(3) by (metis in_set_conv_nth)
  define d where "d = relate (plain_cards e f us) ! n"
  define b where "b = plain_cards e f us ! n"
  have len: "n < length (plain_cards e f us)"
    using n fold_summaries_frame[of e "fe_plugins f" "relate (plain_cards e f us)"] cs
    by (metis length_map relate_def same_frame_def)
  have frame: "cd_id c = cd_id d" "cd_kind c = cd_kind d" "cd_relations c = cd_relations d" "cd_actions c = cd_actions d"
    using same_frame_nth[OF fold_summaries_frame] n len by (simp_all add: cs d_def relate_def)
  have d: "d = add_relations (relations_of (plain_cards e f us) b) b"
    using len by (simp add: d_def b_def relate_def)
  have "b \<in> set (plain_cards e f us)" "cd_kind b = ''updater''"
    using len frame d assms(4) by (simp_all add: b_def add_relations_def)
  then have "b \<in> set us"
    by (auto simp: plain_cards_def system_card_def process_card_def cron_card_def mount_card_def logs_card_def Let_def
        split: option.splits)
  then obtain i where i: "i \<in> set (feed_images f)" "update_card e i = Some b" using in_update_cards[OF us] by metis
  note shape = update_card_shape[OF i(2)]
  have img: "im_image i \<in> im_image ` snd ` set st" using i(1) assms(2) by (auto simp: feed_images_def get_all_states_def)
  then have untracked: "get_state st (im_image i) = None"
    using apart by (auto simp: get_state_def map_of_eq_None_iff)
  have "im_image i \<notin> st_name ` set (fe_statuses f)" using img apart by auto
  then have "''process:'' @ im_image i \<notin> set (ids_of_kind {''process'', ''plugin''} (plain_cards e f us))"
    unfolding process_ids[OF us] by auto
  then have "relations_of (plain_cards e f us) b = []"
    using shape by (simp add: relations_of_def after_prefix_def Let_def)
  then show ?thesis
    using shape frame d untracked by (intro exI[of _ "im_image i"]) (simp add: add_relations_def trigger_update_def)
qed

text \<open>A digest shorter than 12 bytes after its \<open>sha256:\<close> stops the whole list: the cut is taken of the longer text.\<close>

lemma strip_all_once: "strip_prefix p s = None \<Longrightarrow> strip_all (Suc (Suc n)) p (p @ s) = s"
  by simp

lemma short_digest_panics:
  assumes "strip_prefix ''sha256:'' r = None"
  shows "length r < 12 \<Longrightarrow> short_digest (Some (''sha256:'' @ r)) = None"
    and "12 < length r \<Longrightarrow> \<forall>c \<in> set r. of_char c < (0x80 :: nat) \<Longrightarrow> short_digest (Some (''sha256:'' @ r)) = Some (take 12 r)"
proof -
  have strip: "strip_all (length (''sha256:'' @ r)) ''sha256:'' (''sha256:'' @ r) = r"
    using assms strip_all_once[OF assms, of "length r + 5"] by (simp add: eval_nat_numeral)
  show "short_digest (Some (''sha256:'' @ r)) = None" if "length r < 12"
    using that unfolding short_digest_def option.case strip Let_def by (simp add: between_chars_def min_def)
  show "short_digest (Some (''sha256:'' @ r)) = Some (take 12 r)"
    if "12 < length r" "\<forall>c \<in> set r. of_char c < (0x80 :: nat)"
    using that(1) bspec[OF that(2) nth_mem[OF that(1)]] unfolding short_digest_def option.case strip Let_def by (auto simp: between_chars_def min_def)
qed

section \<open>Witnesses\<close>

definition demo_cards :: card_env where
  "demo_cards = \<lparr>ce_duration = show_int, ce_bytes = (\<lambda>n. show_nat (unat n)), ce_date = show_int, ce_summary = (\<lambda>_. None)\<rparr>"

definition app_state :: image_state where
  "app_state = \<lparr>im_image = ''r/app:1'', im_current_digest = None, im_rootfs_path = None, im_last_check = None,
     im_last_update = None, im_status = update_status.Idle\<rparr>"

definition demo_feed :: feed where
  "demo_feed = \<lparr>fe_container = ''box'', fe_plugins = [], fe_statuses = [],
     fe_stats = get_stats 1 0 (\<lambda>_. None) (collector_new ''box'' 0), fe_cron = [], fe_mounts = [], fe_logs = (0, 0),
     fe_images = Some [(''app'', app_state)]\<rparr>"

definition app_card :: card where
  "app_card = the (update_card demo_cards app_state)"

lemma app_card_id: "update_card demo_cards app_state = Some app_card" "cd_id app_card = ''update:r/app:1''"
    "cd_kind app_card = ''updater''" "cd_relations app_card = []"
  by (simp_all add: app_card_def update_card_def app_state_def short_digest_def)

lemma demo_collect: "collect demo_cards demo_feed = Some (relate (plain_cards demo_cards demo_feed [app_card]))"
  by (simp add: collect_def update_cards_def feed_images_def demo_feed_def get_all_states_def app_card_id)

lemma app_card_shown: "app_card \<in> set (relate (plain_cards demo_cards demo_feed [app_card]))"
proof -
  have "relations_of (plain_cards demo_cards demo_feed [app_card]) app_card = []"
    by (simp add: relations_of_def app_card_id after_prefix_def ids_of_kind_def plain_cards_def demo_feed_def system_card_def
        logs_card_def Let_def)
  then have "add_relations (relations_of (plain_cards demo_cards demo_feed [app_card]) app_card) app_card = app_card"
    by (simp add: add_relations_def)
  then show ?thesis by (force simp: relate_def plain_cards_def)
qed

lemma update_button_is_refused_witness:
  "\<exists>img. cd_id app_card = ''update:'' @ img \<and> cd_relations app_card = []
    \<and> map ac_path (cd_actions app_card) = [''/api/v1/updates/'' @ img @ ''/trigger'']
    \<and> fst (trigger_update (demo_up True True None) True img (demo_world, [(''app'', app_state)])) = (demo_world, [(''app'', app_state)])
    \<and> snd (trigger_update (demo_up True True None) True img (demo_world, [(''app'', app_state)])) \<noteq> None"
  by (rule update_button_is_refused[OF demo_collect _ app_card_shown])
     (simp_all add: demo_feed_def app_card_id, simp add: app_state_def)

end
