(* ===== verification/Proxy.thy ===== *)
theory Proxy
  imports Auth Components
begin

text \<open>
  The plugin proxy of \<open>crates/stormd/src/api.rs\<close>: where a request for a plugin goes, which of its headers
  reach the plugin and which of the plugin's reach the browser. Header names are in lower case, as
  \<open>http\<close> keeps them; a value is the bytes sent, \<open>hv_text\<close> reads it as text (\<open>HeaderValue::to_str\<close>) and
  \<open>hv_from\<close> makes one (\<open>HeaderValue::from_str\<close>).
\<close>

type_synonym headers = "(string \<times> string) list"

record header_values =
  hv_text :: "string \<Rightarrow> string option"
  hv_from :: "string \<Rightarrow> string option"

text \<open>What the \<open>http\<close> crate promises of both: the text is the value.\<close>

definition plain_values :: "header_values \<Rightarrow> bool" where
  "plain_values h \<longleftrightarrow> (\<forall>v s. hv_text h v = Some s \<longrightarrow> s = v) \<and> (\<forall>s v. hv_from h s = Some v \<longrightarrow> v = s)"

definition header_all :: "string \<Rightarrow> headers \<Rightarrow> string list" where
  "header_all n hs = map snd (filter (\<lambda>x. fst x = n) hs)"

definition header_get :: "string \<Rightarrow> headers \<Rightarrow> string option" where
  "header_get n hs = (case header_all n hs of v # _ \<Rightarrow> Some v | [] \<Rightarrow> None)"

section \<open>Headers\<close>

definition hop_by_hop :: "string list" where
  "hop_by_hop = [''connection'', ''keep-alive'', ''proxy-authenticate'', ''proxy-authorization'', ''proxy-connection'',
     ''te'', ''trailer'', ''transfer-encoding'', ''upgrade'', ''host'', ''content-length'']"

definition is_hop_by_hop :: "string \<Rightarrow> string list \<Rightarrow> bool" where
  "is_hop_by_hop name connection \<longleftrightarrow> name \<in> set hop_by_hop \<or> name \<in> set connection"

definition connection_tokens :: "header_values \<Rightarrow> headers \<Rightarrow> string list" where
  "connection_tokens h hs =
     filter (\<lambda>t. t \<noteq> [])
       (map (\<lambda>t. map ascii_lower (trim t))
         (concat (map (split_char (CHR '','')) (List.map_filter (hv_text h) (header_all ''connection'' hs)))))"

definition own_bearer :: "header_values \<Rightarrow> string list \<Rightarrow> string \<Rightarrow> bool" where
  "own_bearer h own v =
     (case hv_text h v of
        None \<Rightarrow> False
      | Some s \<Rightarrow> (case strip_prefix ''Bearer '' s of Some b \<Rightarrow> b \<in> set own | None \<Rightarrow> False))"

definition kept_cookies :: "header_values \<Rightarrow> string \<Rightarrow> string list" where
  "kept_cookies h v =
     filter (\<lambda>c. c \<noteq> [] \<and> \<not> is_session_cookie c)
       (map trim (split_char (CHR '';'') (case hv_text h v of Some s \<Rightarrow> s | None \<Rightarrow> [])))"

definition upstream_header :: "header_values \<Rightarrow> string list \<Rightarrow> string list \<Rightarrow> string \<times> string \<Rightarrow> (string \<times> string) option" where
  "upstream_header h connection own x =
     (case x of (n, v) \<Rightarrow>
        if is_hop_by_hop n connection then None
        else if n = ''authorization'' \<and> own_bearer h own v then None
        else if n = ''cookie'' then
          (if kept_cookies h v = [] then None
           else map_option (Pair ''cookie'') (hv_from h (join ''; '' (kept_cookies h v))))
        else Some (n, v))"

definition upstream_request_headers :: "header_values \<Rightarrow> headers \<Rightarrow> string list \<Rightarrow> headers" where
  "upstream_request_headers h hs own = List.map_filter (upstream_header h (connection_tokens h hs) own) hs"

definition downstream_response_headers :: "header_values \<Rightarrow> headers \<Rightarrow> headers" where
  "downstream_response_headers h hs =
     filter (\<lambda>(n, v). \<not> is_hop_by_hop n (connection_tokens h hs)
       \<and> \<not> (n = ''set-cookie'' \<and> (case hv_text h v of Some s \<Rightarrow> is_session_cookie s | None \<Rightarrow> False))) hs"

section \<open>A proxied request\<close>

record http_message =
  hm_headers :: headers
  hm_body :: "u8 list"

record uri =
  ur_path :: string
  ur_query :: "string option"

type_synonym 'w proxy_client =
  "string \<Rightarrow> string \<Rightarrow> headers \<Rightarrow> u8 list option \<Rightarrow> 'w \<Rightarrow> 'w \<times> (string + nat \<times> headers \<times> (string + u8 list))"

definition proxy_to ::
    "'w proxy_client \<Rightarrow> header_values \<Rightarrow> string \<Rightarrow> string \<Rightarrow> http_message \<Rightarrow> string list \<Rightarrow> 'w
     \<Rightarrow> 'w \<times> (string + nat \<times> http_message)" where
  "proxy_to client h target method m own w =
     (case client method target (upstream_request_headers h (hm_headers m) own)
             (if hm_body m = [] then None else Some (hm_body m)) w of
        (w1, Inl err) \<Rightarrow> (w1, Inl (''proxy: '' @ err))
      | (w1, Inr (code, hs, Inl err)) \<Rightarrow> (w1, Inl (''proxy: '' @ err))
      | (w1, Inr (code, hs, Inr body)) \<Rightarrow>
          (w1, Inr (code, \<lparr>hm_headers = downstream_response_headers h hs, hm_body = body\<rparr>)))"

text \<open>The plugin's name and the path within it.\<close>

definition plugin_path :: "string \<Rightarrow> string \<times> string" where
  "plugin_path path =
     (let after = (case strip_prefix ''/ui/proxy/'' path of Some r \<Rightarrow> r | None \<Rightarrow> [])
      in case split_once ''/'' after of Some (name, sub) \<Rightarrow> (name, sub) | None \<Rightarrow> (after, []))"

definition plugin_target :: "ui_plugin \<Rightarrow> string \<Rightarrow> string option \<Rightarrow> string" where
  "plugin_target u sub query =
     trim_end_matches ''/'' (pl_proxy_url u) @ ''/'' @ sub @ (case query of Some q \<Rightarrow> ''?'' @ q | None \<Rightarrow> [])"

definition proxy_plugin ::
    "'w proxy_client \<Rightarrow> header_values \<Rightarrow> ui_plugin list \<Rightarrow> on_disk \<Rightarrow> auth_state option \<Rightarrow> string \<Rightarrow> uri \<Rightarrow> http_message
     \<Rightarrow> 'w \<Rightarrow> auth_state option \<times> 'w \<times> (string + nat \<times> http_message)" where
  "proxy_plugin client h plugins d auth method uri m w =
     (let (name, sub) = plugin_path (ur_path uri)
      in case find (\<lambda>p. pl_name p = name) plugins of
           None \<Rightarrow> (auth, w, Inl (''plugin '' @ [CHR 0x27] @ name @ [CHR 0x27] @ '' not found''))
         | Some u \<Rightarrow>
             (case auth of
                None \<Rightarrow> (None, proxy_to client h (plugin_target u sub (ur_query uri)) method m [] w)
              | Some a \<Rightarrow>
                  (case tokens d a of
                     (a', own) \<Rightarrow> (Some a', proxy_to client h (plugin_target u sub (ur_query uri)) method m own w))))"

section \<open>No credential of stormd leaves\<close>

text \<open>The request the authentication would make of a set of headers.\<close>

definition request_of :: "header_values \<Rightarrow> string \<Rightarrow> headers \<Rightarrow> request" where
  "request_of h path hs = \<lparr>rq_path = path, rq_cert_verified = False,
     rq_authorization = Option.bind (header_get ''authorization'' hs) (hv_text h),
     rq_cookie = Option.bind (header_get ''cookie'' hs) (hv_text h)\<rparr>"

lemma header_get_in: "header_get n hs = Some v \<Longrightarrow> (n, v) \<in> set hs"
proof -
  assume "header_get n hs = Some v"
  then have "v \<in> set (header_all n hs)"
    unfolding header_get_def by (cases "header_all n hs") simp_all
  then show ?thesis by (auto simp: header_all_def)
qed

lemma upstream_in:
  assumes "(n, v) \<in> set (upstream_request_headers h hs own)"
  obtains m u where "(m, u) \<in> set hs" "upstream_header h (connection_tokens h hs) own (m, u) = Some (n, v)"
proof -
  obtain x where "x \<in> set hs" "upstream_header h (connection_tokens h hs) own x = Some (n, v)"
    using assms unfolding upstream_request_headers_def in_map_filter by blast
  then show ?thesis using that by (metis surj_pair)
qed

lemma no_own_bearer_upstream:
  assumes "(''authorization'', v) \<in> set (upstream_request_headers h hs own)"
  shows "\<not> own_bearer h own v"
proof -
  obtain m u where "upstream_header h (connection_tokens h hs) own (m, u) = Some (''authorization'', v)"
    using upstream_in[OF assms] by blast
  then show ?thesis by (auto simp: upstream_header_def split: if_split_asm)
qed

lemma session_prefix_is_session_cookie:
  assumes "strip_prefix (cookie_name @ ''='') c = Some v" "trim_start c = c"
  shows "is_session_cookie c"
proof -
  have "c = cookie_name @ CHR ''='' # v" using assms(1) by (simp add: strip_prefix_Some)
  moreover have "split_once ''='' (cookie_name @ CHR ''='' # v) = Some (cookie_name, v)"
    by (rule split_once_char) (simp add: cookie_name_def)
  moreover have "trim cookie_name = cookie_name" by (simp add: cookie_name_def trim_def trim_start_def trim_end_def is_ws_def)
  ultimately show ?thesis using assms(2) by (simp add: is_session_cookie_def)
qed

lemma trim_end_takes: "\<exists>r. s = trim_end s @ r"
  by (metis rev_append rev_rev_ident takeWhile_dropWhile_id trim_end_def)

lemma trim_start_of_trim [simp]: "trim_start (trim s) = trim s"
proof (cases "trim s")
  case (Cons c r)
  then have "hd (trim_start s) = c" "trim_start s \<noteq> []"
    using trim_end_takes[of "trim_start s"] by (auto simp: trim_def)
  then have "\<not> is_ws c" unfolding trim_start_def by (metis hd_dropWhile)
  then show ?thesis using Cons by (simp add: trim_start_def)
qed (simp add: trim_start_def)

lemma trim_trim [simp]: "trim (trim s) = trim s"
  by (metis trim_def trim_end_idem trim_start_of_trim)

lemma trim_space [simp]: "trim (CHR '' '' # s) = trim s"
  by (simp add: trim_def trim_start_def is_ws_def)

lemma kept_parts:
  assumes "p \<in> set (split_char (CHR '';'') (join ''; '' ks))" "ks \<noteq> []" "\<forall>k \<in> set ks. CHR '';'' \<notin> set k"
  shows "trim p \<in> trim ` set ks"
  using assms
proof (induction ks arbitrary: p)
  case Nil
  then show ?case by simp
next
  case (Cons k ks)
  show ?case
  proof (cases "ks = []")
    case True
    then show ?thesis using Cons.prems by (simp add: split_char_no_sep)
  next
    case False
    have "split_char (CHR '';'') (join ''; '' (k # ks)) = k # split_char (CHR '';'') (CHR '' '' # join ''; '' ks)"
      using Cons.prems(3) by (simp add: join_Cons[OF False] split_char_append)
    moreover have "split_char (CHR '';'') (CHR '' '' # t) =
        (CHR '' '' # hd (split_char (CHR '';'') t)) # tl (split_char (CHR '';'') t)" for t
      by (simp split: list.split)
    moreover have "set (split_char (CHR '';'') t) = insert (hd (split_char (CHR '';'') t)) (set (tl (split_char (CHR '';'') t)))" for t
      by (metis list.collapse list.simps(15) split_char_nonempty)
    ultimately show ?thesis using Cons.prems Cons.IH[OF _ False] by auto
  qed
qed

lemma kept_cookie: "k \<in> set (kept_cookies h v) \<Longrightarrow> trim k = k \<and> trim_start k = k \<and> \<not> is_session_cookie k"
  by (auto simp: kept_cookies_def)

lemma trim_subset: "set (trim s) \<subseteq> set s"
proof -
  have "set (trim_end t) \<subseteq> set t" for t using trim_end_takes[of t] by (metis set_append sup_ge1)
  moreover have "set (trim_start t) \<subseteq> set t" for t by (auto simp: trim_start_def dest: set_dropWhileD)
  ultimately show ?thesis unfolding trim_def by blast
qed

lemma kept_cookie_no_semicolon: "k \<in> set (kept_cookies h v) \<Longrightarrow> CHR '';'' \<notin> set k"
  using trim_subset split_char_parts by (fastforce simp: kept_cookies_def)

lemma first_cookie_None: "first_cookie ps = None \<longleftrightarrow> (\<forall>p \<in> set ps. strip_prefix (cookie_name @ ''='') (trim p) = None)"
  by (induction ps) (auto split: option.splits)

lemma no_session_in_kept:
  assumes "kept_cookies h v \<noteq> []"
  shows "first_cookie (split_char (CHR '';'') (join ''; '' (kept_cookies h v))) = None"
proof -
  have "strip_prefix (cookie_name @ ''='') (trim p) = None"
    if "p \<in> set (split_char (CHR '';'') (join ''; '' (kept_cookies h v)))" for p
  proof -
    note mem = that
    obtain k where k: "k \<in> set (kept_cookies h v)" "trim p = trim k"
      using kept_parts[OF mem assms] kept_cookie_no_semicolon by blast
    then have "trim p = k" "trim_start k = k" "\<not> is_session_cookie k" using kept_cookie by auto
    then show ?thesis using session_prefix_is_session_cookie by (cases "strip_prefix (cookie_name @ ''='') (trim p)") auto
  qed
  then show ?thesis by (simp add: first_cookie_None)
qed

lemma upstream_cookie:
  assumes "(''cookie'', v) \<in> set (upstream_request_headers h hs own)"
  shows "\<exists>u. kept_cookies h u \<noteq> [] \<and> hv_from h (join ''; '' (kept_cookies h u)) = Some v"
proof -
  obtain m u where "upstream_header h (connection_tokens h hs) own (m, u) = Some (''cookie'', v)"
    using upstream_in[OF assms] by blast
  then have "kept_cookies h u \<noteq> [] \<and> hv_from h (join ''; '' (kept_cookies h u)) = Some v"
    by (auto simp: upstream_header_def split: if_split_asm)
  then show ?thesis by blast
qed

text \<open>C24: The plugin gets no credential of stormd: whatever headers the browser sends, a request made with the
  headers that go upstream is not let through by stormd's own authentication, neither by a token it
  holds nor by any of its sessions.
\<close>
theorem no_credential_goes_upstream:
  assumes "plain_values h"
    and "request_of h path (upstream_request_headers h hs (snd (tokens d a))) = r"
  shows "\<not> snd (bearer_ok d r a) \<and> session_cookie r = None"
proof
  let ?out = "upstream_request_headers h hs (snd (tokens d a))"
  have "\<not> own_bearer h (snd (tokens d a)) v" if "header_get ''authorization'' ?out = Some v" for v
    using no_own_bearer_upstream header_get_in[OF that] by blast
  then have "rq_authorization r \<noteq> Some (''Bearer '' @ t)" if "t \<in> set (snd (tokens d a))" for t
    using assms(2) that strip_prefix_append[of "''Bearer ''" t]
    by (cases "header_get ''authorization'' ?out") (auto simp: request_of_def own_bearer_def)
  then show "\<not> snd (bearer_ok d r a)" unfolding bearer_ok_iff by blast
  show "session_cookie r = None"
  proof (cases "rq_cookie r")
    case None
    then show ?thesis by (simp add: session_cookie_def)
  next
    case (Some c)
    then obtain v where v: "header_get ''cookie'' ?out = Some v" "hv_text h v = Some c"
      using assms(2) by (cases "header_get ''cookie'' ?out") (auto simp: request_of_def)
    obtain u where "kept_cookies h u \<noteq> []" "hv_from h (join ''; '' (kept_cookies h u)) = Some v"
      using upstream_cookie[OF header_get_in[OF v(1)]] by blast
    moreover from this v(2) have "c = join ''; '' (kept_cookies h u)"
      using assms(1) by (auto simp: plain_values_def)
    ultimately show ?thesis using Some no_session_in_kept by (simp add: session_cookie_def)
  qed
qed

text \<open>Header values are their texts; the request carries a token of stormd, a session and a cookie of the plugin.\<close>

definition demo_values :: header_values where
  "demo_values = \<lparr>hv_text = Some, hv_from = Some\<rparr>"

lemma no_credential_goes_upstream_witness:
  "let r = request_of demo_values ''/ui/proxy/x/'' (upstream_request_headers demo_values
       [(''authorization'', ''Bearer tok''), (''cookie'', ''stormd_session=s1; theme=dark'')] (snd (tokens demo_disk demo_auth)))
   in \<not> snd (bearer_ok demo_disk r demo_auth) \<and> session_cookie r = None"
  unfolding Let_def
  by (rule no_credential_goes_upstream[where h = demo_values, OF _ refl]) (simp add: plain_values_def demo_values_def)

end
