(* ===== verification/Metrics.thy ===== *)
theory Metrics
  imports ShellProc Stats
begin

text \<open>
  The \<open>/metrics\<close> endpoint of \<open>crates/stormd/src/api.rs\<close>: the statuses and the statistics as Prometheus
  text. How a number of seconds is written with two decimals is a parameter.
\<close>

definition quote :: char where "quote = CHR 0x22"

definition label :: "string \<Rightarrow> string \<Rightarrow> string" where
  "label k v = k @ ''='' @ [quote] @ v @ [quote]"

definition series :: "string \<Rightarrow> string list \<Rightarrow> string" where
  "series metric labels = metric @ ''{'' @ join '','' labels @ ''}''"

definition metric_line :: "string \<Rightarrow> string list \<Rightarrow> string \<Rightarrow> string" where
  "metric_line metric labels val = series metric labels @ '' '' @ val @ [newline]"

definition metric_head :: "string \<Rightarrow> string \<Rightarrow> string \<Rightarrow> string" where
  "metric_head metric kind about =
     ''# HELP '' @ metric @ '' '' @ about @ [newline] @ ''# TYPE '' @ metric @ '' '' @ kind @ [newline]"

definition of_container :: "string \<Rightarrow> string \<Rightarrow> string \<Rightarrow> string" where
  "of_container c metric val = metric_line metric [label ''container'' c] val"

definition of_process :: "string \<Rightarrow> string \<Rightarrow> string \<Rightarrow> string \<Rightarrow> string" where
  "of_process c metric name val = metric_line metric [label ''container'' c, label ''process'' name] val"

definition per_process :: "string \<Rightarrow> string \<Rightarrow> (process_status \<Rightarrow> string) \<Rightarrow> process_status list \<Rightarrow> string" where
  "per_process c metric val ps = concat (map (\<lambda>p. of_process c metric (st_name p) (val p)) ps)"

definition show_word :: "u64 \<Rightarrow> string" where
  "show_word n = show_nat (unat n)"

definition supervisor_metrics :: "system_stats \<Rightarrow> string" where
  "supervisor_metrics sys =
     (let c = ss_container_name sys
      in metric_head ''stormd_up'' ''gauge'' ''1 when this supervisor is answering.'' @ of_container c ''stormd_up'' ''1''
         @ metric_head ''process_start_time_seconds'' ''gauge'' ''Start time since the epoch.''
         @ of_container c ''process_start_time_seconds'' (show_int (ss_started_at sys div 1000))
         @ (case ss_memory sys of
              None \<Rightarrow> []
            | Some m \<Rightarrow>
                metric_head ''process_resident_memory_bytes'' ''gauge'' ''Resident memory.''
                @ of_container c ''process_resident_memory_bytes'' (show_word (mem_rss m))
                @ metric_head ''process_virtual_memory_bytes'' ''gauge'' ''Virtual memory.''
                @ of_container c ''process_virtual_memory_bytes'' (show_word (mem_vms m)))
         @ metric_head ''stormd_uptime_seconds'' ''gauge'' ''How long this supervisor has been up.''
         @ of_container c ''stormd_uptime_seconds'' (show_int (ss_uptime_secs sys)))"

definition reported_states :: "string list" where
  "reported_states = [''running'', ''stopped'', ''failed'', ''starting'', ''restarting'', ''crashloopbackoff'']"

definition state_value :: "process_state \<Rightarrow> string \<Rightarrow> nat" where
  "state_value s st = (if to_lower (debug_state s) = st then 1 else 0)"

definition state_metrics :: "string \<Rightarrow> process_status list \<Rightarrow> string" where
  "state_metrics c ps =
     metric_head ''stormd_process_state'' ''gauge'' ''1 for the state this process is in, 0 otherwise.''
     @ concat (map (\<lambda>p. concat (map (\<lambda>st.
         metric_line ''stormd_process_state'' [label ''container'' c, label ''process'' (st_name p), label ''state'' st]
           (show_nat (state_value (st_state p) st))) reported_states)) ps)"

definition count_metrics :: "string \<Rightarrow> process_status list \<Rightarrow> string" where
  "count_metrics c ps =
     metric_head ''stormd_process_restarts_total'' ''counter'' ''Restarts since this supervisor started.''
     @ per_process c ''stormd_process_restarts_total'' (\<lambda>p. show_nat (st_restarts p)) ps
     @ metric_head ''stormd_process_crashes_total'' ''counter'' ''Non-zero exits since this supervisor started.''
     @ per_process c ''stormd_process_crashes_total'' (\<lambda>p. show_nat (st_crashes p)) ps"

text \<open>The processes' own use, of those that have a pid and can be read.\<close>

definition usages :: "(u32 \<Rightarrow> proc_usage option) \<Rightarrow> process_status list \<Rightarrow> (string \<times> proc_usage) list" where
  "usages usage ps =
     List.map_filter (\<lambda>p. map_option (Pair (st_name p)) (Option.bind (st_pid p) usage)) ps"

definition usage_metric ::
    "string \<Rightarrow> (string \<times> proc_usage) list \<Rightarrow> string \<times> string \<times> string \<times> (proc_usage \<Rightarrow> string) \<Rightarrow> string" where
  "usage_metric c us m =
     (case m of (metric, kind, about, val) \<Rightarrow>
        metric_head metric kind about @ concat (map (\<lambda>(name, u). of_process c metric name (val u)) us))"

definition usage_metrics ::
    "(rat \<Rightarrow> string) \<Rightarrow> string \<Rightarrow> (string \<times> proc_usage) list \<Rightarrow> string" where
  "usage_metrics two c us = concat (map (usage_metric c us)
     [(''stormd_process_resident_memory_bytes'', ''gauge'', ''Resident memory of the supervised process.'',
         \<lambda>u. show_word (pu_rss_bytes u)),
      (''stormd_process_virtual_memory_bytes'', ''gauge'', ''Virtual memory of the supervised process.'',
         \<lambda>u. show_word (pu_vm_bytes u)),
      (''stormd_process_cpu_seconds_total'', ''counter'', ''User and system CPU time of the supervised process.'',
         \<lambda>u. two (pu_cpu_seconds u)),
      (''stormd_process_open_fds'', ''gauge'', ''Open file descriptors of the supervised process.'',
         \<lambda>u. show_word (pu_open_fds u))])"

definition liveness_metrics :: "string \<Rightarrow> process_status list \<Rightarrow> string" where
  "liveness_metrics c ps =
     metric_head ''stormd_process_liveness_failures_total'' ''counter'' ''Liveness probe failures since stormd started.''
     @ per_process c ''stormd_process_liveness_failures_total'' (\<lambda>p. show_nat (st_liveness_failures_total p)) ps
     @ metric_head ''stormd_process_liveness_consecutive_failures'' ''gauge''
         ''Liveness failures in a row now (0 after a pass).''
     @ per_process c ''stormd_process_liveness_consecutive_failures'' (\<lambda>p. show_nat (st_liveness_failures p)) ps"

definition uptime_metrics :: "string \<Rightarrow> process_status list \<Rightarrow> string" where
  "uptime_metrics c ps =
     metric_head ''stormd_process_uptime_seconds'' ''gauge'' ''How long this process has been up.''
     @ concat (map (\<lambda>p. case st_uptime_secs p of
         Some u \<Rightarrow> of_process c ''stormd_process_uptime_seconds'' (st_name p) (show_int u) | None \<Rightarrow> []) ps)"

definition metrics :: "(rat \<Rightarrow> string) \<Rightarrow> (u32 \<Rightarrow> proc_usage option) \<Rightarrow> process_status list \<Rightarrow> system_stats \<Rightarrow> string" where
  "metrics two usage ps sys =
     (let c = ss_container_name sys
      in supervisor_metrics sys @ state_metrics c ps @ count_metrics c ps @ usage_metrics two c (usages usage ps)
         @ liveness_metrics c ps @ uptime_metrics c ps)"

section \<open>What a scraper reads\<close>

text \<open>
  The state of a process is 1 in exactly one series, except in the two states no series stands for: a
  process that is stopping or has not started yet reads 0 in all of them.
\<close>
lemma one_state_reported:
  "sum_list (map (state_value s) reported_states) = (if s \<in> {Stopping, Pending} then 0 else 1)"
  by (induction s) code_simp+

text \<open>Reading the text back: a sample is a line that is no comment, its value follows the last blank.\<close>

definition sample_of :: "string \<Rightarrow> (string \<times> string) option" where
  "sample_of line = (if starts_with line ''#'' then None else rsplit_once_char (CHR '' '') line)"

definition samples :: "string \<Rightarrow> (string \<times> string) list" where
  "samples text = List.map_filter sample_of (lines text)"

definition plain_text :: "string \<Rightarrow> bool" where
  "plain_text s \<longleftrightarrow> newline \<notin> set s \<and> carriage \<notin> set s"

definition unlines :: "string list \<Rightarrow> string" where
  "unlines ls = concat (map (\<lambda>l. l @ [newline]) ls)"

definition reads :: "string \<Rightarrow> (string \<times> string) list \<Rightarrow> bool" where
  "reads t xs \<longleftrightarrow> (\<exists>ls. t = unlines ls \<and> list_all plain_text ls \<and> List.map_filter sample_of ls = xs)"

lemma plain_strip_cr: "plain_text l \<Longrightarrow> strip_cr l = l"
  by (auto simp: strip_cr_def plain_text_def strip_suffix_Some split: option.split)

lemma lines_unlines: "list_all plain_text ls \<Longrightarrow> lines (unlines ls) = ls"
proof -
  assume plain: "list_all plain_text ls"
  then have "split_char newline (unlines ls) = ls @ [[]]"
    by (induction ls) (auto simp: unlines_def plain_text_def split_char_append)
  then show ?thesis using plain
    by (simp add: lines_def Let_def) (auto simp: list_all_iff plain_strip_cr intro: map_idI)
qed

lemma samples_reads: "reads t xs \<Longrightarrow> samples t = xs"
  by (auto simp: reads_def samples_def lines_unlines)

lemma map_filter_append: "List.map_filter f (xs @ ys) = List.map_filter f xs @ List.map_filter f ys"
  by (simp add: List.map_filter_def)

lemma reads_Nil [simp]: "reads [] []"
  by (auto simp: reads_def unlines_def intro!: exI[of _ "[]"])

lemma reads_append: "reads t xs \<Longrightarrow> reads u ys \<Longrightarrow> reads (t @ u) (xs @ ys)"
proof -
  assume "reads t xs" "reads u ys"
  then obtain ls ms where "t = unlines ls" "list_all plain_text ls" "List.map_filter sample_of ls = xs"
      "u = unlines ms" "list_all plain_text ms" "List.map_filter sample_of ms = ys"
    by (auto simp: reads_def)
  then show ?thesis unfolding reads_def
    by (intro exI[of _ "ls @ ms"]) (simp add: unlines_def map_filter_append)
qed

lemma reads_concat: "(\<And>x. x \<in> set xs \<Longrightarrow> reads (f x) (g x)) \<Longrightarrow> reads (concat (map f xs)) (concat (map g xs))"
  by (induction xs) (auto intro: reads_append)

lemma reads_head:
  "plain_text metric \<Longrightarrow> plain_text kind \<Longrightarrow> plain_text about \<Longrightarrow> reads (metric_head metric kind about) []"
  unfolding reads_def
  by (rule exI[of _ "[''# HELP '' @ metric @ '' '' @ about, ''# TYPE '' @ metric @ '' '' @ kind]"])
    (auto simp: metric_head_def unlines_def plain_text_def sample_of_def starts_with_def newline_def carriage_def)

lemma plain_join: "list_all plain_text ls \<Longrightarrow> plain_text (join '','' ls)"
  by (induction "'',''" ls rule: join.induct) (auto simp: plain_text_def newline_def carriage_def)

lemma reads_line:
  assumes "plain_text metric" "metric \<noteq> []" "hd metric \<noteq> CHR ''#''" "list_all plain_text labels"
    "plain_text v" "CHR '' '' \<notin> set v"
  shows "reads (metric_line metric labels v) [(series metric labels, v)]"
proof -
  have plain: "plain_text (series metric labels @ '' '' @ v)"
    using assms plain_join[OF assms(4)] by (auto simp: series_def plain_text_def newline_def carriage_def)
  have "\<not> starts_with (series metric labels @ '' '' @ v) ''#''"
    using assms(2,3) by (cases metric) (auto simp: series_def starts_with_iff)
  then have "sample_of (series metric labels @ '' '' @ v) = Some (series metric labels, v)"
    using assms(6) by (simp add: sample_of_def rsplit_once_char_Some)
  then show ?thesis unfolding reads_def
    by (intro exI[of _ "[series metric labels @ '' '' @ v]"]) (use plain in \<open>simp add: metric_line_def unlines_def\<close>)
qed

text \<open>The samples the text is meant to hold.\<close>

definition process_samples :: "string \<Rightarrow> string \<Rightarrow> (process_status \<Rightarrow> string) \<Rightarrow> process_status list \<Rightarrow> (string \<times> string) list" where
  "process_samples c metric val ps =
     map (\<lambda>p. (series metric [label ''container'' c, label ''process'' (st_name p)], val p)) ps"

definition supervisor_samples :: "system_stats \<Rightarrow> (string \<times> string) list" where
  "supervisor_samples sys =
     (let key = (\<lambda>metric. series metric [label ''container'' (ss_container_name sys)])
      in [(key ''stormd_up'', ''1''), (key ''process_start_time_seconds'', show_int (ss_started_at sys div 1000))]
         @ (case ss_memory sys of
              None \<Rightarrow> []
            | Some m \<Rightarrow> [(key ''process_resident_memory_bytes'', show_word (mem_rss m)),
                         (key ''process_virtual_memory_bytes'', show_word (mem_vms m))])
         @ [(key ''stormd_uptime_seconds'', show_int (ss_uptime_secs sys))])"

definition state_samples :: "string \<Rightarrow> process_status list \<Rightarrow> (string \<times> string) list" where
  "state_samples c ps = concat (map (\<lambda>p. map (\<lambda>st.
     (series ''stormd_process_state'' [label ''container'' c, label ''process'' (st_name p), label ''state'' st],
      if to_lower (debug_state (st_state p)) = st then ''1'' else ''0'')) reported_states) ps)"

definition usage_samples :: "(rat \<Rightarrow> string) \<Rightarrow> string \<Rightarrow> (string \<times> proc_usage) list \<Rightarrow> (string \<times> string) list" where
  "usage_samples two c us =
     (let key = (\<lambda>metric n. series metric [label ''container'' c, label ''process'' n])
      in map (\<lambda>(n, u). (key ''stormd_process_resident_memory_bytes'' n, show_word (pu_rss_bytes u))) us
         @ map (\<lambda>(n, u). (key ''stormd_process_virtual_memory_bytes'' n, show_word (pu_vm_bytes u))) us
         @ map (\<lambda>(n, u). (key ''stormd_process_cpu_seconds_total'' n, two (pu_cpu_seconds u))) us
         @ map (\<lambda>(n, u). (key ''stormd_process_open_fds'' n, show_word (pu_open_fds u))) us)"

definition uptime_samples :: "string \<Rightarrow> process_status list \<Rightarrow> (string \<times> string) list" where
  "uptime_samples c ps =
     List.map_filter (\<lambda>p. map_option (\<lambda>u.
       (series ''stormd_process_uptime_seconds'' [label ''container'' c, label ''process'' (st_name p)], show_int u))
         (st_uptime_secs p)) ps"

definition all_samples ::
    "(rat \<Rightarrow> string) \<Rightarrow> (u32 \<Rightarrow> proc_usage option) \<Rightarrow> process_status list \<Rightarrow> system_stats \<Rightarrow> (string \<times> string) list" where
  "all_samples two usage ps sys =
     (let c = ss_container_name sys
      in supervisor_samples sys @ state_samples c ps
         @ process_samples c ''stormd_process_restarts_total'' (\<lambda>p. show_nat (st_restarts p)) ps
         @ process_samples c ''stormd_process_crashes_total'' (\<lambda>p. show_nat (st_crashes p)) ps
         @ usage_samples two c (usages usage ps)
         @ process_samples c ''stormd_process_liveness_failures_total'' (\<lambda>p. show_nat (st_liveness_failures_total p)) ps
         @ process_samples c ''stormd_process_liveness_consecutive_failures'' (\<lambda>p. show_nat (st_liveness_failures p)) ps
         @ uptime_samples c ps)"

definition value_text :: "string \<Rightarrow> bool" where
  "value_text v \<longleftrightarrow> (\<forall>c \<in> set v. \<not> is_ws c)"

lemma value_text_plain: "value_text v \<Longrightarrow> plain_text v \<and> CHR '' '' \<notin> set v"
  by (auto simp: value_text_def plain_text_def newline_def carriage_def is_ws_def)

lemma value_show_nat [simp]: "value_text (show_nat n)" "value_text (show_word k)"
  by (auto simp: value_text_def show_word_def dest: show_nat_no_ws)

lemma value_one [simp]: "value_text ''1''" "value_text ''0''"
  by (simp_all add: value_text_def is_ws_def)

lemma value_show_int [simp]: "value_text (show_int i)"
  by (auto simp: value_text_def show_int_def is_ws_def dest: show_nat_no_ws)

lemma plain_label: "plain_text k \<Longrightarrow> plain_text v \<Longrightarrow> plain_text (label k v)"
  by (auto simp: plain_text_def label_def quote_def newline_def carriage_def)

lemma plain_words [simp]: "plain_text ''container''" "plain_text ''process''" "plain_text ''state''" "plain_text ''gauge''"
  "plain_text ''counter''"
  by (simp_all add: plain_text_def newline_def carriage_def)

definition metric_name :: "string \<Rightarrow> bool" where
  "metric_name m \<longleftrightarrow> plain_text m \<and> m \<noteq> [] \<and> hd m \<noteq> CHR ''#''"

lemma reads_of_container:
  "metric_name m \<Longrightarrow> plain_text c \<Longrightarrow> value_text v \<Longrightarrow> reads (of_container c m v) [(series m [label ''container'' c], v)]"
  unfolding of_container_def metric_name_def
  by (intro reads_line) (simp_all add: plain_label value_text_plain)

lemma reads_of_process:
  "metric_name m \<Longrightarrow> plain_text c \<Longrightarrow> plain_text n \<Longrightarrow> value_text v \<Longrightarrow>
     reads (of_process c m n v) [(series m [label ''container'' c, label ''process'' n], v)]"
  unfolding of_process_def metric_name_def
  by (intro reads_line) (simp_all add: plain_label value_text_plain)

lemma concat_single: "concat (map (\<lambda>x. [f x]) xs) = map f xs"
  by (induction xs) auto

lemma reads_per_process:
  assumes "metric_name m" "plain_text c" "\<And>p. p \<in> set ps \<Longrightarrow> plain_text (st_name p)" "\<And>p. value_text (val p)"
  shows "reads (per_process c m val ps) (process_samples c m val ps)"
proof -
  have "reads (per_process c m val ps)
      (concat (map (\<lambda>p. [(series m [label ''container'' c, label ''process'' (st_name p)], val p)]) ps))"
    unfolding per_process_def by (intro reads_concat reads_of_process assms)
  then show ?thesis by (simp only: process_samples_def concat_single)
qed

lemma reads_headed: "reads h [] \<Longrightarrow> reads t xs \<Longrightarrow> reads (h @ t) xs"
  using reads_append[of h "[]" t xs] by simp

named_theorems metric_facts

lemma metric_names [metric_facts]:
  "metric_name ''stormd_up''" "metric_name ''process_start_time_seconds''"
  "metric_name ''process_resident_memory_bytes''" "metric_name ''process_virtual_memory_bytes''"
  "metric_name ''stormd_uptime_seconds''" "metric_name ''stormd_process_state''"
  "metric_name ''stormd_process_restarts_total''" "metric_name ''stormd_process_crashes_total''"
  "metric_name ''stormd_process_resident_memory_bytes''" "metric_name ''stormd_process_virtual_memory_bytes''"
  "metric_name ''stormd_process_cpu_seconds_total''" "metric_name ''stormd_process_open_fds''"
  "metric_name ''stormd_process_liveness_failures_total''"
  "metric_name ''stormd_process_liveness_consecutive_failures''" "metric_name ''stormd_process_uptime_seconds''"
  by (simp_all add: metric_name_def plain_text_def newline_def carriage_def)

lemma reads_heads [metric_facts]:
  "metric_name m \<Longrightarrow> plain_text about \<Longrightarrow> reads (metric_head m ''gauge'' about) []"
  "metric_name m \<Longrightarrow> plain_text about \<Longrightarrow> reads (metric_head m ''counter'' about) []"
  by (simp_all add: reads_head metric_name_def)

lemma reads_supervisor:
  assumes "plain_text (ss_container_name sys)"
  shows "reads (supervisor_metrics sys) (supervisor_samples sys)"
proof -
  let ?c = "ss_container_name sys"
  have block: "reads (metric_head m ''gauge'' about @ of_container ?c m v) [(series m [label ''container'' ?c], v)]"
    if "metric_name m" "plain_text about" "value_text v" for m about v
    using that by (intro reads_headed reads_of_container reads_heads assms)
  have mem: "reads (case ss_memory sys of
              None \<Rightarrow> []
            | Some m \<Rightarrow>
                metric_head ''process_resident_memory_bytes'' ''gauge'' ''Resident memory.''
                @ of_container ?c ''process_resident_memory_bytes'' (show_word (mem_rss m))
                @ metric_head ''process_virtual_memory_bytes'' ''gauge'' ''Virtual memory.''
                @ of_container ?c ''process_virtual_memory_bytes'' (show_word (mem_vms m)))
     (case ss_memory sys of
              None \<Rightarrow> []
            | Some m \<Rightarrow> [(series ''process_resident_memory_bytes'' [label ''container'' ?c], show_word (mem_rss m)),
                         (series ''process_virtual_memory_bytes'' [label ''container'' ?c], show_word (mem_vms m))])"
  proof (cases "ss_memory sys")
    case (Some m)
    have "reads ((metric_head ''process_resident_memory_bytes'' ''gauge'' ''Resident memory.''
                @ of_container ?c ''process_resident_memory_bytes'' (show_word (mem_rss m)))
                @ (metric_head ''process_virtual_memory_bytes'' ''gauge'' ''Virtual memory.''
                @ of_container ?c ''process_virtual_memory_bytes'' (show_word (mem_vms m))))
        ([(series ''process_resident_memory_bytes'' [label ''container'' ?c], show_word (mem_rss m))]
         @ [(series ''process_virtual_memory_bytes'' [label ''container'' ?c], show_word (mem_vms m))])"
      by (intro reads_append block metric_names) (simp_all add: plain_text_def newline_def carriage_def)
    then show ?thesis using Some by simp
  qed simp
  have up: "reads ((metric_head ''stormd_up'' ''gauge'' ''1 when this supervisor is answering.'' @ of_container ?c ''stormd_up'' ''1'')
      @ (metric_head ''process_start_time_seconds'' ''gauge'' ''Start time since the epoch.''
         @ of_container ?c ''process_start_time_seconds'' (show_int (ss_started_at sys div 1000))))
     ([(series ''stormd_up'' [label ''container'' ?c], ''1'')]
      @ [(series ''process_start_time_seconds'' [label ''container'' ?c], show_int (ss_started_at sys div 1000))])"
    by (intro reads_append block metric_names) (simp_all add: plain_text_def newline_def carriage_def)
  have uptime: "reads (metric_head ''stormd_uptime_seconds'' ''gauge'' ''How long this supervisor has been up.''
         @ of_container ?c ''stormd_uptime_seconds'' (show_int (ss_uptime_secs sys)))
      [(series ''stormd_uptime_seconds'' [label ''container'' ?c], show_int (ss_uptime_secs sys))]"
    by (intro block metric_names) (simp_all add: plain_text_def newline_def carriage_def)
  show ?thesis
    using reads_append[OF up reads_append[OF mem uptime]] by (simp add: supervisor_metrics_def supervisor_samples_def Let_def)
qed

lemma reads_states:
  assumes "plain_text c" "\<And>p. p \<in> set ps \<Longrightarrow> plain_text (st_name p)"
  shows "reads (state_metrics c ps) (state_samples c ps)"
proof -
  have one: "reads (metric_line ''stormd_process_state'' [label ''container'' c, label ''process'' (st_name p), label ''state'' st]
        (show_nat (state_value (st_state p) st)))
      [(series ''stormd_process_state'' [label ''container'' c, label ''process'' (st_name p), label ''state'' st],
        show_nat (state_value (st_state p) st))]"
    if "p \<in> set ps" "st \<in> set reported_states" for p st
  proof (rule reads_line)
    have "plain_text st" using that(2) by (auto simp: reported_states_def plain_text_def newline_def carriage_def)
    then show "list_all plain_text [label ''container'' c, label ''process'' (st_name p), label ''state'' st]"
      using assms that(1) by (simp add: plain_label)
  qed (use metric_names(6) value_text_plain in \<open>simp_all add: metric_name_def\<close>)
  have "show_nat 0 = ''0''" "show_nat 1 = ''1''" by code_simp+
  then have "show_nat (state_value q st) = (if to_lower (debug_state q) = st then ''1'' else ''0'')" for q st
    by (simp add: state_value_def)
  note shown = this
  have "reads (concat (map (\<lambda>p. concat (map (\<lambda>st.
         metric_line ''stormd_process_state'' [label ''container'' c, label ''process'' (st_name p), label ''state'' st]
           (show_nat (state_value (st_state p) st))) reported_states)) ps))
      (concat (map (\<lambda>p. concat (map (\<lambda>st.
        [(series ''stormd_process_state'' [label ''container'' c, label ''process'' (st_name p), label ''state'' st],
          show_nat (state_value (st_state p) st))]) reported_states)) ps))"
    by (intro reads_concat one)
  then have "reads (state_metrics c ps) (concat (map (\<lambda>p. concat (map (\<lambda>st.
        [(series ''stormd_process_state'' [label ''container'' c, label ''process'' (st_name p), label ''state'' st],
          show_nat (state_value (st_state p) st))]) reported_states)) ps))"
    unfolding state_metrics_def
    by (intro reads_headed reads_heads metric_names) (simp_all add: plain_text_def newline_def carriage_def)
  then show ?thesis by (simp only: concat_single state_samples_def shown)
qed

lemma reads_counts:
  assumes "plain_text c" "\<And>p. p \<in> set ps \<Longrightarrow> plain_text (st_name p)"
  shows "reads (count_metrics c ps)
    (process_samples c ''stormd_process_restarts_total'' (\<lambda>p. show_nat (st_restarts p)) ps
     @ process_samples c ''stormd_process_crashes_total'' (\<lambda>p. show_nat (st_crashes p)) ps)"
  and "reads (liveness_metrics c ps)
    (process_samples c ''stormd_process_liveness_failures_total'' (\<lambda>p. show_nat (st_liveness_failures_total p)) ps
     @ process_samples c ''stormd_process_liveness_consecutive_failures'' (\<lambda>p. show_nat (st_liveness_failures p)) ps)"
proof -
  have block: "reads (metric_head m kind about @ per_process c m val ps) (process_samples c m val ps)"
    if "metric_name m" "reads (metric_head m kind about) []" "\<And>p. value_text (val p)" for m kind about val
    using that assms by (intro reads_headed reads_per_process) auto
  have "reads ((metric_head ''stormd_process_restarts_total'' ''counter'' ''Restarts since this supervisor started.''
     @ per_process c ''stormd_process_restarts_total'' (\<lambda>p. show_nat (st_restarts p)) ps)
     @ metric_head ''stormd_process_crashes_total'' ''counter'' ''Non-zero exits since this supervisor started.''
     @ per_process c ''stormd_process_crashes_total'' (\<lambda>p. show_nat (st_crashes p)) ps)
    (process_samples c ''stormd_process_restarts_total'' (\<lambda>p. show_nat (st_restarts p)) ps
     @ process_samples c ''stormd_process_crashes_total'' (\<lambda>p. show_nat (st_crashes p)) ps)"
    by (intro reads_append block metric_names reads_heads value_show_nat)
      (simp_all add: plain_text_def newline_def carriage_def)
  then show "reads (count_metrics c ps)
    (process_samples c ''stormd_process_restarts_total'' (\<lambda>p. show_nat (st_restarts p)) ps
     @ process_samples c ''stormd_process_crashes_total'' (\<lambda>p. show_nat (st_crashes p)) ps)"
    by (simp add: count_metrics_def)
  have "reads ((metric_head ''stormd_process_liveness_failures_total'' ''counter'' ''Liveness probe failures since stormd started.''
     @ per_process c ''stormd_process_liveness_failures_total'' (\<lambda>p. show_nat (st_liveness_failures_total p)) ps)
     @ metric_head ''stormd_process_liveness_consecutive_failures'' ''gauge''
         ''Liveness failures in a row now (0 after a pass).''
     @ per_process c ''stormd_process_liveness_consecutive_failures'' (\<lambda>p. show_nat (st_liveness_failures p)) ps)
    (process_samples c ''stormd_process_liveness_failures_total'' (\<lambda>p. show_nat (st_liveness_failures_total p)) ps
     @ process_samples c ''stormd_process_liveness_consecutive_failures'' (\<lambda>p. show_nat (st_liveness_failures p)) ps)"
    by (intro reads_append block metric_names reads_heads value_show_nat)
      (simp_all add: plain_text_def newline_def carriage_def)
  then show "reads (liveness_metrics c ps)
    (process_samples c ''stormd_process_liveness_failures_total'' (\<lambda>p. show_nat (st_liveness_failures_total p)) ps
     @ process_samples c ''stormd_process_liveness_consecutive_failures'' (\<lambda>p. show_nat (st_liveness_failures p)) ps)"
    by (simp add: liveness_metrics_def)
qed

lemma reads_usages:
  assumes "plain_text c" "\<And>n u. (n, u) \<in> set us \<Longrightarrow> plain_text n" "\<And>x. value_text (two x)"
  shows "reads (usage_metrics two c us) (usage_samples two c us)"
proof -
  have block: "reads (usage_metric c us (m, kind, about, val))
      (map (\<lambda>(n, u). (series m [label ''container'' c, label ''process'' n], val u)) us)"
    if "metric_name m" "reads (metric_head m kind about) []" "\<And>u. value_text (val u)" for m kind about val
  proof -
    have "reads (concat (map (\<lambda>(n, u). of_process c m n (val u)) us))
        (concat (map (\<lambda>x. [(\<lambda>(n, u). (series m [label ''container'' c, label ''process'' n], val u)) x]) us))"
      using that assms(1,2) by (intro reads_concat) (auto intro: reads_of_process)
    then show ?thesis unfolding usage_metric_def prod.case concat_single by (intro reads_headed that)
  qed
  show ?thesis
    unfolding usage_metrics_def usage_samples_def Let_def list.map concat.simps append_Nil2
    by (intro reads_append block metric_names reads_heads value_show_nat assms(3))
      (simp_all add: plain_text_def newline_def carriage_def)
qed

lemma reads_uptimes:
  assumes "plain_text c" "\<And>p. p \<in> set ps \<Longrightarrow> plain_text (st_name p)"
  shows "reads (uptime_metrics c ps) (uptime_samples c ps)"
proof -
  let ?f = "\<lambda>p. case st_uptime_secs p of
      Some u \<Rightarrow> [(series ''stormd_process_uptime_seconds'' [label ''container'' c, label ''process'' (st_name p)], show_int u)]
    | None \<Rightarrow> []"
  have "reads (uptime_metrics c ps) (concat (map ?f ps))"
    unfolding uptime_metrics_def
    using assms metric_names(15)
    by (intro reads_headed reads_heads reads_concat)
      (auto split: option.split intro: reads_of_process simp: plain_text_def newline_def carriage_def)
  moreover have "concat (map ?f ps) = uptime_samples c ps"
    by (induction ps) (auto simp: uptime_samples_def split: option.split)
  ultimately show ?thesis by simp
qed



end
