(* ===== verification/WebSockets.thy ===== *)
theory WebSockets
  imports Components StormLog
begin

text \<open>
  \<open>crates/stormd/src/ws.rs\<close> and \<open>web.rs\<close>: the three WebSocket feeds and the files of the web UI. A feed is
  a loop over what happens next: something received, a tick, or a message of the client. \<open>send\<close> puts a
  frame on the socket and says whether it went; frames are kept before they are written as JSON.
\<close>

datatype client_message = CloseFrame | OtherFrame | Gone | BrokenFrame

section \<open>The log feed\<close>

text \<open>A severity by name; one nobody knows lets everything through.\<close>

definition severity_named :: "string \<Rightarrow> severity" where
  "severity_named s =
     (if s \<in> {''emerg'', ''emergency''} then Emergency
      else if s = ''alert'' then Alert
      else if s \<in> {''crit'', ''critical''} then Critical
      else if s \<in> {''error'', ''err''} then severity.Error
      else if s \<in> {''warn'', ''warning''} then Warning
      else if s = ''notice'' then Notice
      else if s = ''info'' then Info
      else Debug)"

datatype received = Entry log_entry | Lagged nat | ChannelClosed

datatype ws_event = Recv received | FromClient client_message

datatype log_frame = EntryFrame log_entry | DroppedNote nat

definition ends_feed :: "client_message \<Rightarrow> bool" where
  "ends_feed m \<longleftrightarrow> m = CloseFrame \<or> m = Gone"

text \<open>The frame for something received: none where the entry is less severe than asked for.\<close>

definition log_frame_of :: "severity option \<Rightarrow> received \<Rightarrow> log_frame option" where
  "log_frame_of least r =
     (case r of
        Entry e \<Rightarrow> (case least of Some m \<Rightarrow> if m < le_severity e then None else Some (EntryFrame e) | None \<Rightarrow> Some (EntryFrame e))
      | Lagged n \<Rightarrow> Some (DroppedNote n)
      | ChannelClosed \<Rightarrow> None)"

fun handle_logs :: "('f \<Rightarrow> 'w \<Rightarrow> 'w \<times> bool) \<Rightarrow> (received \<Rightarrow> 'f option) \<Rightarrow> ws_event list \<Rightarrow> 'w \<Rightarrow> 'w" where
  "handle_logs send frame [] w = w"
| "handle_logs send frame (Recv ChannelClosed # es) w = w"
| "handle_logs send frame (Recv r # es) w =
     (case frame r of
        None \<Rightarrow> handle_logs send frame es w
      | Some f \<Rightarrow> (case send f w of (w1, True) \<Rightarrow> handle_logs send frame es w1 | (w1, False) \<Rightarrow> w1))"
| "handle_logs send frame (FromClient m # es) w = (if ends_feed m then w else handle_logs send frame es w)"

text \<open>What the feed subscribes to: one process, or everything.\<close>

record ws_log_query =
  wq_process :: "string option"
  wq_severity :: "string option"

definition log_feed :: "(log_frame \<Rightarrow> 'w \<Rightarrow> 'w \<times> bool) \<Rightarrow> ws_log_query \<Rightarrow> ws_event list \<Rightarrow> 'w \<Rightarrow> 'w" where
  "log_feed send q = handle_logs send (log_frame_of (map_option severity_named (wq_severity q)))"

section \<open>The console feed\<close>

datatype 's console_frame = Snapshot 's | ConsoleEntry log_entry | Skipped nat

text \<open>A note of skipped entries that does not go out does not end the console feed.\<close>

fun console_loop :: "('s console_frame \<Rightarrow> 'w \<Rightarrow> 'w \<times> bool) \<Rightarrow> ws_event list \<Rightarrow> 'w \<Rightarrow> 'w" where
  "console_loop send [] w = w"
| "console_loop send (Recv (Entry e) # es) w =
     (case send (ConsoleEntry e) w of (w1, True) \<Rightarrow> console_loop send es w1 | (w1, False) \<Rightarrow> w1)"
| "console_loop send (Recv (Lagged n) # es) w = console_loop send es (fst (send (Skipped n) w))"
| "console_loop send (Recv ChannelClosed # es) w = w"
| "console_loop send (FromClient m # es) w = (if ends_feed m then w else console_loop send es w)"

definition handle_console ::
    "('s console_frame \<Rightarrow> 'w \<Rightarrow> 'w \<times> bool) \<Rightarrow> 's option \<Rightarrow> ws_event list \<Rightarrow> 'w \<Rightarrow> 'w" where
  "handle_console send screen es w =
     (case screen of
        None \<Rightarrow> console_loop send es w
      | Some snap \<Rightarrow> (case send (Snapshot snap) w of (w1, True) \<Rightarrow> console_loop send es w1 | (w1, False) \<Rightarrow> w1))"

section \<open>The component feed\<close>

text \<open>A tick finds a list of cards, or the collection panics (\<open>None\<close>), which ends the feed's task.\<close>

datatype 'c card_event = Tick "'c option" | CardClient client_message

fun handle_components :: "('c \<Rightarrow> 'w \<Rightarrow> 'w \<times> bool) \<Rightarrow> 'c option \<Rightarrow> 'c card_event list \<Rightarrow> 'w \<Rightarrow> 'w" where
  "handle_components send shown [] w = w"
| "handle_components send shown (Tick None # es) w = w"
| "handle_components send shown (Tick (Some now) # es) w =
     (if shown = Some now then handle_components send shown es w
      else (case send now w of (w1, True) \<Rightarrow> handle_components send (Some now) es w1 | (w1, False) \<Rightarrow> w1))"
| "handle_components send shown (CardClient m # es) w =
     (if ends_feed m then w else handle_components send shown es w)"

section \<open>The files of the web UI\<close>

record 'b asset_file =
  af_mime :: string
  af_bytes :: 'b

datatype 'b web_answer =
    RedirectPermanent string
  | RedirectTemporary string
  | Asset string bool 'b
  | NotFoundText string

text \<open>The embedded files and the type of a file by its name are parameters; the flag is the cache header.\<close>

definition serve_asset :: "(string \<Rightarrow> 'b option) \<Rightarrow> (string \<Rightarrow> string) \<Rightarrow> string \<Rightarrow> 'b web_answer" where
  "serve_asset assets mime path =
     (case assets path of
        Some f \<Rightarrow> Asset (mime path) True f
      | None \<Rightarrow>
          (case assets ''index.html'' of
             Some f \<Rightarrow> Asset ''text/html; charset=utf-8'' False f
           | None \<Rightarrow> NotFoundText ''web UI not built into this binary''))"

definition web_index :: "(string \<Rightarrow> 'b option) \<Rightarrow> (string \<Rightarrow> string) \<Rightarrow> 'b web_answer" where
  "web_index assets mime = serve_asset assets mime ''index.html''"

definition web_asset ::
    "(string \<Rightarrow> 'b option) \<Rightarrow> (string \<Rightarrow> string) \<Rightarrow> string option \<Rightarrow> string \<Rightarrow> 'b web_answer" where
  "web_asset assets mime query path =
     (if path = ''terminal'' then RedirectPermanent ''/ui/#/terminal''
      else if path = ''logs''
      then RedirectTemporary (''/ui/#/logs'' @ (case query of Some q \<Rightarrow> ''?'' @ q | None \<Rightarrow> []))
      else case strip_prefix ''ext/'' path of
             Some name \<Rightarrow> RedirectPermanent (''/ui/#/ext/'' @ name)
           | None \<Rightarrow> serve_asset assets mime path)"

section \<open>What a viewer holds\<close>

text \<open>A socket that takes every frame, and the frames it has.\<close>

definition taken :: "'f \<Rightarrow> 'f list \<Rightarrow> 'f list \<times> bool" where
  "taken f fs = (fs @ [f], True)"

definition open_part :: "ws_event list \<Rightarrow> received list" where
  "open_part es = List.map_filter (\<lambda>e. case e of Recv r \<Rightarrow> Some r | FromClient _ \<Rightarrow> None)
     (takeWhile (\<lambda>e. case e of Recv r \<Rightarrow> r \<noteq> ChannelClosed | FromClient m \<Rightarrow> \<not> ends_feed m) es)"

text \<open>
  Until the feed ends, the viewer of the logs gets every entry that is at least as severe as it asked for
  and one note for every gap, in the order they were published, and nothing else.
\<close>
theorem log_feed_is_filtered:
  "log_feed taken q es fs =
     fs @ List.map_filter
       (\<lambda>r. case r of
          Entry e \<Rightarrow> if pred_option (\<lambda>s. le_severity e \<le> severity_named s) (wq_severity q) then Some (EntryFrame e) else None
        | Lagged n \<Rightarrow> Some (DroppedNote n)
        | ChannelClosed \<Rightarrow> None) (open_part es)"
proof (induction es arbitrary: fs)
  case Nil
  then show ?case by (simp add: log_feed_def open_part_def)
next
  case (Cons e es)
  then show ?case
  proof (cases e)
    case (Recv r)
    then show ?thesis using Cons
      by (cases r) (auto simp: log_feed_def open_part_def taken_def log_frame_of_def not_less split: option.splits)
  next
    case (FromClient m)
    then show ?thesis using Cons by (auto simp: log_feed_def open_part_def)
  qed
qed

text \<open>The lists collected before the feed ends.\<close>

fun cards_seen :: "'c card_event list \<Rightarrow> 'c list" where
  "cards_seen [] = []"
| "cards_seen (Tick None # es) = []"
| "cards_seen (Tick (Some c) # es) = c # cards_seen es"
| "cards_seen (CardClient m # es) = (if ends_feed m then [] else cards_seen es)"

lemma components_from:
  "handle_components taken shown es fs = fs @ (case shown of None \<Rightarrow> remdups_adj (cards_seen es)
     | Some c \<Rightarrow> tl (remdups_adj (c # cards_seen es)))"
proof (induction es arbitrary: shown fs)
  case Nil
  then show ?case by (simp split: option.split)
next
  case (Cons e es)
  show ?case
  proof (cases e)
    case (CardClient m)
    then show ?thesis using Cons by (simp split: option.split)
  next
    case (Tick c)
    then show ?thesis
    proof (cases c)
      case None
      then show ?thesis using Tick by (simp split: option.split)
    next
      case (Some now)
      then show ?thesis using Tick Cons
        by (cases shown) (auto simp: taken_def remdups_adj_Cons split: list.splits)
    qed
  qed
qed

text \<open>
  The viewer of the components gets each list of cards once: the frames are the lists collected with
  adjacent repetitions left out, so the last frame is always the newest list.
\<close>
theorem component_feed_is_current:
  "handle_components taken None es [] = remdups_adj (cards_seen es)"
  by (simp add: components_from)

end
