(* ===== verification/ApiBase.thy ===== *)
theory ApiBase
  imports Proxy Metrics WebSockets Goldens
begin

text \<open>
  \<open>crates/stormd/src/api.rs\<close>: the routes of the REST API, what each handler does to the daemon and
  answers, reading the log files, and the routing by host name. \<open>app\<close> is the state of the parts the API
  speaks to, \<open>api_env\<close> the outside; starting, stopping and restarting a process, an update and a swapped
  golden are the calls of those parts. Bodies are kept as what is serialised.
\<close>

section \<open>State\<close>

record ('s, 'l, 'w) app =
  ap_sup :: sup
  ap_cron :: "'s cron_jobs"
  ap_stats :: collector
  ap_log :: "'l stormlog"
  ap_images :: "image_states option"
  ap_goldens :: "table option"
  ap_shutdown :: "i32 option"
  ap_world :: 'w

record app_setup =
  ai_debug_enabled :: bool
  ai_allow_signal :: bool
  ai_allow_stdin :: bool
  ai_log_dir :: string
  ai_container_name :: string
  ai_cloud_id :: string
  ai_ui_plugins :: "ui_plugin list"
  ai_host_routes :: env_map

record ('s, 'l, 'w) api_env =
  ae_now :: millis
  ae_pid :: u32
  ae_rd :: "'w \<Rightarrow> string \<Rightarrow> string option"
  ae_usage :: "'w \<Rightarrow> u32 \<Rightarrow> proc_usage option"
  ae_vfs :: "'w \<Rightarrow> string \<Rightarrow> vfs_stat option"
  ae_os :: "'w os"
  ae_log :: "'l sl_env"
  ae_rfc3339 :: "millis \<Rightarrow> string"
  ae_two :: "rat \<Rightarrow> string"
  ae_cards :: card_env
  ae_start :: "string \<Rightarrow> ('s, 'l, 'w) app \<Rightarrow> ('s, 'l, 'w) app \<times> string option"
  ae_stop :: "string \<Rightarrow> ('s, 'l, 'w) app \<Rightarrow> ('s, 'l, 'w) app \<times> string option"
  ae_restart :: "string \<Rightarrow> ('s, 'l, 'w) app \<Rightarrow> ('s, 'l, 'w) app \<times> string option"
  ae_restart_wait :: "string \<Rightarrow> u64 \<Rightarrow> ('s, 'l, 'w) app \<Rightarrow> ('s, 'l, 'w) app \<times> (string + wait_outcome)"
  ae_swap :: "string \<Rightarrow> string \<Rightarrow> string option \<Rightarrow> string option \<Rightarrow> ('s, 'l, 'w) app
    \<Rightarrow> ('s, 'l, 'w) app \<times> (string + presented)"
  ae_trigger :: "string \<Rightarrow> ('s, 'l, 'w) app \<Rightarrow> ('s, 'l, 'w) app \<times> string option"
  ae_backup :: "('s, 'l, 'w) app \<Rightarrow> ('s, 'l, 'w) app \<times> string option"
  ae_screen :: "'w \<Rightarrow> string \<Rightarrow> json option"
  ae_signal_name :: "string \<Rightarrow> i32 option"
  ae_kill :: "i32 \<Rightarrow> i32 \<Rightarrow> 'w \<Rightarrow> 'w \<times> string option"
  ae_stdin :: "nat \<Rightarrow> string \<Rightarrow> 'w \<Rightarrow> 'w \<times> bool"
  ae_vars :: "'w \<Rightarrow> (string \<times> string) list"
  ae_cwd :: "'w \<Rightarrow> string option"
  ae_exe :: "'w \<Rightarrow> string option"
  ae_open_fds :: "'w \<Rightarrow> nat option"

section \<open>Answers\<close>

record debug_info =
  di_pid :: u32
  di_env :: "(string \<times> string) list"
  di_open_fds :: "u32 option"
  di_cwd :: string
  di_exe :: string

datatype api_body =
    JsonValue json
  | Events "k8s_event list"
  | Apis "api_health list"
  | StatusOf bool system_stats "process_status list" "cron_status list"
  | Cards "card list"
  | Stats system_stats
  | MetricsText string
  | Processes "process_status list"
  | Process process_status
  | Outcome wait_outcome string
  | Goldens "presented list"
  | Golden presented
  | LogLines nat "string list"
  | LogFiles "(string \<times> string \<times> u64) list"
  | Stored "log_entry list"
  | Runs string "string option" "run_info list"
  | CronJobs "cron_status list"
  | Images "image_state list"
  | Image image_state
  | Mounts "mount_info list"
  | Memory "memory_sample list"
  | DebugInfo debug_info
  | Environment "(string \<times> string) list"

datatype api_reply = Reply nat api_body | RedirectTo string | Panics

definition ok :: "api_body \<Rightarrow> api_reply" where
  "ok b = Reply 200 b"

definition saying :: "(string \<times> json) list \<Rightarrow> api_reply" where
  "saying kvs = ok (JsonValue (JObj kvs))"

definition app_error :: "string \<Rightarrow> api_reply" where
  "app_error e = Reply 500 (JsonValue (JObj [(''error'', JStr e)]))"

definition about_process :: "string \<Rightarrow> string \<Rightarrow> api_reply" where
  "about_process verb name = saying [(''status'', JStr verb), (''process'', JStr name)]"

definition quoted :: "string \<Rightarrow> string" where
  "quoted s = [CHR 0x27] @ s @ [CHR 0x27]"

definition not_found_text :: "string \<Rightarrow> string" where
  "not_found_text name = ''process not found: '' @ name"

section \<open>Routes\<close>

datatype verb = Get | Post | Put | Any

text \<open>An endpoint is the name of its handler.\<close>

type_synonym endpoint = string

definition base_routes :: "(string \<times> verb \<times> endpoint) list" where
  "base_routes =
    [(''/'', Get, ''root_redirect''), (''/api/v1/health'', Get, ''health''), (''/healthz'', Get, ''health''),
     (''/api/v1/health/apis'', Get, ''api_health''), (''/api/v1/events'', Get, ''k8s_events''),
     (''/api/v1/status'', Get, ''status''), (''/api/v1/stats'', Get, ''stats''), (''/metrics'', Get, ''metrics''),
     (''/api/v1/cloudid'', Get, ''get_cloud_id''), (''/api/v1/components'', Get, ''components''),
     (''/api/v1/auth/login'', Post, ''auth::login''), (''/api/v1/auth/logout'', Post, ''auth::logout''),
     (''/api/v1/auth/session'', Get, ''auth::session''), (''/api/v1/processes'', Get, ''list_processes''),
     (''/api/v1/processes/{name}'', Get, ''get_process''), (''/api/v1/processes/{name}/start'', Post, ''start_process''),
     (''/api/v1/processes/{name}/stop'', Post, ''stop_process''), (''/api/v1/processes/{name}/restart'', Post, ''restart_process''),
     (''/api/v1/goldens'', Get, ''list_goldens''), (''/api/v1/processes/{name}/goldens/{golden}'', Put, ''swap_golden''),
     (''/api/v1/logs'', Get, ''query_logs''), (''/api/v1/logs/files'', Get, ''list_log_files''),
     (''/api/v1/logs/{process}'', Get, ''process_logs''), (''/api/v1/logs/ingest'', Post, ''ingest_log''),
     (''/api/v1/logs/stored'', Get, ''query_stored_logs''), (''/api/v1/logs/{process}/runs'', Get, ''list_runs''),
     (''/api/v1/logs/files/{filename}'', Get, ''read_log_file''), (''/api/v1/terminal/{process}'', Get, ''terminal_snapshot''),
     (''/api/v1/cron'', Get, ''list_cron_jobs''), (''/api/v1/backup'', Post, ''trigger_backup''),
     (''/api/v1/updates'', Get, ''list_updates''), (''/api/v1/updates/{name}'', Get, ''get_update''),
     (''/api/v1/updates/{name}/trigger'', Post, ''trigger_update''), (''/api/v1/mounts'', Get, ''list_mounts''),
     (''/api/v1/memory/history'', Get, ''memory_history''), (''/ws/console/{process}'', Get, ''ws::ws_console''),
     (''/ws/logs'', Get, ''ws::ws_logs''), (''/ws/components'', Get, ''ws::ws_components''), (''/api/v1/shutdown'', Post, ''shutdown''),
     (''/ui/'', Get, ''web::index''), (''/ui/proxy/{name}'', Any, ''proxy_plugin''), (''/ui/proxy/{name}/'', Any, ''proxy_plugin''),
     (''/ui/proxy/{name}/{*rest}'', Any, ''proxy_plugin''), (''/ui/{*path}'', Get, ''web::asset''),
     (''/api/v1/plugins'', Get, ''list_plugins'')]"

definition debug_routes :: "app_setup \<Rightarrow> (string \<times> verb \<times> endpoint) list" where
  "debug_routes a =
     (if \<not> ai_debug_enabled a then []
      else [(''/api/v1/debug/info'', Get, ''debug_info''), (''/api/v1/debug/config'', Get, ''debug_config'')]
        @ (if ai_allow_signal a then [(''/api/v1/debug/processes/{name}/signal'', Post, ''send_signal'')] else [])
        @ (if ai_allow_stdin a then [(''/api/v1/debug/processes/{name}/stdin'', Post, ''send_stdin'')] else []))"

definition build_router :: "app_setup \<Rightarrow> (string \<times> verb \<times> endpoint) list" where
  "build_router a = base_routes @ debug_routes a"

text \<open>The route by \<open>Host:\<close>, without its port and in lower case.\<close>

definition root_redirect :: "header_values \<Rightarrow> app_setup \<Rightarrow> headers \<Rightarrow> api_reply" where
  "root_redirect h a hs =
     (let host = (case Option.bind (header_get ''host'' hs) (hv_text h) of
                    Some s \<Rightarrow> map ascii_lower (hd (split_char (CHR '':'') s)) | None \<Rightarrow> [])
      in RedirectTo (case map_of (ai_host_routes a) host of Some t \<Rightarrow> t | None \<Rightarrow> ''/ui/''))"

end
