(* ===== verification/Api.thy ===== *)
theory Api
  imports ApiBase
begin

text \<open>
  The handlers of \<open>crates/stormd/src/api.rs\<close>: what each does to the state and what it answers, and the
  signal sent by name of \<open>debug.rs\<close>. A handler that fails answers 500 with the error.
\<close>

type_synonym ('s, 'l, 'w) handler = "('s, 'l, 'w) app \<Rightarrow> ('s, 'l, 'w) app \<times> api_reply"

definition statuses_of :: "('s, 'l, 'w) api_env \<Rightarrow> ('s, 'l, 'w) app \<Rightarrow> process_status list" where
  "statuses_of e s = get_all_statuses (ae_now e) (ap_sup s)"

definition stats_of :: "('s, 'l, 'w) api_env \<Rightarrow> ('s, 'l, 'w) app \<Rightarrow> system_stats" where
  "stats_of e s = get_stats (ae_pid e) (ae_now e) (ae_rd e (ap_world s)) (ap_stats s)"

definition crons_of :: "('s, 'l, 'w) api_env \<Rightarrow> ('s, 'l, 'w) app \<Rightarrow> cron_status list" where
  "crons_of e s = cron_statuses (ae_rfc3339 e) (ap_cron s)"

definition mounts_of :: "('s, 'l, 'w) api_env \<Rightarrow> ('s, 'l, 'w) app \<Rightarrow> mount_info list" where
  "mounts_of e s = read_mount_info (ae_rd e (ap_world s)) (ae_vfs e (ap_world s))"

section \<open>Health and status\<close>

definition k8s_events :: "nat option \<Rightarrow> ('s, 'l, 'w) handler" where
  "k8s_events since s = (s, ok (Events (events_since (su_events (ap_sup s)) (case since of Some n \<Rightarrow> n | None \<Rightarrow> 0))))"

definition api_health_items :: "('s, 'l, 'w) handler" where
  "api_health_items s = (s, ok (Apis (api_list (su_api (ap_sup s)))))"

definition health_check :: "('s, 'l, 'w) handler" where
  "health_check s = (s, saying [(''status'', JStr ''ok'')])"

definition status_page :: "('s, 'l, 'w) api_env \<Rightarrow> ('s, 'l, 'w) handler" where
  "status_page e s =
     (s, ok (StatusOf (su_container_failed (ap_sup s)) (stats_of e s) (statuses_of e s) (crons_of e s)))"

definition get_cloud_id :: "app_setup \<Rightarrow> ('s, 'l, 'w) handler" where
  "get_cloud_id a s =
     (s, saying [(''cloud_id'', JStr (ai_cloud_id a)), (''container_name'', JStr (ai_container_name a))])"

definition feed_of :: "('s, 'l, 'w) api_env \<Rightarrow> app_setup \<Rightarrow> ('s, 'l, 'w) app \<Rightarrow> feed" where
  "feed_of e a s = \<lparr>fe_container = ai_container_name a, fe_plugins = ai_ui_plugins a, fe_statuses = statuses_of e s,
     fe_stats = stats_of e s, fe_cron = crons_of e s, fe_mounts = mounts_of e s,
     fe_logs = log_dir_totals (ae_os e) (ap_world s) (ai_log_dir a), fe_images = ap_images s\<rparr>"

definition components_page :: "('s, 'l, 'w) api_env \<Rightarrow> app_setup \<Rightarrow> ('s, 'l, 'w) handler" where
  "components_page e a s =
     (s, case collect (ae_cards e) (feed_of e a s) of Some cs \<Rightarrow> ok (Cards cs) | None \<Rightarrow> Panics)"

text \<open>\<open>/stats\<close> counts the processes first, so that the answer holds what was counted.\<close>

definition stats_page :: "('s, 'l, 'w) api_env \<Rightarrow> ('s, 'l, 'w) handler" where
  "stats_page e s =
     (let ps = statuses_of e s;
          s1 = s\<lparr>ap_stats := update_process_stats (length ps) (count_state Running ps)
                 (count_state process_state.Failed ps) (of_nat (sum_list (map st_restarts ps))) (ap_stats s)\<rparr>
      in (s1, ok (Stats (stats_of e s1))))"

definition metrics_page :: "('s, 'l, 'w) api_env \<Rightarrow> ('s, 'l, 'w) handler" where
  "metrics_page e s =
     (s, ok (MetricsText (metrics (ae_two e) (ae_usage e (ap_world s)) (statuses_of e s) (stats_of e s))))"

section \<open>Processes\<close>

definition list_processes :: "('s, 'l, 'w) api_env \<Rightarrow> ('s, 'l, 'w) handler" where
  "list_processes e s = (s, ok (Processes (statuses_of e s)))"

definition status_or_error :: "('s, 'l, 'w) api_env \<Rightarrow> ('s, 'l, 'w) app \<Rightarrow> string \<Rightarrow> string + process_status" where
  "status_or_error e s name =
     (case get_status name (ae_now e) (ap_sup s) of Inr p \<Rightarrow> Inr p | Inl _ \<Rightarrow> Inl (not_found_text name))"

definition get_process :: "('s, 'l, 'w) api_env \<Rightarrow> string \<Rightarrow> ('s, 'l, 'w) handler" where
  "get_process e name s =
     (s, case status_or_error e s name of Inr p \<Rightarrow> ok (Process p) | Inl err \<Rightarrow> app_error err)"

definition asked :: "('a \<times> string option) \<Rightarrow> api_reply \<Rightarrow> 'a \<times> api_reply" where
  "asked r b = (case r of (s, None) \<Rightarrow> (s, b) | (s, Some err) \<Rightarrow> (s, app_error err))"

definition start_process :: "('s, 'l, 'w) api_env \<Rightarrow> string \<Rightarrow> ('s, 'l, 'w) handler" where
  "start_process e name s = asked (ae_start e name s) (about_process ''started'' name)"

definition stop_process :: "('s, 'l, 'w) api_env \<Rightarrow> string \<Rightarrow> ('s, 'l, 'w) handler" where
  "stop_process e name s = asked (ae_stop e name s) (about_process ''stopped'' name)"

definition wait_timeout :: "u64 option \<Rightarrow> u64" where
  "wait_timeout timeout = max 1 (min 3600 (case timeout of Some n \<Rightarrow> n | None \<Rightarrow> 60))"

definition outcome_code :: "wait_outcome \<Rightarrow> nat" where
  "outcome_code o1 = (case o1 of WaitHealthy _ \<Rightarrow> 200 | WaitTimeout _ _ \<Rightarrow> 504 | WaitExited _ _ _ \<Rightarrow> 502)"

definition restart_process :: "('s, 'l, 'w) api_env \<Rightarrow> string \<Rightarrow> string option \<Rightarrow> u64 option \<Rightarrow> ('s, 'l, 'w) handler" where
  "restart_process e name wait timeout s =
     (if wait = None \<or> wait = Some [] then asked (ae_restart e name s) (about_process ''restarted'' name)
      else if wait = Some ''healthy''
      then (case ae_restart_wait e name (wait_timeout timeout) s of
              (s1, Inl err) \<Rightarrow> (s1, app_error err)
            | (s1, Inr out) \<Rightarrow> (s1, Reply (outcome_code out) (Outcome out name)))
      else (s, Reply 400 (JsonValue (JObj
        [(''error'', JStr (''wait='' @ the wait @ '': only wait=healthy is known''))]))))"

section \<open>Goldens\<close>

definition list_goldens_page :: "('s, 'l, 'w) handler" where
  "list_goldens_page s = (s, ok (Goldens (case ap_goldens s of Some t \<Rightarrow> list_goldens t | None \<Rightarrow> [])))"

definition swap_golden_page ::
    "('s, 'l, 'w) api_env \<Rightarrow> string \<Rightarrow> string \<Rightarrow> string option \<Rightarrow> string option \<Rightarrow> ('s, 'l, 'w) handler" where
  "swap_golden_page e process name golden volume s =
     (case ae_swap e process name golden volume s of
        (s1, Inl err) \<Rightarrow> (s1, app_error err) | (s1, Inr p) \<Rightarrow> (s1, ok (Golden p)))"

section \<open>Logs\<close>

text \<open>\<open>read_log_files\<close>: the directory is read in the order it comes, and all lines are one list.\<close>

definition keeps_line :: "string option \<Rightarrow> string \<Rightarrow> bool" where
  "keeps_line search line = (case search of Some p \<Rightarrow> contains line p | None \<Rightarrow> True)"

definition wanted_file :: "string option \<Rightarrow> string \<Rightarrow> bool" where
  "wanted_file process fname \<longleftrightarrow>
     ends_with fname ''.log'' \<and> (case process of Some p \<Rightarrow> starts_with fname p | None \<Rightarrow> True)"

definition tail_kept :: "nat option \<Rightarrow> 'a list \<Rightarrow> 'a list" where
  "tail_kept tail ls = (case tail of Some n \<Rightarrow> drop (sat_sub (length ls) n) ls | None \<Rightarrow> ls)"

definition read_log_files ::
    "'w os \<Rightarrow> 'w \<Rightarrow> string \<Rightarrow> string option \<Rightarrow> nat option \<Rightarrow> string option \<Rightarrow> string list" where
  "read_log_files os w dir process tail search =
     (case os_read_dir os w dir of
        Inl _ \<Rightarrow> []
      | Inr es \<Rightarrow>
          tail_kept tail (concat (map (\<lambda>d.
            if wanted_file process (de_name d)
            then (case os_read_text os w (de_path d) of
                    Inr content \<Rightarrow> filter (keeps_line search) (lines content) | Inl _ \<Rightarrow> [])
            else []) es)))"

definition log_reply :: "string list \<Rightarrow> api_reply" where
  "log_reply ls = ok (LogLines (length ls) ls)"

definition query_logs ::
    "('s, 'l, 'w) api_env \<Rightarrow> app_setup \<Rightarrow> string option \<Rightarrow> nat option \<Rightarrow> string option \<Rightarrow> ('s, 'l, 'w) handler" where
  "query_logs e a process tail search s =
     (s, log_reply (read_log_files (ae_os e) (ap_world s) (ai_log_dir a) process tail search))"

definition process_logs ::
    "('s, 'l, 'w) api_env \<Rightarrow> app_setup \<Rightarrow> string \<Rightarrow> nat option \<Rightarrow> string option \<Rightarrow> ('s, 'l, 'w) handler" where
  "process_logs e a process tail search s = query_logs e a (Some process) tail search s"

definition list_log_files :: "('s, 'l, 'w) api_env \<Rightarrow> app_setup \<Rightarrow> ('s, 'l, 'w) handler" where
  "list_log_files e a s =
     (s, case os_read_dir (ae_os e) (ap_world s) (ai_log_dir a) of
           Inl err \<Rightarrow> app_error err
         | Inr es \<Rightarrow> ok (LogFiles (List.map_filter (\<lambda>d.
             case os_metadata (ae_os e) (ap_world s) (de_path d) of
               Inr m \<Rightarrow> Some (de_name d, de_path d, md_len m) | Inl _ \<Rightarrow> None) es)))"

definition bad_fname :: "string \<Rightarrow> bool" where
  "bad_fname f \<longleftrightarrow> CHR ''/'' \<in> set f \<or> contains f ''..''"

definition read_log_file ::
    "('s, 'l, 'w) api_env \<Rightarrow> app_setup \<Rightarrow> string \<Rightarrow> nat option \<Rightarrow> string option \<Rightarrow> ('s, 'l, 'w) handler" where
  "read_log_file e a f tail search s =
     (s, if bad_fname f then app_error ''invalid filename''
         else (let path = path_join (ai_log_dir a) f
               in if \<not> path_exists (ae_os e) (ap_world s) path then app_error (''file not found: '' @ f)
                  else case os_read_text (ae_os e) (ap_world s) path of
                         Inl err \<Rightarrow> app_error err
                       | Inr content \<Rightarrow> log_reply (tail_kept tail (filter (keeps_line search) (lines content)))))"

definition ingest_log ::
    "('s, 'l, 'w) api_env \<Rightarrow> string \<Rightarrow> log_stream \<Rightarrow> string \<Rightarrow> severity option \<Rightarrow> ('s, 'l, 'w) handler" where
  "ingest_log e process stream line sev s =
     (s\<lparr>ap_log := write_entry (ae_log e) (ae_now e)
          (with_severity (case sev of Some v \<Rightarrow> v | None \<Rightarrow> Info) (new_entry (ae_log e) process stream line)) (ap_log s)\<rparr>,
      saying [(''status'', JStr ''ingested'')])"

definition stored_query ::
    "string option \<Rightarrow> log_stream option \<Rightarrow> string option \<Rightarrow> nat option \<Rightarrow> string option \<Rightarrow> log_query" where
  "stored_query process stream search tail run_id =
     \<lparr>lq_process = process, lq_stream = stream, lq_severity_min = None, lq_since = None, lq_until = None,
      lq_search = search, lq_tail = tail, lq_run_id = run_id\<rparr>"

definition query_stored_logs :: "('s, 'l, 'w) api_env \<Rightarrow> log_query \<Rightarrow> ('s, 'l, 'w) handler" where
  "query_stored_logs e q s = (s, ok (Stored (log_query_run (en_io (ae_log e)) (sl_dir (ap_log s)) q)))"

definition list_runs_page :: "string \<Rightarrow> ('s, 'l, 'w) handler" where
  "list_runs_page process s = (s, ok (Runs process (sl_run_ids (ap_log s) process) (runs (sl_dir (ap_log s)) process)))"

definition terminal_snapshot :: "('s, 'l, 'w) api_env \<Rightarrow> string \<Rightarrow> ('s, 'l, 'w) handler" where
  "terminal_snapshot e process s =
     (s, case ae_screen e (ap_world s) process of
           Some snap \<Rightarrow> ok (JsonValue snap) | None \<Rightarrow> app_error (''no terminal for process '' @ quoted process))"

section \<open>Cron, backup, shutdown\<close>

definition list_cron_jobs :: "('s, 'l, 'w) api_env \<Rightarrow> ('s, 'l, 'w) handler" where
  "list_cron_jobs e s = (s, ok (CronJobs (crons_of e s)))"

definition trigger_backup :: "('s, 'l, 'w) api_env \<Rightarrow> ('s, 'l, 'w) handler" where
  "trigger_backup e s = asked (ae_backup e s) (saying [(''status'', JStr ''backup_complete'')])"

definition shutdown_request :: "i32 option \<Rightarrow> ('s, 'l, 'w) handler" where
  "shutdown_request exit_code s =
     (s\<lparr>ap_shutdown := Some (case exit_code of Some c \<Rightarrow> c | None \<Rightarrow> 0)\<rparr>, saying [(''status'', JStr ''shutting down'')])"

section \<open>Debug\<close>

definition or_unknown :: "string option \<Rightarrow> string" where
  "or_unknown x = (case x of Some s \<Rightarrow> s | None \<Rightarrow> ''unknown'')"

definition collect_debug_info :: "('s, 'l, 'w) api_env \<Rightarrow> 'w \<Rightarrow> debug_info" where
  "collect_debug_info e w = \<lparr>di_pid = ae_pid e, di_env = ae_vars e w,
     di_open_fds = map_option of_nat (ae_open_fds e w), di_cwd = or_unknown (ae_cwd e w), di_exe = or_unknown (ae_exe e w)\<rparr>"

definition debug_info_page :: "('s, 'l, 'w) api_env \<Rightarrow> ('s, 'l, 'w) handler" where
  "debug_info_page e s = (s, ok (DebugInfo (collect_debug_info e (ap_world s))))"

definition debug_config_page :: "('s, 'l, 'w) api_env \<Rightarrow> ('s, 'l, 'w) handler" where
  "debug_config_page e s = (s, ok (Environment (ae_vars e (ap_world s))))"

text \<open>\<open>debug::send_signal\<close>: the name as it is or with \<open>SIG\<close> before it, in upper case; \<open>pid as i32\<close>.\<close>

definition debug_send_signal :: "('s, 'l, 'w) api_env \<Rightarrow> u32 \<Rightarrow> string \<Rightarrow> 'w \<Rightarrow> 'w \<times> string option" where
  "debug_send_signal e pid name w =
     (let up = map ascii_upper name;
          sig = (case ae_signal_name e up of Some n \<Rightarrow> Some n | None \<Rightarrow> ae_signal_name e (''SIG'' @ up))
      in case sig of
           None \<Rightarrow> (w, Some (''unknown signal: '' @ name))
         | Some n \<Rightarrow> ae_kill e (sint pid) n w)"

definition send_signal_page :: "('s, 'l, 'w) api_env \<Rightarrow> string \<Rightarrow> string \<Rightarrow> ('s, 'l, 'w) handler" where
  "send_signal_page e name sig s =
     (case status_or_error e s name of
        Inl err \<Rightarrow> (s, app_error err)
      | Inr p \<Rightarrow>
          (case st_pid p of
             None \<Rightarrow> (s, app_error ''process has no pid'')
           | Some pid \<Rightarrow>
               (case debug_send_signal e pid sig (ap_world s) of
                  (w, Some err) \<Rightarrow> (s\<lparr>ap_world := w\<rparr>, app_error err)
                | (w, None) \<Rightarrow> (s\<lparr>ap_world := w\<rparr>, saying
                    [(''status'', JStr ''signal_sent''), (''process'', JStr name), (''signal'', JStr sig),
                     (''pid'', JNum (uint pid))]))))"

definition send_stdin_page :: "('s, 'l, 'w) api_env \<Rightarrow> string \<Rightarrow> string \<Rightarrow> ('s, 'l, 'w) handler" where
  "send_stdin_page e name input s =
     (case sup_get (ap_sup s) name of
        None \<Rightarrow> (s, app_error (not_found_text name))
      | Some p \<Rightarrow>
          (case mp_stdin_tx p of
             None \<Rightarrow> (s, app_error (''no stdin channel for process '' @ quoted name))
           | Some run \<Rightarrow>
               (case ae_stdin e run input (ap_world s) of
                  (w, False) \<Rightarrow> (s\<lparr>ap_world := w\<rparr>, app_error ''stdin channel closed'')
                | (w, True) \<Rightarrow> (s\<lparr>ap_world := w\<rparr>, about_process ''sent'' name))))"

section \<open>Updates, mounts, memory, plugins\<close>

definition list_updates :: "('s, 'l, 'w) handler" where
  "list_updates s =
     (s, case ap_images s of
           Some st \<Rightarrow> ok (Images (get_all_states st)) | None \<Rightarrow> saying [(''error'', JStr ''updater not enabled'')])"

definition get_update :: "string \<Rightarrow> ('s, 'l, 'w) handler" where
  "get_update name s =
     (s, case ap_images s of
           None \<Rightarrow> app_error ''updater not enabled''
         | Some st \<Rightarrow>
             (case get_state st name of
                Some i \<Rightarrow> ok (Image i) | None \<Rightarrow> app_error (''process '' @ quoted name @ '' not tracked by updater'')))"

definition trigger_update_page :: "('s, 'l, 'w) api_env \<Rightarrow> string \<Rightarrow> ('s, 'l, 'w) handler" where
  "trigger_update_page e name s =
     (case ap_images s of
        None \<Rightarrow> (s, app_error ''updater not enabled'')
      | Some _ \<Rightarrow> asked (ae_trigger e name s) (about_process ''update_triggered'' name))"

definition list_mounts_page :: "('s, 'l, 'w) api_env \<Rightarrow> ('s, 'l, 'w) handler" where
  "list_mounts_page e s = (s, ok (Mounts (mounts_of e s)))"

definition memory_history_page :: "('s, 'l, 'w) handler" where
  "memory_history_page s = (s, ok (Memory (sc_memory_history (ap_stats s))))"

definition list_plugins :: "app_setup \<Rightarrow> ('s, 'l, 'w) handler" where
  "list_plugins a s =
     (s, ok (JsonValue (JArr (map (\<lambda>p. JObj [(''name'', JStr (pl_name p)), (''label'', JStr (pl_label p)),
       (''path'', JStr (''/ui/ext/'' @ pl_name p))]) (ai_ui_plugins a)))))"

section \<open>What is reachable without credentials\<close>

text \<open>
  A path is served by a route when it has its segments; \<open>{x}\<close> stands for one segment that is not empty,
  \<open>{*x}\<close> for all that is left, which is not empty either.
\<close>

fun segments_match :: "string list \<Rightarrow> string list \<Rightarrow> bool" where
  "segments_match [] qs \<longleftrightarrow> qs = []"
| "segments_match (p # ps) [] \<longleftrightarrow> False"
| "segments_match (p # ps) (q # qs) \<longleftrightarrow>
     (if starts_with p ''{*'' then join ''/'' (q # qs) \<noteq> []
      else if starts_with p ''{'' then q \<noteq> [] \<and> segments_match ps qs
      else p = q \<and> segments_match ps qs)"

definition serves :: "string \<Rightarrow> string \<Rightarrow> bool" where
  "serves pattern path \<longleftrightarrow> segments_match (split_char (CHR ''/'') pattern) (split_char (CHR ''/'') path)"

definition fixed :: "string \<Rightarrow> bool" where
  "fixed p \<longleftrightarrow> \<not> starts_with p ''{''"

text \<open>The text every path of a route begins with, or the one path it has.\<close>

definition route_text :: "string \<Rightarrow> string + string" where
  "route_text pattern =
     (let ps = split_char (CHR ''/'') pattern; fs = takeWhile fixed ps
      in if fs = ps then Inl pattern else Inr (concat (map (\<lambda>f. f @ ''/'') fs)))"

lemma segments_match_fixed:
  "segments_match ps qs \<Longrightarrow> list_all fixed ps \<and> qs = ps
     \<or> (\<exists>rs. rs \<noteq> [] \<and> \<not> list_all fixed ps \<and> qs = takeWhile fixed ps @ rs)"
proof (induction ps qs rule: segments_match.induct)
  case (3 p ps q qs)
  have "starts_with p ''{*'' \<Longrightarrow> starts_with p ''{''" by (auto simp: starts_with_iff)
  then show ?case using 3 by (auto simp: fixed_def split: if_splits)
qed auto

lemma join_prefix: "rs \<noteq> [] \<Longrightarrow> join ''/'' (fs @ rs) = concat (map (\<lambda>f. f @ ''/'') fs) @ join ''/'' rs"
  by (induction fs) (simp_all add: join_Cons)

lemma route_text:
  assumes "serves pattern path"
  shows "case route_text pattern of Inl p \<Rightarrow> path = p | Inr q \<Rightarrow> \<exists>r. path = q @ r"
proof -
  let ?ps = "split_char (CHR ''/'') pattern" and ?qs = "split_char (CHR ''/'') path"
  have path: "path = join ''/'' ?qs" "pattern = join ''/'' ?ps" by (simp_all add: join_split_char)
  consider "list_all fixed ?ps" "?qs = ?ps"
    | rs where "rs \<noteq> []" "\<not> list_all fixed ?ps" "?qs = takeWhile fixed ?ps @ rs"
    using segments_match_fixed assms unfolding serves_def by blast
  then show ?thesis
  proof cases
    case 1
    then have "takeWhile fixed ?ps = ?ps" by (simp add: list_all_iff takeWhile_eq_all_conv)
    then show ?thesis using 1 path by (simp add: route_text_def Let_def)
  next
    case 2
    then have "takeWhile fixed ?ps \<noteq> ?ps" by (simp add: list_all_iff takeWhile_eq_all_conv)
    then show ?thesis using join_prefix[OF 2(1)] path(1) 2(3) by (simp add: route_text_def Let_def) metis
  qed
qed

text \<open>Texts no public path begins with.\<close>

definition closed_text :: "string + string \<Rightarrow> bool" where
  "closed_text t =
     (case t of
        Inl p \<Rightarrow> \<not> is_public p
      | Inr q \<Rightarrow> list_all (\<lambda>x. \<not> starts_with x q) [''/'', ''/healthz'', ''/api/v1/health'', ''/api/v1/auth/'']
          \<and> \<not> starts_with q ''/api/v1/auth/''
          \<and> (starts_with q ''/ui/proxy/'' \<or> \<not> starts_with ''/ui/'' q \<and> \<not> starts_with q ''/ui/''))"

lemma starts_with_append: "starts_with (q @ r) p \<Longrightarrow> starts_with q p \<or> starts_with p q"
  by (auto simp: starts_with_iff append_eq_append_conv2)

lemma starts_with_more: "starts_with q p \<Longrightarrow> starts_with (q @ r) p"
  by (auto simp: starts_with_iff)

lemma starts_with_self: "starts_with (q @ r) q"
  by (auto simp: starts_with_iff)

lemma closed_text:
  assumes "closed_text (Inr q)"
  shows "\<not> is_public (q @ r)"
proof
  assume public: "is_public (q @ r)"
  have "q @ r \<noteq> x" if "\<not> starts_with x q" for x using that starts_with_self by metis
  moreover have "\<not> starts_with (q @ r) ''/api/v1/auth/''"
    using assms starts_with_append by (fastforce simp: closed_text_def)
  ultimately have "starts_with (q @ r) ''/ui/''" "\<not> starts_with (q @ r) ''/ui/proxy/''"
    using public assms by (auto simp: is_public_def closed_text_def)
  then show False using assms starts_with_append starts_with_more unfolding closed_text_def by fastforce
qed

definition open_handlers :: "string list" where
  "open_handlers = [''root_redirect'', ''health'', ''auth::login'', ''auth::logout'', ''auth::session'', ''web::index'', ''web::asset'']"

lemma routes_closed:
  "list_all (\<lambda>(pat, v, h). h \<in> set open_handlers \<or> closed_text (route_text pat)) base_routes"
  by code_simp

lemma debug_routes_closed: "list_all (\<lambda>(pat, v, h). closed_text (route_text pat)) (debug_routes a)"
proof -
  have "list_all (\<lambda>pat. closed_text (route_text pat)) [''/api/v1/debug/info'', ''/api/v1/debug/config'',
      ''/api/v1/debug/processes/{name}/signal'', ''/api/v1/debug/processes/{name}/stdin'']"
    by code_simp
  then show ?thesis by (simp add: debug_routes_def)
qed

text \<open>C23: Without credentials only the redirect, the health check, the login endpoints and the files of the web
  UI are reachable: every other route, of every configuration, serves only paths the authentication
  guards, so none of them reads or changes a process, a log or an image unasked.
\<close>
theorem guarded_routes_need_credentials:
  assumes "(pattern, v, h) \<in> set (build_router a)" "serves pattern (rq_path r)" "h \<notin> set open_handlers"
    and "\<not> rq_cert_verified r" "\<And>t. t \<in> set (snd (tokens d st)) \<Longrightarrow> rq_authorization r \<noteq> Some (''Bearer '' @ t)"
    and "\<And>i. session_cookie r = Some i \<Longrightarrow> session_user now i st = None"
  shows "\<not> snd (require_auth d now r (Some st))"
proof -
  have closed: "closed_text (route_text pattern)"
    using assms(1,3) routes_closed debug_routes_closed[of a] by (auto simp: build_router_def list_all_iff)
  have "\<not> is_public (rq_path r)"
  proof (cases "route_text pattern")
    case (Inl p)
    then show ?thesis using closed route_text[OF assms(2)] by (simp add: closed_text_def)
  next
    case (Inr q)
    then show ?thesis using closed closed_text route_text[OF assms(2)] by auto
  qed
  then show ?thesis using assms(4-6) by (auto simp: require_auth_iff)
qed

definition endpoints :: "(string \<times> verb \<times> endpoint) list \<Rightarrow> string set" where
  "endpoints rs = set (map (\<lambda>(p, v, h). h) rs)"

text \<open>
  The endpoints that signal a process or write to its input exist only where debugging is enabled and
  each of them is allowed.
\<close>
theorem debug_endpoints_are_opt_in:
  "(''send_signal'' \<in> endpoints (build_router a) \<longleftrightarrow> ai_debug_enabled a \<and> ai_allow_signal a)
   \<and> (''send_stdin'' \<in> endpoints (build_router a) \<longleftrightarrow> ai_debug_enabled a \<and> ai_allow_stdin a)"
proof -
  have "''send_signal'' \<notin> endpoints base_routes" "''send_stdin'' \<notin> endpoints base_routes"
    by code_simp+
  then show ?thesis
    by (cases "ai_debug_enabled a"; cases "ai_allow_signal a"; cases "ai_allow_stdin a")
      (simp_all add: build_router_def debug_routes_def endpoints_def image_Un)
qed

section \<open>Logs by process\<close>

lemma ends_with_iff: "ends_with s p \<longleftrightarrow> (\<exists>r. s = r @ p)"
  by (cases "strip_suffix p s") (auto simp: ends_with_def simp flip: strip_suffix_Some)

text \<open>The logs of a process are chosen by how the file names begin: asking for \<open>p\<close> also gives every line of
  every process whose name goes on after \<open>p\<close>.
\<close>
theorem process_logs_include_others:
  assumes "os_read_dir os w dir = Inr es" "d \<in> set es" "de_name d = p @ rest @ ''.log''"
    and "os_read_text os w (de_path d) = Inr content"
  shows "set (lines content) \<subseteq> set (read_log_files os w dir (Some p) None None)"
proof -
  define F where "F d = (if wanted_file (Some p) (de_name d)
      then (case os_read_text os w (de_path d) of Inr content \<Rightarrow> filter (keeps_line None) (lines content) | Inl _ \<Rightarrow> [])
      else [])" for d :: dir_entry
  have "wanted_file (Some p) (de_name d)"
    unfolding wanted_file_def assms(3) option.case starts_with_iff ends_with_iff by (metis append_assoc)
  then have "F d = lines content" using assms(4) by (simp add: F_def keeps_line_def)
  moreover have "read_log_files os w dir (Some p) None None = concat (map F es)"
    unfolding read_log_files_def assms(1) tail_kept_def F_def by simp
  ultimately show ?thesis using assms(2) by force
qed

text \<open>A log file is read from the log directory itself: the answer holds lines of a file directly in it.\<close>

lemma log_file_is_inside:
  assumes "read_log_file e a f tail search s = (s1, Reply 200 (LogLines n ls))"
  shows "CHR ''/'' \<notin> set f \<and> f \<noteq> ''..'' \<and> s1 = s \<and> n = length ls
    \<and> (\<exists>content. os_read_text (ae_os e) (ap_world s) (path_join (ai_log_dir a) f) = Inr content \<and> set ls \<subseteq> set (lines content))"
proof (cases "os_read_text (ae_os e) (ap_world s) (path_join (ai_log_dir a) f)")
  case (Inl err)
  then show ?thesis using assms by (auto simp: read_log_file_def app_error_def Let_def split: if_splits)
next
  case (Inr content)
  have "\<not> bad_fname f" using assms by (auto simp: read_log_file_def app_error_def split: if_splits)
  moreover have "contains ''..'' ''..''" using contains_iff[of "''..''" "''..''"] by auto
  ultimately have f: "CHR ''/'' \<notin> set f" "f \<noteq> ''..''" by (auto simp: bad_fname_def)
  have sub: "set (tail_kept tail (filter (keeps_line search) xs)) \<subseteq> set xs" for xs
    by (auto simp: tail_kept_def dest: in_set_dropD split: option.splits)
  have eq: "s1 = s" using assms by (simp add: read_log_file_def)
  have "ls = tail_kept tail (filter (keeps_line search) (lines content))" "n = length ls"
    using assms Inr eq by (auto simp: read_log_file_def app_error_def log_reply_def ok_def Let_def split: if_splits)
  then show ?thesis using f Inr eq sub[of "lines content"] by simp
qed

section \<open>Routing by host name\<close>

text \<open>
  The host of a request is compared in lower case with the names as they are configured: a name of
  \<open>[api.hosts]\<close> with a capital letter never matches any request.
\<close>
theorem capital_host_is_never_routed:
  assumes "map ascii_lower name \<noteq> name"
  shows "root_redirect h (a\<lparr>ai_host_routes := (name, target) # routes\<rparr>) hs = root_redirect h (a\<lparr>ai_host_routes := routes\<rparr>) hs"
proof -
  have idem: "map ascii_lower (map ascii_lower s) = map ascii_lower s" for s
    by (induction s) (auto simp: ascii_lower_def Let_def)
  have "(case Option.bind (header_get ''host'' hs) (hv_text h) of
      Some s \<Rightarrow> map ascii_lower (hd (split_char (CHR '':'') s)) | None \<Rightarrow> []) \<noteq> name"
    using assms idem by (auto split: option.split)
  then show ?thesis by (auto simp: root_redirect_def Let_def)
qed

section \<open>Witnesses\<close>

definition demo_setup :: app_setup where
  "demo_setup = \<lparr>ai_debug_enabled = True, ai_allow_signal = True, ai_allow_stdin = False, ai_log_dir = ''/log'',
     ai_container_name = ''box'', ai_cloud_id = ''id'', ai_ui_plugins = [], ai_host_routes = []\<rparr>"

definition stranger :: request where
  "stranger = \<lparr>rq_path = ''/api/v1/debug/processes/web/signal'', rq_cert_verified = False,
     rq_authorization = None, rq_cookie = None\<rparr>"

lemma guarded_routes_need_credentials_witness: "\<not> snd (require_auth demo_disk 0 stranger (Some demo_auth))"
proof (rule guarded_routes_need_credentials)
  show "(''/api/v1/debug/processes/{name}/signal'', Post, ''send_signal'') \<in> set (build_router demo_setup)"
    by (simp add: build_router_def debug_routes_def demo_setup_def)
  show "serves ''/api/v1/debug/processes/{name}/signal'' (rq_path stranger)" by code_simp
qed (simp_all add: open_handlers_def stranger_def session_cookie_def)

lemma capital_host_is_never_routed_witness:
  "root_redirect \<lparr>hv_text = Some, hv_from = Some\<rparr> (demo_setup\<lparr>ai_host_routes := [(''Box'', ''/x'')]\<rparr>) [(''host'', ''Box'')]
   = root_redirect \<lparr>hv_text = Some, hv_from = Some\<rparr> (demo_setup\<lparr>ai_host_routes := []\<rparr>) [(''host'', ''Box'')]"
  by (rule capital_host_is_never_routed) code_simp

definition log_entry_of :: "string \<Rightarrow> dir_entry" where
  "log_entry_of n = \<lparr>de_name = n, de_path = ''/log/'' @ n, de_type = Some RegularFile, de_meta = None\<rparr>"

definition log_os :: "demo os" where
  "log_os = (demo_os True)\<lparr>os_read_dir := (\<lambda>w p. Inr [log_entry_of ''web.log'', log_entry_of ''web-admin.log'']),
     os_read_text := (\<lambda>w p. if p = ''/log/web-admin.log'' then Inr ''secret'' else Inr [])\<rparr>"

lemma process_logs_include_others_witness:
  "set (lines ''secret'') \<subseteq> set (read_log_files log_os demo_world ''/log'' (Some ''web'') None None)"
  by (rule process_logs_include_others[where es = "[log_entry_of ''web.log'', log_entry_of ''web-admin.log'']"
      and d = "log_entry_of ''web-admin.log''" and rest = "''-admin''"])
    (simp_all add: log_os_def log_entry_of_def)

end
