(* ===== verification/Backup.thy ===== *)
theory Backup
  imports Events Http
begin

text \<open>
  \<open>crates/stormd/src/backup.rs\<close>: the log directory as an archive, sent to the configured address.
  Building a tar of a directory, compressing it and the network are parameters; the events are given in
  the order they are emitted.
\<close>

record 'w backup_env =
  bk_tar :: "'w \<Rightarrow> string \<Rightarrow> string \<Rightarrow> string + u8 list"
  bk_gzip :: "u8 list \<Rightarrow> string + u8 list"
  bk_post :: "string \<Rightarrow> (string \<times> string) list \<Rightarrow> u8 list \<Rightarrow> 'w \<Rightarrow> 'w \<times> (string + http_answer)"

definition create_archive :: "'w backup_env \<Rightarrow> 'w \<Rightarrow> string \<Rightarrow> bool \<Rightarrow> string + u8 list" where
  "create_archive e w log_dir compress =
     (case bk_tar e w ''logs'' log_dir of
        Inl err \<Rightarrow> Inl err
      | Inr bytes \<Rightarrow> if compress then bk_gzip e bytes else Inr bytes)"

definition backup_headers :: "backup_config \<Rightarrow> (string \<times> string) list" where
  "backup_headers c =
     (''Content-Type'', if bc_compress c then ''application/gzip'' else ''application/x-tar'') # bc_headers c"

definition upload :: "'w backup_env \<Rightarrow> backup_config \<Rightarrow> string \<Rightarrow> u8 list \<Rightarrow> 'w \<Rightarrow> ('w \<times> event_kind list) \<times> string option" where
  "upload e c dest bytes w =
     (case bk_post e dest (backup_headers c) bytes w of
        (w1, Inl err) \<Rightarrow> ((w1, [BackupFailed]), Some (''backup upload failed: '' @ err))
      | (w1, Inr a) \<Rightarrow>
          if is_success a then ((w1, [BackupCompleted]), None)
          else ((w1, [BackupFailed]), Some (''backup upload returned '' @ an_shown a @ '': '' @ text_or_empty a)))"

definition backup_logs :: "'w backup_env \<Rightarrow> backup_config \<Rightarrow> string \<Rightarrow> 'w \<Rightarrow> ('w \<times> event_kind list) \<times> string option" where
  "backup_logs e c log_dir w =
     (if \<not> bc_enabled c then ((w, []), None)
      else case bc_destination_url c of
             None \<Rightarrow> ((w, []), Some ''backup destination_url not configured'')
           | Some dest \<Rightarrow>
               (case create_archive e w log_dir (bc_compress c) of
                  Inl err \<Rightarrow> ((w, [BackupStarted]), Some err)
                | Inr bytes \<Rightarrow>
                    (case upload e c dest bytes w of ((w1, evs), r) \<Rightarrow> ((w1, BackupStarted # evs), r))))"

section \<open>What is told of a backup\<close>

text \<open>
  A backup that starts is told to be done exactly when the destination took it. Where the archive cannot
  be made it is never told to have failed: the start is the last event.
\<close>
theorem backup_events:
  assumes "bc_enabled c" "bc_destination_url c = Some dest" "backup_logs e c log_dir w = ((w1, evs), r)"
  shows "evs = [BackupStarted, BackupCompleted] \<and> r = None
      \<and> (\<exists>bytes a. create_archive e w log_dir (bc_compress c) = Inr bytes
           \<and> bk_post e dest (backup_headers c) bytes w = (w1, Inr a) \<and> is_success a)
    \<or> evs = [BackupStarted, BackupFailed] \<and> r \<noteq> None
    \<or> evs = [BackupStarted] \<and> r \<noteq> None \<and> (\<exists>err. create_archive e w log_dir (bc_compress c) = Inl err)"
proof (cases "create_archive e w log_dir (bc_compress c)")
  case (Inl err)
  then show ?thesis using assms by (auto simp: backup_logs_def)
next
  case (Inr bytes)
  obtain w2 a where post: "bk_post e dest (backup_headers c) bytes w = (w2, a)" by fastforce
  then show ?thesis using assms Inr
    by (cases a) (auto simp: backup_logs_def upload_def split: if_splits)
qed

lemma archive_error_is_untold:
  assumes "bc_enabled c" "bc_destination_url c = Some dest" "bk_tar e w ''logs'' log_dir = Inl err"
  shows "backup_logs e c log_dir w = ((w, [BackupStarted]), Some err)"
  using assms by (simp add: backup_logs_def create_archive_def)

definition demo_backup :: "unit backup_env" where
  "demo_backup = \<lparr>bk_tar = (\<lambda>w p d. Inl ''No such file or directory (os error 2)''), bk_gzip = Inr,
     bk_post = (\<lambda>u h b w. (w, Inl ''unreachable''))\<rparr>"

definition demo_backup_config :: backup_config where
  "demo_backup_config = backup_config_default\<lparr>bc_enabled := True, bc_destination_url := Some ''http://b''\<rparr>"

lemma archive_error_is_untold_witness:
  "backup_logs demo_backup demo_backup_config ''/log'' () =
     (((), [BackupStarted]), Some ''No such file or directory (os error 2)'')"
  by (rule archive_error_is_untold[of _ "''http://b''"])
    (simp_all add: demo_backup_def demo_backup_config_def backup_config_default_def)

end
