(* ===== verification/Tls.thy ===== *)
theory Tls
  imports Auth
begin

text \<open>
  \<open>crates/stormd/src/tls.rs\<close>: the certificate pair and the client CAs of the API listener, both re-read
  when their files change, and the mark a verified client certificate puts on a request. Reading
  certificates and keys, checking them and the handshake itself are \<open>rustls\<close>: parameters. \<open>'c\<close> is a
  certificate, \<open>'k\<close> a signing key, \<open>'v\<close> a verifier, \<open>'w\<close> the file system.
\<close>

record ('w, 'c, 'k, 'v) tls_env =
  te_stamp :: "'w \<Rightarrow> string \<Rightarrow> stamp option"
  te_certs :: "'w \<Rightarrow> string \<Rightarrow> string + 'c list"
  te_key :: "'w \<Rightarrow> string \<Rightarrow> string + 'k"
  te_mismatch :: "'c list \<Rightarrow> 'k \<Rightarrow> string option"
  te_usable_root :: "'c \<Rightarrow> bool"
  te_verifier :: "'c list \<Rightarrow> string + 'v"
  te_verify :: "'v \<Rightarrow> 'c list \<Rightarrow> bool"

section \<open>The pair served\<close>

definition load_certified_key :: "('w, 'c, 'k, 'v) tls_env \<Rightarrow> string \<Rightarrow> string \<Rightarrow> 'w \<Rightarrow> string + 'c list \<times> 'k" where
  "load_certified_key e cert key w =
     (case te_certs e w cert of
        Inl err \<Rightarrow> Inl (cert @ '': '' @ err)
      | Inr chain \<Rightarrow>
          if chain = [] then Inl (cert @ '': no certificate in the file'')
          else (case te_key e w key of
                  Inl err \<Rightarrow> Inl (key @ '': '' @ err)
                | Inr k \<Rightarrow>
                    (case te_mismatch e chain k of
                       Some err \<Rightarrow> Inl (key @ '' does not match '' @ cert @ '': '' @ err)
                     | None \<Rightarrow> Inr (chain, k))))"

record 'p reloading_cert =
  rc_cert :: string
  rc_key :: string
  rc_stamps :: "stamp option \<times> stamp option"
  rc_pair :: "'p option"

definition pair_stamps :: "('w, 'c, 'k, 'v) tls_env \<Rightarrow> string \<Rightarrow> string \<Rightarrow> 'w \<Rightarrow> stamp option \<times> stamp option" where
  "pair_stamps e cert key w = (te_stamp e w cert, te_stamp e w key)"

definition pair_now :: "('w, 'c, 'k, 'v) tls_env \<Rightarrow> string \<Rightarrow> string \<Rightarrow> 'w \<Rightarrow> ('c list \<times> 'k) option" where
  "pair_now e cert key w = (case load_certified_key e cert key w of Inr p \<Rightarrow> Some p | Inl _ \<Rightarrow> None)"

definition reloading_cert_new ::
    "('w, 'c, 'k, 'v) tls_env \<Rightarrow> string \<Rightarrow> string \<Rightarrow> 'w \<Rightarrow> ('c list \<times> 'k) reloading_cert" where
  "reloading_cert_new e cert key w =
     \<lparr>rc_cert = cert, rc_key = key, rc_stamps = pair_stamps e cert key w, rc_pair = pair_now e cert key w\<rparr>"

definition reloading_cert_get ::
    "('w, 'c, 'k, 'v) tls_env \<Rightarrow> 'w \<Rightarrow> ('c list \<times> 'k) reloading_cert \<Rightarrow> ('c list \<times> 'k) reloading_cert" where
  "reloading_cert_get e w r =
     (let stamps = pair_stamps e (rc_cert r) (rc_key r) w
      in if rc_stamps r \<noteq> stamps \<or> rc_pair r = None
         then r\<lparr>rc_stamps := stamps,
                rc_pair := (case pair_now e (rc_cert r) (rc_key r) w of Some p \<Rightarrow> Some p | None \<Rightarrow> rc_pair r)\<rparr>
         else r)"

section \<open>Client certificates\<close>

datatype 'v client_verifier = WebPki 'v | NoClientCerts

definition usable_roots :: "('w, 'c, 'k, 'v) tls_env \<Rightarrow> string list \<Rightarrow> 'w \<Rightarrow> 'c list" where
  "usable_roots e files w =
     concat (map (\<lambda>f. case te_certs e w f of Inr cs \<Rightarrow> filter (te_usable_root e) cs | Inl _ \<Rightarrow> []) files)"

definition build_verifier :: "('w, 'c, 'k, 'v) tls_env \<Rightarrow> string list \<Rightarrow> 'w \<Rightarrow> 'v client_verifier" where
  "build_verifier e files w =
     (let roots = usable_roots e files w
      in if roots = [] then NoClientCerts
         else case te_verifier e roots of Inr v \<Rightarrow> WebPki v | Inl _ \<Rightarrow> NoClientCerts)"

record 'v reloading_verifier =
  rv_files :: "string list"
  rv_stamps :: "stamp option list"
  rv_current :: "'v client_verifier"

definition reloading_verifier_new ::
    "('w, 'c, 'k, 'v) tls_env \<Rightarrow> string list \<Rightarrow> 'w \<Rightarrow> 'v reloading_verifier" where
  "reloading_verifier_new e files w =
     \<lparr>rv_files = files, rv_stamps = map (te_stamp e w) files, rv_current = build_verifier e files w\<rparr>"

definition reloading_verifier_get ::
    "('w, 'c, 'k, 'v) tls_env \<Rightarrow> 'w \<Rightarrow> 'v reloading_verifier \<Rightarrow> 'v reloading_verifier" where
  "reloading_verifier_get e w r =
     (let stamps = map (te_stamp e w) (rv_files r)
      in if rv_stamps r \<noteq> stamps then r\<lparr>rv_stamps := stamps, rv_current := build_verifier e (rv_files r) w\<rparr> else r)"

definition verify_client_cert :: "('w, 'c, 'k, 'v) tls_env \<Rightarrow> 'v client_verifier \<Rightarrow> 'c list \<Rightarrow> bool" where
  "verify_client_cert e v chain = (case v of WebPki x \<Rightarrow> te_verify e x chain | NoClientCerts \<Rightarrow> False)"

section \<open>The listener\<close>

text \<open>\<open>None\<close>: TLS is off. The client verifier is there when client CAs are configured.\<close>

record ('p, 'v) tls_server =
  ts_pair :: "'p reloading_cert"
  ts_clients :: "'v reloading_verifier option"

definition server_config ::
    "('w, 'c, 'k, 'v) tls_env \<Rightarrow> api_config \<Rightarrow> 'w \<Rightarrow> ('c list \<times> 'k, 'v) tls_server option" where
  "server_config e api w =
     (case (ac_tls_cert_file api, ac_tls_key_file api) of
        (Some cert, Some key) \<Rightarrow> Some
          \<lparr>ts_pair = reloading_cert_new e cert key w,
           ts_clients = (if ac_client_ca_file api = [] then None
                         else Some (reloading_verifier_new e (ac_client_ca_file api) w))\<rparr>
      | _ \<Rightarrow> None)"

text \<open>
  A handshake, as \<open>rustls\<close> makes it of both: it fails where there is no pair to serve, a client that
  sends a certificate is let in only where the verifier takes it, and without a verifier none is asked for.
\<close>

definition handshake ::
    "('w, 'c, 'k, 'v) tls_env \<Rightarrow> 'w \<Rightarrow> 'c list \<Rightarrow> ('c list \<times> 'k, 'v) tls_server
     \<Rightarrow> ('c list \<times> 'k, 'v) tls_server \<times> ('c list \<times> 'k \<times> 'c list) option" where
  "handshake e w client s =
     (let p = reloading_cert_get e w (ts_pair s); s1 = s\<lparr>ts_pair := p\<rparr>
      in case rc_pair p of
           None \<Rightarrow> (s1, None)
         | Some (chain, k) \<Rightarrow>
             (case ts_clients s of
                None \<Rightarrow> (s1, Some (chain, k, []))
              | Some v \<Rightarrow>
                  if client = [] then (s1, Some (chain, k, []))
                  else (let v1 = reloading_verifier_get e w v
                        in (s1\<lparr>ts_clients := Some v1\<rparr>,
                            if verify_client_cert e (rv_current v1) client then Some (chain, k, client) else None))))"

text \<open>\<open>serve\<close> on one connection: what its requests carry.\<close>

definition mark_request :: "'c list \<Rightarrow> request \<Rightarrow> request" where
  "mark_request peer r = (if peer \<noteq> [] then r\<lparr>rq_cert_verified := True\<rparr> else r)"

definition serve_request ::
    "('w, 'c, 'k, 'v) tls_env \<Rightarrow> 'w \<Rightarrow> 'c list \<Rightarrow> request \<Rightarrow> ('c list \<times> 'k, 'v) tls_server
     \<Rightarrow> ('c list \<times> 'k, 'v) tls_server \<times> request option" where
  "serve_request e w client r s =
     (case handshake e w client s of
        (s1, None) \<Rightarrow> (s1, None)
      | (s1, Some (chain, k, peer)) \<Rightarrow> (s1, Some (mark_request peer r)))"

section \<open>Which pair is served\<close>

text \<open>One handshake after another, each with the files as they are then.\<close>

definition looked :: "('w, 'c, 'k, 'v) tls_env \<Rightarrow> string \<Rightarrow> string \<Rightarrow> 'w \<Rightarrow> 'w list \<Rightarrow> ('c list \<times> 'k) reloading_cert" where
  "looked e cert key w ws = foldl (\<lambda>r w. reloading_cert_get e w r) (reloading_cert_new e cert key w) ws"

lemma looked_snoc: "looked e cert key w (ws @ [x]) = reloading_cert_get e x (looked e cert key w ws)"
  by (simp add: looked_def)

lemma looked_files [simp]: "rc_cert (looked e cert key w ws) = cert" "rc_key (looked e cert key w ws) = key"
  by (induction ws rule: rev_induct)
    (simp_all add: looked_def reloading_cert_new_def reloading_cert_get_def Let_def)

lemma looked_stamps: "rc_stamps (looked e cert key w ws) = pair_stamps e cert key (last (w # ws))"
proof (induction ws rule: rev_induct)
  case Nil
  then show ?case by (simp add: looked_def reloading_cert_new_def)
next
  case (snoc x xs)
  then show ?case by (auto simp: looked_snoc reloading_cert_get_def Let_def)
qed

text \<open>A look gives the pair that loads now, or keeps the one before where nothing that changed loads.\<close>

lemma looked_next:
  assumes "rc_pair (looked e cert key w (xs @ [x])) = Some p"
  shows "pair_now e cert key x = Some p \<or> rc_pair (looked e cert key w xs) = Some p
    \<and> (pair_stamps e cert key x \<noteq> pair_stamps e cert key (last (w # xs)) \<longrightarrow> pair_now e cert key x = None)"
  using assms looked_stamps[of e cert key w xs]
  by (cases "pair_now e cert key x")
    (auto simp: looked_snoc reloading_cert_get_def Let_def split: if_splits)

lemma unseen_snoc:
  assumes "\<forall>i < length us. f (us ! i) \<noteq> f ((u # us) ! i) \<longrightarrow> g (us ! i) = None"
    and "f x \<noteq> f (last (u # us)) \<longrightarrow> g x = None"
  shows "\<forall>i < length (us @ [x]). f ((us @ [x]) ! i) \<noteq> f ((u # us @ [x]) ! i) \<longrightarrow> g ((us @ [x]) ! i) = None"
proof (intro allI impI)
  fix i assume i: "i < length (us @ [x])" "f ((us @ [x]) ! i) \<noteq> f ((u # us @ [x]) ! i)"
  show "g ((us @ [x]) ! i) = None"
  proof (cases "i < length us")
    case True
    then show ?thesis using i(2) assms(1) nth_append[of "u # us" "[x]" i] nth_append[of us "[x]" i] by simp
  next
    case False
    then have "i = length us" using i(1) by simp
    then show ?thesis using i(2) assms(2) nth_append[of "u # us" "[x]" i] last_conv_nth[of "u # us"] by simp
  qed
qed

text \<open>C37: A pair that is served did load, at the start or at one of the handshakes since, and every later look at
  changed files failed to load one: a rotation that does not load keeps the last pair that did.
\<close>
theorem served_pair_is_last_good:
  assumes "rc_pair (looked e cert key w ws) = Some p"
  shows "\<exists>vs u us. w # ws = vs @ u # us \<and> pair_now e cert key u = Some p
    \<and> (\<forall>i < length us. pair_stamps e cert key (us ! i) \<noteq> pair_stamps e cert key ((u # us) ! i)
         \<longrightarrow> pair_now e cert key (us ! i) = None)"
  using assms
proof (induction ws arbitrary: p rule: rev_induct)
  case Nil
  then show ?case
    by (intro exI[of _ "[]"] exI[of _ w]) (simp add: looked_def reloading_cert_new_def)
next
  case (snoc x xs)
  show ?case
  proof (cases "pair_now e cert key x = Some p")
    case True
    then show ?thesis by (intro exI[of _ "w # xs"] exI[of _ x] exI[of _ "[]"]) simp
  next
    case False
    then have old: "rc_pair (looked e cert key w xs) = Some p"
      "pair_stamps e cert key x \<noteq> pair_stamps e cert key (last (w # xs)) \<longrightarrow> pair_now e cert key x = None"
      using looked_next[OF snoc.prems] by blast+
    obtain vs u us where parts: "w # xs = vs @ u # us" "pair_now e cert key u = Some p"
      and kept: "\<forall>i < length us. pair_stamps e cert key (us ! i) \<noteq> pair_stamps e cert key ((u # us) ! i)
         \<longrightarrow> pair_now e cert key (us ! i) = None"
      using snoc.IH[OF old(1)] by blast
    have "last (w # xs) = last (u # us)" unfolding parts(1) by (simp add: last_append)
    then show ?thesis using parts unseen_snoc[OF kept] old(2)
      by (intro exI[of _ vs] exI[of _ u] exI[of _ "us @ [x]"]) simp
  qed
qed

text \<open>
  A repair that leaves both stamps as they were, such as a change of permissions, is not seen while an
  older pair is served: that pair goes on being served, whatever would load now.
\<close>
theorem repair_without_stamp_is_missed:
  assumes "rc_pair r = Some p" "rc_stamps r = pair_stamps e (rc_cert r) (rc_key r) w"
    and "load_certified_key e (rc_cert r) (rc_key r) w = Inr q"
  shows "rc_pair (reloading_cert_get e w r) = Some p"
  using assms by (simp add: reloading_cert_get_def)

text \<open>Where there is no pair yet, the same repair is seen at the next handshake.\<close>

lemma first_pair_is_tried_always:
  assumes "rc_pair r = None" "load_certified_key e (rc_cert r) (rc_key r) w = Inr q"
  shows "rc_pair (reloading_cert_get e w r) = Some q"
  using assms by (simp add: reloading_cert_get_def pair_now_def Let_def)

section \<open>Who a certificate authenticates\<close>

lemma verified_only_by_verifier:
  assumes "serve_request e w client r s = (s1, Some r1)" "rq_cert_verified r1" "\<not> rq_cert_verified r"
  shows "\<exists>v. ts_clients s = Some v \<and> client \<noteq> [] \<and> verify_client_cert e (rv_current (reloading_verifier_get e w v)) client"
  using assms
  by (auto simp: serve_request_def handshake_def mark_request_def Let_def split: option.splits if_splits prod.splits)

text \<open>
  A client certificate lets a request through only where one of the client CA files could be read at the
  look that built the verifier: with none readable nobody is authenticated by a certificate, and a request
  without a token or a session is refused on every guarded path.
\<close>
theorem unreadable_cas_authenticate_nobody:
  assumes "ts_clients s = Some v" "usable_roots e (rv_files v) w = []" "rv_stamps v \<noteq> map (te_stamp e w) (rv_files v)"
    and "serve_request e w client r s = (s1, Some r1)" "\<not> rq_cert_verified r" "rq_authorization r = None" "rq_cookie r = None"
    and "\<not> is_public (rq_path r)"
  shows "\<not> snd (require_auth d now r1 (Some a))"
proof -
  have "rv_current (reloading_verifier_get e w v) = NoClientCerts"
    using assms(2,3) by (simp add: reloading_verifier_get_def build_verifier_def)
  then have "\<not> rq_cert_verified r1"
    using verified_only_by_verifier[OF assms(4) _ assms(5)] assms(1) by (auto simp: verify_client_cert_def)
  moreover have "r1 = r \<or> rq_cert_verified r1"
    using assms(4) by (auto simp: serve_request_def mark_request_def split: option.splits prod.splits if_splits)
  ultimately have "r1 = r" "\<not> rq_cert_verified r" by auto
  then show ?thesis using assms(6-8) by (simp add: require_auth_iff session_cookie_def)
qed

text \<open>A configuration that is let through and names client CAs has a listener that checks client certificates.\<close>

lemma client_cas_are_checked:
  assumes "validate c = Inr ()" "ac_client_ca_file (cf_api c) \<noteq> []"
  shows "\<exists>s. server_config e (cf_api c) w = Some s \<and> ts_clients s \<noteq> None"
proof -
  have "ac_tls_cert_file (cf_api c) \<noteq> None" "ac_tls_key_file (cf_api c) \<noteq> None"
    using assms by (auto simp: validate_iff well_formed_def)
  then show ?thesis using assms(2) by (auto simp: server_config_def)
qed

section \<open>Witnesses\<close>

text \<open>Files as lists of their stamps and certificates; a certificate is a number, and so is a key.\<close>

definition demo_tls :: "((string \<times> nat) list, nat, nat, nat list) tls_env" where
  "demo_tls = \<lparr>te_stamp = (\<lambda>w f. map_option (\<lambda>n. (int n, n)) (map_of w f)),
     te_certs = (\<lambda>w f. case map_of w f of Some n \<Rightarrow> Inr [n] | None \<Rightarrow> Inl ''No such file''),
     te_key = (\<lambda>w f. case map_of w f of Some n \<Rightarrow> Inr n | None \<Rightarrow> Inl ''No such file''),
     te_mismatch = (\<lambda>cs k. if cs = [k] then None else Some ''keys differ''),
     te_usable_root = (\<lambda>_. True), te_verifier = Inr, te_verify = (\<lambda>v cs. hd cs \<in> set v)\<rparr>"

definition first_files :: "(string \<times> nat) list" where
  "first_files = [(''crt'', 1), (''key'', 1)]"

definition half_rotated :: "(string \<times> nat) list" where
  "half_rotated = [(''crt'', 2), (''key'', 1)]"

lemma demo_looked: "rc_pair (looked demo_tls ''crt'' ''key'' first_files [half_rotated]) = Some ([1], 1)"
  by code_simp

lemma served_pair_is_last_good_witness:
  "\<exists>vs u us. first_files # [half_rotated] = vs @ u # us \<and> pair_now demo_tls ''crt'' ''key'' u = Some ([1], 1)
    \<and> (\<forall>i < length us. pair_stamps demo_tls ''crt'' ''key'' (us ! i) \<noteq> pair_stamps demo_tls ''crt'' ''key'' ((u # us) ! i)
         \<longrightarrow> pair_now demo_tls ''crt'' ''key'' (us ! i) = None)"
  by (rule served_pair_is_last_good[OF demo_looked])

definition demo_server :: "(nat list \<times> nat, nat list) tls_server" where
  "demo_server = \<lparr>ts_pair = reloading_cert_new demo_tls ''crt'' ''key'' first_files,
     ts_clients = Some (reloading_verifier_new demo_tls [''ca''] [(''ca'', 9)])\<rparr>"

definition status_request :: request where
  "status_request = \<lparr>rq_path = ''/api/v1/status'', rq_cert_verified = False, rq_authorization = None, rq_cookie = None\<rparr>"

lemma unreadable_cas_authenticate_nobody_witness:
  "\<not> snd (require_auth demo_disk 0 status_request (Some demo_auth))"
proof (rule unreadable_cas_authenticate_nobody)
  show "ts_clients demo_server = Some (reloading_verifier_new demo_tls [''ca''] [(''ca'', 9)])"
    by (simp add: demo_server_def)
  show "usable_roots demo_tls (rv_files (reloading_verifier_new demo_tls [''ca''] [(''ca'', 9)])) first_files = []"
    by code_simp
  show "rv_stamps (reloading_verifier_new demo_tls [''ca''] [(''ca'', 9)])
      \<noteq> map (te_stamp demo_tls first_files) (rv_files (reloading_verifier_new demo_tls [''ca''] [(''ca'', 9)]))"
    by code_simp
  show "serve_request demo_tls first_files [] status_request demo_server = (demo_server, Some status_request)"
    by code_simp
qed (simp_all add: status_request_def is_public_def starts_with_def)

lemma repair_without_stamp_is_missed_witness:
  "rc_pair (reloading_cert_get demo_tls [(''crt'', 1), (''key'', 1)] \<lparr>rc_cert = ''crt'', rc_key = ''key'',
     rc_stamps = (Some (1, 1), Some (1, 1)), rc_pair = Some ([7], 7)\<rparr>) = Some ([7], 7)"
  by (rule repair_without_stamp_is_missed[where q = "([1], 1)"]) code_simp+

end
