(* ===== verification/Daemon.thy ===== *)
theory Daemon
  imports Api Tls Backup Reaper
begin

text \<open>
  \<open>crates/stormd/src/main.rs\<close>: what stormd makes of its configuration when it starts, the order of its
  start and which failures end it, the health check it runs as a client, and how it shuts down. What the
  parts do is in their own theories.
\<close>

section \<open>From the configuration\<close>

definition ui_plugins_of :: "config \<Rightarrow> ui_plugin list" where
  "ui_plugins_of c = List.map_filter (\<lambda>p. map_option (\<lambda>ui.
     \<lparr>pl_name = pc_name p, pl_label = ui_label ui, pl_proxy_url = ui_proxy ui, pl_host = ui_host ui,
      pl_summary_url = ui_summary ui\<rparr>) (pc_ui p)) (cf_process c)"

definition route_plugin :: "env_map \<Rightarrow> ui_plugin \<Rightarrow> env_map" where
  "route_plugin routes p =
     (case pl_host p of
        None \<Rightarrow> routes
      | Some h \<Rightarrow>
          (let k = map ascii_lower h
           in (k, ''/ui/proxy/'' @ pl_name p @ ''/'') # filter (\<lambda>x. fst x \<noteq> k) routes))"

definition host_routes_of :: "config \<Rightarrow> env_map" where
  "host_routes_of c = foldl route_plugin (ac_hosts (cf_api c)) (ui_plugins_of c)"

definition stormlog_config_of :: "config \<Rightarrow> stormlog_config" where
  "stormlog_config_of c =
     (let s = cf_stormlog c in s\<lparr>slc_file := (slc_file s)\<lparr>fc_log_dir := gc_log_dir (cf_general c)\<rparr>\<rparr>)"

definition log_dir_overridden :: "config \<Rightarrow> bool" where
  "log_dir_overridden c \<longleftrightarrow>
     fc_log_dir (slc_file (cf_stormlog c)) \<noteq> fc_log_dir file_config_default
     \<and> fc_log_dir (slc_file (cf_stormlog c)) \<noteq> gc_log_dir (cf_general c)"

definition uses_goldens :: "config \<Rightarrow> bool" where
  "uses_goldens c \<longleftrightarrow> (\<exists>p \<in> set (cf_process c). pc_golden p \<noteq> [])"

text \<open>The processes the start order starts, and those nothing ever will.\<close>

definition started_processes :: "config \<Rightarrow> process_config list" where
  "started_processes c = filter (\<lambda>p. pc_image p = None) (cf_process c)"

definition never_started :: "config \<Rightarrow> process_config list" where
  "never_started c = (if uc_enabled (cf_updater c) then [] else filter (\<lambda>p. pc_image p \<noteq> None) (cf_process c))"

definition app_setup_of :: "config \<Rightarrow> string \<Rightarrow> app_setup" where
  "app_setup_of c cloud_id = \<lparr>ai_debug_enabled = dc_enabled (cf_debug c), ai_allow_signal = dc_allow_signal (cf_debug c),
     ai_allow_stdin = dc_allow_stdin (cf_debug c), ai_log_dir = gc_log_dir (cf_general c),
     ai_container_name = gc_name (cf_general c), ai_cloud_id = cloud_id, ai_ui_plugins = ui_plugins_of c,
     ai_host_routes = host_routes_of c\<rparr>"

section \<open>The start\<close>

datatype boot_step =
    InstallApplets | LoadConfig | LoadTls | BindApi | ResolveCloudId | ConnectEvents | EmitStarting | StartLog
  | MakeLogDir | StartExitHandler | RegisterCron | StartUpdater | StartProcesses | RefreshKeys | StartSsh | ServeApi

text \<open>What the steps that can fail say: \<open>None\<close> is success. Each failure ends stormd with status 1.\<close>

record boot_results =
  br_config :: "string + config"
  br_tls :: "string option"
  br_bind :: "string option"
  br_events :: "string option"
  br_log_dir :: "string option"
  br_cron :: "string option"

fun do_steps :: "(boot_step \<times> string option) list \<Rightarrow> boot_step list \<times> string option" where
  "do_steps [] = ([], None)"
| "do_steps ((s, Some e) # ss) = ([s], Some e)"
| "do_steps ((s, None) # ss) = (case do_steps ss of (done, r) \<Rightarrow> (s # done, r))"

definition only_if :: "bool \<Rightarrow> boot_step \<Rightarrow> (boot_step \<times> string option) list" where
  "only_if b s = (if b then [(s, None)] else [])"

definition boot_steps :: "boot_results \<Rightarrow> config \<Rightarrow> (boot_step \<times> string option) list" where
  "boot_steps r c =
     [(LoadTls, br_tls r), (BindApi, br_bind r), (ResolveCloudId, None)]
     @ (if ec_enabled (cf_events c) then [(ConnectEvents, br_events r)] else [])
     @ [(EmitStarting, None), (StartLog, None), (MakeLogDir, br_log_dir r), (StartExitHandler, None)]
     @ (if cf_cron c \<noteq> [] then [(RegisterCron, br_cron r)] else [])
     @ only_if (uc_enabled (cf_updater c)) StartUpdater @ [(StartProcesses, None)]
     @ only_if (sc_enabled (cf_ssh c) \<and> sc_owner (cf_ssh c) \<noteq> None) RefreshKeys
     @ [(StartSsh, None), (ServeApi, None)]"

definition boot_daemon :: "boot_results \<Rightarrow> boot_step list \<times> string option" where
  "boot_daemon r =
     (case br_config r of
        Inl e \<Rightarrow> ([InstallApplets, LoadConfig], Some e)
      | Inr c \<Rightarrow> (case do_steps (boot_steps r c) of (done, x) \<Rightarrow> ([InstallApplets, LoadConfig] @ done, x)))"

section \<open>The health check\<close>

text \<open>Plain HTTP first, and HTTPS where that gets no answer at all; the exit status.\<close>

definition healthcheck :: "(string \<Rightarrow> string + nat) \<Rightarrow> u16 \<Rightarrow> int" where
  "healthcheck get port =
     (let path = ''127.0.0.1:'' @ show_nat (unat port) @ ''/api/v1/health'';
          r = (case get (''http://'' @ path) of Inr code \<Rightarrow> Inr code | Inl _ \<Rightarrow> get (''https://'' @ path))
      in case r of Inr code \<Rightarrow> if 200 \<le> code \<and> code < 300 then 0 else 1 | Inl _ \<Rightarrow> 1)"

section \<open>Shutting down\<close>

definition shutdown_deadline_secs :: u64 where "shutdown_deadline_secs = 30"
definition shutdown_margin_secs :: u64 where "shutdown_margin_secs = 20"

text \<open>When the watchdog ends stormd: \<open>None\<close> is a supervisor that does not tell its budget within a second.\<close>

definition deadline :: "u64 option \<Rightarrow> u64" where
  "deadline budget =
     max ((case budget of Some b \<Rightarrow> b | None \<Rightarrow> 0) + shutdown_margin_secs) shutdown_deadline_secs"

record 'w shutdown_calls =
  sd_emit_stopping :: "'w \<Rightarrow> 'w"
  sd_stop_all :: "'w \<Rightarrow> 'w"
  sd_stop_cron :: "'w \<Rightarrow> 'w"
  sd_join_start :: "'w \<Rightarrow> 'w"
  sd_release_goldens :: "('w \<Rightarrow> 'w) option"
  sd_flush :: "'w \<Rightarrow> 'w"
  sd_failed :: "'w \<Rightarrow> bool"
  sd_backup :: "'w \<Rightarrow> 'w"

definition graceful_shutdown :: "'w shutdown_calls \<Rightarrow> bool \<Rightarrow> 'w \<Rightarrow> 'w" where
  "graceful_shutdown sd backup_on_failure w =
     (let w1 = sd_stop_all sd (sd_join_start sd (sd_stop_cron sd (sd_stop_all sd (sd_emit_stopping sd w))));
          w2 = (case sd_release_goldens sd of Some f \<Rightarrow> f w1 | None \<Rightarrow> w1);
          w3 = sd_flush sd w2
      in if sd_failed sd w3 \<and> backup_on_failure then sd_backup sd w3 else w3)"

definition exit_code :: "i32 option \<Rightarrow> bool \<Rightarrow> i32" where
  "exit_code requested failed = (case requested of Some c \<Rightarrow> c | None \<Rightarrow> if failed then 1 else 0)"

section \<open>Network settings\<close>

definition sysctls :: "(string \<times> string) list" where
  "sysctls =
    [(''/proc/sys/net/ipv4/icmp_echo_ignore_all'', ''0''), (''/proc/sys/net/ipv4/conf/all/accept_local'', ''1''),
     (''/proc/sys/net/ipv4/ip_forward'', ''1''), (''/proc/sys/net/ipv4/conf/all/arp_ignore'', ''0''),
     (''/proc/sys/net/ipv4/conf/all/arp_announce'', ''0''), (''/proc/sys/net/ipv4/conf/all/accept_redirects'', ''1''),
     (''/proc/sys/net/ipv6/conf/all/disable_ipv6'', ''0'')]"

definition init_network_sysctls :: "'w os \<Rightarrow> 'w \<Rightarrow> 'w" where
  "init_network_sysctls os w = foldl (\<lambda>w (p, v). fst (os_write os p v w)) w sysctls"

section \<open>What holds of a start and an end\<close>

text \<open>The watchdog gives the stop its whole budget and its margin, where the sum fits.\<close>

lemma deadline_covers_budget:
  assumes "unat b + 20 < 2 ^ 64"
  shows "unat b + 20 \<le> unat (deadline (Some b))"
proof -
  have "unat (b + 20) = unat b + 20" using assms by (subst unat_add_lem[THEN iffD1]) simp_all
  then have "unat b + 20 = unat (b + shutdown_margin_secs)" by (simp add: shutdown_margin_secs_def)
  also have "\<dots> \<le> unat (deadline (Some b))"
    unfolding deadline_def by (simp add: word_le_nat_alt[symmetric])
  finally show ?thesis .
qed

lemma deadline_at_least: "30 \<le> deadline budget"
  by (simp add: deadline_def shutdown_deadline_secs_def)

lemma do_steps_fine: "list_all (\<lambda>x. snd x = None) ys \<Longrightarrow> snd (do_steps ys) = None"
  by (induction ys rule: do_steps.induct) (auto split: prod.splits)

lemma do_steps_fail:
  "do_steps (xs @ ys) = (done, Some e) \<Longrightarrow> list_all (\<lambda>x. snd x = None) ys \<Longrightarrow>
     (\<exists>zs. do_steps xs = (zs, Some e) \<and> done = zs)"
proof (induction xs arbitrary: "done")
  case Nil
  then show ?case using do_steps_fine[of ys] by simp
next
  case (Cons x xs)
  then show ?case by (cases x; cases "snd x") (auto split: prod.splits)
qed

lemma do_steps_subset: "set (fst (do_steps xs)) \<subseteq> fst ` set xs"
  by (induction xs rule: do_steps.induct) (auto split: prod.splits)

text \<open>
  A start that fails has started nothing: when stormd gives up, no supervised process, no updater and no
  SSH server has been started, so nothing is left running that nobody supervises.
\<close>
theorem failed_boot_starts_nothing:
  assumes "boot_daemon r = (steps, Some e)"
  shows "set steps \<inter> {StartUpdater, StartProcesses, RefreshKeys, StartSsh, ServeApi} = {}"
proof (cases "br_config r")
  case (Inl x)
  then show ?thesis using assms by (auto simp: boot_daemon_def)
next
  case (Inr c)
  let ?early = "[(LoadTls, br_tls r), (BindApi, br_bind r), (ResolveCloudId, None)]
     @ (if ec_enabled (cf_events c) then [(ConnectEvents, br_events r)] else [])
     @ [(EmitStarting, None), (StartLog, None), (MakeLogDir, br_log_dir r), (StartExitHandler, None)]
     @ (if cf_cron c \<noteq> [] then [(RegisterCron, br_cron r)] else [])"
  let ?late = "only_if (uc_enabled (cf_updater c)) StartUpdater @ [(StartProcesses, None)]
     @ only_if (sc_enabled (cf_ssh c) \<and> sc_owner (cf_ssh c) \<noteq> None) RefreshKeys
     @ [(StartSsh, None), (ServeApi, None)]"
  obtain zs where steps: "do_steps (boot_steps r c) = (zs, Some e)" "steps = [InstallApplets, LoadConfig] @ zs"
    using assms Inr by (auto simp: boot_daemon_def split: prod.splits)
  have "boot_steps r c = ?early @ ?late" by (simp add: boot_steps_def)
  then have "do_steps ?early = (zs, Some e)"
    using do_steps_fail[of ?early ?late zs e] steps(1) by (auto simp: only_if_def)
  then have "set zs \<subseteq> fst ` set ?early" using do_steps_subset[of ?early] by simp
  then show ?thesis using steps(2) by (auto split: if_splits)
qed

lemma failed_boot_starts_nothing_witness:
  "set [InstallApplets, LoadConfig] \<inter> {StartUpdater, StartProcesses, RefreshKeys, StartSsh, ServeApi} = {}"
  by (rule failed_boot_starts_nothing[where e = "''no file''"
        and r = "\<lparr>br_config = Inl ''no file'', br_tls = None, br_bind = None, br_events = None, br_log_dir = None, br_cron = None\<rparr>"])
    (simp add: boot_daemon_def)

end
