(* ===== verification/Stormsh.thy ===== *)
theory Stormsh
  imports Http Components Auth
begin

text \<open>
  The console client \<open>crates/stormsh\<close>: its HTTP client (\<open>client.rs\<close>), the state it shows (\<open>app.rs\<close>) and the
  event loop with its keys (\<open>main.rs\<close>). Drawing is \<open>ratatui\<close>; reading a body into the types and the text
  of an HTTP error are parameters.
\<close>

section \<open>The client\<close>

record storm_client =
  cl_base_url :: string
  cl_token :: "string option"

record sh_process =
  sh_name :: string
  sh_state :: string
  sh_pid :: "u32 option"
  sh_exit_code :: "i32 option"
  sh_restarts :: u32
  sh_uptime_secs :: "int option"

record 'w sh_env =
  se_http :: "'w http_client"
  se_processes :: "json \<Rightarrow> string + sh_process list"
  se_cards :: "json \<Rightarrow> string + card list"
  se_status_error :: "http_answer \<Rightarrow> string"

text \<open>The token: from the file, the argument or the environment, in this order.\<close>

definition cli_token ::
    "(string \<Rightarrow> string + string) \<Rightarrow> string option \<Rightarrow> string option \<Rightarrow> string option \<Rightarrow> string + string option" where
  "cli_token read_file token_file token env =
     (case token_file of
        Some path \<Rightarrow> (case read_file path of Inl e \<Rightarrow> Inl (path @ '': '' @ e) | Inr t \<Rightarrow> Inr (Some (trim t)))
      | None \<Rightarrow> Inr (case token of Some t \<Rightarrow> Some t | None \<Rightarrow> env))"

definition client_new :: "string \<Rightarrow> u16 \<Rightarrow> string option \<Rightarrow> bool \<Rightarrow> storm_client" where
  "client_new host port token tls = \<lparr>cl_base_url =
     (if tls then ''https'' else ''http'') @ ''://'' @ host @ '':'' @ show_nat (unat port), cl_token = token\<rparr>"

definition authed :: "storm_client \<Rightarrow> http_request \<Rightarrow> http_request" where
  "authed c r = (case cl_token c of Some t \<Rightarrow> bearer_auth t r | None \<Rightarrow> r)"

definition client_get :: "storm_client \<Rightarrow> string \<Rightarrow> http_request" where
  "client_get c path = authed c (ask GET (cl_base_url c @ path))"

definition client_post :: "storm_client \<Rightarrow> string \<Rightarrow> http_request" where
  "client_post c path = authed c (ask POST (cl_base_url c @ path))"

definition send_checked :: "'w sh_env \<Rightarrow> http_request \<Rightarrow> 'w \<Rightarrow> 'w \<times> (string + http_answer)" where
  "send_checked e r w =
     (case se_http e r w of
        (w1, Inl err) \<Rightarrow> (w1, Inl err)
      | (w1, Inr a) \<Rightarrow> (w1, if 400 \<le> an_status a \<and> an_status a < 600 then Inl (se_status_error e a) else Inr a))"

definition read_json :: "(json \<Rightarrow> string + 'a) \<Rightarrow> 'w \<times> (string + http_answer) \<Rightarrow> 'w \<times> (string + 'a)" where
  "read_json decode r =
     (case r of
        (w, Inl err) \<Rightarrow> (w, Inl err)
      | (w, Inr a) \<Rightarrow> (w, case an_json a of Inl err \<Rightarrow> Inl err | Inr j \<Rightarrow> decode j))"

definition fetch_processes :: "'w sh_env \<Rightarrow> storm_client \<Rightarrow> 'w \<Rightarrow> 'w \<times> (string + sh_process list)" where
  "fetch_processes e c w = read_json (se_processes e) (send_checked e (client_get c ''/api/v1/processes'') w)"

definition fetch_cards :: "'w sh_env \<Rightarrow> storm_client \<Rightarrow> 'w \<Rightarrow> 'w \<times> (string + card list)" where
  "fetch_cards e c w = read_json (se_cards e) (send_checked e (client_get c ''/api/v1/components'') w)"

definition only_done :: "'w \<times> (string + http_answer) \<Rightarrow> 'w \<times> string option" where
  "only_done r = (case r of (w, Inl err) \<Rightarrow> (w, Some err) | (w, Inr _) \<Rightarrow> (w, None))"

definition invoke :: "'w sh_env \<Rightarrow> storm_client \<Rightarrow> string \<Rightarrow> string \<Rightarrow> 'w \<Rightarrow> 'w \<times> string option" where
  "invoke e c meth path w =
     only_done (send_checked e (if meth = ''GET'' then client_get c path else client_post c path) w)"

definition ask_process :: "string \<Rightarrow> 'w sh_env \<Rightarrow> storm_client \<Rightarrow> string \<Rightarrow> 'w \<Rightarrow> 'w \<times> string option" where
  "ask_process verb e c name w =
     only_done (send_checked e (client_post c (''/api/v1/processes/'' @ name @ ''/'' @ verb)) w)"

definition fetch_terminal :: "'w sh_env \<Rightarrow> storm_client \<Rightarrow> string \<Rightarrow> 'w \<Rightarrow> 'w \<times> (string + json)" where
  "fetch_terminal e c process w = read_json Inr (send_checked e (client_get c (''/api/v1/terminal/'' @ process)) w)"

section \<open>What is shown\<close>

datatype view = Dashboard | ProcessesView | TerminalView | LogsView

record tui =
  tu_view :: view
  tu_running :: bool
  tu_processes :: "sh_process list"
  tu_cards :: "card list"
  tu_selected :: nat
  tu_dash :: nat
  tu_terminal :: string
  tu_message :: string
  tu_connected :: bool

definition tui_new :: tui where
  "tui_new = \<lparr>tu_view = Dashboard, tu_running = True, tu_processes = [], tu_cards = [], tu_selected = 0, tu_dash = 0,
     tu_terminal = [], tu_message = [], tu_connected = False\<rparr>"

definition clamp_to :: "'a list \<Rightarrow> nat \<Rightarrow> nat" where
  "clamp_to xs i = (if length xs \<le> i \<and> xs \<noteq> [] then length xs - 1 else i)"

definition refresh_processes :: "'w sh_env \<Rightarrow> storm_client \<Rightarrow> tui \<times> 'w \<Rightarrow> tui \<times> 'w" where
  "refresh_processes e c s =
     (case fetch_processes e c (snd s) of
        (w, Inr ps) \<Rightarrow> ((fst s)\<lparr>tu_processes := ps, tu_connected := True, tu_selected := clamp_to ps (tu_selected (fst s))\<rparr>, w)
      | (w, Inl err) \<Rightarrow> ((fst s)\<lparr>tu_connected := False, tu_message := ''Connection error: '' @ err\<rparr>, w))"

definition refresh_components :: "'w sh_env \<Rightarrow> storm_client \<Rightarrow> tui \<times> 'w \<Rightarrow> tui \<times> 'w" where
  "refresh_components e c s =
     (case fetch_cards e c (snd s) of
        (w, Inr cs) \<Rightarrow> ((fst s)\<lparr>tu_cards := cs, tu_dash := clamp_to cs (tu_dash (fst s))\<rparr>, w)
      | (w, Inl _) \<Rightarrow> (fst s, w))"

definition item :: "'a list \<Rightarrow> nat \<Rightarrow> 'a option" where
  "item xs i = (if i < length xs then Some (xs ! i) else None)"

definition dash_selected :: "tui \<Rightarrow> card option" where
  "dash_selected t = item (tu_cards t) (tu_dash t)"

definition selected_process :: "tui \<Rightarrow> sh_process option" where
  "selected_process t = item (tu_processes t) (tu_selected t)"

definition tell :: "string option \<Rightarrow> string \<Rightarrow> tui \<Rightarrow> tui" where
  "tell err success t = t\<lparr>tu_message := (case err of None \<Rightarrow> success | Some e \<Rightarrow> ''Error: '' @ e)\<rparr>"

definition dash_action :: "'w sh_env \<Rightarrow> storm_client \<Rightarrow> string \<Rightarrow> tui \<times> 'w \<Rightarrow> tui \<times> 'w" where
  "dash_action e c action_id s =
     (case dash_selected (fst s) of
        None \<Rightarrow> s
      | Some card1 \<Rightarrow>
          (case find (\<lambda>a. ac_id a = action_id \<and> ac_enabled a) (cd_actions card1) of
             None \<Rightarrow> s
           | Some a \<Rightarrow>
               (case invoke e c (ac_method a) (ac_path a) (snd s) of
                  (w, r) \<Rightarrow> refresh_processes e c (refresh_components e c
                    (tell r (ac_label a @ '' '' @ cd_label card1) (fst s), w)))))"

definition step_up :: "'a list \<Rightarrow> nat \<Rightarrow> nat" where
  "step_up xs i = (if xs = [] then i else if i = 0 then length xs - 1 else i - 1)"

definition step_down :: "'a list \<Rightarrow> nat \<Rightarrow> nat" where
  "step_down xs i = (if xs = [] then i else (i + 1) mod length xs)"

definition dash_next :: "tui \<Rightarrow> tui" where "dash_next t = t\<lparr>tu_dash := step_down (tu_cards t) (tu_dash t)\<rparr>"
definition dash_prev :: "tui \<Rightarrow> tui" where "dash_prev t = t\<lparr>tu_dash := step_up (tu_cards t) (tu_dash t)\<rparr>"
definition select_next :: "tui \<Rightarrow> tui" where "select_next t = t\<lparr>tu_selected := step_down (tu_processes t) (tu_selected t)\<rparr>"
definition select_prev :: "tui \<Rightarrow> tui" where "select_prev t = t\<lparr>tu_selected := step_up (tu_processes t) (tu_selected t)\<rparr>"

section \<open>Keys\<close>

datatype key = CharKey char | EscKey | TabKey | UpKey | DownKey | LeftKey | RightKey | EnterKey | OtherKey

definition next_view :: "view \<Rightarrow> view" where
  "next_view v = (case v of Dashboard \<Rightarrow> ProcessesView | ProcessesView \<Rightarrow> TerminalView | TerminalView \<Rightarrow> LogsView | LogsView \<Rightarrow> Dashboard)"

definition by_view :: "(tui \<Rightarrow> tui) \<Rightarrow> (tui \<Rightarrow> tui) \<Rightarrow> tui \<Rightarrow> tui" where
  "by_view on_dash elsewhere t = (if tu_view t = Dashboard then on_dash t else elsewhere t)"

definition on_process ::
    "'w sh_env \<Rightarrow> storm_client \<Rightarrow> string \<Rightarrow> string \<Rightarrow> tui \<times> 'w \<Rightarrow> tui \<times> 'w" where
  "on_process e c verb did s =
     (if tu_view (fst s) = Dashboard then dash_action e c verb s
      else case selected_process (fst s) of
             None \<Rightarrow> s
           | Some p \<Rightarrow>
               (case ask_process verb e c (sh_name p) (snd s) of
                  (w, r) \<Rightarrow> refresh_processes e c (tell r (did @ '' '' @ sh_name p) (fst s), w)))"

definition chosen_process :: "tui \<Rightarrow> string option" where
  "chosen_process t =
     (case tu_view t of
        ProcessesView \<Rightarrow> map_option sh_name (selected_process t)
      | Dashboard \<Rightarrow> Option.bind (dash_selected t) (\<lambda>c. strip_prefix ''process:'' (cd_id c))
      | _ \<Rightarrow> None)"

definition name_index :: "string \<Rightarrow> sh_process list \<Rightarrow> nat option" where
  "name_index n ps = (let i = length (takeWhile (\<lambda>p. sh_name p \<noteq> n) ps) in if i < length ps then Some i else None)"

definition open_terminal :: "'w sh_env \<Rightarrow> storm_client \<Rightarrow> tui \<times> 'w \<Rightarrow> tui \<times> 'w" where
  "open_terminal e c s =
     (case chosen_process (fst s) of
        None \<Rightarrow> s
      | Some n \<Rightarrow>
          (let t = (case name_index n (tu_processes (fst s)) of Some i \<Rightarrow> (fst s)\<lparr>tu_selected := i\<rparr> | None \<Rightarrow> fst s)
           in case fetch_terminal e c n (snd s) of
                (w, Inr j) \<Rightarrow> (t\<lparr>tu_terminal := (case as_str (json_get j ''contents'') of Some x \<Rightarrow> x | None \<Rightarrow> []),
                                 tu_view := TerminalView\<rparr>, w)
              | (w, Inl err) \<Rightarrow> (t\<lparr>tu_message := ''Error: '' @ err\<rparr>, w)))"

text \<open>The keys that only move, and those that ask the daemon something.\<close>

definition quits :: "key \<Rightarrow> bool" where
  "quits k \<longleftrightarrow> k = EscKey \<or> k = CharKey (CHR ''q'')"

definition move_key :: "key \<Rightarrow> (tui \<Rightarrow> tui) option" where
  "move_key k =
     (if quits k then Some (\<lambda>t. t\<lparr>tu_running := False\<rparr>)
      else if k = CharKey (CHR ''1'') then Some (\<lambda>t. t\<lparr>tu_view := Dashboard\<rparr>)
      else if k = CharKey (CHR ''2'') then Some (\<lambda>t. t\<lparr>tu_view := ProcessesView\<rparr>)
      else if k = CharKey (CHR ''3'') \<or> k = CharKey (CHR ''t'') then Some (\<lambda>t. t\<lparr>tu_view := TerminalView\<rparr>)
      else if k = CharKey (CHR ''4'') \<or> k = CharKey (CHR ''l'') then Some (\<lambda>t. t\<lparr>tu_view := LogsView\<rparr>)
      else if k = TabKey then Some (\<lambda>t. t\<lparr>tu_view := next_view (tu_view t)\<rparr>)
      else if k = UpKey \<or> k = CharKey (CHR ''k'') then Some (by_view dash_prev select_prev)
      else if k = DownKey \<or> k = CharKey (CHR ''j'') then Some (by_view dash_next select_next)
      else if k = LeftKey \<or> k = CharKey (CHR ''h'') then Some (by_view dash_prev id)
      else if k = RightKey then Some (by_view dash_next id)
      else None)"

definition handle_key :: "'w sh_env \<Rightarrow> storm_client \<Rightarrow> key \<Rightarrow> tui \<times> 'w \<Rightarrow> tui \<times> 'w" where
  "handle_key e c k s =
     (case move_key k of
        Some f \<Rightarrow> (f (fst s), snd s)
      | None \<Rightarrow>
          if k = EnterKey then open_terminal e c s
          else if k = CharKey (CHR ''s'') then on_process e c ''start'' ''Started'' s
          else if k = CharKey (CHR ''x'') then on_process e c ''stop'' ''Stopped'' s
          else if k = CharKey (CHR ''r'') then on_process e c ''restart'' ''Restarted'' s
          else if k = CharKey (CHR ''u'') \<and> tu_view (fst s) = Dashboard then dash_action e c ''trigger'' s
          else s)"

section \<open>The event loop\<close>

text \<open>
  One turn: the screen is drawn, an event is handled if there is one, and after the tick everything is
  fetched again when time has passed since its deadline. A key that is released starts the next turn.
\<close>

datatype tui_event = NoEvent | KeyPress key | KeyOther | OtherEvent

definition refresh_all :: "'w sh_env \<Rightarrow> storm_client \<Rightarrow> tui \<times> 'w \<Rightarrow> tui \<times> 'w" where
  "refresh_all e c s =
     (case refresh_components e c (refresh_processes e c s) of (t, w) \<Rightarrow> (t\<lparr>tu_message := []\<rparr>, w))"

fun run_app :: "'w sh_env \<Rightarrow> storm_client \<Rightarrow> (tui_event \<times> bool) list \<Rightarrow> tui \<times> 'w \<Rightarrow> (tui \<times> 'w) \<times> tui list" where
  "run_app e c [] s = (s, [])"
| "run_app e c ((ev, passed) # evs) s =
     (let (s1, stop) = (case ev of KeyPress k \<Rightarrow> (handle_key e c k s, quits k) | _ \<Rightarrow> (s, False));
          s2 = (if ev \<noteq> KeyOther \<and> passed then refresh_all e c s1 else s1)
      in if stop then (s1, [fst s])
         else (case run_app e c evs s2 of (s3, drawn) \<Rightarrow> (s3, fst s # drawn)))"

definition start_app :: "'w sh_env \<Rightarrow> storm_client \<Rightarrow> 'w \<Rightarrow> tui \<times> 'w" where
  "start_app e c w = refresh_components e c (refresh_processes e c (tui_new, w))"

section \<open>The token both sides read\<close>

text \<open>The first \<open>authorization\<close> header of a request, as the daemon's middleware reads it.\<close>

definition arrives :: "http_request \<Rightarrow> string \<Rightarrow> request" where
  "arrives q path = \<lparr>rq_path = path, rq_cert_verified = False,
     rq_authorization = map_of (rq_headers q) ''authorization'', rq_cookie = map_of (rq_headers q) ''cookie''\<rparr>"

text \<open>
  A client pointed at the token file of the daemon gets through: whatever white space is around the token in
  the file, the daemon that has read the same text accepts what the client sends with any of its requests.
\<close>
theorem token_file_is_understood:
  assumes "cli_token read_file (Some path) tok env = Inr t" "read_file path = Inr body" "trim body \<noteq> []"
    and "at_token_file a = Some f" "od_stamp d = None \<or> tf_stamp f \<noteq> od_stamp d" "od_text d = Some body"
  shows "snd (bearer_ok d (arrives (client_get (client_new h port t tls) p) p) a)
    \<and> snd (bearer_ok d (arrives (client_post (client_new h port t tls) p) p) a)"
proof -
  have t: "t = Some (trim body)" using assms(1,2) by (simp add: cli_token_def)
  have "trim body \<in> set (snd (tokens d a))"
    using assms(3-6) by (auto simp: tokens_def token_current_def read_token_def Let_def split: option.splits)
  then show ?thesis unfolding bearer_ok_iff t
    by (auto simp: arrives_def client_get_def client_post_def client_new_def authed_def bearer_auth_def with_header_def ask_def)
qed

section \<open>What the user can see\<close>

text \<open>A cursor denotes an item of its list, where the list has any.\<close>

definition cursors_ok :: "tui \<Rightarrow> bool" where
  "cursors_ok t \<longleftrightarrow> (tu_processes t \<noteq> [] \<longrightarrow> tu_selected t < length (tu_processes t))
     \<and> (tu_cards t \<noteq> [] \<longrightarrow> tu_dash t < length (tu_cards t))"

lemma clamp_to_less: "xs \<noteq> [] \<Longrightarrow> clamp_to xs i < length xs"
  by (cases xs) (auto simp: clamp_to_def)

lemma step_up_less: "xs \<noteq> [] \<Longrightarrow> i < length xs \<Longrightarrow> step_up xs i < length xs"
  by (auto simp: step_up_def)

lemma step_down_less: "xs \<noteq> [] \<Longrightarrow> step_down xs i < length xs"
  by (auto simp: step_down_def)

lemma name_index_less: "name_index n ps = Some i \<Longrightarrow> i < length ps"
  by (auto simp: name_index_def Let_def split: if_splits)

lemma cursors_refresh_processes: "cursors_ok (fst s) \<Longrightarrow> cursors_ok (fst (refresh_processes e c s))"
  by (auto simp: cursors_ok_def refresh_processes_def clamp_to_less split: prod.splits sum.splits)

lemma cursors_refresh_components: "cursors_ok (fst s) \<Longrightarrow> cursors_ok (fst (refresh_components e c s))"
  by (auto simp: cursors_ok_def refresh_components_def clamp_to_less split: prod.splits sum.splits)

lemma cursors_tell [simp]: "cursors_ok (tell r m t) = cursors_ok t"
  by (simp add: cursors_ok_def tell_def)

lemma cursors_dash_action: "cursors_ok (fst s) \<Longrightarrow> cursors_ok (fst (dash_action e c a s))"
  by (auto simp: dash_action_def intro!: cursors_refresh_processes cursors_refresh_components split: option.splits prod.splits)

lemma cursors_on_process: "cursors_ok (fst s) \<Longrightarrow> cursors_ok (fst (on_process e c v m s))"
  by (auto simp: on_process_def intro!: cursors_refresh_processes cursors_dash_action split: option.splits prod.splits)

lemma cursors_open_terminal: "cursors_ok (fst s) \<Longrightarrow> cursors_ok (fst (open_terminal e c s))"
  by (auto simp: open_terminal_def cursors_ok_def Let_def dest: name_index_less
      split: option.splits prod.splits sum.splits)

lemma cursors_by_view: "cursors_ok (f t) \<Longrightarrow> cursors_ok (g t) \<Longrightarrow> cursors_ok (by_view f g t)"
  by (simp add: by_view_def)

lemma cursors_moves:
  assumes "cursors_ok t"
  shows "cursors_ok (dash_prev t)" "cursors_ok (dash_next t)" "cursors_ok (select_prev t)" "cursors_ok (select_next t)"
  using assms
  by (auto simp: dash_prev_def dash_next_def select_prev_def select_next_def cursors_ok_def step_up_less step_down_less)

lemma if_Some_cases: "(if c then Some g else r) = Some f \<Longrightarrow> (f = g \<Longrightarrow> P) \<Longrightarrow> (r = Some f \<Longrightarrow> P) \<Longrightarrow> P"
  by (cases c) simp_all

lemma cursors_move_key:
  assumes "move_key k = Some f" "cursors_ok t"
  shows "cursors_ok (f t)"
  using assms(1) unfolding move_key_def
  by (elim if_Some_cases)
    (use assms(2) in \<open>simp_all add: cursors_by_view cursors_moves, simp_all add: cursors_ok_def\<close>)

lemma cursors_handle_key: "cursors_ok (fst s) \<Longrightarrow> cursors_ok (fst (handle_key e c k s))"
  by (auto simp: handle_key_def cursors_move_key cursors_open_terminal cursors_on_process cursors_dash_action
      split: option.splits)

lemma cursors_refresh_all: "cursors_ok (fst s) \<Longrightarrow> cursors_ok (fst (refresh_all e c s))"
  using cursors_refresh_components[OF cursors_refresh_processes, of s e c e c]
  by (cases "refresh_components e c (refresh_processes e c s)") (simp add: refresh_all_def cursors_ok_def)

lemma cursors_start: "cursors_ok (fst (start_app e c w))"
  unfolding start_app_def
  by (intro cursors_refresh_components cursors_refresh_processes) (simp add: cursors_ok_def tui_new_def)

text \<open>What a turn leaves, and how the rest of the run goes on from there.\<close>

definition turn :: "'w sh_env \<Rightarrow> storm_client \<Rightarrow> tui_event \<Rightarrow> bool \<Rightarrow> tui \<times> 'w \<Rightarrow> tui \<times> 'w" where
  "turn e c ev passed s =
     (let s1 = (case ev of KeyPress k \<Rightarrow> handle_key e c k s | _ \<Rightarrow> s)
      in if ev \<noteq> KeyOther \<and> passed then refresh_all e c s1 else s1)"

lemma run_app_turn:
  "run_app e c ((ev, passed) # evs) s =
     (if (case ev of KeyPress k \<Rightarrow> quits k | _ \<Rightarrow> False)
      then (case ev of KeyPress k \<Rightarrow> handle_key e c k s | _ \<Rightarrow> s, [fst s])
      else (case run_app e c evs (turn e c ev passed s) of (s3, drawn) \<Rightarrow> (s3, fst s # drawn)))"
  by (cases ev) (simp_all add: turn_def Let_def)

lemma cursors_turn: "cursors_ok (fst s) \<Longrightarrow> cursors_ok (fst (turn e c ev p s))"
  by (cases ev) (simp_all add: turn_def Let_def cursors_refresh_all cursors_handle_key)

lemma run_app_keeps:
  fixes s :: "tui \<times> 'w"
  assumes "\<And>ev p (s :: tui \<times> 'w). (ev, p) \<in> set evs \<Longrightarrow> P (fst s) \<Longrightarrow> P (fst (turn e c ev p s))" "P (fst s)"
  shows "list_all P (snd (run_app e c evs s))"
  using assms
proof (induction evs arbitrary: s)
  case Nil
  then show ?case by simp
next
  case (Cons x xs)
  obtain ev p where x: "x = (ev, p)" by (cases x)
  have "list_all P (snd (run_app e c xs (turn e c ev p s)))"
    using Cons.prems x by (intro Cons.IH) auto
  then show ?case using Cons.prems(2) unfolding x run_app_turn by (auto split: prod.splits)
qed

lemma cursors_in_frames: "list_all cursors_ok (snd (run_app e c evs (start_app e c w)))"
  by (rule run_app_keeps) (simp_all add: cursors_turn cursors_start)

text \<open>Whatever keys are pressed and whatever the daemon answers, in every frame that is drawn the highlighted
  process and the highlighted card are items of their lists, where these have any.
\<close>
theorem cursors_stay_on_items: "list_all cursors_ok (snd (run_app e c evs (start_app e c w)))"
  by (rule cursors_in_frames)

text \<open>
  The status line is never seen: as the tick is in the past whenever it has been awaited, every turn ends
  by clearing the message it may have set, so that no frame drawn after a first one without a message has
  one, whatever is started or stopped and however often the connection fails.
\<close>
theorem status_line_is_never_drawn:
  fixes s :: "tui \<times> 'w"
  assumes "list_all snd evs" "tu_message (fst s) = []"
  shows "list_all (\<lambda>t. tu_message t = []) (snd (run_app e c evs s))"
proof (rule run_app_keeps)
  fix ev p and s :: "tui \<times> 'w"
  assume "(ev, p) \<in> set evs" "tu_message (fst s) = []"
  moreover from this(1) have p using assms(1) by (auto simp: list_all_iff)
  ultimately show "tu_message (fst (turn e c ev p s)) = []"
    by (auto simp: turn_def refresh_all_def split: tui_event.splits prod.splits)
qed (rule assms(2))

section \<open>Witnesses\<close>

text \<open>A daemon that answers nothing; the key \<open>s\<close> in the process list sets a message that is not seen.\<close>

definition silent_env :: "unit sh_env" where
  "silent_env = \<lparr>se_http = (\<lambda>_ w. (w, Inl ''refused'')), se_processes = (\<lambda>_. Inr []), se_cards = (\<lambda>_. Inr []),
     se_status_error = (\<lambda>_. [])\<rparr>"

definition one_process :: tui where
  "one_process = tui_new\<lparr>tu_view := ProcessesView, tu_processes := [\<lparr>sh_name = ''web'', sh_state = ''Stopped'',
     sh_pid = None, sh_exit_code = None, sh_restarts = 0, sh_uptime_secs = None\<rparr>]\<rparr>"

lemma a_message_was_set:
  "tu_message (fst (handle_key silent_env (client_new ''h'' 80 None False) (CharKey (CHR ''s'')) (one_process, ())))
     = ''Connection error: refused''"
  by code_simp

lemma status_line_is_never_drawn_witness:
  "list_all (\<lambda>t. tu_message t = []) (snd (run_app silent_env (client_new ''h'' 80 None False)
     [(KeyPress (CharKey (CHR ''s'')), True), (NoEvent, True)] (one_process, ())))"
  by (rule status_line_is_never_drawn) (simp_all add: one_process_def tui_new_def)

definition fresh_daemon :: auth_state where
  "fresh_daemon = demo_auth\<lparr>at_token_file := Some \<lparr>tf_path = ''/token'', tf_stamp = None, tf_token = None\<rparr>\<rparr>"

lemma token_file_is_understood_witness:
  "snd (bearer_ok demo_disk (arrives (client_get (client_new ''h'' 80 (Some ''tok'') False) ''/x'') ''/x'') fresh_daemon)
    \<and> snd (bearer_ok demo_disk (arrives (client_post (client_new ''h'' 80 (Some ''tok'') False) ''/x'') ''/x'') fresh_daemon)"
  by (rule token_file_is_understood[where read_file = "\<lambda>_. Inr ''tok ''" and path = "''/token''" and body = "''tok ''"
        and f = "\<lparr>tf_path = ''/token'', tf_stamp = None, tf_token = None\<rparr>"])
    (code_simp | simp add: fresh_daemon_def demo_disk_def)+

end
