(* ===== verification/Terminal.thy ===== *)
theory Terminal
  imports Prelude
begin

text \<open>
  \<open>crates/stormlog/src/terminal.rs\<close>: one screen per process, fed with what the process writes. The parser
  and its screen are the crate \<open>vt100\<close>: a parameter over parser states \<open>'p\<close>.
\<close>

record 'p vt100 =
  vt_new :: "u16 \<Rightarrow> u16 \<Rightarrow> 'p"
  vt_process :: "u8 list \<Rightarrow> 'p \<Rightarrow> 'p"
  vt_contents :: "'p \<Rightarrow> string"
  vt_size :: "'p \<Rightarrow> u16 \<times> u16"
  vt_cursor :: "'p \<Rightarrow> u16 \<times> u16"
  vt_cell :: "'p \<Rightarrow> nat \<Rightarrow> nat \<Rightarrow> u8 list option"

record 'p process_terminal =
  pt_parser :: 'p
  pt_process :: string

definition process_terminal_new :: "'p vt100 \<Rightarrow> string \<Rightarrow> u16 \<Rightarrow> u16 \<Rightarrow> 'p process_terminal" where
  "process_terminal_new vt process rows cols = \<lparr>pt_parser = vt_new vt rows cols, pt_process = process\<rparr>"

definition terminal_process :: "'p vt100 \<Rightarrow> u8 list \<Rightarrow> 'p process_terminal \<Rightarrow> 'p process_terminal" where
  "terminal_process vt bytes t = t\<lparr>pt_parser := vt_process vt bytes (pt_parser t)\<rparr>"

definition terminal_text :: "'p vt100 \<Rightarrow> 'p process_terminal \<Rightarrow> string" where
  "terminal_text vt t = vt_contents vt (pt_parser t)"

record screen_snapshot =
  sn_process :: string
  sn_rows :: u16
  sn_cols :: u16
  sn_contents :: string
  sn_cursor_row :: u16
  sn_cursor_col :: u16

definition terminal_snap :: "'p vt100 \<Rightarrow> 'p process_terminal \<Rightarrow> screen_snapshot" where
  "terminal_snap vt t =
     (let p = pt_parser t
      in \<lparr>sn_process = pt_process t, sn_rows = fst (vt_size vt p), sn_cols = snd (vt_size vt p),
          sn_contents = vt_contents vt p, sn_cursor_row = fst (vt_cursor vt p), sn_cursor_col = snd (vt_cursor vt p)\<rparr>)"

text \<open>The raw contents, cell by cell; \<open>None\<close> is the panic of a cell outside the screen.\<close>

fun row_bytes :: "'p vt100 \<Rightarrow> 'p \<Rightarrow> nat \<Rightarrow> nat list \<Rightarrow> u8 list option" where
  "row_bytes vt p row [] = Some []"
| "row_bytes vt p row (c # cs) =
     (case vt_cell vt p row c of None \<Rightarrow> None | Some b \<Rightarrow> map_option ((@) b) (row_bytes vt p row cs))"

fun rows_bytes :: "'p vt100 \<Rightarrow> 'p \<Rightarrow> nat list \<Rightarrow> u8 list option" where
  "rows_bytes vt p [] = Some []"
| "rows_bytes vt p (r # rs) =
     (case row_bytes vt p r [0..<unat (snd (vt_size vt p))] of
        None \<Rightarrow> None
      | Some b \<Rightarrow> map_option (\<lambda>x. b @ (if r < unat (fst (vt_size vt p)) - 1 then [13, 10] else []) @ x) (rows_bytes vt p rs))"

definition contents_formatted :: "'p vt100 \<Rightarrow> 'p process_terminal \<Rightarrow> u8 list option" where
  "contents_formatted vt t = rows_bytes vt (pt_parser t) [0..<unat (fst (vt_size vt (pt_parser t)))]"

section \<open>The screens of all processes\<close>

record 'p terminal_manager =
  tm_terminals :: "string \<rightharpoonup> 'p process_terminal"
  tm_rows :: u16
  tm_cols :: u16

definition terminal_manager_new :: "u16 \<Rightarrow> u16 \<Rightarrow> 'p terminal_manager" where
  "terminal_manager_new rows cols = \<lparr>tm_terminals = Map.empty, tm_rows = rows, tm_cols = cols\<rparr>"

definition terminal_feed :: "'p vt100 \<Rightarrow> string \<Rightarrow> u8 list \<Rightarrow> 'p terminal_manager \<Rightarrow> 'p terminal_manager" where
  "terminal_feed vt process bytes m =
     (let t = (case tm_terminals m process of
                 Some t \<Rightarrow> t | None \<Rightarrow> process_terminal_new vt process (tm_rows m) (tm_cols m))
      in m\<lparr>tm_terminals := (tm_terminals m)(process \<mapsto> terminal_process vt bytes t)\<rparr>)"

definition screen_of :: "'p vt100 \<Rightarrow> string \<Rightarrow> 'p terminal_manager \<Rightarrow> screen_snapshot option" where
  "screen_of vt process m = map_option (terminal_snap vt) (tm_terminals m process)"

definition screen_text :: "'p vt100 \<Rightarrow> string \<Rightarrow> 'p terminal_manager \<Rightarrow> string option" where
  "screen_text vt process m = map_option (terminal_text vt) (tm_terminals m process)"

definition terminal_remove :: "string \<Rightarrow> 'p terminal_manager \<Rightarrow> 'p terminal_manager" where
  "terminal_remove process m = m\<lparr>tm_terminals := (tm_terminals m)(process := None)\<rparr>"

text \<open>The order of the listed names is that of a hash map; here they are a set.\<close>

definition terminal_processes :: "'p terminal_manager \<Rightarrow> string set" where
  "terminal_processes m = dom (tm_terminals m)"

section \<open>What a screen depends on\<close>

datatype terminal_op = Feed string "u8 list" | Remove string

fun terminal_step :: "'p vt100 \<Rightarrow> terminal_op \<Rightarrow> 'p terminal_manager \<Rightarrow> 'p terminal_manager" where
  "terminal_step vt (Feed p bytes) m = terminal_feed vt p bytes m"
| "terminal_step vt (Remove p) m = terminal_remove p m"

definition terminal_ops :: "'p vt100 \<Rightarrow> terminal_op list \<Rightarrow> 'p terminal_manager \<Rightarrow> 'p terminal_manager" where
  "terminal_ops vt ops m = foldl (\<lambda>m x. terminal_step vt x m) m ops"

text \<open>The bytes a process has written since its screen was last removed; \<open>None\<close> when it has written none.\<close>

fun written :: "string \<Rightarrow> terminal_op list \<Rightarrow> u8 list list option \<Rightarrow> u8 list list option" where
  "written p [] acc = acc"
| "written p (Feed q bytes # ops) acc =
     written p ops (if q = p then Some ((case acc of Some bs \<Rightarrow> bs | None \<Rightarrow> []) @ [bytes]) else acc)"
| "written p (Remove q # ops) acc = written p ops (if q = p then None else acc)"

definition shown_after :: "'p vt100 \<Rightarrow> u16 \<Rightarrow> u16 \<Rightarrow> string \<Rightarrow> u8 list list \<Rightarrow> 'p process_terminal" where
  "shown_after vt rows cols p bs = \<lparr>pt_parser = foldl (\<lambda>x b. vt_process vt b x) (vt_new vt rows cols) bs, pt_process = p\<rparr>"

lemma terminal_step_size [simp]: "tm_rows (terminal_step vt x m) = tm_rows m" "tm_cols (terminal_step vt x m) = tm_cols m"
  by (cases x; simp add: terminal_feed_def terminal_remove_def Let_def)+

lemma terminal_ops_shows:
  "tm_terminals m p = map_option (shown_after vt (tm_rows m) (tm_cols m) p) acc \<Longrightarrow>
     tm_terminals (terminal_ops vt ops m) p = map_option (shown_after vt (tm_rows m) (tm_cols m) p) (written p ops acc)"
proof (induction ops arbitrary: m acc)
  case Nil
  then show ?case by (simp add: terminal_ops_def)
next
  case (Cons x ops)
  have step: "terminal_ops vt (x # ops) m = terminal_ops vt ops (terminal_step vt x m)"
    by (simp add: terminal_ops_def)
  define acc1 where "acc1 = written p [x] acc"
  have w: "written p (x # ops) acc = written p ops acc1"
    by (cases x) (simp_all add: acc1_def)
  have "tm_terminals (terminal_step vt x m) p = map_option (shown_after vt (tm_rows m) (tm_cols m) p) acc1"
    using Cons.prems unfolding acc1_def
    by (cases x; cases acc)
      (auto simp: terminal_feed_def terminal_remove_def terminal_process_def process_terminal_new_def shown_after_def Let_def)
  then show ?case
    unfolding step w using Cons.IH[of "terminal_step vt x m" acc1] by simp
qed

text \<open>
  A screen shows what its own process has written, chunk by chunk, since the screen was last removed, and
  nothing of any other process; a process that has written nothing has no screen.
\<close>
theorem screen_shows_own_output:
  "screen_of vt p (terminal_ops vt ops (terminal_manager_new rows cols))
     = map_option (\<lambda>bs. terminal_snap vt (shown_after vt rows cols p bs)) (written p ops None)"
proof -
  have "tm_terminals (terminal_manager_new rows cols) p = map_option (shown_after vt rows cols p) None"
    by (simp add: terminal_manager_new_def)
  from terminal_ops_shows[where m = "terminal_manager_new rows cols" and acc = None and vt = vt and ops = ops and p = p] this
  show ?thesis by (simp add: screen_of_def terminal_manager_new_def option.map_comp comp_def)
qed

end
