(* ===== verification/ApiFiles.thy ===== *)
theory ApiFiles
  imports ApiHealth FileSys Http
begin

text \<open>
  The rest of \<open>crates/stormd/src/apihealth.rs\<close>: one probe over the network, the state file that PID 1
  reads and the history of changes. The HTTP client, the rendering of JSON and of times are parameters.
\<close>

section \<open>One probe\<close>

text \<open>
  What sending a request gives: an error (and whether it is a timeout), or a status with how reading the
  body ended, the milliseconds since the start included.
\<close>

datatype body_end = WholeBody u64 | BodyError bool string
datatype sent = SendError bool string | Replied u16 body_end

definition no_answer :: "bool \<Rightarrow> string \<Rightarrow> seen" where
  "no_answer timeout e = (if timeout then TimedOut else ProbeError e)"

definition probe_request :: "reader \<Rightarrow> api_probe \<Rightarrow> http_request" where
  "probe_request rd a =
     (let q = ask GET (ap_url a)
      in case ap_token_file a of
           None \<Rightarrow> q
         | Some f \<Rightarrow> (case rd f of Inr t \<Rightarrow> if trim t = [] then q else bearer_auth (trim t) q | Inl _ \<Rightarrow> q))"

definition api_probe_once :: "(http_request \<Rightarrow> sent) \<Rightarrow> reader \<Rightarrow> api_probe \<Rightarrow> seen" where
  "api_probe_once send rd a =
     (case send (probe_request rd a) of
        Replied status (WholeBody ms) \<Rightarrow> Answered ms status
      | Replied status (BodyError timeout e) \<Rightarrow> no_answer timeout e
      | SendError timeout e \<Rightarrow> no_answer timeout e)"

text \<open>The settings of an API's client: its timeout in seconds and the bytes of its certificate and key.\<close>

definition api_client :: "'w os \<Rightarrow> 'w \<Rightarrow> api_probe \<Rightarrow> string + u64 \<times> u8 list option" where
  "api_client os w a =
     (let secs = max (ap_timeout_secs a) 1
      in case (ap_client_cert_file a, ap_client_key_file a) of
           (Some c, Some k) \<Rightarrow>
             (case os_read os w c of
                Inl e \<Rightarrow> Inl e
              | Inr cert \<Rightarrow>
                  (case os_read os w k of Inl e \<Rightarrow> Inl e | Inr key \<Rightarrow> Inr (secs, Some (cert @ [10] @ key))))
         | _ \<Rightarrow> Inr (secs, None))"

section \<open>What is written\<close>

record json_text =
  jt_time :: "millis \<Rightarrow> string"
  jt_print :: "json \<Rightarrow> string"

definition state_json :: "api_state \<Rightarrow> json" where
  "state_json s = JStr (case s of
     Unknown \<Rightarrow> ''unknown'' | Healthy \<Rightarrow> ''healthy'' | Slow \<Rightarrow> ''slow'' | Stalled \<Rightarrow> ''stalled'' | Down \<Rightarrow> ''down'')"

definition ms_json :: "u64 option \<Rightarrow> json" where
  "ms_json x = (case x of None \<Rightarrow> JNull | Some n \<Rightarrow> JNum (uint n))"

definition text_json :: "string option \<Rightarrow> json" where
  "text_json x = (case x of None \<Rightarrow> JNull | Some s \<Rightarrow> JStr s)"

definition health_json :: "json_text \<Rightarrow> api_health \<Rightarrow> json" where
  "health_json j h = JObj
     [(''process'', JStr (ah_process h)), (''api'', JStr (ah_api h)), (''url'', JStr (ah_url h)),
      (''state'', state_json (ah_state h)), (''since'', JStr (jt_time j (ah_since h))),
      (''last_ms'', ms_json (ah_last_ms h)), (''p50_ms'', ms_json (ah_p50_ms h)), (''p99_ms'', ms_json (ah_p99_ms h)),
      (''budget_p50_ms'', ms_json (ah_budget_p50_ms h)), (''budget_p99_ms'', ms_json (ah_budget_p99_ms h)),
      (''last_error'', text_json (ah_last_error h)), (''last_check'', text_json (map_option (jt_time j) (ah_last_check h))),
      (''checks'', JNum (int (ah_checks h))), (''interval_secs'', JNum (uint (ah_interval_secs h)))]"

definition change_json :: "json_text \<Rightarrow> api_health \<Rightarrow> api_state \<Rightarrow> int \<Rightarrow> json" where
  "change_json j h was lasted = JObj
     [(''ts'', JStr (jt_time j (ah_since h))), (''process'', JStr (ah_process h)), (''api'', JStr (ah_api h)),
      (''url'', JStr (ah_url h)), (''from'', state_json was), (''to'', state_json (ah_state h)),
      (''from_secs'', JNum lasted), (''latency_ms'', ms_json (ah_last_ms h)), (''p50_ms'', ms_json (ah_p50_ms h)),
      (''p99_ms'', ms_json (ah_p99_ms h)), (''error'', text_json (ah_last_error h))]"

record api_books =
  ab_store :: api_store
  ab_state_file :: "string option"
  ab_failures :: nat
  ab_history_dir :: string

definition api_books_new :: "string \<Rightarrow> api_books" where
  "api_books_new dir = \<lparr>ab_store = [], ab_state_file = None, ab_failures = 0, ab_history_dir = dir\<rparr>"

definition api_books_default :: api_books where
  "api_books_default = api_books_new ''/system-data/history/api''"

definition published :: "json_text \<Rightarrow> millis \<Rightarrow> api_store \<Rightarrow> string" where
  "published j now store = jt_print j
     (JObj [(''updated'', JStr (jt_time j now)), (''items'', JArr (map (health_json j) (api_list store)))])"

definition publish_state :: "'w os \<Rightarrow> json_text \<Rightarrow> millis \<Rightarrow> api_books \<times> 'w \<Rightarrow> api_books \<times> 'w" where
  "publish_state os j now = (\<lambda>(b, w).
     (case ab_state_file b of
        None \<Rightarrow> (b, w)
      | Some path \<Rightarrow>
          (let tmp = path @ ''.tmp''
           in case then_do (os_write os tmp (published j now (ab_store b)) w) (os_rename os tmp path) of
                (w1, None) \<Rightarrow> (b, w1)
              | (w1, Some e) \<Rightarrow> (b\<lparr>ab_failures := ab_failures b + 1\<rparr>, w1))))"

definition set_state_file :: "'w os \<Rightarrow> json_text \<Rightarrow> millis \<Rightarrow> string \<Rightarrow> api_books \<times> 'w \<Rightarrow> api_books \<times> 'w" where
  "set_state_file os j now path s =
     (case ab_state_file (fst s) of
        None \<Rightarrow> publish_state os j now ((fst s)\<lparr>ab_state_file := Some path\<rparr>, snd s)
      | Some _ \<Rightarrow> s)"

definition keep_change :: "'w os \<Rightarrow> json_text \<Rightarrow> string \<Rightarrow> api_health \<Rightarrow> api_state \<Rightarrow> int \<Rightarrow> 'w \<Rightarrow> 'w" where
  "keep_change os j dir h was lasted w =
     (case path_parent dir of
        None \<Rightarrow> w
      | Some parent \<Rightarrow>
          if path_is_dir os w parent
          then fst (then_do (os_create_dir_all os dir w)
                     (os_append os (path_join dir (ah_process h @ ''.jsonl'')) (jt_print j (change_json j h was lasted) @ [newline])))
          else w)"

text \<open>\<open>record\<close> with its files: the entry, the history where the state changed, and the state file.\<close>

definition record_and_tell ::
    "'w os \<Rightarrow> json_text \<Rightarrow> string \<Rightarrow> api_probe \<Rightarrow> seen \<Rightarrow> millis \<Rightarrow> millis \<Rightarrow> api_books \<times> 'w
     \<Rightarrow> (api_books \<times> 'w) \<times> api_state \<times> millis" where
  "record_and_tell os j process a s now later = (\<lambda>(b, w).
     (case api_record process a s now (ab_store b) of
        (store, out, change) \<Rightarrow>
          (let w1 = (case change of
                       None \<Rightarrow> w
                     | Some (was, lasted) \<Rightarrow>
                         keep_change os j (ab_history_dir b) (the (api_find store process (ap_name a))) was lasted w)
           in (publish_state os j later (b\<lparr>ab_store := store\<rparr>, w1), out))))"

section \<open>What a reader finds\<close>

text \<open>
  What a file system promises of one file that is written beside and renamed into place: writing another
  file leaves it, a rename gives it the text of the other file or leaves it, and a write that worked is read.
\<close>

definition renames_whole :: "'w os \<Rightarrow> string \<Rightarrow> bool" where
  "renames_whole os path \<longleftrightarrow>
     (let tmp = path @ ''.tmp''
      in (\<forall>w t. os_read_text os (fst (os_write os tmp t w)) path = os_read_text os w path
            \<and> (snd (os_write os tmp t w) = None \<longrightarrow> os_read_text os (fst (os_write os tmp t w)) tmp = Inr t))
       \<and> (\<forall>w. os_read_text os (fst (os_rename os tmp path w)) path
               = os_read_text os w (if snd (os_rename os tmp path w) = None then tmp else path)))"

lemma renames_whole_write:
  assumes "renames_whole os path" "os_write os (path @ ''.tmp'') t w = (w1, r)"
  shows "os_read_text os w1 path = os_read_text os w path" "r = None \<Longrightarrow> os_read_text os w1 (path @ ''.tmp'') = Inr t"
proof -
  have "os_read_text os (fst (os_write os (path @ ''.tmp'') t w)) path = os_read_text os w path
      \<and> (snd (os_write os (path @ ''.tmp'') t w) = None
          \<longrightarrow> os_read_text os (fst (os_write os (path @ ''.tmp'') t w)) (path @ ''.tmp'') = Inr t)"
    using assms(1) unfolding renames_whole_def Let_def by blast
  then show "os_read_text os w1 path = os_read_text os w path" "r = None \<Longrightarrow> os_read_text os w1 (path @ ''.tmp'') = Inr t"
    using assms(2) by auto
qed

lemma renames_whole_rename:
  assumes "renames_whole os path" "os_rename os (path @ ''.tmp'') path w = (w1, r)"
  shows "os_read_text os w1 path = os_read_text os w (if r = None then path @ ''.tmp'' else path)"
proof -
  have "os_read_text os (fst (os_rename os (path @ ''.tmp'') path w)) path
      = os_read_text os w (if snd (os_rename os (path @ ''.tmp'') path w) = None then path @ ''.tmp'' else path)"
    using assms(1) unfolding renames_whole_def Let_def by blast
  then show ?thesis using assms(2) by simp
qed

text \<open>
  A reader of the state file never sees a half of it: after every attempt to publish, whichever step of it
  fails, the file holds the whole new text, or what it held before with one failure more counted.
\<close>
theorem state_file_is_whole:
  assumes "renames_whole os path" "ab_state_file b = Some path" "publish_state os j now (b, w) = (b1, w1)"
  shows "(os_read_text os w1 path = Inr (published j now (ab_store b)) \<and> ab_failures b1 = ab_failures b)
    \<or> (os_read_text os w1 path = os_read_text os w path \<and> ab_failures b1 = ab_failures b + 1)"
proof -
  obtain w2 r where first: "os_write os (path @ ''.tmp'') (published j now (ab_store b)) w = (w2, r)" by fastforce
  obtain w3 q where ren: "os_rename os (path @ ''.tmp'') path w2 = (w3, q)" by fastforce
  show ?thesis
    using assms(2,3) first ren renames_whole_write[OF assms(1) first] renames_whole_rename[OF assms(1) ren]
    by (cases r; cases q) (auto simp: publish_state_def Let_def)
qed

text \<open>The history is written only when the volume it is on is mounted.\<close>

lemma history_needs_its_volume:
  assumes "path_parent dir = Some parent" "\<not> path_is_dir os w parent"
  shows "keep_change os j dir h was lasted w = w"
  using assms by (simp add: keep_change_def)

text \<open>A token file that cannot be read or holds only white space sends the probe without a token.\<close>

lemma probe_without_token:
  assumes "ap_token_file a = Some f" "rd f = Inl e \<or> (\<exists>t. rd f = Inr t \<and> trim t = [])"
  shows "rq_headers (probe_request rd a) = []"
  using assms by (auto simp: probe_request_def ask_def)

text \<open>An answer whose body never comes counts as a stall, and one with an error status as down.\<close>

lemma stalled_body_is_stalled:
  assumes "send (probe_request rd a) = Replied status (BodyError True e)"
  shows "classify (api_probe_once send rd a) w p50 p99 = Stalled"
  using assms by (simp add: api_probe_once_def no_answer_def classify_def)

section \<open>Witness\<close>

text \<open>A file system that is a map of texts.\<close>

definition text_os :: "(string \<Rightarrow> string option) os \<Rightarrow> (string \<Rightarrow> string option) os" where
  "text_os os = os\<lparr>
     os_read_text := (\<lambda>w f. case w f of Some t \<Rightarrow> Inr t | None \<Rightarrow> Inl ''No such file''),
     os_write := (\<lambda>f t w. (w(f \<mapsto> t), None)),
     os_rename := (\<lambda>a b w. case w a of Some t \<Rightarrow> (w(b \<mapsto> t, a := None), None) | None \<Rightarrow> (w, Some ''No such file''))\<rparr>"

lemma text_os_renames_whole: "renames_whole (text_os os) path"
  by (auto simp: renames_whole_def text_os_def Let_def split: option.splits)

definition plain_json :: json_text where
  "plain_json = \<lparr>jt_time = show_int, jt_print = (\<lambda>_. ''{}'')\<rparr>"

lemma state_file_is_whole_witness:
  "\<forall>os. let (b1, w1) = publish_state (text_os os) plain_json 5 ((api_books_new ''/h'')\<lparr>ab_state_file := Some ''/s''\<rparr>, Map.empty)
     in (os_read_text (text_os os) w1 ''/s'' = Inr (published plain_json 5 []) \<and> ab_failures b1 = 0)
        \<or> (os_read_text (text_os os) w1 ''/s'' = os_read_text (text_os os) Map.empty ''/s'' \<and> ab_failures b1 = 1)"
proof
  fix os :: "(string \<Rightarrow> string option) os"
  let ?b = "(api_books_new ''/h'')\<lparr>ab_state_file := Some ''/s''\<rparr>"
  obtain b1 w1 where "publish_state (text_os os) plain_json 5 (?b, Map.empty) = (b1, w1)" by fastforce
  with state_file_is_whole[OF text_os_renames_whole _ this]
  show "let (b1, w1) = publish_state (text_os os) plain_json 5 (?b, Map.empty)
     in (os_read_text (text_os os) w1 ''/s'' = Inr (published plain_json 5 []) \<and> ab_failures b1 = 0)
        \<or> (os_read_text (text_os os) w1 ''/s'' = os_read_text (text_os os) Map.empty ''/s'' \<and> ab_failures b1 = 1)"
    by (simp add: api_books_new_def)
qed

end
