(* ===== verification/Watchers.thy ===== *)
theory Watchers
  imports Supervisor
begin

text \<open>
  The tasks that watch one run of a process (\<open>crates/stormd/src/supervisor.rs\<close>): its Kubernetes probes,
  its readiness, its APIs, and how they end it. The process is shared: a task sees it each time it takes
  the lock, and between two looks other tasks may have changed it. A loop is a function of the looks it
  takes; what it does is a list of notes, of which \<open>Saw\<close> is the action \<open>Note\<close> of the step relation.
\<close>

section \<open>The tasks of a run\<close>

datatype run_task = ProbesTask | ReadyTask ready_probe | ApiTask api_probe

definition run_tasks :: "process_config \<Rightarrow> run_task list" where
  "run_tasks c =
     (if pc_startup_probe c \<noteq> None \<or> pc_liveness_probe c \<noteq> None \<or> pc_readiness_probe c \<noteq> None then [ProbesTask] else [])
     @ (case pc_ready_probe c of Some r \<Rightarrow> if pc_readiness_probe c = None then [ReadyTask r] else [] | None \<Rightarrow> [])
     @ map ApiTask (pc_api c)"

section \<open>The probes\<close>

text \<open>One turn of a loop: the process at the check, what the probe gave (with the text of its failure),
  the process at the lock after it, and the time.\<close>

record look =
  lk_first :: managed
  lk_result :: "string + unit"
  lk_then :: managed
  lk_now :: millis

datatype watch_note =
    K8sWarning string string
  | K8sNormal string string
  | Saw seen_of_run millis
  | Woke
  | Told event_kind
  | StopRun

text \<open>How a loop stands: it goes on, its run is over, the startup probe has passed, the run is being stopped.\<close>

datatype watch_end = GoesOn | RunOver | StartedUp | Killing

definition current :: "nat \<Rightarrow> managed \<Rightarrow> bool" where
  "current run p \<longleftrightarrow> mp_run p = run \<and> mp_state p = Running"

definition passed :: "look \<Rightarrow> bool" where
  "passed l = (case lk_result l of Inr _ \<Rightarrow> True | Inl _ \<Rightarrow> False)"

definition unhealthy :: "string \<Rightarrow> look \<Rightarrow> watch_note list" where
  "unhealthy what l = (case lk_result l of
     Inl m \<Rightarrow> [K8sWarning ''Unhealthy'' (what @ '' probe failed: '' @ m)] | Inr _ \<Rightarrow> [])"

definition killing :: "string \<Rightarrow> string \<Rightarrow> watch_note" where
  "killing name what = K8sNormal ''Killing'' (''Container '' @ name @ '' failed '' @ what @ '' probe, will be restarted'')"

definition first_do :: "watch_note list \<Rightarrow> watch_note list \<times> watch_end \<Rightarrow> watch_note list \<times> watch_end" where
  "first_do ns r = (ns @ fst r, snd r)"

lemma first_do_end [simp]: "snd (first_do ns r) = snd r" "fst (first_do ns r) = ns @ fst r"
  by (simp_all add: first_do_def)

fun startup_watch :: "string \<Rightarrow> process_config \<Rightarrow> probe \<Rightarrow> nat \<Rightarrow> counter \<Rightarrow> look list \<Rightarrow> watch_note list \<times> watch_end" where
  "startup_watch name cfg sp run c [] = ([], GoesOn)"
| "startup_watch name cfg sp run c (l # ls) =
     (if \<not> current run (lk_first l) then ([], RunOver)
      else (case counter_record c (passed l) sp of
              (c1, Some True) \<Rightarrow>
                if mp_run (lk_then l) \<noteq> run then (unhealthy ''Startup'' l, RunOver)
                else (unhealthy ''Startup'' l @ [Saw (StartupPassed cfg) (lk_now l), Woke]
                      @ (if mp_ready (startup_passed run cfg (lk_now l) (lk_then l)) then [Told ProcessReady] else []),
                      StartedUp)
            | (c1, Some False) \<Rightarrow> (unhealthy ''Startup'' l @ [killing name ''startup'', StopRun], Killing)
            | (c1, None) \<Rightarrow> first_do (unhealthy ''Startup'' l) (startup_watch name cfg sp run c1 ls)))"

fun liveness_watch :: "string \<Rightarrow> probe \<Rightarrow> nat \<Rightarrow> counter \<Rightarrow> look list \<Rightarrow> watch_note list \<times> watch_end" where
  "liveness_watch name lp run c [] = ([], GoesOn)"
| "liveness_watch name lp run c (l # ls) =
     (if \<not> current run (lk_first l) \<or> mp_run (lk_then l) \<noteq> run then ([], RunOver)
      else (let seen = Saw (LivenessSeen (passed l)) (lk_now l) # unhealthy ''Liveness'' l
            in case counter_record c (passed l) lp of
                 (c1, Some False) \<Rightarrow> (seen @ [killing name ''liveness'', Told LivenessCheckFailed, StopRun], Killing)
               | (c1, _) \<Rightarrow> first_do seen (liveness_watch name lp run c1 ls)))"

fun readiness_watch :: "probe \<Rightarrow> nat \<Rightarrow> counter \<Rightarrow> look list \<Rightarrow> watch_note list \<times> watch_end" where
  "readiness_watch rp run c [] = ([], GoesOn)"
| "readiness_watch rp run c (l # ls) =
     (if \<not> current run (lk_first l) then ([], RunOver)
      else (case counter_record c (passed l) rp of
              (c1, None) \<Rightarrow> first_do (unhealthy ''Readiness'' l) (readiness_watch rp run c1 ls)
            | (c1, Some ready) \<Rightarrow>
                if mp_run (lk_then l) \<noteq> run then (unhealthy ''Readiness'' l, RunOver)
                else first_do (unhealthy ''Readiness'' l @ [Saw (ReadinessSeen ready) (lk_now l), Woke]
                        @ (if ready \<and> \<not> mp_ready (lk_then l) then [Told ProcessReady] else []))
                       (readiness_watch rp run c1 ls)))"

text \<open>
  The whole task: the startup probe first, where there is one; once it has passed, liveness and readiness
  side by side, each with the looks of its own.
\<close>

definition watch_probes ::
    "string \<Rightarrow> process_config \<Rightarrow> nat \<Rightarrow> look list \<Rightarrow> look list \<Rightarrow> look list
     \<Rightarrow> (watch_note list \<times> watch_end) \<times> (watch_note list \<times> watch_end) \<times> (watch_note list \<times> watch_end)" where
  "watch_probes name cfg run startup live ready =
     (let s = (case pc_startup_probe cfg of
                 None \<Rightarrow> ([], StartedUp) | Some sp \<Rightarrow> startup_watch name cfg sp run counter_default startup);
          off = ([], GoesOn)
      in if snd s = StartedUp
         then (s, case pc_liveness_probe cfg of None \<Rightarrow> off | Some lp \<Rightarrow> liveness_watch name lp run counter_default live,
                  case pc_readiness_probe cfg of None \<Rightarrow> off | Some rp \<Rightarrow> readiness_watch rp run counter_default ready)
         else (s, off, off))"

section \<open>Readiness\<close>

record ready_io =
  ri_http :: "string \<Rightarrow> nat option"
  ri_connects :: "string \<Rightarrow> bool"
  ri_succeeds :: "string \<Rightarrow> string list \<Rightarrow> bool"

text \<open>One try: \<open>ri_http\<close> and \<open>ri_connects\<close> within 5 seconds, \<open>ri_succeeds\<close> without a limit.\<close>

definition execute_ready_probe :: "ready_io \<Rightarrow> ready_probe \<Rightarrow> bool" where
  "execute_ready_probe io r =
     (case r of
        ReadyHttp url _ \<Rightarrow> (case ri_http io url of Some st \<Rightarrow> 200 \<le> st \<and> st < 400 | None \<Rightarrow> False)
      | ReadyTcp port _ \<Rightarrow> ri_connects io (''127.0.0.1:'' @ show_nat (unat port))
      | ReadyExec cmd _ \<Rightarrow> (case split_whitespace cmd of [] \<Rightarrow> False | bin # args \<Rightarrow> ri_succeeds io bin args))"

definition ready_interval :: "ready_probe \<Rightarrow> u64" where
  "ready_interval r = max (case r of ReadyHttp _ n \<Rightarrow> n | ReadyTcp _ n \<Rightarrow> n | ReadyExec _ n \<Rightarrow> n) 1"

fun ready_watch :: "nat \<Rightarrow> look list \<Rightarrow> watch_note list \<times> watch_end" where
  "ready_watch run [] = ([], GoesOn)"
| "ready_watch run (l # ls) =
     (if mp_run (lk_first l) \<noteq> run \<or> mp_state (lk_first l) \<in> {Stopped, Failed} then ([], RunOver)
      else if passed l then ([Saw ReadyProbePassed (lk_now l), Woke, Told ProcessReady], StartedUp)
      else ready_watch run ls)"

section \<open>The APIs\<close>

record api_look =
  al_first :: managed
  al_seen :: seen
  al_now :: millis
  al_later :: millis

fun watch_api :: "string \<Rightarrow> api_probe \<Rightarrow> nat \<Rightarrow> api_look list \<Rightarrow> api_store \<Rightarrow> api_store \<times> watch_end" where
  "watch_api name a run [] store = (store, GoesOn)"
| "watch_api name a run (l # ls) store =
     (if \<not> current run (al_first l) then (store, RunOver)
      else (case api_record name a (al_seen l) (al_now l) store of
              (store1, out, _) \<Rightarrow>
                if stalled_too_long a out (al_later l) then (store1, Killing) else watch_api name a run ls store1))"

section \<open>Ending a run\<close>

text \<open>
  SIGTERM, and SIGKILL after the stop timeout where the run still goes on: the signals sent, from the
  process as it is at each of the three locks.
\<close>

definition stop_run :: "nat \<Rightarrow> u32 option \<Rightarrow> managed \<Rightarrow> managed \<Rightarrow> managed \<Rightarrow> (u32 \<times> signal) list" where
  "stop_run run pid p1 p2 p3 =
     (case signal_run run pid p1 of
        None \<Rightarrow> []
      | Some i \<Rightarrow> (i, SIGTERM) # (if current run p2
                    then (case signal_run run pid p3 of Some k \<Rightarrow> [(k, SIGKILL)] | None \<Rightarrow> []) else []))"

text \<open>How often a child that died of a group signal makes its exit wait 20 ms for the shutdown to begin.\<close>

definition group_signals :: "int set" where "group_signals = {15, 2, 1}"

definition settle_group_signal :: "int option \<Rightarrow> bool list \<Rightarrow> nat" where
  "settle_group_signal signal shutting =
     (case signal of
        Some g \<Rightarrow> if g \<in> group_signals then length (takeWhile Not (take 15 shutting)) else 0
      | None \<Rightarrow> 0)"

text \<open>The slices a sleep is cut into, by whether the shutdown has begun and the time at each wake.\<close>

fun sleep_unless_shutdown :: "millis \<Rightarrow> (bool \<times> millis) list \<Rightarrow> millis list" where
  "sleep_unless_shutdown until [] = []"
| "sleep_unless_shutdown until ((shutting, now) # ws) =
     (if shutting \<or> until \<le> now then [] else min (until - now) 250 # sleep_unless_shutdown until ws)"

section \<open>When a run is stopped\<close>

lemma counter_record_next: "fst (counter_record (counter_after p xs) ok p) = counter_after p (xs @ [ok])"
  by (simp add: counter_after_snoc)

lemma counter_record_after:
  assumes "length xs < 2 ^ 32 - 1"
  shows "counter_record (counter_after p xs) ok p =
    (counter_after p (xs @ [ok]),
     if unat (if ok then success_threshold p else failure_threshold p) \<le> trailing ok (xs @ [ok]) then Some ok else None)"
  by (rule prod_eqI) (simp_all only: fst_conv snd_conv counter_fires[OF assms] counter_record_next)

lemma counter_default_after: "counter_default = counter_after p []"
  by (simp add: counter_after_def)

text \<open>A loop that is never told its run is over.\<close>

definition steady :: "nat \<Rightarrow> look list \<Rightarrow> bool" where
  "steady run ls \<longleftrightarrow> list_all (\<lambda>l. current run (lk_first l) \<and> mp_run (lk_then l) = run) ls"

lemma steady_simps [simp]:
  "steady run []"
  "steady run (l # ls) \<longleftrightarrow> current run (lk_first l) \<and> mp_run (lk_then l) = run \<and> steady run ls"
  by (simp_all add: steady_def)

lemma liveness_kills:
  assumes "steady run ls" "length xs + length ls < 2 ^ 32"
  shows "snd (liveness_watch name lp run (counter_after lp xs) ls) = Killing \<longleftrightarrow>
    (\<exists>n < length ls. \<not> passed (ls ! n)
       \<and> unat (failure_threshold lp) \<le> trailing False (xs @ map passed (take (Suc n) ls)))"
  using assms
proof (induction ls arbitrary: xs)
  case Nil
  then show ?case by simp
next
  case (Cons l ls)
  have record1: "counter_record (counter_after lp xs) (passed l) lp =
      (counter_after lp (xs @ [passed l]),
       if unat (if passed l then success_threshold lp else failure_threshold lp) \<le> trailing (passed l) (xs @ [passed l])
       then Some (passed l) else None)"
    using Cons.prems(2) by (intro counter_record_after) simp
  have rest: "snd (liveness_watch name lp run (counter_after lp (xs @ [passed l])) ls) = Killing \<longleftrightarrow>
      (\<exists>n < length ls. \<not> passed (ls ! n)
         \<and> unat (failure_threshold lp) \<le> trailing False ((xs @ [passed l]) @ map passed (take (Suc n) ls)))"
    using Cons.prems by (intro Cons.IH) simp_all
  show ?case
    using Cons.prems(1) rest record1
    by (cases "passed l") (auto simp: Let_def Ex_less_Suc2)
qed

text \<open>C39: While a run goes on, its liveness probe stops it exactly when, at some failure, the last
  \<open>failureThreshold\<close> results in a row were failures; a success in between starts the count again.
\<close>
theorem liveness_stops_exactly_when:
  assumes "steady run ls" "length ls < 2 ^ 32"
  shows "snd (liveness_watch name lp run counter_default ls) = Killing \<longleftrightarrow>
    (\<exists>n < length ls. \<not> passed (ls ! n) \<and> unat (failure_threshold lp) \<le> trailing False (map passed (take (Suc n) ls)))"
  using liveness_kills[of run ls "[]" name lp] assms counter_default_after[of lp] by simp

text \<open>What the startup probe decides first, counted on the results themselves.\<close>

fun first_decision :: "probe \<Rightarrow> bool list \<Rightarrow> bool list \<Rightarrow> bool option" where
  "first_decision p xs [] = None"
| "first_decision p xs (r # rs) =
     (if unat (if r then success_threshold p else failure_threshold p) \<le> trailing r (xs @ [r]) then Some r
      else first_decision p (xs @ [r]) rs)"

lemma startup_decides:
  assumes "steady run ls" "length xs + length ls < 2 ^ 32"
  shows "snd (startup_watch name cfg sp run (counter_after sp xs) ls) =
    (case first_decision sp xs (map passed ls) of None \<Rightarrow> GoesOn | Some True \<Rightarrow> StartedUp | Some False \<Rightarrow> Killing)"
  using assms
proof (induction ls arbitrary: xs)
  case Nil
  then show ?case by simp
next
  case (Cons l ls)
  have record1: "counter_record (counter_after sp xs) (passed l) sp =
      (counter_after sp (xs @ [passed l]),
       if unat (if passed l then success_threshold sp else failure_threshold sp) \<le> trailing (passed l) (xs @ [passed l])
       then Some (passed l) else None)"
    using Cons.prems(2) by (intro counter_record_after) simp
  have rest: "snd (startup_watch name cfg sp run (counter_after sp (xs @ [passed l])) ls) =
    (case first_decision sp (xs @ [passed l]) (map passed ls) of
       None \<Rightarrow> GoesOn | Some True \<Rightarrow> StartedUp | Some False \<Rightarrow> Killing)"
    using Cons.prems by (intro Cons.IH) simp_all
  show ?case using Cons.prems(1) rest record1 by (cases "passed l") simp_all
qed

text \<open>
  While a run goes on, its startup probe passes it or stops it by the first of its thresholds that is
  reached by results in a row, and decides nothing before.
\<close>
theorem startup_verdict:
  assumes "steady run ls" "length ls < 2 ^ 32"
  shows "snd (startup_watch name cfg sp run counter_default ls) =
    (case first_decision sp [] (map passed ls) of None \<Rightarrow> GoesOn | Some True \<Rightarrow> StartedUp | Some False \<Rightarrow> Killing)"
  using startup_decides[of run ls "[]" name cfg sp] assms counter_default_after[of sp] by simp

text \<open>Until the startup probe has passed, liveness and readiness are not looked at: a slow start is its alone.\<close>

lemma startup_comes_first:
  assumes "pc_startup_probe cfg = Some sp" "snd (startup_watch name cfg sp run counter_default startup) \<noteq> StartedUp"
  shows "snd (watch_probes name cfg run startup live ready) = (([], GoesOn), ([], GoesOn))"
  using assms by (simp add: watch_probes_def Let_def)

section \<open>Which process a watcher touches\<close>

lemma notes_keep_other_runs: "mp_run p \<noteq> run \<Longrightarrow> note_run run what now p = p"
  by (cases what)
    (simp_all add: note_run_def startup_passed_def liveness_result_def readiness_result_def ready_probe_passed_def)

lemma signal_run_Some: "signal_run run pid p = Some i \<longleftrightarrow> pid = Some i \<and> mp_run p = run \<and> mp_pid p = pid"
  by (cases pid) (simp_all add: signal_run_def)

text \<open>
  A run is ended by signals to the pid it was started with and to no other, each sent only while the
  process still has that pid and that run; SIGKILL follows only where the run went on after the grace.
\<close>
lemma stop_run_signals:
  assumes "(i, g) \<in> set (stop_run run pid p1 p2 p3)"
  shows "pid = Some i \<and> mp_run p1 = run \<and> mp_pid p1 = pid
    \<and> (g = SIGTERM \<or> g = SIGKILL \<and> current run p2 \<and> mp_run p3 = run \<and> mp_pid p3 = pid)"
proof (cases "signal_run run pid p1")
  case None
  then show ?thesis using assms by (simp add: stop_run_def)
next
  case (Some k)
  then have "i = k \<and> g = SIGTERM \<or> current run p2 \<and> g = SIGKILL \<and> signal_run run pid p3 = Some i"
    using assms by (cases "signal_run run pid p3"; cases "current run p2") (auto simp: stop_run_def)
  then show ?thesis using Some unfolding signal_run_Some by blast
qed

lemma settle_is_bounded: "settle_group_signal signal shutting \<le> 15"
  using order_trans[OF length_takeWhile_le[of Not "take 15 shutting"]] by (auto simp: settle_group_signal_def split: option.split)

section \<open>Readiness that is told wrongly\<close>

text \<open>
  A process with a startup probe and a \<open>ready_probe\<close> that is ready before its start has passed is told
  ready twice: by the ready probe, and again when the startup probe passes, which changes nothing of it.
\<close>
theorem ready_is_told_twice:
  assumes "current run (lk_first l)" "mp_run (lk_then l) = run" "passed l" "mp_ready (lk_then l)"
    and "counter_record c True sp = (after, Some True)"
  shows "Told ProcessReady \<in> set (fst (startup_watch name cfg sp run c (l # ls)))"
  using assms by (simp add: startup_passed_def Let_def)

text \<open>
  The ready probe of a run that has ended while the probe was on its way tells the process ready all the
  same, though nothing of the process is changed: the run it is told of is not the one it has.
\<close>
theorem ready_is_told_of_an_old_run:
  assumes "mp_run (lk_first l) = run" "mp_state (lk_first l) = Running" "passed l" "mp_run (lk_then l) \<noteq> run"
  shows "Told ProcessReady \<in> set (fst (ready_watch run (l # ls)))
    \<and> note_run run ReadyProbePassed (lk_now l) (lk_then l) = lk_then l"
  using assms by (simp add: notes_keep_other_runs)

section \<open>Witnesses\<close>

definition look_at :: "managed \<Rightarrow> bool \<Rightarrow> look" where
  "look_at p ok = \<lparr>lk_first = p, lk_result = (if ok then Inr () else Inl ''refused''), lk_then = p, lk_now = 0\<rparr>"

definition watched_process :: managed where
  "watched_process = (managed_new demo_config)\<lparr>mp_state := Running, mp_run := 1\<rparr>"

lemma liveness_stops_exactly_when_witness:
  "snd (liveness_watch ''web'' default_probe 1 counter_default
      (map (look_at watched_process) [False, False, True, False, False, False])) = Killing \<longleftrightarrow>
   (\<exists>n < length (map (look_at watched_process) [False, False, True, False, False, False]).
      \<not> passed (map (look_at watched_process) [False, False, True, False, False, False] ! n)
      \<and> unat (failure_threshold default_probe)
          \<le> trailing False (map passed (take (Suc n) (map (look_at watched_process) [False, False, True, False, False, False]))))"
  by (rule liveness_stops_exactly_when) (simp_all add: current_def look_at_def watched_process_def)

lemma startup_verdict_witness:
  "snd (startup_watch ''web'' demo_config default_probe 1 counter_default (map (look_at watched_process) [False, True])) =
    (case first_decision default_probe [] (map passed (map (look_at watched_process) [False, True])) of
       None \<Rightarrow> GoesOn | Some True \<Rightarrow> StartedUp | Some False \<Rightarrow> Killing)"
  by (rule startup_verdict) (simp_all add: current_def look_at_def watched_process_def)

lemma ready_is_told_of_an_old_run_witness:
  "Told ProcessReady \<in> set (fst (ready_watch 1 [(look_at watched_process True)\<lparr>lk_then := watched_process\<lparr>mp_run := 2\<rparr>\<rparr>]))
    \<and> note_run 1 ReadyProbePassed 0 (watched_process\<lparr>mp_run := 2\<rparr>) = watched_process\<lparr>mp_run := 2\<rparr>"
  using ready_is_told_of_an_old_run[where run = 1 and ls = "[]"
      and l = "(look_at watched_process True)\<lparr>lk_then := watched_process\<lparr>mp_run := 2\<rparr>\<rparr>"]
  by (simp add: look_at_def watched_process_def passed_def)

lemma ready_is_told_twice_witness:
  "Told ProcessReady \<in> set (fst (startup_watch ''web'' demo_config default_probe 1 counter_default
     [look_at (watched_process\<lparr>mp_ready := True\<rparr>) True]))"
  by (rule ready_is_told_twice[where after = "counter_after default_probe [True]"])
    (simp_all add: current_def look_at_def watched_process_def passed_def counter_after_def counter_record_def
      counter_default_def default_probe_def d_one_def)

end
