(* ===== verification/Console.thy ===== *)
theory Console
  imports Stormsh
begin

text \<open>
  \<open>crates/stormsh/src/ui.rs\<close>: what the console client draws of its state. A span is its text and style, a
  line a list of spans; where \<open>ratatui\<close> puts a widget inside its area, and how it wraps and cuts it, is
  that library's. Drawing that panics is \<open>None\<close>.
\<close>

section \<open>Text\<close>

datatype color = ColBlack | ColRed | ColGreen | ColYellow | ColCyan | ColGray | ColDarkGray | ColWhite

record style =
  sy_fg :: "color option"
  sy_bg :: "color option"
  sy_bold :: bool

type_synonym span = "string \<times> style"
type_synonym text_line = "span list"

definition plain_style :: style where "plain_style = \<lparr>sy_fg = None, sy_bg = None, sy_bold = False\<rparr>"
definition fg :: "color \<Rightarrow> style" where "fg c = plain_style\<lparr>sy_fg := Some c\<rparr>"
definition on_color :: "color \<Rightarrow> style" where "on_color c = plain_style\<lparr>sy_bg := Some c\<rparr>"
definition bold :: "style \<Rightarrow> style" where "bold s = s\<lparr>sy_bold := True\<rparr>"

definition view_name :: "view \<Rightarrow> string" where
  "view_name v = (case v of Dashboard \<Rightarrow> ''Dashboard'' | ProcessesView \<Rightarrow> ''Processes''
     | TerminalView \<Rightarrow> ''Terminal'' | LogsView \<Rightarrow> ''Logs'')"

definition draw_tabs :: "tui \<Rightarrow> text_line" where
  "draw_tabs t = concat (map (\<lambda>v.
     [('' '' @ view_name v @ '' '',
       if v = tu_view t then bold ((fg ColBlack)\<lparr>sy_bg := Some ColCyan\<rparr>) else fg ColDarkGray),
      ('' '', plain_style)]) [Dashboard, ProcessesView, TerminalView, LogsView])"

section \<open>The dashboard\<close>

definition tile_h :: u16 where "tile_h = 6"
definition tile_min_w :: u16 where "tile_min_w = 34"

definition tile_cols :: "u16 \<Rightarrow> nat" where "tile_cols width = unat (max (width div tile_min_w) 1)"
definition rows_fit :: "u16 \<Rightarrow> nat" where "rows_fit height = unat (max (height div tile_h) 1)"

definition first_row :: "nat \<Rightarrow> nat \<Rightarrow> nat \<Rightarrow> nat" where
  "first_row cols fit dash = (let sel_row = dash div cols in if fit \<le> sel_row then sel_row + 1 - fit else 0)"

definition health_color :: "health \<Rightarrow> color" where
  "health_color h = (case h of Ok \<Rightarrow> ColGreen | Warn \<Rightarrow> ColYellow | Error \<Rightarrow> ColRed | Idle \<Rightarrow> ColDarkGray | HealthUnknown \<Rightarrow> ColDarkGray)"

definition tone_color :: "string option \<Rightarrow> color" where
  "tone_color tone =
     (if tone = Some ''ok'' then ColGreen else if tone = Some ''warn'' then ColYellow
      else if tone = Some ''error'' then ColRed else if tone = Some ''muted'' then ColDarkGray
      else if tone = Some ''accent'' then ColCyan else ColWhite)"

definition spaced :: "span \<Rightarrow> text_line list \<Rightarrow> text_line" where
  "spaced gap ls = concat (map (\<lambda>(i, l). (if 0 < i then [gap] else []) @ l) (enumerate 0 ls))"

definition metric_line_of :: "card \<Rightarrow> text_line" where
  "metric_line_of c = spaced (''  '', plain_style) (map (\<lambda>m.
     [(me_name m @ '': '', fg ColDarkGray),
      (me_value m @ (case me_unit m of Some u \<Rightarrow> u | None \<Rightarrow> []), fg (tone_color (me_tone m)))]) (cd_metrics c))"

definition action_line_of :: "card \<Rightarrow> text_line" where
  "action_line_of c = spaced ('' '', plain_style) (map (\<lambda>a.
     [(''['' @ ac_label a @ '']'', fg (if ac_danger a then ColRed else ColGreen))]) (filter ac_enabled (cd_actions c)))"

definition bullet :: string where
  "bullet = [CHR 0x20, CHR 0xE2, CHR 0x97, CHR 0x8F, CHR 0x20]"

record tile =
  ti_title :: text_line
  ti_border :: style
  ti_lines :: "text_line list"

definition draw_tile :: "card \<Rightarrow> bool \<Rightarrow> tile" where
  "draw_tile c selected =
     \<lparr>ti_title = [(bullet, fg (health_color (cd_health c))), (cd_label c, bold (fg ColWhite)),
        ('' ['' @ cd_kind c @ ''] '', fg ColDarkGray)],
      ti_border = (if selected then bold (fg ColCyan) else fg ColDarkGray),
      ti_lines = [[(cd_detail c, fg ColGray)], metric_line_of c]
        @ (if selected \<and> action_line_of c \<noteq> [] then [action_line_of c] else [])\<rparr>"

text \<open>The cards drawn, by the row of the screen and the column; both loops end at the first that is missing.\<close>

definition tiles_at :: "nat \<Rightarrow> nat \<Rightarrow> card list \<Rightarrow> nat \<Rightarrow> ((nat \<times> nat) \<times> nat) list" where
  "tiles_at cols fit cards dash =
     (let first = first_row cols fit dash; rows = (length cards + cols - 1) div cols
      in concat (map (\<lambda>r. map (\<lambda>c. ((r, c), (first + r) * cols + c))
             (takeWhile (\<lambda>c. (first + r) * cols + c < length cards) [0..<cols]))
           (takeWhile (\<lambda>r. first + r < rows) [0..<fit])))"

datatype pane =
    Text string string
  | Tiles "((nat \<times> nat) \<times> tile) list"
  | Rows "(text_line \<times> style) list"
  | Lines string text_line

definition draw_dashboard :: "u16 \<Rightarrow> u16 \<Rightarrow> tui \<Rightarrow> pane" where
  "draw_dashboard width height t =
     (if tu_cards t = []
      then Text '' Dashboard '' (if tu_connected t then ''No components reported.'' else ''Not connected.'')
      else Tiles (map (\<lambda>(pos, i). (pos, draw_tile (tu_cards t ! i) (i = tu_dash t)))
             (tiles_at (tile_cols width) (rows_fit height) (tu_cards t) (tu_dash t))))"

section \<open>The other views\<close>

text \<open>Division and remainder of an \<open>i64\<close> go towards zero.\<close>

definition uptime_shown :: "int \<Rightarrow> string" where
  "uptime_shown secs =
     (let days = secs sdiv 86400; hours = (secs smod 86400) sdiv 3600;
          mins = (secs smod 3600) sdiv 60; s = secs smod 60
      in if 0 < days then show_int days @ ''d '' @ show_int hours @ ''h '' @ show_int mins @ ''m''
         else if 0 < hours then show_int hours @ ''h '' @ show_int mins @ ''m '' @ show_int s @ ''s''
         else if 0 < mins then show_int mins @ ''m '' @ show_int s @ ''s''
         else show_int s @ ''s'')"

definition state_style :: "string \<Rightarrow> style" where
  "state_style s =
     (if s = ''running'' then fg ColGreen else if s = ''failed'' then fg ColRed
      else if s = ''stopped'' then fg ColYellow else if s = ''restarting'' then fg ColCyan else fg ColDarkGray)"

definition or_dash :: "string option \<Rightarrow> string" where
  "or_dash x = (case x of Some s \<Rightarrow> s | None \<Rightarrow> ''-'')"

definition table_header :: text_line where
  "table_header = map (\<lambda>s. (s, bold plain_style)) [''PROCESS'', ''STATE'', ''PID'', ''EXIT'', ''RESTARTS'', ''UPTIME'']"

definition process_row :: "sh_process \<Rightarrow> text_line" where
  "process_row p =
     [(sh_name p, plain_style), (sh_state p, state_style (sh_state p)),
      (or_dash (map_option (show_nat \<circ> unat) (sh_pid p)), plain_style),
      (or_dash (map_option show_int (sh_exit_code p)), plain_style),
      (show_nat (unat (sh_restarts p)), plain_style),
      (or_dash (map_option uptime_shown (sh_uptime_secs p)), plain_style)]"

definition draw_processes :: "tui \<Rightarrow> pane" where
  "draw_processes t = Rows ((table_header, plain_style) # map (\<lambda>(i, p). (process_row p,
     if i = tu_selected t then on_color ColDarkGray else plain_style)) (enumerate 0 (tu_processes t)))"

definition em_dash :: string where "em_dash = [CHR 0xE2, CHR 0x80, CHR 0x94]"

definition draw_terminal :: "tui \<Rightarrow> pane" where
  "draw_terminal t = Text
     (case selected_process t of
        Some p \<Rightarrow> '' Terminal '' @ em_dash @ '' '' @ sh_name p @ '' ''
      | None \<Rightarrow> '' Terminal '' @ em_dash @ '' (select a process) '')
     (if tu_terminal t = [] then ''No terminal content. Select a process and press Enter.'' else tu_terminal t)"

definition log_style :: "string \<Rightarrow> style" where
  "log_style l =
     (if contains l ''[error]'' \<or> contains l ''[stderr]'' then fg ColRed
      else if contains l ''[warning]'' then fg ColYellow
      else if contains l ''[debug]'' then fg ColDarkGray else plain_style)"

text \<open>
  The lines are behind a lock of \<open>tokio\<close> that is taken with \<open>blocking_lock\<close>, which is documented to panic
  when it is called on a thread that runs asynchronous tasks (\<open>in_runtime\<close>).
\<close>

definition draw_logs :: "bool \<Rightarrow> string list \<Rightarrow> pane option" where
  "draw_logs in_runtime ls = (if in_runtime then None else Some (Lines '' Logs '' (map (\<lambda>l. (l, log_style l)) ls)))"

definition help_line :: "view \<Rightarrow> string" where
  "help_line v =
     (if v = Dashboard
      then '' q:Quit  1-4:Views  '' @ [CHR 0xE2, CHR 0x86, CHR 0x90, CHR 0xE2, CHR 0x86, CHR 0x91, CHR 0xE2, CHR 0x86, CHR 0x93,
             CHR 0xE2, CHR 0x86, CHR 0x92] @ '':Select  Enter:Terminal  s/r/x:Start/Restart/Stop  u:Update ''
      else '' q:Quit  1:Dashboard  2:Processes  3:Terminal  4:Logs  Enter:Select  s/r:Start/Restart  x:Stop '')"

definition draw_status_bar :: "tui \<Rightarrow> text_line" where
  "draw_status_bar t =
     [('' '', plain_style),
      if tu_connected t then (''CONNECTED'', fg ColGreen) else (''DISCONNECTED'', fg ColRed),
      ('' | '', plain_style),
      (if tu_message t \<noteq> [] then tu_message t else help_line (tu_view t), fg ColDarkGray)]"

record screen =
  sc_tabs :: text_line
  sc_main :: pane
  sc_status :: text_line

text \<open>\<open>width\<close> and \<open>height\<close> are those of the area between the two bars.\<close>

definition draw :: "bool \<Rightarrow> u16 \<Rightarrow> u16 \<Rightarrow> string list \<Rightarrow> tui \<Rightarrow> screen option" where
  "draw in_runtime width height logs t =
     map_option (\<lambda>p. \<lparr>sc_tabs = draw_tabs t, sc_main = p, sc_status = draw_status_bar t\<rparr>)
       (case tu_view t of
          Dashboard \<Rightarrow> Some (draw_dashboard width height t)
        | ProcessesView \<Rightarrow> Some (draw_processes t)
        | TerminalView \<Rightarrow> Some (draw_terminal t)
        | LogsView \<Rightarrow> draw_logs in_runtime logs)"

text \<open>
  The screens of a run, one per frame, up to the first that panics and ends the program. The event loop
  runs inside the runtime, and nothing ever adds to the log lines.
\<close>

fun screens :: "u16 \<Rightarrow> u16 \<Rightarrow> tui list \<Rightarrow> screen list \<times> bool" where
  "screens width height [] = ([], False)"
| "screens width height (t # ts) =
     (case draw True width height [] t of
        None \<Rightarrow> ([], True)
      | Some s \<Rightarrow> (case screens width height ts of (ss, panicked) \<Rightarrow> (s # ss, panicked)))"

section \<open>What is on the screen\<close>

lemma in_takeWhile_upt:
  assumes "r < n" "\<And>j. j \<le> r \<Longrightarrow> P j"
  shows "r \<in> set (takeWhile P [0..<n])"
proof -
  have "[0..<n] = [0..<Suc r] @ [Suc r..<n]"
    using upt_add_eq_append[of 0 "Suc r" "n - Suc r"] assms(1) by simp
  moreover have "takeWhile P ([0..<Suc r] @ [Suc r..<n]) = [0..<Suc r] @ takeWhile P [Suc r..<n]"
    by (rule takeWhile_append2) (use assms(2) in auto)
  ultimately show ?thesis by (simp del: upt_Suc)
qed

lemma tile_cols_pos: "0 < tile_cols width" and rows_fit_pos: "0 < rows_fit height"
  by (simp_all add: tile_cols_def rows_fit_def unat_max_word)

text \<open>The row of the selected card is in the window.\<close>

lemma first_row_window:
  assumes "0 < fit"
  shows "first_row cols fit dash \<le> dash div cols" "dash div cols - first_row cols fit dash < fit"
  using assms by (auto simp: first_row_def Let_def)

lemma row_exists:
  fixes i n cols :: nat
  assumes "0 < cols" "i < n"
  shows "i div cols < (n + cols - 1) div cols"
proof -
  have "i div cols * cols + cols \<le> n + cols - 1"
    using assms div_mult_mod_eq[of i cols] by linarith
  then have "Suc (i div cols) * cols \<le> n + cols - 1" by simp
  then have "Suc (i div cols) \<le> (n + cols - 1) div cols" using assms(1) by (simp add: less_eq_div_iff_mult_less_eq)
  then show ?thesis by simp
qed

lemma selected_is_listed:
  assumes "0 < cols" "0 < fit" "dash < length cards"
  shows "\<exists>pos. (pos, dash) \<in> set (tiles_at cols fit cards dash)"
proof -
  let ?f = "first_row cols fit dash" and ?R = "dash div cols" and ?c = "dash mod cols"
  have row: "?f + (?R - ?f) = ?R" "?R - ?f < fit"
    using first_row_window[OF assms(2), where cols = cols and dash = dash] by simp_all
  have index: "?R * cols + ?c = dash" by simp
  have "?R - ?f \<in> set (takeWhile (\<lambda>r. ?f + r < (length cards + cols - 1) div cols) [0..<fit])"
    using row row_exists[OF assms(1,3)] by (intro in_takeWhile_upt) auto
  moreover have "?c \<in> set (takeWhile (\<lambda>c. (?f + (?R - ?f)) * cols + c < length cards) [0..<cols])"
  proof (rule in_takeWhile_upt)
    fix j assume "j \<le> ?c"
    then show "(?f + (?R - ?f)) * cols + j < length cards" unfolding row(1) using index assms(3) by linarith
  qed (use assms(1) in simp)
  ultimately have "((?R - ?f, ?c), (?f + (?R - ?f)) * cols + ?c) \<in> set (tiles_at cols fit cards dash)"
    unfolding tiles_at_def Let_def by force
  then show ?thesis using row index by auto
qed

lemma listed_are_cards: "(pos, i) \<in> set (tiles_at cols fit cards dash) \<Longrightarrow> i < length cards"
  by (auto simp: tiles_at_def Let_def dest: set_takeWhileD)


section \<open>The view that panics\<close>

lemma draw_panics: "draw True width height logs t = None \<longleftrightarrow> tu_view t = LogsView"
  by (cases "tu_view t") (simp_all add: draw_def draw_logs_def)

lemma screens_panic: "snd (screens width height ts) \<longleftrightarrow> list_ex (\<lambda>t. tu_view t = LogsView) ts"
proof (induction ts)
  case (Cons t ts)
  then show ?case
    using draw_panics[of width height "[]" t]
    by (cases "draw True width height [] t") (auto split: prod.splits)
qed simp

lemma refresh_keeps_view [simp]:
  "tu_view (fst (refresh_processes e c s)) = tu_view (fst s)"
  "tu_view (fst (refresh_components e c s)) = tu_view (fst s)"
  "tu_view (fst (refresh_all e c s)) = tu_view (fst s)"
proof -
  show p: "tu_view (fst (refresh_processes e c s)) = tu_view (fst s)" for s
    by (auto simp: refresh_processes_def split: prod.splits sum.splits)
  show q: "tu_view (fst (refresh_components e c s)) = tu_view (fst s)" for s
    by (auto simp: refresh_components_def split: prod.splits sum.splits)
  show "tu_view (fst (refresh_all e c s)) = tu_view (fst s)"
    using p[of s] q[of "refresh_processes e c s"] by (auto simp: refresh_all_def split: prod.splits)
qed

lemma next_frame_drawn: "ts = snd (run_app e c (x # evs) s) \<Longrightarrow> fst s \<in> set ts"
  by (cases x) (auto simp: run_app_turn split: prod.splits)

text \<open>Opening the logs ends the console: whatever is shown, after the key of the logs view the next frame is
  drawn on the thread of the runtime, where taking the lock of the log lines panics.
\<close>
theorem opening_the_logs_panics:
  assumes "k \<in> {CharKey (CHR ''4''), CharKey (CHR ''l'')}"
  shows "snd (screens width height (snd (run_app e c ((KeyPress k, passed) # next_turn # evs) s)))"
proof -
  let ?s1 = "turn e c (KeyPress k) passed s"
  have "tu_view (fst (handle_key e c k s)) = LogsView" "\<not> quits k"
    using assms by (auto simp: handle_key_def move_key_def quits_def)
  then have "tu_view (fst ?s1) = LogsView" by (simp add: turn_def Let_def)
  moreover have "fst ?s1 \<in> set (snd (run_app e c (next_turn # evs) ?s1))" by (rule next_frame_drawn) simp
  ultimately have "list_ex (\<lambda>t. tu_view t = LogsView) (snd (run_app e c ((KeyPress k, passed) # next_turn # evs) s))"
    using \<open>\<not> quits k\<close> unfolding run_app_turn[of e c "KeyPress k"] by (auto simp: list_ex_iff split: prod.splits)
  then show ?thesis by (simp add: screens_panic)
qed

section \<open>Witnesses\<close>

lemma opening_the_logs_panics_witness:
  "snd (screens 80 22 (snd (run_app silent_env (client_new ''h'' 80 None False)
     [(KeyPress (CharKey (CHR ''l'')), True), (NoEvent, True)] (one_process, ()))))"
  by (rule opening_the_logs_panics) simp

definition one_card :: card where
  "one_card = \<lparr>cd_id = ''process:web'', cd_kind = ''process'', cd_label = ''web'', cd_health = Ok, cd_detail = ''running'',
     cd_metrics = [], cd_actions = [], cd_relations = [], cd_link = None\<rparr>"

definition card_daemon :: "unit sh_env" where
  "card_daemon = \<lparr>se_http = (\<lambda>_ w. (w, Inr \<lparr>an_status = 200, an_shown = ''200 OK'', an_text = Inr [], an_json = Inr JNull,
       an_headers = []\<rparr>)), se_processes = (\<lambda>_. Inr []), se_cards = (\<lambda>_. Inr [one_card]), se_status_error = (\<lambda>_. [])\<rparr>"

definition first_frame :: tui where
  "first_frame = tui_new\<lparr>tu_cards := [one_card], tu_connected := True\<rparr>"

lemma first_frame_drawn:
  "first_frame \<in> set (snd (run_app card_daemon (client_new ''h'' 80 None False) [(NoEvent, True)]
     (start_app card_daemon (client_new ''h'' 80 None False) ())))"
proof -
  have "start_app card_daemon (client_new ''h'' 80 None False) () = (first_frame, ())" by code_simp
  then show ?thesis by (simp split: prod.splits)
qed


end
