(* ===== verification/LogPipeline.thy ===== *)
theory LogPipeline
  imports StormLog
begin

text \<open>
  \<open>stormlog\<close> from end to end: the entries written through \<open>StormLog::write_entry\<close> (\<open>lib.rs\<close>), rotated by the
  file logger (\<open>file_logger.rs\<close>) and read by the store (\<open>store.rs\<close>), against what a log promises: a window
  of the newest segments. Opens and writes succeed here; \<open>LogFile\<close> has what happens when they fail.
\<close>

section \<open>What is promised\<close>

text \<open>The segments of one process, the live one first; a full one is closed and the oldest falls out.\<close>

definition file_text :: "log_io \<Rightarrow> log_entry list \<Rightarrow> string" where
  "file_text io es = concat (map (format_line io) es)"

definition keep_entry :: "log_io \<Rightarrow> file_config \<Rightarrow> log_entry list list \<Rightarrow> log_entry \<Rightarrow> log_entry list list" where
  "keep_entry io cfg segs e =
     (if unat (fc_max_size_bytes cfg) \<le> length (file_text io (hd segs))
      then take (unat (fc_max_files cfg) + 1) ([e] # segs) else (hd segs @ [e]) # tl segs)"

definition segments :: "log_io \<Rightarrow> file_config \<Rightarrow> log_entry list \<Rightarrow> log_entry list list" where
  "segments io cfg es = foldl (keep_entry io cfg) [[]] es"

definition kept :: "log_io \<Rightarrow> file_config \<Rightarrow> log_entry list \<Rightarrow> log_entry list" where
  "kept io cfg es = concat (rev (segments io cfg es))"

definition read_back :: "log_io \<Rightarrow> log_entry \<Rightarrow> log_entry" where
  "read_back io e = e\<lparr>le_id := uuid io, le_run_id := None\<rparr>"

definition write_all :: "'l sl_env \<Rightarrow> (millis \<times> log_entry) list \<Rightarrow> 'l stormlog \<Rightarrow> 'l stormlog" where
  "write_all env ws s = foldl (\<lambda>s (now, e). write_entry env now e s) s ws"

definition dotless :: "string \<Rightarrow> bool" where "dotless p \<longleftrightarrow> CHR ''.'' \<notin> set p"

lemma segments_snoc: "segments io cfg (es @ [e]) = keep_entry io cfg (segments io cfg es) e"
  by (simp add: segments_def)

lemma file_text_simps [simp]: "file_text io [] = []" "file_text io (es @ [e]) = file_text io es @ format_line io e"
  "file_text io (e # es) = format_line io e @ file_text io es"
  by (simp_all add: file_text_def)

lemma format_line_some: "format_line io e \<noteq> []" by (simp add: format_line_def)

lemma file_text_empty [simp]: "file_text io es = [] \<longleftrightarrow> es = []" "[] = file_text io es \<longleftrightarrow> es = []"
  by (cases es; simp add: format_line_some)+

definition well_kept :: "log_io \<Rightarrow> file_config \<Rightarrow> log_entry list list \<Rightarrow> bool" where
  "well_kept io cfg segs \<longleftrightarrow> segs \<noteq> [] \<and> length segs \<le> unat (fc_max_files cfg) + 1
     \<and> list_all (\<lambda>s. unat (fc_max_size_bytes cfg) \<le> length (file_text io s)) (tl segs)"

lemma keep_entry_well: "well_kept io cfg segs \<Longrightarrow> well_kept io cfg (keep_entry io cfg segs e)"
  by (cases segs) (auto simp: well_kept_def keep_entry_def list_all_iff dest!: in_set_takeD)

lemma segments_well: "well_kept io cfg (segments io cfg es)"
  by (induction es rule: rev_induct) (simp_all add: segments_snoc keep_entry_well, simp add: segments_def well_kept_def)

lemma kept_snoc: "kept io cfg (es @ [e]) =
    (if unat (fc_max_size_bytes cfg) \<le> length (file_text io (hd (segments io cfg es)))
     then concat (rev (take (unat (fc_max_files cfg)) (segments io cfg es))) @ [e] else kept io cfg es @ [e])"
  using segments_well[of io cfg es]
  by (cases "segments io cfg es") (simp_all add: kept_def segments_snoc keep_entry_def well_kept_def)

text \<open>What falls out is the oldest, and nothing does before every segment is full.\<close>

lemma concat_rev_take: "suffix (concat (rev (take k xs))) (concat (rev xs))"
  by (metis append_take_drop_id concat_append rev_append suffixI)

lemma kept_suffix: "suffix (kept io cfg es) es"
proof (induction es rule: rev_induct)
  case (snoc e es)
  have "suffix (concat (rev (take k (segments io cfg es)))) es" for k
    using concat_rev_take snoc unfolding kept_def by (rule suffix_order.trans)
  then show ?case using snoc by (simp add: kept_snoc)
qed (simp add: kept_def segments_def)

lemma file_text_append: "file_text io (xs @ ys) = file_text io xs @ file_text io ys"
  by (simp add: file_text_def)

lemma full_segments: "list_all (\<lambda>s. n \<le> length (file_text io s)) segs \<Longrightarrow>
    length segs * n \<le> length (file_text io (concat (rev segs)))"
  by (induction segs) (simp_all add: file_text_append)

lemma kept_whole: "length (file_text io es) < (unat (fc_max_files cfg) + 1) * unat (fc_max_size_bytes cfg)
    \<Longrightarrow> kept io cfg es = es"
proof (induction es rule: rev_induct)
  case (snoc e es)
  let ?s = "segments io cfg es" and ?m = "unat (fc_max_files cfg)" and ?n = "unat (fc_max_size_bytes cfg)"
  have whole: "kept io cfg es = es" using snoc by simp
  have w: "well_kept io cfg ?s" by (rule segments_well)
  have "length ?s \<le> ?m" if "?n \<le> length (file_text io (hd ?s))"
  proof (rule ccontr)
    assume "\<not> length ?s \<le> ?m"
    then have "length ?s = ?m + 1" using w by (simp add: well_kept_def)
    moreover have "list_all (\<lambda>s. ?n \<le> length (file_text io s)) ?s"
      using w that by (cases ?s) (simp_all add: well_kept_def)
    ultimately have "(?m + 1) * ?n \<le> length (file_text io (kept io cfg es))"
      using full_segments[of ?n io ?s] by (simp add: kept_def)
    then show False using snoc.prems whole by simp
  qed
  then show ?case using whole unfolding kept_snoc by (auto simp: kept_def)
qed (simp add: kept_def segments_def)

section \<open>The files of one process\<close>

definition segment_file :: "string \<Rightarrow> nat \<Rightarrow> string" where
  "segment_file p i = (if i = 0 then live_name p else generation p i)"

lemma slot_inject [simp]: "segment_file p i = segment_file p j \<longleftrightarrow> i = j"
  by (simp add: segment_file_def)

lemma own_part_Some: "own_part p n = Some r \<longleftrightarrow> n = p @ ''.'' @ r @ ''.log''"
proof -
  have "own_part p n = Some r \<longleftrightarrow> (\<exists>rest. strip_prefix (p @ ''.'') n = Some rest \<and> strip_suffix ''.log'' rest = Some r)"
    by (cases "strip_prefix (p @ ''.'') n") (simp_all add: own_part_def)
  then show ?thesis by (simp add: strip_prefix_Some strip_suffix_Some)
qed

lemma own_generation [simp]: "own_part p (generation p i) = Some (show_nat i)"
  by (simp add: own_part_Some generation_def)

lemma own_live [simp]: "own_part p (live_name p) = None"
proof (rule ccontr)
  assume "own_part p (live_name p) \<noteq> None"
  then obtain r where "live_name p = p @ ''.'' @ r @ ''.log''" by (auto simp: own_part_Some)
  then have "length (live_name p) = length (p @ ''.'' @ r @ ''.log'')" by (rule arg_cong)
  then show False by (simp add: live_name_def)
qed

text \<open>Between names without dots, no file is of two processes.\<close>

definition process_file :: "string \<Rightarrow> string \<Rightarrow> bool" where
  "process_file p n \<longleftrightarrow> n = live_name p \<or> own_part p n \<noteq> None"

lemma of_process_slot [simp]: "process_file p (segment_file p i)"
  by (simp add: process_file_def segment_file_def)

lemma until_dot: "dotless p \<Longrightarrow> takeWhile (\<lambda>c. c \<noteq> CHR ''.'') (p @ CHR ''.'' # s) = p"
  unfolding dotless_def by (induction p) auto

lemma of_process_start: "dotless p \<Longrightarrow> process_file p n \<Longrightarrow> takeWhile (\<lambda>c. c \<noteq> CHR ''.'') n = p"
  by (auto simp: process_file_def live_name_def own_part_Some until_dot)

lemma slot_of_other: "dotless p \<Longrightarrow> dotless q \<Longrightarrow> process_file p (segment_file q i) \<Longrightarrow> p = q"
  using of_process_start[of p "segment_file q i"] of_process_start[of q "segment_file q i"] by simp

definition stands :: "log_io \<Rightarrow> string \<Rightarrow> log_entry list list \<Rightarrow> log_dir \<Rightarrow> bool" where
  "stands io p segs d \<longleftrightarrow> distinct (map fst d)
     \<and> (\<forall>i. map_of d (segment_file p i) = (if i < length segs \<and> segs ! i \<noteq> [] then Some (file_text io (segs ! i)) else None))
     \<and> (\<forall>n. process_file p n \<and> map_of d n \<noteq> None \<longrightarrow> (\<exists>i < length segs. n = segment_file p i))"

lemma dir_distinct [simp]:
  "distinct (map fst d) \<Longrightarrow> distinct (map fst (dir_remove n d))"
  "distinct (map fst d) \<Longrightarrow> distinct (map fst (dir_rename n n' d))"
  "distinct (map fst d) \<Longrightarrow> distinct (map fst (dir_append n t d))"
  by (auto simp: dir_remove_def dir_rename_def dir_append_def distinct_map inj_on_def split: option.splits)

lemma dir_rename_frame: "n \<noteq> a \<Longrightarrow> n \<noteq> b \<Longrightarrow> map_of (dir_rename a b d) n = map_of d n"
  by (simp add: dir_rename_def split: option.split)

lemma shift_up_frame:
  "distinct (map fst d) \<Longrightarrow> distinct (map fst (shift_up q m d))"
  "(\<And>i. n \<noteq> generation q i) \<Longrightarrow> map_of (shift_up q m d) n = map_of d n"
proof -
  have "distinct (map fst d) \<Longrightarrow> distinct (map fst (foldl (\<lambda>d i. dir_rename (generation q i) (generation q (i + 1)) d) d is))" for "is"
    by (induction "is" arbitrary: d) simp_all
  then show "distinct (map fst d) \<Longrightarrow> distinct (map fst (shift_up q m d))" by (simp add: shift_up_def)
  have "(\<And>i. n \<noteq> generation q i) \<Longrightarrow> map_of (foldl (\<lambda>d i. dir_rename (generation q i) (generation q (i + 1)) d) d is) n = map_of d n" for "is"
    by (induction "is" arbitrary: d) (simp_all add: dir_rename_frame)
  then show "(\<And>i. n \<noteq> generation q i) \<Longrightarrow> map_of (shift_up q m d) n = map_of d n" by (simp add: shift_up_def)
qed

lemma rotate_distinct: "distinct (map fst d) \<Longrightarrow> distinct (map fst (rotate_file m q d))"
  by (simp add: rotate_alt shift_up_frame)

lemma of_process_names [simp]: "process_file p (live_name p)" "process_file p (generation p i)"
  by (simp_all add: process_file_def)

lemma rotate_frame: "\<not> process_file q n \<Longrightarrow> map_of (rotate_file m q d) n = map_of d n"
proof -
  assume "\<not> process_file q n"
  then have "n \<noteq> live_name q" "n \<noteq> generation q i" for i by auto
  then show ?thesis by (simp add: rotate_alt dir_rename_frame shift_up_frame(2))
qed

lemma rotate_slot:
  assumes "1 \<le> unat m" "map_of d (live_name p) = Some t"
  shows "map_of (rotate_file m p d) (segment_file p i) =
    (if i = 0 then None else if i \<le> unat m then map_of d (segment_file p (i - 1)) else map_of d (segment_file p i))"
proof -
  note r = rotate_slots[OF assms]
  consider "i = 0" | "i = 1" | j where "i = j + 1" "1 \<le> j" "j < unat m" | "1 < i" "unat m < i"
    by (metis add.commute le_add_diff_inverse less_one not_less plus_1_eq_Suc Suc_le_eq Suc_eq_plus1 nat_neq_iff)
  then show ?thesis
  proof cases
    case 4
    then have "map_of (rotate_file m p d) (generation p i) = map_of d (generation p i)" by (intro r(4)) auto
    then show ?thesis using 4 by (simp add: segment_file_def)
  qed (use assms r(1,2) r(3) in \<open>auto simp: segment_file_def\<close>)
qed

lemma rotate_own:
  assumes "1 \<le> unat m" "map_of d (live_name p) = Some t" "\<And>i. n \<noteq> segment_file p i"
  shows "map_of (rotate_file m p d) n = map_of d n"
proof -
  have "n \<noteq> live_name p" "1 \<le> i \<Longrightarrow> n \<noteq> generation p i" for i
    using assms(3)[of 0] assms(3)[of i] by (simp_all add: segment_file_def)
  then show ?thesis by (intro rotate_slots(4)[OF assms(1,2)]) auto
qed

text \<open>One write: to its own process it is a step of the promise, to every other one nothing.\<close>

definition after_write :: "file_config \<Rightarrow> string \<Rightarrow> nat \<Rightarrow> string \<Rightarrow> log_dir \<Rightarrow> log_dir" where
  "after_write cfg p sz line d = dir_append (live_name p) line
     (if unat (fc_max_size_bytes cfg) \<le> sz then rotate_file (fc_max_files cfg) p d else d)"

lemma standsD:
  assumes "stands io p segs d"
  shows "distinct (map fst d)"
    and "map_of d (segment_file p i) = (if i < length segs \<and> segs ! i \<noteq> [] then Some (file_text io (segs ! i)) else None)"
    and "process_file p n \<Longrightarrow> map_of d n \<noteq> None \<Longrightarrow> \<exists>i < length segs. n = segment_file p i"
  using assms unfolding stands_def by blast+

lemma stands_appended:
  assumes "stands io p (live # gens) d"
  shows "stands io p ((live @ [e]) # gens) (dir_append (live_name p) (format_line io e) d)"
proof -
  have live: "map_of d (live_name p) = (if live \<noteq> [] then Some (file_text io live) else None)"
    using standsD(2)[OF assms, of 0] by (simp add: segment_file_def)
  have slots: "map_of (dir_append (live_name p) (format_line io e) d) (segment_file p i)
      = (if i = 0 then Some (file_text io (live @ [e])) else map_of d (segment_file p i))" for i
    using live by (simp add: segment_file_def)
  show ?thesis unfolding stands_def
  proof (intro conjI allI impI)
    fix i
    show "map_of (dir_append (live_name p) (format_line io e) d) (segment_file p i) =
        (if i < length ((live @ [e]) # gens) \<and> ((live @ [e]) # gens) ! i \<noteq> []
         then Some (file_text io (((live @ [e]) # gens) ! i)) else None)"
      unfolding slots standsD(2)[OF assms] by (cases i) simp_all
  next
    fix n assume "process_file p n \<and> map_of (dir_append (live_name p) (format_line io e) d) n \<noteq> None"
    then have "n = segment_file p 0 \<or> process_file p n \<and> map_of d n \<noteq> None" by (auto simp: segment_file_def split: if_splits)
    then show "\<exists>i < length ((live @ [e]) # gens). n = segment_file p i"
      using standsD(3)[OF assms, of n] by auto
  qed (use standsD(1)[OF assms] in simp)
qed

lemma stands_rotated:
  assumes "stands io p (live # gens) d" "live \<noteq> []" "length gens \<le> unat m" "0 < unat m"
  shows "stands io p (take (unat m + 1) ([] # live # gens)) (rotate_file m p d)"
proof -
  let ?s = "take (unat m + 1) ([] # live # gens)"
  have m: "1 \<le> unat m" using assms(4) by simp
  have live: "map_of d (live_name p) = Some (file_text io live)"
    using standsD(2)[OF assms(1), of 0] assms(2) by (simp add: segment_file_def)
  show ?thesis unfolding stands_def
  proof (intro conjI allI impI)
    fix i
    show "map_of (rotate_file m p d) (segment_file p i) =
        (if i < length ?s \<and> ?s ! i \<noteq> [] then Some (file_text io (?s ! i)) else None)"
      unfolding rotate_slot[OF m live] standsD(2)[OF assms(1)] using assms(3) by (cases i) auto
  next
    fix n assume n: "process_file p n \<and> map_of (rotate_file m p d) n \<noteq> None"
    show "\<exists>i < length ?s. n = segment_file p i"
    proof (cases "\<exists>i. n = segment_file p i")
      case True
      then obtain i where i: "n = segment_file p i" by blast
      with n have "map_of (rotate_file m p d) (segment_file p i) \<noteq> None" by simp
      then have "i < length ?s"
        unfolding rotate_slot[OF m live] standsD(2)[OF assms(1)] using assms(3) by (auto split: if_splits)
      with i show ?thesis by blast
    next
      case False
      then have "map_of (rotate_file m p d) n = map_of d n" using rotate_own[OF m live] by blast
      with n False standsD(3)[OF assms(1), of n] show ?thesis by auto
    qed
  qed (simp add: rotate_distinct standsD(1)[OF assms(1)])
qed

lemma stands_written:
  assumes "stands io p segs d" "well_kept io cfg segs" "0 < unat (fc_max_size_bytes cfg)" "0 < unat (fc_max_files cfg)"
  shows "stands io p (keep_entry io cfg segs e)
    (after_write cfg p (length (file_text io (hd segs))) (format_line io e) d)"
proof -
  obtain live gens where segs: "segs = live # gens" using assms(2) by (cases segs) (auto simp: well_kept_def)
  note st = assms(1)[unfolded segs]
  show ?thesis
  proof (cases "unat (fc_max_size_bytes cfg) \<le> length (file_text io live)")
    case True
    then have "live \<noteq> []" using assms(3) by auto
    then have "stands io p (take (unat (fc_max_files cfg) + 1) ([] # live # gens)) (rotate_file (fc_max_files cfg) p d)"
      using assms(2,4) by (intro stands_rotated[OF st]) (simp_all add: well_kept_def segs)
    then show ?thesis using stands_appended[of io p "[]"] True by (simp add: after_write_def keep_entry_def segs)
  next
    case False
    then show ?thesis using stands_appended[OF st] by (simp add: after_write_def keep_entry_def segs)
  qed
qed

lemma stands_elsewhere:
  assumes "stands io p segs d" "dotless p" "dotless q" "p \<noteq> q"
  shows "stands io p segs (after_write cfg q sz line d)"
proof -
  have same: "map_of (after_write cfg q sz line d) n = map_of d n" if "process_file p n" for n
  proof -
    have "\<not> process_file q n"
      using that of_process_start[of p n] of_process_start[of q n] assms(2-4) by auto
    moreover from this have "n \<noteq> live_name q" by auto
    ultimately show ?thesis by (simp add: after_write_def rotate_frame)
  qed
  have "distinct (map fst (after_write cfg q sz line d))"
    using standsD(1)[OF assms(1)] by (simp add: after_write_def rotate_distinct)
  then show ?thesis unfolding stands_def using standsD[OF assms(1)] same by (metis of_process_slot)
qed

section \<open>The writers\<close>

definition keeps_promise :: "log_io \<Rightarrow> string \<Rightarrow> log_entry list list \<Rightarrow> file_logger \<times> log_dir \<Rightarrow> bool" where
  "keeps_promise io p segs = (\<lambda>(g, d). stands io p segs d \<and>
     (\<forall>q w. fg_writers g q = Some w \<longrightarrow> pw_path w = live_name q \<and> pw_failing w = None
        \<and> (q = p \<longrightarrow> pw_current_size w = length (file_text io (hd segs)))))"

lemma write_works: "pw_failing w = None \<Longrightarrow> pw_path w = live_name (le_process e) \<Longrightarrow>
    write_writer io cfg works now e w d =
      (w\<lparr>pw_current_size := (if unat (fc_max_size_bytes cfg) \<le> pw_current_size w then 0 else pw_current_size w)
           + length (format_line io e), pw_failing := None\<rparr>,
       after_write cfg (le_process e) (pw_current_size w) (format_line io e) d, [])"
  by (simp add: write_writer_def write_due_def append_file_def append_write_def works_def after_write_def Let_def)

lemma new_size: "well_kept io cfg segs \<Longrightarrow> length (file_text io (hd (keep_entry io cfg segs e))) =
    (if unat (fc_max_size_bytes cfg) \<le> length (file_text io (hd segs)) then 0 else length (file_text io (hd segs)))
      + length (format_line io e)"
  by (simp add: keep_entry_def)

lemma write_at_tracked:
  assumes "keeps_promise io p segs (g, d)" "well_kept io (fg_config g) segs"
    and "0 < unat (fc_max_size_bytes (fg_config g))" "0 < unat (fc_max_files (fg_config g))"
    and "dotless p" "dotless (le_process e)"
  shows "keeps_promise io p (if le_process e = p then keep_entry io (fg_config g) segs e else segs)
      (fst (write_at io works now e (g, d)))"
    and "fg_config (fst (fst (write_at io works now e (g, d)))) = fg_config g"
proof -
  define w where "w = (case fg_writers g (le_process e) of Some w \<Rightarrow> w | None \<Rightarrow> new_writer d (le_process e))"
  have st: "stands io p segs d" using assms(1) by (simp add: keeps_promise_def)
  have w: "pw_path w = live_name (le_process e)" "pw_failing w = None"
    using assms(1) by (auto simp: w_def keeps_promise_def new_writer_def split: option.split)
  have sz: "le_process e = p \<Longrightarrow> pw_current_size w = length (file_text io (hd segs))"
    using assms(1,2) standsD(2)[OF st, of 0]
    by (auto simp: w_def keeps_promise_def new_writer_def well_kept_def segment_file_def hd_conv_nth split: option.split)
  note out = write_works[OF w(2,1), of io "fg_config g" now d]
  show "fg_config (fst (fst (write_at io works now e (g, d)))) = fg_config g"
    by (simp add: write_at_def Let_def w_def [symmetric] out)
  show "keeps_promise io p (if le_process e = p then keep_entry io (fg_config g) segs e else segs)
      (fst (write_at io works now e (g, d)))"
  proof (cases "le_process e = p")
    case True
    then show ?thesis
      using assms(1) w sz stands_written[OF st assms(2-4), of e] new_size[OF assms(2), of e]
      by (auto simp: write_at_def Let_def w_def [symmetric] out keeps_promise_def split: if_splits)
  next
    case False
    then show ?thesis
      using assms(1) w stands_elsewhere[OF st assms(5,6)]
      by (auto simp: write_at_def Let_def w_def [symmetric] out keeps_promise_def split: if_splits)
  qed
qed

section \<open>What the store reads\<close>

lemma sort_indexed:
  assumes "distinct (map fst xs)" "set xs = (\<lambda>i. (i, f i)) ` set is" "sorted is" "distinct is"
  shows "sort_key fst xs = map (\<lambda>i. (i, f i)) is"
proof -
  have keys: "map fst (sort_key fst xs) = is"
  proof (rule sorted_distinct_set_unique)
    show "distinct (map fst (sort_key fst xs))"
      using assms(1) by (simp add: distinct_map)
    show "set (map fst (sort_key fst xs)) = set is" using assms(2) by (simp add: image_image)
  qed (use assms in simp_all)
  have "x = (fst x, f (fst x))" if "x \<in> set (sort_key fst xs)" for x
    using that assms(2) by auto
  then have "sort_key fst xs = map (\<lambda>x. (fst x, f (fst x))) (sort_key fst xs)"
    by (intro sym[OF map_idI]) auto
  then show ?thesis using keys by (metis (no_types, lifting) map_map comp_apply map_eq_conv)
qed

text \<open>The two lists of \<open>files_for\<close>, of a directory that stands for segments.\<close>

definition own_files :: "string \<Rightarrow> log_dir \<Rightarrow> (string \<times> string) list" where
  "own_files p d = List.map_filter (\<lambda>(name, _). case own_part p name of
        None \<Rightarrow> None | Some rest \<Rightarrow> if rest = [] then None else Some (rest, name)) d"

definition rotated_of :: "string \<Rightarrow> log_dir \<Rightarrow> (nat \<times> string) list" where
  "rotated_of p d = List.map_filter (\<lambda>(rest, name). map_option (\<lambda>n. (n, name)) (parse_u32 rest)) (own_files p d)"

lemma files_for_alt: "files_for d p =
    map snd (sort_key fst (filter (\<lambda>(rest, _). parse_u32 rest = None) (own_files p d)))
    @ map snd (sort_desc fst (rotated_of p d)) @ (if map_of d (live_name p) \<noteq> None then [live_name p] else [])"
  by (simp add: files_for_def own_files_def rotated_of_def Let_def)

lemma own_files_iff: "(rest, n) \<in> set (own_files p d) \<longleftrightarrow> n \<in> fst ` set d \<and> own_part p n = Some rest \<and> rest \<noteq> []"
  by (force simp: own_files_def split: option.splits if_splits)

lemma rotated_of_iff: "(i, n) \<in> set (rotated_of p d) \<longleftrightarrow> (\<exists>rest. (rest, n) \<in> set (own_files p d) \<and> parse_u32 rest = Some i)"
  by (force simp: rotated_of_def)

lemma rotated_names: "\<exists>P. map snd (rotated_of p d) = filter P (map fst d)"
proof -
  have own: "map snd (own_files p d) = filter (\<lambda>n. own_part p n \<noteq> None \<and> own_part p n \<noteq> Some []) (map fst d)" for d
    by (induction d) (auto simp: own_files_def List.map_filter_simps split: option.splits)
  have "map snd (List.map_filter (\<lambda>(rest, name). map_option (\<lambda>n. (n, name)) (parse_u32 rest)) xs)
      = map snd (filter (\<lambda>(rest, _). parse_u32 rest \<noteq> None) xs)" for xs :: "(string \<times> string) list"
    by (induction xs) (auto simp: List.map_filter_simps split: option.splits)
  moreover have "filter (\<lambda>(rest, _). parse_u32 rest \<noteq> None) (own_files p d) =
      filter (\<lambda>x. parse_u32 (the (own_part p (snd x))) \<noteq> None) (own_files p d)"
    by (rule filter_cong) (auto simp: own_files_iff)
  ultimately have "map snd (rotated_of p d) =
      filter (\<lambda>n. parse_u32 (the (own_part p n)) \<noteq> None) (map snd (own_files p d))"
    by (simp add: rotated_of_def filter_map comp_def)
  then show ?thesis unfolding own filter_filter by blast
qed

lemma stands_own_files:
  assumes "stands io p segs d" "list_all (\<lambda>s. s \<noteq> []) (tl segs)"
  shows "(rest, n) \<in> set (own_files p d) \<longleftrightarrow> (\<exists>i \<in> {1..<length segs}. n = generation p i \<and> rest = show_nat i)"
proof -
  have dom: "n \<in> fst ` set d \<longleftrightarrow> map_of d n \<noteq> None" by (simp add: map_of_eq_None_iff)
  show ?thesis
  proof
    assume l: "(rest, n) \<in> set (own_files p d)"
    then have n: "own_part p n = Some rest" "map_of d n \<noteq> None" unfolding own_files_iff dom by auto
    then obtain i where i: "i < length segs" "n = segment_file p i" using standsD(3)[OF assms(1), of n] by (auto simp: process_file_def)
    with n have "i \<noteq> 0" by (cases i) (auto simp: segment_file_def)
    with i n show "\<exists>i \<in> {1..<length segs}. n = generation p i \<and> rest = show_nat i" by (auto simp: segment_file_def)
  next
    assume "\<exists>i \<in> {1..<length segs}. n = generation p i \<and> rest = show_nat i"
    then obtain i where i: "1 \<le> i" "i < length segs" "n = generation p i" "rest = show_nat i" by auto
    then have "segs ! i \<noteq> []" using assms(2) by (cases segs) (auto simp: list_all_length nth_Cons')
    then have "map_of d n \<noteq> None" using standsD(2)[OF assms(1), of i] i by (simp add: segment_file_def)
    then show "(rest, n) \<in> set (own_files p d)"
      using i show_nat_nonempty[of i] unfolding own_files_iff dom by simp
  qed
qed

lemma stands_files:
  assumes "stands io p segs d" "list_all (\<lambda>s. s \<noteq> []) (tl segs)" "length segs \<le> 2 ^ 32" "segs \<noteq> []"
  shows "files_for d p = rev (map (segment_file p) (filter (\<lambda>i. segs ! i \<noteq> []) [0..<length segs]))"
proof -
  note own = stands_own_files[OF assms(1,2)]
  have small: "parse_u32 (show_nat i) = Some i" if "i < length segs" for i
    using that assms(3) by (simp add: parse_u32_def parse_unsigned_show)
  have arch: "filter (\<lambda>(rest, _). parse_u32 rest = None) (own_files p d) = []"
    using own small by (fastforce simp: filter_empty_conv)
  have set: "set (rotated_of p d) = (\<lambda>i. (i, generation p i)) ` set [1..<length segs]"
    using own small by (auto simp: rotated_of_iff)
  then have snds: "map snd (rotated_of p d) = map (generation p) (map fst (rotated_of p d))" by auto
  obtain P where "map snd (rotated_of p d) = filter P (map fst d)" using rotated_names by blast
  then have "distinct (map snd (rotated_of p d))" using standsD(1)[OF assms(1)] by simp
  then have dist: "distinct (map fst (rotated_of p d))" unfolding snds by (rule distinct_map [THEN iffD1, THEN conjunct1])
  have "sort_key fst (rev (rotated_of p d)) = map (\<lambda>i. (i, generation p i)) [1..<length segs]"
    using dist set by (intro sort_indexed) (simp_all add: rev_map [symmetric])
  then have rot: "map snd (sort_desc fst (rotated_of p d)) = rev (map (generation p) [1..<length segs])"
    by (simp add: sort_desc_def rev_map comp_def)
  obtain live gens where segs: "segs = live # gens" using assms(4) by (cases segs) auto
  have all: "filter (\<lambda>i. segs ! i \<noteq> []) [1..<length segs] = [1..<length segs]"
    using assms(2) unfolding segs by (auto simp: filter_id_conv list_all_length nth_Cons')
  have "[0..<length segs] = 0 # [1..<length segs]" by (simp add: segs upt_conv_Cons del: upt_Suc)
  moreover have "map (segment_file p) [1..<length segs] = map (generation p) [1..<length segs]" by (simp add: segment_file_def)
  moreover have "segs ! 0 = live" by (simp add: segs)
  ultimately have "map (segment_file p) (filter (\<lambda>i. segs ! i \<noteq> []) [0..<length segs]) =
      (if live \<noteq> [] then [live_name p] else []) @ map (generation p) [1..<length segs]"
    using all by (simp add: segment_file_def[of p 0])
  moreover have "map_of d (live_name p) \<noteq> None \<longleftrightarrow> live \<noteq> []"
    using standsD(2)[OF assms(1), of 0] by (simp add: segment_file_def segs)
  ultimately show ?thesis unfolding files_for_alt arch rot by simp
qed

lemma query_own_file:
  assumes "\<forall>e \<in> set es. readable_entry io p e" "es \<noteq> []" "map_of d n = Some (file_text io es)" "lq_run_id q = None"
  shows "query_file io q d p n = filter (\<lambda>e. matches io e q) (map (read_back io) es)"
proof -
  have some: "butlast (format_line io e) \<noteq> []" for e by (simp add: format_line_def butlast_append)
  have "filter (\<lambda>raw. raw \<noteq> []) (lines (file_text io es)) = map (butlast \<circ> format_line io) es"
    using some by (auto simp: file_text_def lines_of_file[OF assms(1)] filter_id_conv)
  moreover have "map (parse_line io p) (map (butlast \<circ> format_line io) es) = map (read_back io) es"
    using assms(1) parse_written[of io p] by (simp add: read_back_def)
  ultimately show ?thesis using assms(3,4) by (simp add: query_file_def del: map_map)
qed

lemma query_files:
  assumes "stands io p segs d" "list_all (\<lambda>s. s \<noteq> []) (tl segs)" "length segs \<le> 2 ^ 32" "segs \<noteq> []"
    and "\<forall>e \<in> set (concat segs). readable_entry io p e" "lq_run_id q = None"
  shows "concat (map (query_file io q d p) (files_for d p)) =
    filter (\<lambda>e. matches io e q) (map (read_back io) (concat (rev segs)))"
proof -
  let ?is = "rev (filter (\<lambda>i. segs ! i \<noteq> []) [0..<length segs])"
  let ?out = "\<lambda>es. filter (\<lambda>e. matches io e q) (map (read_back io) es)"
  have one: "query_file io q d p (segment_file p i) = ?out (segs ! i)" if "i < length segs" "segs ! i \<noteq> []" for i
    using that assms(5,6) standsD(2)[OF assms(1), of i] by (intro query_own_file) auto
  have "concat (map (query_file io q d p) (files_for d p)) = concat (map (\<lambda>i. ?out (segs ! i)) ?is)"
    unfolding stands_files[OF assms(1-4)] using one by (intro arg_cong[of _ _ concat]) (simp add: rev_map [symmetric])
  also have "\<dots> = ?out (concat (map (\<lambda>i. segs ! i) ?is))"
    by (simp add: map_concat filter_concat comp_def)
  also have "concat (map (\<lambda>i. segs ! i) ?is) = concat (rev (filter (\<lambda>s. s \<noteq> []) (map (\<lambda>i. segs ! i) [0..<length segs])))"
    by (simp add: filter_map rev_map comp_def)
  also have "\<dots> = concat (rev segs)"
    unfolding map_nth rev_filter [symmetric] by (induction segs) simp_all
  finally show ?thesis .
qed

section \<open>The whole way\<close>

lemma write_entry_files:
  assumes "en_fault env e now = works"
  shows "(sl_files (write_entry env now e s), sl_dir (write_entry env now e s))
    = fst (write_at (en_io env) works now e (sl_files s, sl_dir s))"
  unfolding write_entry_def assms by (simp add: Let_def split: prod.splits option.splits)

definition entries_of :: "string \<Rightarrow> (millis \<times> log_entry) list \<Rightarrow> log_entry list" where
  "entries_of p ws = filter (\<lambda>e. le_process e = p) (map snd ws)"

lemma write_all_tracked:
  assumes "0 < unat (fc_max_size_bytes cfg)" "0 < unat (fc_max_files cfg)" "dotless p"
    and "\<forall>(now, e) \<in> set ws. dotless (le_process e) \<and> en_fault env e now = works"
    and "sl_files s = file_logger_new cfg" "sl_dir s = []"
  shows "keeps_promise (en_io env) p (segments (en_io env) cfg (entries_of p ws))
      (sl_files (write_all env ws s), sl_dir (write_all env ws s))
    \<and> fg_config (sl_files (write_all env ws s)) = cfg"
  using assms(4)
proof (induction ws rule: rev_induct)
  case Nil
  then show ?case
    by (auto simp: write_all_def entries_of_def keeps_promise_def stands_def assms(5,6) file_logger_new_def segments_def nth_Cons')
next
  case (snoc x ws)
  obtain now e where x: "x = (now, e)" by (cases x)
  let ?s = "write_all env ws s" and ?segs = "segments (en_io env) cfg (entries_of p ws)"
  have ih: "keeps_promise (en_io env) p ?segs (sl_files ?s, sl_dir ?s)" "fg_config (sl_files ?s) = cfg"
    using snoc by auto
  have "dotless (le_process e)" "en_fault env e now = works" using snoc.prems by (auto simp: x)
  note step = write_at_tracked[OF ih(1), unfolded ih(2), OF segments_well assms(1,2,3) this(1), of now]
    and files = write_entry_files[OF this(2), of ?s]
  have "segments (en_io env) cfg (entries_of p (ws @ [x])) =
      (if le_process e = p then keep_entry (en_io env) cfg ?segs e else ?segs)"
    by (simp add: entries_of_def x segments_snoc)
  moreover have "write_all env (ws @ [x]) s = write_entry env now e ?s" by (simp add: write_all_def x)
  moreover have "sl_files (write_entry env now e ?s) = fst (fst (write_at (en_io env) works now e (sl_files ?s, sl_dir ?s)))"
    using arg_cong[OF files, of fst] by simp
  ultimately show ?case using step unfolding files [symmetric] by (simp only: simp_thms fst_conv)
qed

section \<open>Properties\<close>

text \<open>C11: The log keeps what it promises: of all that was written of a process, in whatever order with the entries
  of others and through any number of rotations, a query of that process answers from a suffix, the
  segments the promise keeps; and that is every entry as long as they fit into the files there are.
\<close>
theorem written_logs_are_queried:
  fixes env :: "'l sl_env" and cfg :: file_config
  defines "io \<equiv> en_io env"
  assumes "0 < unat (fc_max_size_bytes cfg)" "0 < unat (fc_max_files cfg)"
    and "sl_files s = file_logger_new cfg" "sl_dir s = []"
    and "\<forall>(now, e) \<in> set ws. dotless (le_process e) \<and> readable_entry io (le_process e) e \<and> en_fault env e now = works"
    and "dotless p" "lq_process q = Some p" "lq_run_id q = None" "lq_tail q = Some n"
  shows "log_query_run io (sl_dir (write_all env ws s)) q = last_n n (sort_key le_timestamp
      (filter (\<lambda>e. matches io e q) (map (read_back io) (kept io cfg (entries_of p ws)))))
    \<and> suffix (kept io cfg (entries_of p ws)) (entries_of p ws)
    \<and> (length (file_text io (entries_of p ws)) < (unat (fc_max_files cfg) + 1) * unat (fc_max_size_bytes cfg)
        \<longrightarrow> kept io cfg (entries_of p ws) = entries_of p ws)"
proof -
  let ?segs = "segments io cfg (entries_of p ws)"
  have "\<forall>(now, e) \<in> set ws. dotless (le_process e) \<and> en_fault env e now = works" using assms(6) by auto
  from write_all_tracked[OF assms(2,3,7) this assms(4,5)] have st: "stands io p ?segs (sl_dir (write_all env ws s))"
    by (simp add: keeps_promise_def io_def)
  have well: "well_kept io cfg ?segs" by (rule segments_well)
  then have "list_all (\<lambda>s. s \<noteq> []) (tl ?segs)" using assms(2) by (auto simp: well_kept_def list_all_iff)
  moreover have "unat (fc_max_files cfg) < 2 ^ LENGTH(32)" by (rule unsigned_less)
  then have "length ?segs \<le> 2 ^ 32" "?segs \<noteq> []"
    using well by (simp_all add: well_kept_def)
  moreover have "\<forall>e \<in> set (concat ?segs). readable_entry io p e"
  proof -
    have "set (concat ?segs) \<subseteq> set (entries_of p ws)"
      using kept_suffix[of io cfg "entries_of p ws"] set_mono_suffix by (fastforce simp: kept_def)
    then show ?thesis using assms(6) by (fastforce simp: entries_of_def)
  qed
  ultimately show ?thesis
    using query_files[OF st] assms(8-10) kept_suffix kept_whole by (simp add: log_query_run_def kept_def)
qed

definition two_files :: file_config where
  "two_files = file_config_default\<lparr>fc_max_files := 1, fc_max_size_bytes := 1\<rparr>"

definition some_writes :: "(millis \<times> log_entry) list" where
  "some_writes = [(0, log_entry_new ''a'' 1 ''etcd'' Stdout ''up''), (0, log_entry_new ''b'' 2 ''web'' Stdout ''hello''),
     (0, log_entry_new ''c'' 3 ''etcd'' Stderr ''slow disk''), (0, log_entry_new ''d'' 4 ''etcd'' Stdout ''ready'')]"

definition small_log :: "unit stormlog" where
  "small_log = quiet_log\<lparr>sl_files := file_logger_new two_files\<rparr>"

definition of_etcd :: log_query where
  "of_etcd = \<lparr>lq_process = Some ''etcd'', lq_stream = None, lq_severity_min = None, lq_since = None, lq_until = None,
     lq_search = None, lq_tail = Some 10, lq_run_id = None\<rparr>"

text \<open>With one rotated file and a limit of one byte, the last two of the three lines are still there.\<close>

lemma written_logs_are_queried_witness:
  "map le_line (log_query_run plain_io (sl_dir (write_all flooded_env some_writes small_log)) of_etcd) = [''slow disk'', ''ready'']"
proof -
  have io: "en_io flooded_env = plain_io" by (simp add: flooded_env_def)
  have read: "log_query_run plain_io (sl_dir (write_all flooded_env some_writes small_log)) of_etcd =
      last_n 10 (sort_key le_timestamp (filter (\<lambda>e. matches plain_io e of_etcd)
        (map (read_back plain_io) (kept plain_io two_files (entries_of ''etcd'' some_writes)))))"
  proof (rule written_logs_are_queried[of two_files small_log some_writes flooded_env "''etcd''" of_etcd 10, unfolded io, THEN conjunct1])
    show "\<forall>(now, e) \<in> set some_writes. dotless (le_process e) \<and> readable_entry plain_io (le_process e) e \<and> en_fault flooded_env e now = works"
      by (simp add: some_writes_def dotless_def readable_entry_def plain_io_def flooded_env_def log_entry_new_def
          parse_digits_show show_nat.simps digit_def newline_def carriage_def char_of_def digit_val_def bit_Suc_0_iff)
  qed (simp_all add: two_files_def small_log_def quiet_log_def stormlog_new_def of_etcd_def dotless_def)
  show ?thesis unfolding read by code_simp
qed

end
