(* ===== verification/Capture.thy ===== *)
theory Capture
  imports StormLog Terminal
begin

text \<open>
  The tasks of \<open>crates/stormlog/src/lib.rs\<close>: the two readers \<open>spawn_capture\<close> starts for a run, each a machine
  that stops where the code awaits a lock or a read, and \<open>archive_run\<close>, which waits for them. What each
  read of a pipe gives is the list a reader carries; \<open>lossy\<close> is \<open>String::from_utf8_lossy\<close>.
\<close>

section \<open>The facade's state with its tasks\<close>

datatype read_of_pipe = ReadBytes "u8 list" | ReadEof | ReadError string

datatype reader_at =
    Reading
  | HasLines "string list"
  | Writes log_entry "string list"
  | Publishes log_entry "string list"
  | OutputEnded
  | WritesEnd log_entry
  | PublishesEnd log_entry
  | ReaderDone

record pipe_reader =
  rd_process :: string
  rd_run_id :: string
  rd_stream :: log_stream
  rd_reads :: "read_of_pipe list"
  rd_at :: reader_at

text \<open>The tasks that were spawned, running or not, and the handles kept by process.\<close>

record ('l, 'p) capture =
  ca_log :: "'l stormlog"
  ca_terms :: "'p terminal_manager"
  ca_tasks :: "pipe_reader list"
  ca_handles :: "string \<Rightarrow> nat list option"

record ('l, 'p) capture_env =
  ce_log :: "'l sl_env"
  ce_vt :: "'p vt100"
  ce_lossy :: "u8 list \<Rightarrow> string"
  ce_run_time :: "millis \<Rightarrow> string"

text \<open>\<open>write_entry\<close> up to the await before its publishing: the file and the group.\<close>

definition write_out :: "'l sl_env \<Rightarrow> millis \<Rightarrow> log_entry \<Rightarrow> 'l stormlog \<Rightarrow> 'l stormlog" where
  "write_out env now e s =
     (case write_at (en_io env) (en_fault env e now) now e (sl_files s, sl_dir s) of
        ((g, d), _) \<Rightarrow>
          (let s1 = s\<lparr>sl_files := g, sl_dir := d\<rparr>
           in case sl_gate s1 of
                None \<Rightarrow> s1
              | Some per \<Rightarrow>
                  (case emitter_send env e now per of
                     (per', ds) \<Rightarrow> s1\<lparr>sl_gate := Some per', sl_sent := sl_sent s1 @ ds\<rparr>)))"

definition publish_entry :: "log_entry \<Rightarrow> 'l stormlog \<Rightarrow> 'l stormlog" where
  "publish_entry e s = s\<lparr>sl_streams := publish e (sl_streams s)\<rparr>"

definition flush_group :: "'l sl_env \<Rightarrow> string \<Rightarrow> 'l stormlog \<Rightarrow> 'l stormlog" where
  "flush_group env process s =
     (case sl_gate s of
        None \<Rightarrow> s
      | Some per \<Rightarrow> (case emitter_flush env process per of
                       (per', ds) \<Rightarrow> s\<lparr>sl_gate := Some per', sl_sent := sl_sent s @ ds\<rparr>))"

definition exit_marker :: string where "exit_marker = ''--- process exited ---''"

section \<open>One reader\<close>

definition base_severity :: "log_stream \<Rightarrow> severity" where
  "base_severity st = (if st = Stdout then Info else Warning)"

definition line_entry :: "'l sl_env \<Rightarrow> pipe_reader \<Rightarrow> string \<Rightarrow> log_entry" where
  "line_entry env rd line = with_run_id (rd_run_id rd)
     (with_severity (detect_severity (en_io env) line (base_severity (rd_stream rd)))
       (new_entry env (rd_process rd) (rd_stream rd) line))"

definition reader_step ::
    "('l, 'p) capture_env \<Rightarrow> millis \<Rightarrow> pipe_reader \<times> 'l stormlog \<times> 'p terminal_manager \<Rightarrow> pipe_reader \<times> 'l stormlog \<times> 'p terminal_manager" where
  "reader_step env now = (\<lambda>(rd, s, tm).
     (case rd_at rd of
        Reading \<Rightarrow>
          (case rd_reads rd of
             [] \<Rightarrow> (rd, s, tm)
           | ReadBytes b # rs \<Rightarrow>
               (rd\<lparr>rd_reads := rs, rd_at := HasLines (chunk_lines (ce_lossy env b))\<rparr>, s,
                terminal_feed (ce_vt env) (rd_process rd) b tm)
           | _ # rs \<Rightarrow>
               (rd\<lparr>rd_reads := rs, rd_at := (if rd_stream rd = Stdout then OutputEnded else ReaderDone)\<rparr>, s, tm))
      | HasLines [] \<Rightarrow> (rd\<lparr>rd_at := Reading\<rparr>, s, tm)
      | HasLines (l # ls) \<Rightarrow>
          (rd\<lparr>rd_at := Writes (line_entry (ce_log env) rd l) ls\<rparr>, remember (rd_process rd) l s, tm)
      | Writes e ls \<Rightarrow> (rd\<lparr>rd_at := Publishes e ls\<rparr>, write_out (ce_log env) now e s, tm)
      | Publishes e ls \<Rightarrow> (rd\<lparr>rd_at := HasLines ls\<rparr>, publish_entry e s, tm)
      | OutputEnded \<Rightarrow>
          (rd\<lparr>rd_at := WritesEnd (with_run_id (rd_run_id rd) (new_entry (ce_log env) (rd_process rd) Stdout exit_marker))\<rparr>,
           flush_group (ce_log env) (rd_process rd) s, tm)
      | WritesEnd e \<Rightarrow> (rd\<lparr>rd_at := PublishesEnd e\<rparr>, write_out (ce_log env) now e s, tm)
      | PublishesEnd e \<Rightarrow> (rd\<lparr>rd_at := ReaderDone\<rparr>, publish_entry e s, tm)
      | ReaderDone \<Rightarrow> (rd, s, tm)))"

section \<open>Starting a run\<close>

definition new_reader :: "string \<Rightarrow> string \<Rightarrow> log_stream \<Rightarrow> read_of_pipe list \<Rightarrow> pipe_reader" where
  "new_reader process run_id st reads =
     \<lparr>rd_process = process, rd_run_id = run_id, rd_stream = st, rd_reads = reads, rd_at = Reading\<rparr>"

definition spawn_capture ::
    "('l, 'p) capture_env \<Rightarrow> millis \<Rightarrow> string \<Rightarrow> read_of_pipe list option \<Rightarrow> read_of_pipe list option
     \<Rightarrow> ('l, 'p) capture \<Rightarrow> ('l, 'p) capture" where
  "spawn_capture env now process out err c =
     (let run_id = ce_run_time env now;
          readers = (case out of Some r \<Rightarrow> [new_reader process run_id Stdout r] | None \<Rightarrow> [])
            @ (case err of Some r \<Rightarrow> [new_reader process run_id Stderr r] | None \<Rightarrow> [])
      in c\<lparr>ca_log := begin_capture (ce_log env) now process run_id (ca_log c),
           ca_tasks := ca_tasks c @ readers,
           ca_handles := (ca_handles c)(process \<mapsto> [length (ca_tasks c)..<length (ca_tasks c) + length readers])\<rparr>)"

section \<open>Turns of the tasks\<close>

datatype task_turn = ReaderTurn nat | OtherEntry log_entry

definition take_turn :: "('l, 'p) capture_env \<Rightarrow> millis \<Rightarrow> task_turn \<Rightarrow> ('l, 'p) capture \<Rightarrow> ('l, 'p) capture" where
  "take_turn env now t c =
     (case t of
        ReaderTurn i \<Rightarrow>
          if i < length (ca_tasks c)
          then (case reader_step env now (ca_tasks c ! i, ca_log c, ca_terms c) of
                  (rd, s, tm) \<Rightarrow> c\<lparr>ca_log := s, ca_terms := tm, ca_tasks := (ca_tasks c)[i := rd]\<rparr>)
          else c
      | OtherEntry e \<Rightarrow> c\<lparr>ca_log := write_entry (ce_log env) now e (ca_log c)\<rparr>)"

definition take_turns :: "('l, 'p) capture_env \<Rightarrow> (millis \<times> task_turn) list \<Rightarrow> ('l, 'p) capture \<Rightarrow> ('l, 'p) capture" where
  "take_turns env ts c = foldl (\<lambda>c (now, t). take_turn env now t c) c ts"

text \<open>\<open>start\<close>: what the ingest channel delivers goes through the same funnel.\<close>

definition ingest_loop :: "'l sl_env \<Rightarrow> (millis \<times> log_entry) list \<Rightarrow> 'l stormlog \<Rightarrow> 'l stormlog" where
  "ingest_loop env received s = foldl (\<lambda>s (now, e). write_entry env now e s) s received"

section \<open>The end of a run\<close>

text \<open>
  The readers are awaited one after the other, each for five seconds at most; a reader that is still going
  then is detached, not stopped. The turns are what happens meanwhile; the result holds those left over
  and the time.
\<close>

definition drain_ms :: millis where "drain_ms = 5000"

function drain ::
    "('l, 'p) capture_env \<Rightarrow> nat list \<Rightarrow> millis \<Rightarrow> millis \<Rightarrow> (millis \<times> task_turn) list \<Rightarrow> ('l, 'p) capture
     \<Rightarrow> ('l, 'p) capture \<times> (millis \<times> task_turn) list \<times> millis" where
  "drain env [] since now ts c = (c, ts, now)"
| "drain env (h # hs) since now ts c =
     (if h < length (ca_tasks c) \<and> rd_at (ca_tasks c ! h) = ReaderDone then drain env hs now now ts c
      else case ts of
             [] \<Rightarrow> drain env hs (since + drain_ms) (since + drain_ms) [] c
           | (at, t) # rest \<Rightarrow>
               if since + drain_ms \<le> at then drain env hs (since + drain_ms) (since + drain_ms) ts c
               else drain env (h # hs) since at rest (take_turn env at t c))"
  by pat_completeness auto
termination
  by (relation "measure (\<lambda>(_, hs, _, _, ts, _). length hs + length ts)") auto

definition archive_drained ::
    "('l, 'p) capture_env \<Rightarrow> bool \<Rightarrow> string \<Rightarrow> bool \<Rightarrow> millis \<Rightarrow> (millis \<times> task_turn) list \<Rightarrow> ('l, 'p) capture
     \<Rightarrow> ('l, 'p) capture \<times> (millis \<times> task_turn) list \<times> millis" where
  "archive_drained env can_rename process failed now ts c =
     (if sl_run_ids (ca_log c) process = None then (c, ts, now)
      else let hs = (case ca_handles c process of Some hs \<Rightarrow> hs | None \<Rightarrow> [])
           in case drain env hs now now ts (c\<lparr>ca_handles := (ca_handles c)(process := None)\<rparr>) of
                (c', rest, later) \<Rightarrow> (c'\<lparr>ca_log := archive_run can_rename process failed (ca_log c')\<rparr>, rest, later))"

section \<open>What it answers\<close>

definition stored_logs :: "'l sl_env \<Rightarrow> log_query \<Rightarrow> 'l stormlog \<Rightarrow> log_entry list" where
  "stored_logs env q s = log_query_run (en_io env) (sl_dir s) q"

definition list_runs :: "string \<Rightarrow> 'l stormlog \<Rightarrow> run_info list" where
  "list_runs process s = runs (sl_dir s) process"

definition current_run_id :: "string \<Rightarrow> 'l stormlog \<Rightarrow> string option" where
  "current_run_id process s = sl_run_ids s process"

definition get_screen :: "('l, 'p) capture_env \<Rightarrow> string \<Rightarrow> ('l, 'p) capture \<Rightarrow> screen_snapshot option" where
  "get_screen env process c = screen_of (ce_vt env) process (ca_terms c)"

text \<open>The name of the node on the wire: of the configuration, of the kernel, of the container.\<close>

definition log_host :: "string option \<Rightarrow> string option \<Rightarrow> string \<Rightarrow> string" where
  "log_host configured utsname container =
     (case configured of
        Some h \<Rightarrow> h
      | None \<Rightarrow> (case map_option trim utsname of
                   Some h \<Rightarrow> if h \<noteq> [] \<and> h \<noteq> ''localhost'' then h else container
                 | None \<Rightarrow> container))"

section \<open>A reader that is not interrupted\<close>

lemma write_entry_alt: "write_entry env now e s = publish_entry e (write_out env now e s)"
  by (simp add: write_entry_def write_out_def publish_entry_def Let_def split: prod.split option.split)

lemma three_steps: "reader_step env now (reader_step env now (reader_step env now (rd\<lparr>rd_at := HasLines (l # ls)\<rparr>, s, tm)))
    = (rd\<lparr>rd_at := HasLines ls\<rparr>, capture_line (ce_log env) now (rd_process rd) (rd_run_id rd) (rd_stream rd) (base_severity (rd_stream rd)) s l, tm)"
  by (simp add: reader_step_def capture_line_def write_entry_alt line_entry_def)

lemma uninterrupted_lines: "(reader_step env now ^^ (3 * length ls)) (rd\<lparr>rd_at := HasLines ls\<rparr>, s, tm)
    = (rd\<lparr>rd_at := HasLines []\<rparr>, foldl (capture_line (ce_log env) now (rd_process rd) (rd_run_id rd) (rd_stream rd) (base_severity (rd_stream rd))) s ls, tm)"
proof (induction ls arbitrary: s)
  case (Cons l ls)
  have "(reader_step env now ^^ (3 * length (l # ls))) x = (reader_step env now ^^ (3 * length ls)) (reader_step env now (reader_step env now (reader_step env now x)))" for x
    by (simp add: funpow_swap1 eval_nat_numeral)
  then show ?case using Cons by (simp add: three_steps)
qed simp

text \<open>With nobody else in between, what a reader does with one read is \<open>capture_chunk\<close>.\<close>

lemma uninterrupted_read:
  assumes "rd_at rd = Reading" "rd_reads rd = ReadBytes b # rs"
  shows "\<exists>n. (reader_step env now ^^ n) (rd, s, tm) = (rd\<lparr>rd_reads := rs, rd_at := Reading\<rparr>,
    capture_chunk (ce_log env) now (rd_process rd) (rd_run_id rd) (rd_stream rd) s (ce_lossy env b),
    terminal_feed (ce_vt env) (rd_process rd) b tm)"
proof -
  let ?ls = "chunk_lines (ce_lossy env b)" and ?tm = "terminal_feed (ce_vt env) (rd_process rd) b tm"
  have "reader_step env now (rd, s, tm) = (rd\<lparr>rd_reads := rs, rd_at := HasLines ?ls\<rparr>, s, ?tm)"
    using assms by (simp add: reader_step_def)
  moreover note uninterrupted_lines[where env = env and now = now and ls = ?ls and rd = "rd\<lparr>rd_reads := rs\<rparr>" and s = s and tm = ?tm]
  moreover have "reader_step env now (rd'\<lparr>rd_at := HasLines []\<rparr>, s', tm') = (rd'\<lparr>rd_at := Reading\<rparr>, s', tm')" for rd' s' tm'
    by (simp add: reader_step_def)
  ultimately have "(reader_step env now ^^ (1 + 3 * length ?ls + 1)) (rd, s, tm) = (rd\<lparr>rd_reads := rs, rd_at := Reading\<rparr>,
      foldl (capture_line (ce_log env) now (rd_process rd) (rd_run_id rd) (rd_stream rd) (base_severity (rd_stream rd))) s ?ls, ?tm)"
    by (simp add: funpow_swap1)
  then show ?thesis unfolding capture_chunk_def base_severity_def by (rule exI)
qed

section \<open>Order of the lines\<close>

lemma write_out_streams [simp]: "sl_streams (write_out env now e s) = sl_streams s"
  by (simp add: write_out_def Let_def split: prod.split option.split)

lemma flush_streams [simp]: "sl_streams (flush_group env p s) = sl_streams s"
  by (simp add: flush_group_def split: prod.split option.split)

lemma remember_streams [simp]: "sl_streams (remember p l s) = sl_streams s"
  by (simp add: remember_def Let_def)

lemma published_grows [simp]: "sm_global (sl_streams (publish_entry e s)) = sm_global (sl_streams s) @ [e]"
  by (simp add: publish_entry_def publish_def Let_def)

text \<open>The lines of a process on a stream that have reached the followers, and those a reader still has.\<close>

definition shown_lines :: "string \<Rightarrow> log_stream \<Rightarrow> 'l stormlog \<Rightarrow> string list" where
  "shown_lines p st s = map le_line (filter (\<lambda>e. le_process e = p \<and> le_stream e = st) (sm_global (sl_streams s)))"

fun lines_of_reads :: "(u8 list \<Rightarrow> string) \<Rightarrow> log_stream \<Rightarrow> read_of_pipe list \<Rightarrow> string list" where
  "lines_of_reads lossy st [] = []"
| "lines_of_reads lossy st (ReadBytes b # rs) = chunk_lines (lossy b) @ lines_of_reads lossy st rs"
| "lines_of_reads lossy st (_ # rs) = (if st = Stdout then [exit_marker] else [])"

definition to_come :: "(u8 list \<Rightarrow> string) \<Rightarrow> pipe_reader \<Rightarrow> string list" where
  "to_come lossy rd = (let later = lines_of_reads lossy (rd_stream rd) (rd_reads rd) in
     case rd_at rd of
       Reading \<Rightarrow> later | HasLines ls \<Rightarrow> ls @ later | Writes e ls \<Rightarrow> le_line e # ls @ later
     | Publishes e ls \<Rightarrow> le_line e # ls @ later | OutputEnded \<Rightarrow> [exit_marker]
     | WritesEnd e \<Rightarrow> [le_line e] | PublishesEnd e \<Rightarrow> [le_line e] | ReaderDone \<Rightarrow> [])"

definition reader_ok :: "pipe_reader \<Rightarrow> bool" where
  "reader_ok rd = (case rd_at rd of
       Writes e ls \<Rightarrow> le_process e = rd_process rd \<and> le_stream e = rd_stream rd
     | Publishes e ls \<Rightarrow> le_process e = rd_process rd \<and> le_stream e = rd_stream rd
     | WritesEnd e \<Rightarrow> le_process e = rd_process rd \<and> le_stream e = rd_stream rd
     | PublishesEnd e \<Rightarrow> le_process e = rd_process rd \<and> le_stream e = rd_stream rd
     | OutputEnded \<Rightarrow> rd_stream rd = Stdout
     | _ \<Rightarrow> True)"

lemma line_entry_fields [simp]: "le_line (line_entry env rd l) = l" "le_process (line_entry env rd l) = rd_process rd"
  "le_stream (line_entry env rd l) = rd_stream rd"
  by (simp_all add: line_entry_def with_run_id_def with_severity_def new_entry_def log_entry_new_def)

lemma marker_fields [simp]: "le_line (with_run_id r (new_entry env p st l)) = l"
  "le_process (with_run_id r (new_entry env p st l)) = p" "le_stream (with_run_id r (new_entry env p st l)) = st"
  by (simp_all add: with_run_id_def new_entry_def log_entry_new_def)

definition reader_goes :: "(u8 list \<Rightarrow> string) \<Rightarrow> pipe_reader \<Rightarrow> 'l stormlog \<Rightarrow> pipe_reader \<Rightarrow> 'l stormlog \<Rightarrow> bool" where
  "reader_goes lossy rd s rd' s' \<longleftrightarrow> reader_ok rd' \<and> rd_process rd' = rd_process rd \<and> rd_stream rd' = rd_stream rd
     \<and> (\<exists>es. sm_global (sl_streams s') = sm_global (sl_streams s) @ es
          \<and> (\<forall>e \<in> set es. le_process e = rd_process rd \<and> le_stream e = rd_stream rd)
          \<and> map le_line es @ to_come lossy rd' = to_come lossy rd)"

lemma reader_goes_quiet: "sl_streams s' = sl_streams s \<Longrightarrow> reader_ok rd' \<Longrightarrow> rd_process rd' = rd_process rd \<Longrightarrow>
    rd_stream rd' = rd_stream rd \<Longrightarrow> to_come lossy rd' = to_come lossy rd \<Longrightarrow> reader_goes lossy rd s rd' s'"
  by (auto simp: reader_goes_def)

lemma reader_goes_says: "s' = publish_entry e s \<Longrightarrow> reader_ok rd' \<Longrightarrow> rd_process rd' = rd_process rd \<Longrightarrow>
    rd_stream rd' = rd_stream rd \<Longrightarrow> le_process e = rd_process rd \<Longrightarrow> le_stream e = rd_stream rd \<Longrightarrow>
    to_come lossy rd = le_line e # to_come lossy rd' \<Longrightarrow> reader_goes lossy rd s rd' s'"
  unfolding reader_goes_def by (auto intro!: exI[of _ "[e]"])

lemma reader_step_goes:
  assumes "reader_step env now (rd, s, tm) = (rd', s', tm')" "reader_ok rd"
  shows "reader_goes (ce_lossy env) rd s rd' s'"
proof (cases "rd_at rd")
  case Reading
  note at = this
  show ?thesis
  proof (cases "rd_reads rd")
    case Nil
    then show ?thesis using assms at by (intro reader_goes_quiet) (auto simp: reader_step_def)
  next
    case (Cons r rs)
    then show ?thesis using assms at
      by (cases r) (intro reader_goes_quiet; auto simp: reader_step_def reader_ok_def to_come_def)+
  qed
next
  case (HasLines ls)
  then show ?thesis using assms
    by (cases ls) (intro reader_goes_quiet; auto simp: reader_step_def reader_ok_def to_come_def)+
next
  case (Writes e ls)
  then show ?thesis using assms
    by (intro reader_goes_quiet) (auto simp: reader_step_def reader_ok_def to_come_def)
next
  case (Publishes e ls)
  then show ?thesis using assms
    by (intro reader_goes_says[where e = e]) (auto simp: reader_step_def reader_ok_def to_come_def)
next
  case OutputEnded
  then show ?thesis using assms
    by (intro reader_goes_quiet) (auto simp: reader_step_def reader_ok_def to_come_def)
next
  case (WritesEnd e)
  then show ?thesis using assms
    by (intro reader_goes_quiet) (auto simp: reader_step_def reader_ok_def to_come_def)
next
  case (PublishesEnd e)
  then show ?thesis using assms
    by (intro reader_goes_says[where e = e]) (auto simp: reader_step_def reader_ok_def to_come_def)
next
  case ReaderDone
  then show ?thesis using assms by (intro reader_goes_quiet) (auto simp: reader_step_def)
qed

definition source_of :: "pipe_reader \<Rightarrow> string \<times> log_stream" where
  "source_of rd = (rd_process rd, rd_stream rd)"

definition readers_ok :: "nat \<Rightarrow> pipe_reader list \<Rightarrow> bool" where
  "readers_ok i rds \<longleftrightarrow> i < length rds \<and> list_all reader_ok rds
     \<and> (\<forall>j < length rds. j \<noteq> i \<longrightarrow> source_of (rds ! j) \<noteq> source_of (rds ! i))"

fun turn_elsewhere :: "string \<times> log_stream \<Rightarrow> task_turn \<Rightarrow> bool" where
  "turn_elsewhere src (ReaderTurn i) = True"
| "turn_elsewhere src (OtherEntry e) = ((le_process e, le_stream e) \<noteq> src)"

definition all_lines :: "(u8 list \<Rightarrow> string) \<Rightarrow> nat \<Rightarrow> ('l, 'p) capture \<Rightarrow> string list" where
  "all_lines lossy i c = (case source_of (ca_tasks c ! i) of (p, st) \<Rightarrow>
     shown_lines p st (ca_log c) @ to_come lossy (ca_tasks c ! i))"

lemma goes_shown: "reader_goes lossy rd s rd' s' \<Longrightarrow> shown_lines (rd_process rd) (rd_stream rd) s' @ to_come lossy rd'
      = shown_lines (rd_process rd) (rd_stream rd) s @ to_come lossy rd"
    "reader_goes lossy rd s rd' s' \<Longrightarrow> (p, st) \<noteq> source_of rd \<Longrightarrow> shown_lines p st s' = shown_lines p st s"
  unfolding reader_goes_def shown_lines_def source_of_def by (auto simp: filter_empty_conv)

lemma take_turn_keeps:
  assumes "readers_ok i (ca_tasks c)" "turn_elsewhere (source_of (ca_tasks c ! i)) t"
  shows "readers_ok i (ca_tasks (take_turn env now t c))"
    and "source_of (ca_tasks (take_turn env now t c) ! i) = source_of (ca_tasks c ! i)"
    and "all_lines (ce_lossy env) i (take_turn env now t c) = all_lines (ce_lossy env) i c"
proof -
  let ?rds = "ca_tasks c"
  have "readers_ok i (ca_tasks (take_turn env now t c)) \<and> source_of (ca_tasks (take_turn env now t c) ! i) = source_of (?rds ! i)
    \<and> all_lines (ce_lossy env) i (take_turn env now t c) = all_lines (ce_lossy env) i c"
  proof (cases t)
    case (OtherEntry e)
    then show ?thesis using assms
      by (auto simp: take_turn_def all_lines_def shown_lines_def write_entry_alt source_of_def)
  next
    case (ReaderTurn k)
    show ?thesis
    proof (cases "k < length ?rds")
      case True
      obtain rd s tm where step: "reader_step env now (?rds ! k, ca_log c, ca_terms c) = (rd, s, tm)"
        by (cases "reader_step env now (?rds ! k, ca_log c, ca_terms c)")
      have "reader_ok (?rds ! k)" using assms(1) True by (simp add: readers_ok_def list_all_length)
      note goes = reader_step_goes[OF step this]
      have src: "source_of rd = source_of (?rds ! k)" "reader_ok rd" using goes by (simp_all add: reader_goes_def source_of_def)
      have i: "i < length ?rds" "list_all reader_ok ?rds" using assms(1) by (simp_all add: readers_ok_def)
      have ok: "readers_ok i (?rds[k := rd])"
        using assms(1) src True by (auto simp: readers_ok_def list_all_length nth_list_update)
      have new: "take_turn env now t c = c\<lparr>ca_log := s, ca_terms := tm, ca_tasks := ?rds[k := rd]\<rparr>"
        using True step by (simp add: take_turn_def ReaderTurn)
      have "all_lines (ce_lossy env) i (take_turn env now t c) = all_lines (ce_lossy env) i c"
      proof (cases "k = i")
        case True
        then show ?thesis using goes_shown(1)[OF goes] src i by (simp add: new all_lines_def source_of_def)
      next
        case False
        then have "source_of (?rds ! i) \<noteq> source_of (?rds ! k)" using assms(1) \<open>k < length ?rds\<close> by (auto simp: readers_ok_def)
        then show ?thesis using goes_shown(2)[OF goes] False i by (auto simp: new all_lines_def split: prod.split)
      qed
      then show ?thesis using ok src i by (simp add: new) (cases "k = i"; simp)
    qed (use assms in \<open>simp add: take_turn_def ReaderTurn\<close>)
  qed
  then show "readers_ok i (ca_tasks (take_turn env now t c))"
    "source_of (ca_tasks (take_turn env now t c) ! i) = source_of (ca_tasks c ! i)"
    "all_lines (ce_lossy env) i (take_turn env now t c) = all_lines (ce_lossy env) i c" by simp_all
qed

lemma take_turn_grows:
  assumes "list_all reader_ok (ca_tasks c)"
  shows "prefix (shown_lines p st (ca_log c)) (shown_lines p st (ca_log (take_turn env now t c)))"
proof (cases t)
  case (ReaderTurn k)
  show ?thesis
  proof (cases "k < length (ca_tasks c)")
    case True
    obtain rd s tm where step: "reader_step env now (ca_tasks c ! k, ca_log c, ca_terms c) = (rd, s, tm)"
      by (cases "reader_step env now (ca_tasks c ! k, ca_log c, ca_terms c)")
    have "reader_goes (ce_lossy env) (ca_tasks c ! k) (ca_log c) rd s"
      using assms True by (intro reader_step_goes[OF step]) (simp add: list_all_length)
    then show ?thesis using True step by (auto simp: take_turn_def ReaderTurn reader_goes_def shown_lines_def)
  qed (simp add: take_turn_def ReaderTurn)
qed (simp add: take_turn_def shown_lines_def write_entry_alt)

lemma take_turns_keep:
  assumes "readers_ok i (ca_tasks c)" "list_all (turn_elsewhere (source_of (ca_tasks c ! i)) \<circ> snd) ts"
  shows "readers_ok i (ca_tasks (take_turns env ts c))
    \<and> source_of (ca_tasks (take_turns env ts c) ! i) = source_of (ca_tasks c ! i)
    \<and> all_lines (ce_lossy env) i (take_turns env ts c) = all_lines (ce_lossy env) i c
    \<and> prefix (shown_lines p st (ca_log c)) (shown_lines p st (ca_log (take_turns env ts c)))"
  using assms
proof (induction ts rule: rev_induct)
  case (snoc x ts)
  obtain now t where x: "x = (now, t)" by (cases x)
  let ?c = "take_turns env ts c"
  have ih: "readers_ok i (ca_tasks ?c)" "source_of (ca_tasks ?c ! i) = source_of (ca_tasks c ! i)"
    "all_lines (ce_lossy env) i ?c = all_lines (ce_lossy env) i c"
    "prefix (shown_lines p st (ca_log c)) (shown_lines p st (ca_log ?c))" using snoc by simp_all
  have "turn_elsewhere (source_of (ca_tasks ?c ! i)) t" using snoc.prems ih(2) by (simp add: x)
  note take_turn_keeps[OF ih(1) this, of env now]
  moreover have "prefix (shown_lines p st (ca_log ?c)) (shown_lines p st (ca_log (take_turn env now t ?c)))"
    using ih(1) by (intro take_turn_grows) (simp add: readers_ok_def)
  ultimately show ?case using ih by (auto simp: take_turns_def x)
qed (simp add: take_turns_def)

section \<open>Properties\<close>

text \<open>C15: However the readers of all processes take turns, the lines of each pipe reach the followers in the order
  they were read: what has been shown of a stream since its reader began is a prefix of the lines of its
  reads, and all of them, for standard output closed by the exit marker, once the reader is done.
\<close>
theorem lines_keep_their_order:
  assumes "readers_ok i (ca_tasks c)" "ca_tasks c ! i = new_reader p run_id st reads"
    and "list_all (turn_elsewhere (p, st) \<circ> snd) ts"
  shows "\<exists>shown. shown_lines p st (ca_log (take_turns env ts c)) = shown_lines p st (ca_log c) @ shown
    \<and> prefix shown (lines_of_reads (ce_lossy env) st reads)
    \<and> (rd_at (ca_tasks (take_turns env ts c) ! i) = ReaderDone \<longrightarrow> shown = lines_of_reads (ce_lossy env) st reads)"
proof -
  let ?c = "take_turns env ts c"
  have src: "source_of (ca_tasks c ! i) = (p, st)" by (simp add: assms(2) source_of_def new_reader_def)
  note keeps = take_turns_keep[OF assms(1), unfolded src, OF assms(3), of env p st]
  obtain shown where shown: "shown_lines p st (ca_log ?c) = shown_lines p st (ca_log c) @ shown"
    using keeps by (auto simp: prefix_def)
  have src': "source_of (ca_tasks ?c ! i) = (p, st)"
    and same: "all_lines (ce_lossy env) i ?c = all_lines (ce_lossy env) i c" using keeps by blast+
  have "to_come (ce_lossy env) (ca_tasks c ! i) = lines_of_reads (ce_lossy env) st reads"
    by (simp add: assms(2) new_reader_def to_come_def)
  then have "shown @ to_come (ce_lossy env) (ca_tasks ?c ! i) = lines_of_reads (ce_lossy env) st reads"
    using same unfolding all_lines_def src src' by (simp add: shown)
  moreover have "to_come (ce_lossy env) (ca_tasks ?c ! i) = []" if "rd_at (ca_tasks ?c ! i) = ReaderDone"
    using that by (simp add: to_come_def Let_def)
  ultimately show ?thesis using shown by (metis append_Nil2 prefixI)
qed

text \<open>However the readers go on, the wait for them ends within five seconds for each.\<close>

lemma drain_time: "snd (snd (drain env hs since now ts c)) \<le> (if hs = [] then now else since + drain_ms * int (length hs))"
  if "now \<le> since + drain_ms"
  using that
proof (induction env hs since now ts c rule: drain.induct)
  case (2 env h hs since now ts c)
  show ?case
  proof (cases "h < length (ca_tasks c) \<and> rd_at (ca_tasks c ! h) = ReaderDone")
    case True
    have "snd (snd (drain env hs now now ts c)) \<le> (if hs = [] then now else now + drain_ms * int (length hs))"
      using 2(1) True by (simp add: drain_ms_def)
    then show ?thesis using True 2(5) by (auto simp: algebra_simps split: if_splits)
  next
    case no: False
    let ?s = "since + drain_ms"
    have next_one: "snd (snd (drain env hs ?s ?s ts' c)) \<le> (if hs = [] then ?s else ?s + drain_ms * int (length hs))"
      if "ts' = [] \<and> ts = [] \<or> ts' = ts \<and> ts \<noteq> [] \<and> ?s \<le> fst (hd ts)" for ts'
      using that 2(2,3) no by (cases ts) (auto simp: drain_ms_def)
    show ?thesis
    proof (cases ts)
      case Nil
      then show ?thesis using next_one[of "[]"] no by (auto simp: algebra_simps split: if_splits)
    next
      case (Cons x rest)
      then obtain at t where x: "ts = (at, t) # rest" by (cases x) auto
      show ?thesis
      proof (cases "?s \<le> at")
        case True
        then show ?thesis using next_one[of ts] no x by (auto simp: algebra_simps split: if_splits)
      next
        case False
        then have "drain env (h # hs) since now ts c = drain env (h # hs) since at rest (take_turn env at t c)"
          using no x by (subst drain.simps(2)) (auto simp del: drain.simps)
        then show ?thesis using 2(4)[OF no x refl] False by (simp del: drain.simps)
      qed
    qed
  qed
qed simp

lemma handles_of_run: "case ca_handles (spawn_capture env now p out err c) p of Some hs \<Rightarrow> length hs \<le> 2 | None \<Rightarrow> False"
  by (simp add: spawn_capture_def Let_def split: option.split)

lemma turns_keep_handles: "ca_handles (take_turns env ts c) = ca_handles c"
proof (induction ts arbitrary: c)
  case (Cons x ts)
  obtain now t where x: "x = (now, t)" by (cases x)
  have "ca_handles (take_turn env now t c) = ca_handles c"
    by (cases t) (simp_all add: take_turn_def split: prod.split)
  then show ?case using Cons by (simp add: take_turns_def x)
qed (simp add: take_turns_def)

theorem run_closes_within_ten_seconds:
  "snd (snd (archive_drained env can_rename p failed now later (take_turns env ts (spawn_capture env start p out err c0))))
    \<le> now + 10000"
proof -
  let ?c = "take_turns env ts (spawn_capture env start p out err c0)"
  define hs where "hs = (case ca_handles ?c p of Some hs \<Rightarrow> hs | None \<Rightarrow> [])"
  have "length hs \<le> 2"
    using handles_of_run[of env start p out err c0] by (auto simp: hs_def turns_keep_handles split: option.splits)
  then have "snd (snd (drain env hs now now later c')) \<le> now + 10000" for c' :: "('a, 'b) capture"
    using drain_time[of now now env hs later c'] by (auto simp: drain_ms_def split: if_splits)
  then show ?thesis
    by (simp add: archive_drained_def hs_def [symmetric] split: prod.split) (metis snd_conv)
qed

section \<open>What a run can lose\<close>

definition run_archive :: "string \<Rightarrow> string \<Rightarrow> bool \<Rightarrow> string" where
  "run_archive p r failed = p @ ''.'' @ r @ ''.'' @ (if failed then ''failed'' else ''exited'') @ ''.log''"

lemma archive_not_live: "run_archive p r failed \<noteq> live_name p"
proof
  assume "run_archive p r failed = live_name p"
  then have "length (run_archive p r failed) = length (live_name p)" by simp
  then show False by (simp add: run_archive_def live_name_def split: if_splits)
qed

lemma take_file_alt: "take_file True p r failed (g, d) =
    (let g' = g\<lparr>fg_writers := (fg_writers g)(p := None)\<rparr> in
     case map_of d (live_name p) of
       None \<Rightarrow> ((g', d), None)
     | Some t \<Rightarrow> if t = [] then ((g', dir_remove (live_name p) d), None)
                else ((g', dir_rename (live_name p) (run_archive p r failed) d), Some (run_archive p r failed)))"
  by (simp add: take_file_def run_archive_def Let_def split: option.split)

lemma take_file_dir:
  assumes "take_file True p r failed (g, d) = ((g', d'), moved)"
  shows "map_of d' (live_name p) = None" "fg_writers g' p = None"
    and "map_of d (live_name p) = Some t \<Longrightarrow> t \<noteq> [] \<Longrightarrow> map_of d' (run_archive p r failed) = Some t"
  using assms archive_not_live[of p r failed]
  by (auto simp: take_file_alt Let_def map_of_dir_rename split: option.splits if_splits)

lemma pruned_file: "map_of (fst (prune d p keep)) n = None \<or> map_of (fst (prune d p keep)) n = map_of d n"
proof -
  have "map_of (filter (\<lambda>(k, _). k \<notin> A) d) n = (if n \<in> A then None else map_of d n)" for A
    by (induction d) auto
  then show ?thesis unfolding prune_dir by simp
qed

lemma archive_run_files:
  assumes "sl_run_ids s p = Some r"
  shows "map_of (sl_dir (archive_run True p failed s)) (live_name p) = None"
    and "fg_writers (sl_files (archive_run True p failed s)) p = None"
    and "map_of (sl_dir s) (live_name p) = Some t \<Longrightarrow> t \<noteq> [] \<Longrightarrow>
      map_of (sl_dir (archive_run True p failed s)) (run_archive p r failed) \<in> {None, Some t}"
proof -
  obtain g d moved where t: "take_file True p r failed (sl_files s, sl_dir s) = ((g, d), moved)"
    by (metis surj_pair)
  have run: "archive_run True p failed s = s\<lparr>sl_files := g, sl_dir := fst (prune d p (fc_max_runs (slc_file (sl_config s))))\<rparr>"
    by (simp add: archive_run_def assms t)
  note files = take_file_dir[OF t]
  show "map_of (sl_dir (archive_run True p failed s)) (live_name p) = None"
    using pruned_file[of d p _ "live_name p"] files(1) by (auto simp: run)
  show "fg_writers (sl_files (archive_run True p failed s)) p = None" using files(2) by (simp add: run)
  show "map_of (sl_dir (archive_run True p failed s)) (run_archive p r failed) \<in> {None, Some t}"
    if "map_of (sl_dir s) (live_name p) = Some t" "t \<noteq> []"
    using pruned_file[of d p "fc_max_runs (slc_file (sl_config s))" "run_archive p r failed"] files(3)[OF that] by (auto simp: run)
qed


text \<open>
  The id of a run is the second it began. Of two runs of a process that begin in the same second and end the
  same way, the archive of the first is gone once the second is closed.
\<close>
theorem same_second_replaces_archive:
  assumes "sl_run_ids s p = Some r" "map_of (sl_dir s) (live_name p) = Some t" "t \<noteq> []" "earlier \<noteq> t"
    and "map_of (sl_dir s) (run_archive p r failed) = Some earlier"
  shows "map_of (sl_dir (archive_run True p failed s)) (run_archive p r failed) \<noteq> Some earlier"
  using archive_run_files(3)[OF assms(1-3), of failed] assms(4) by auto

section \<open>Witnesses\<close>

definition chars_of :: "u8 list \<Rightarrow> string" where "chars_of bs = (if bs = [99] then ''c'' else ''a'' @ [newline] @ ''b'')"

definition plain_capture :: "(unit, unit) capture_env" where
  "plain_capture = \<lparr>ce_log = flooded_env,
     ce_vt = \<lparr>vt_new = (\<lambda>_ _. ()), vt_process = (\<lambda>_ _. ()), vt_contents = (\<lambda>_. []), vt_size = (\<lambda>_. (24, 80)),
       vt_cursor = (\<lambda>_. (0, 0)), vt_cell = (\<lambda>_ _ _. None)\<rparr>,
     ce_lossy = chars_of, ce_run_time = (\<lambda>_. ''20250101T000000'')\<rparr>"

definition idle_capture :: "(unit, unit) capture" where
  "idle_capture = \<lparr>ca_log = quiet_log\<lparr>sl_files := file_logger_new (file_config_default\<lparr>fc_max_size_bytes := 1, fc_max_files := 1\<rparr>)\<rparr>,
     ca_terms = terminal_manager_new 24 80, ca_tasks = [], ca_handles = (\<lambda>_. None)\<rparr>"

definition two_pipes :: "(unit, unit) capture" where
  "two_pipes = spawn_capture plain_capture 0 ''app'' (Some [ReadBytes [97, 10, 98], ReadEof]) (Some [ReadBytes [99], ReadEof]) idle_capture"

definition out_first :: "(millis \<times> task_turn) list" where
  "out_first = replicate 12 (0, ReaderTurn 0) @ replicate 12 (0, ReaderTurn 1)"

lemma lines_keep_their_order_witness:
  "\<exists>shown. shown_lines ''app'' Stdout (ca_log (take_turns plain_capture out_first two_pipes))
      = shown_lines ''app'' Stdout (ca_log two_pipes) @ shown
    \<and> prefix shown (lines_of_reads chars_of Stdout [ReadBytes [97, 10, 98], ReadEof])
    \<and> (rd_at (ca_tasks (take_turns plain_capture out_first two_pipes) ! 0) = ReaderDone
        \<longrightarrow> shown = lines_of_reads chars_of Stdout [ReadBytes [97, 10, 98], ReadEof])"
proof -
  have tasks: "ca_tasks two_pipes = [new_reader ''app'' ''20250101T000000'' Stdout [ReadBytes [97, 10, 98], ReadEof],
      new_reader ''app'' ''20250101T000000'' Stderr [ReadBytes [99], ReadEof]]"
    by (simp add: two_pipes_def spawn_capture_def idle_capture_def plain_capture_def Let_def)
  have "readers_ok 0 (ca_tasks two_pipes)"
    by (simp add: tasks readers_ok_def reader_ok_def new_reader_def source_of_def less_Suc_eq)
  moreover have "ca_tasks two_pipes ! 0 = new_reader ''app'' ''20250101T000000'' Stdout [ReadBytes [97, 10, 98], ReadEof]"
    by (simp add: tasks)
  moreover have "list_all (turn_elsewhere (''app'', Stdout) \<circ> snd) out_first"
    by (simp add: out_first_def list_all_iff)
  moreover have "ce_lossy plain_capture = chars_of" by (simp add: plain_capture_def)
  ultimately show ?thesis by (metis lines_keep_their_order)
qed

definition slow_reader :: "(unit, unit) capture" where
  "slow_reader = idle_capture\<lparr>ca_log := quiet_log\<lparr>sl_run_ids := (\<lambda>_. Some ''r'')\<rparr>,
     ca_tasks := [(new_reader ''app'' ''r'' Stderr [])\<lparr>rd_at := Writes (log_entry_new ''i'' 0 ''app'' Stderr ''late'') []\<rparr>]\<rparr>"


end
