(* ===== verification/Entry.thy ===== *)
theory Entry
  imports Daemon ShellUse
begin

text \<open>
  The first part of \<open>main.rs\<close>: which of its programs stormd is, from the name it was called by and its
  options. \<open>clap\<close>, which reads the options, is a parameter: the options, or what it prints and the status it
  ends with.
\<close>

record cli =
  cl_config :: string
  cl_healthcheck :: bool
  cl_port :: u16
  cl_install :: "string option"
  cl_list :: bool

record 'w entry_env =
  ee_host :: "'w host"
  ee_terminal :: bool
  ee_stdin :: "string option"
  ee_exe :: "string option"
  ee_parse :: "string list \<Rightarrow> string \<times> i32 + cli"
  ee_get :: "'w \<Rightarrow> string \<Rightarrow> string + nat"

text \<open>The end of the program, with what it printed (but for the reason of a failed health check), or the daemon that goes on.\<close>

datatype 'w main_end = MainPanics | Exits 'w string i32 | Supervises 'w cli

definition own_binary :: "'w entry_env \<Rightarrow> string" where
  "own_binary env = (case ee_exe env of Some p \<Rightarrow> p | None \<Rightarrow> ''/stormd'')"

definition applet_dirs :: "string list" where
  "applet_dirs = [''/bin'', ''/usr/bin'', ''/sbin'', ''/usr/sbin'']"

definition install_everywhere :: "'w entry_env \<Rightarrow> 'w \<Rightarrow> 'w" where
  "install_everywhere env w =
     foldl (\<lambda>w dir. fst (install_symlinks (ho_os (ee_host env)) dir (own_binary env) w)) w applet_dirs"

definition listed_commands :: string where
  "listed_commands = concat (map (\<lambda>c. c @ [newline]) standalone_commands)"

definition run_cli :: "'w entry_env \<Rightarrow> cli \<Rightarrow> 'w \<Rightarrow> 'w main_end" where
  "run_cli env c w =
     (if cl_list c then Exits w listed_commands 0
      else case cl_install c of
             Some dir \<Rightarrow>
               (case install_symlinks (ho_os (ee_host env)) dir (own_binary env) w of
                  (w', Inr n) \<Rightarrow> Exits w' (''stormd: installed '' @ show_nat n @ '' command symlinks in '' @ dir @ [newline]) 0
                | (w', Inl e) \<Rightarrow> Exits w' (''stormd: failed to install symlinks: '' @ e @ [newline]) 1)
           | None \<Rightarrow>
               if cl_healthcheck c then Exits w [] (healthcheck (ee_get env w) (cl_port c))
               else Supervises (install_everywhere env w) c)"

definition main_entry :: "'w entry_env \<Rightarrow> string list \<Rightarrow> 'w \<Rightarrow> 'w main_end" where
  "main_entry env argv w =
     (case classify_argv0 (case argv of a # _ \<Rightarrow> a | [] \<Rightarrow> []) of
        Applet cmd \<Rightarrow>
          (case execute_standalone (ee_host env) (ee_terminal env) (ee_stdin env) cmd (drop 1 argv) w of
             None \<Rightarrow> MainPanics
           | Some (w', out, code) \<Rightarrow> Exits w' out code)
      | invocation.Unknown name \<Rightarrow>
          Exits w (''stormd: '' @ name @ '': not a stormd applet (see stormd --list-commands)'' @ [newline]) 127
      | Init \<Rightarrow> (case ee_parse env argv of Inl (out, code) \<Rightarrow> Exits w out code | Inr c \<Rightarrow> run_cli env c w))"

text \<open>
  Nothing but stormd under its own name, without one of the options that ask for something else, becomes a
  supervisor: a link with another name never starts the processes a second time.
\<close>
theorem supervises_exactly_as_itself:
  "main_entry env argv w = Supervises w' c \<longleftrightarrow>
     classify_argv0 (case argv of a # _ \<Rightarrow> a | [] \<Rightarrow> []) = Init \<and> ee_parse env argv = Inr c
     \<and> \<not> cl_list c \<and> cl_install c = None \<and> \<not> cl_healthcheck c \<and> w' = install_everywhere env w"
  by (auto simp: main_entry_def run_cli_def split: invocation.splits option.splits sum.splits prod.splits)

section \<open>The links lead to the applets\<close>

lemma commands_are_names: "list_all (\<lambda>c. CHR ''/'' \<notin> set c \<and> c \<notin> {[], ''.'', ''..'', ''stormd''}
    \<and> \<not> starts_with c ''stormd-'' \<and> \<not> starts_with c ''stormd.'') standalone_commands"
  by code_simp

lemma file_name_joined:
  assumes "CHR ''/'' \<notin> set c" "c \<notin> {[], ''.'', ''..''}"
  shows "file_name (path_join dir c) = Some c"
proof -
  have "\<not> starts_with c ''/''" using assms(1) by (auto simp: starts_with_iff)
  then have "path_join dir c = c \<or> (\<exists>a. path_join dir c = a @ CHR ''/'' # c)"
    by (auto simp: path_join_def ends_with_def strip_suffix_Some)
  then obtain ws where "split_char (CHR ''/'') (path_join dir c) = ws @ [c]"
    using split_char_no_sep[OF assms(1)] by (auto simp: split_char_append_sep)
  then show ?thesis using assms(2) by (simp add: file_name_def)
qed

text \<open>Every link that is installed calls the applet it is named after, whatever the directory.\<close>
theorem installed_links_are_applets:
  "list_all (\<lambda>c. classify_argv0 (path_join dir c) = Applet c) standalone_commands"
  using commands_are_names by (auto simp: list_all_iff classify_argv0_def file_name_joined)

end
