(* ===== verification/ShutdownTime.thy ===== *)
theory ShutdownTime
  imports Daemon ExitRules
begin

text \<open>
  How long \<open>stop_all\<close> and the waits of \<open>supervisor.rs\<close> take, against the watchdog of \<open>main.rs\<close>. Times are
  milliseconds, the work between two sleeps takes none; whether a process is still stopping at a time is an
  argument.
\<close>

section \<open>The waits\<close>

function tier_wait :: "(nat \<Rightarrow> bool) \<Rightarrow> nat \<Rightarrow> nat \<Rightarrow> nat" where
  "tier_wait stopping until now =
     (if \<not> stopping now then now else if until \<le> now then now else tier_wait stopping until (now + 50))"
  by pat_completeness auto
termination by (relation "measure (\<lambda>(_, until, now). until - now)") auto

declare tier_wait.simps [simp del]

definition tier_until :: "sup \<Rightarrow> string list \<Rightarrow> nat \<Rightarrow> nat" where
  "tier_until s ns now = now + 1000 * unat (tier_longest s ns + stop_slack_secs)"

fun tiers_wait :: "sup \<Rightarrow> (string list \<Rightarrow> nat \<Rightarrow> bool) \<Rightarrow> string list list \<Rightarrow> nat \<Rightarrow> nat" where
  "tiers_wait s stopping [] now = now"
| "tiers_wait s stopping (ns # rest) now =
     tiers_wait s stopping rest (tier_wait (stopping ns) (tier_until s ns now) now)"

text \<open>When \<open>stop_all\<close>, called at \<open>now\<close>, returns.\<close>

definition stop_all_ends :: "sup \<Rightarrow> (string list \<Rightarrow> nat \<Rightarrow> bool) \<Rightarrow> nat \<Rightarrow> nat" where
  "stop_all_ends s stopping now = tiers_wait s stopping (stop_tiers (dep_map_of s)) now"

text \<open>\<open>wait_stopped\<close>: when it returns, and whether it saw the stop land.\<close>

function wait_stopped :: "(nat \<Rightarrow> bool) \<Rightarrow> nat \<Rightarrow> nat \<Rightarrow> nat \<times> bool" where
  "wait_stopped has_landed until now =
     (if now < until then if has_landed now then (now, True) else wait_stopped has_landed until (now + 50) else (now, False))"
  by pat_completeness auto
termination by (relation "measure (\<lambda>(_, until, now). until - now)") auto

declare wait_stopped.simps [simp del]

section \<open>Bounds\<close>

lemma tier_wait_bound: "now \<le> until \<Longrightarrow> 50 dvd until - now \<Longrightarrow> tier_wait stopping until now \<le> until"
proof (induction stopping until now rule: tier_wait.induct)
  case (1 stopping until now)
  show ?case
  proof (cases "\<not> stopping now \<or> until \<le> now")
    case True
    then show ?thesis using 1(2) by (subst tier_wait.simps) auto
  next
    case False
    obtain k where k: "until - now = 50 * k" using 1(3) by (auto simp: dvd_def)
    with False have "0 < k" by (cases k) auto
    then have "now + 50 \<le> until" "50 dvd until - (now + 50)" using k by (auto simp: dvd_def intro!: exI[of _ "k - 1"])
    then show ?thesis using 1(1) False by (subst tier_wait.simps) simp
  qed
qed

lemma tier_wait_stuck: "now \<le> until \<Longrightarrow> 50 dvd until - now \<Longrightarrow> tier_wait (\<lambda>_. True) until now = until"
proof (induction "\<lambda>_ :: nat. True" until now rule: tier_wait.induct)
  case (1 until now)
  show ?case
  proof (cases "until \<le> now")
    case True
    then show ?thesis using 1(2) by (subst tier_wait.simps) simp
  next
    case False
    obtain k where k: "until - now = 50 * k" using 1(3) by (auto simp: dvd_def)
    with False have "0 < k" by (cases k) auto
    then have "now + 50 \<le> until" "50 dvd until - (now + 50)" using k by (auto simp: dvd_def intro!: exI[of _ "k - 1"])
    then show ?thesis using 1(1) False by (subst tier_wait.simps) simp
  qed
qed

text \<open>The seconds a list of tiers may take, and the sum of the code, as long as it does not wrap.\<close>

definition tier_secs :: "sup \<Rightarrow> string list \<Rightarrow> nat" where
  "tier_secs s ns = unat (tier_longest s ns) + 2"

definition all_secs :: "sup \<Rightarrow> nat" where
  "all_secs s = sum_list (map (tier_secs s) (stop_tiers (dep_map_of s)))"

lemma tier_until_secs: "tier_secs s ns < 2 ^ 64 \<Longrightarrow> tier_until s ns now = now + 1000 * tier_secs s ns"
  by (simp add: tier_until_def tier_secs_def stop_slack_secs_def unat_add_lem [THEN iffD1])

lemma tiers_wait_bound:
  "sum_list (map (tier_secs s) tiers) < 2 ^ 64 \<Longrightarrow>
    tiers_wait s stopping tiers now \<le> now + 1000 * sum_list (map (tier_secs s) tiers)
    \<and> tiers_wait s (\<lambda>_ _. True) tiers now = now + 1000 * sum_list (map (tier_secs s) tiers)"
proof (induction tiers arbitrary: now)
  case (Cons ns tiers)
  have small: "tier_secs s ns < 2 ^ 64" "sum_list (map (tier_secs s) tiers) < 2 ^ 64" using Cons.prems by simp_all
  let ?until = "tier_until s ns now"
  have until: "?until = now + 1000 * tier_secs s ns" using small(1) by (rule tier_until_secs)
  then have "now \<le> ?until" "50 dvd ?until - now" by (auto simp: dvd_def intro!: exI[of _ "20 * tier_secs s ns"])
  note wait = tier_wait_bound[OF this, of "stopping ns"] tier_wait_stuck[OF this]
  show ?case
    using Cons.IH[OF small(2), of "tier_wait (stopping ns) ?until now"] Cons.IH[OF small(2), of ?until] wait until by simp
qed simp

lemma foldl_words: "sum_list (map (\<lambda>x. unat (f x)) xs) + unat a < 2 ^ LENGTH(64) \<Longrightarrow>
    unat (foldl (\<lambda>t x. t + f x) (a :: u64) xs) = unat a + sum_list (map (\<lambda>x. unat (f x)) xs)"
proof (induction xs arbitrary: a)
  case (Cons x xs)
  have "unat (a + f x) = unat a + unat (f x)" using Cons.prems by (subst unat_add_lem [THEN iffD1]) simp_all
  then show ?case using Cons.IH[of "a + f x"] Cons.prems by simp
qed simp

lemma budget_secs:
  assumes "all_secs s < 2 ^ 64"
  shows "unat (shutdown_budget s) = all_secs s"
proof -
  let ?f = "\<lambda>ns. tier_longest s ns + stop_slack_secs" and ?tiers = "stop_tiers (dep_map_of s)"
  have one: "unat (?f ns) = tier_secs s ns" if "ns \<in> set ?tiers" for ns
  proof -
    have "tier_secs s ns \<le> all_secs s" unfolding all_secs_def using that by (intro member_le_sum_list) auto
    then have "tier_secs s ns < 2 ^ 64" using assms by simp
    then show ?thesis by (simp add: tier_secs_def stop_slack_secs_def unat_add_lem [THEN iffD1])
  qed
  then have sum: "sum_list (map (\<lambda>ns. unat (?f ns)) ?tiers) = all_secs s"
    unfolding all_secs_def by (metis (no_types, lifting) map_eq_conv)
  then show ?thesis
    using foldl_words[of ?f ?tiers 0] assms by (simp add: shutdown_budget_def)
qed

section \<open>Properties\<close>



text \<open>\<open>wait_stopped\<close> tells that a stop has landed only when it has.\<close>

lemma wait_stopped_sound: "wait_stopped has_landed until now = (t, True) \<Longrightarrow> has_landed t \<and> now \<le> t \<and> t < until"
proof (induction has_landed until now rule: wait_stopped.induct)
  case (1 has_landed until now)
  show ?case
  proof (cases "now < until \<and> \<not> has_landed now")
    case True
    then have "wait_stopped has_landed until now = wait_stopped has_landed until (now + 50)" by (subst wait_stopped.simps) simp
    then show ?thesis using 1 True by auto
  next
    case False
    then show ?thesis using 1(2) by (subst (asm) wait_stopped.simps) (auto split: if_splits)
  qed
qed

definition one_slow :: sup where
  "one_slow = register_all [(process_config_default ''api'' ''/api'')\<lparr>pc_stop_timeout_secs := 60\<rparr>] sup_new"

lemma one_slow_secs: "all_secs one_slow = 62"
  by code_simp



section \<open>Who is told to stop\<close>

text \<open>\<open>stop_all\<close> with nobody else between its tiers: the state it leaves and the runs it told, in order.\<close>

fun stop_tiers_all :: "string list list \<Rightarrow> sup \<Rightarrow> sup \<times> (string \<times> nat) list" where
  "stop_tiers_all [] s = (s, [])"
| "stop_tiers_all (ns # rest) s =
     (case stop_tier ns s of (s1, ks) \<Rightarrow> (case stop_tiers_all rest s1 of (s2, later) \<Rightarrow> (s2, ks @ later)))"

definition stop_all_alone :: "sup \<Rightarrow> sup \<times> (string \<times> nat) list" where
  "stop_all_alone s = stop_tiers_all (stop_tiers (dep_map_of s)) (s\<lparr>su_shutting_down := True\<rparr>)"

definition stoppable :: "managed \<Rightarrow> nat \<Rightarrow> bool" where
  "stoppable p run \<longleftrightarrow> mp_state p = Running \<and> mp_kill_tx p = Some run"

lemma stop_tier_append: "stop_tier (a @ b) s =
    (case stop_tier a s of (s1, ks) \<Rightarrow> (case stop_tier b s1 of (s2, later) \<Rightarrow> (s2, ks @ later)))"
  by (induction a s rule: stop_tier.induct) (auto split: option.split prod.split process_state.split)

lemma stop_tiers_all_append: "stop_tiers_all (a @ b) s =
    (case stop_tiers_all a s of (s1, ks) \<Rightarrow> (case stop_tiers_all b s1 of (s2, later) \<Rightarrow> (s2, ks @ later)))"
  by (induction a arbitrary: s) (simp_all split: prod.split)

lemma stop_tiers_all_concat: "stop_tiers_all tiers s = stop_tier (concat tiers) s"
  by (induction tiers arbitrary: s) (simp_all add: stop_tier_append)

lemma stop_tier_step: "stop_tier (n # ns) s = (case sup_get s n of
    None \<Rightarrow> stop_tier ns s
  | Some p \<Rightarrow> if mp_state p = Running \<and> mp_kill_tx p \<noteq> None
      then (case stop_tier ns (sup_put n (p\<lparr>mp_state := Stopping, mp_kill_tx := None\<rparr>) s) of
              (s', ks) \<Rightarrow> (s', (n, the (mp_kill_tx p)) # ks))
      else stop_tier ns s)"
  by (auto split: option.split process_state.split)

lemma stop_tier_elsewhere: "n \<notin> set ns \<Longrightarrow> sup_get (fst (stop_tier ns s)) n = sup_get s n"
  by (induction ns arbitrary: s) (auto simp: stop_tier_step simp del: stop_tier.simps(2) split: option.split prod.split, metis fst_conv sup_get_put)

lemma stop_tier_told:
  "distinct ns \<Longrightarrow> (n, run) \<in> set (snd (stop_tier ns s)) \<longleftrightarrow> n \<in> set ns \<and> (\<exists>p. sup_get s n = Some p \<and> stoppable p run)"
proof (induction ns arbitrary: s)
  case (Cons m ns)
  show ?case
  proof (cases "sup_get s m")
    case None
    then show ?thesis using Cons by (auto simp: stop_tier_step simp del: stop_tier.simps(2))
  next
    case (Some p)
    show ?thesis
    proof (cases "mp_state p = Running \<and> mp_kill_tx p \<noteq> None")
      case True
      let ?s = "sup_put m (p\<lparr>mp_state := Stopping, mp_kill_tx := None\<rparr>) s"
      have "snd (stop_tier (m # ns) s) = (m, the (mp_kill_tx p)) # snd (stop_tier ns ?s)"
        using Some True by (simp add: stop_tier_step del: stop_tier.simps(2) split: prod.split)
      then show ?thesis using Cons.IH[of ?s] Cons.prems Some True by (auto simp: stoppable_def)
    next
      case False
      then have "stop_tier (m # ns) s = stop_tier ns s" using Some by (auto simp: stop_tier_step simp del: stop_tier.simps(2))
      then show ?thesis using Cons Some False by (auto simp: stoppable_def)
    qed
  qed
qed simp

lemma stop_tier_names: "distinct ns \<Longrightarrow> distinct (map fst (snd (stop_tier ns s))) \<and> fst ` set (snd (stop_tier ns s)) \<subseteq> set ns"
  by (induction ns arbitrary: s)
    (auto simp: stop_tier_step simp del: stop_tier.simps(2) split: option.split prod.split, (metis fst_conv image_subset_iff snd_conv subset_iff)+)

lemma stop_tier_after:
  "n \<in> set ns \<Longrightarrow> distinct ns \<Longrightarrow> sup_get (fst (stop_tier ns s)) n = Some p \<Longrightarrow> \<not> stoppable p run"
proof (induction ns arbitrary: s)
  case (Cons m ns)
  show ?case
  proof (cases "sup_get s m")
    case None
    then show ?thesis using Cons stop_tier_elsewhere[of m ns s] by (auto simp: stop_tier_step simp del: stop_tier.simps(2))
  next
    case (Some q)
    define s1 where "s1 = (if mp_state q = Running \<and> mp_kill_tx q \<noteq> None then sup_put m (q\<lparr>mp_state := Stopping, mp_kill_tx := None\<rparr>) s else s)"
    have fst: "fst (stop_tier (m # ns) s) = fst (stop_tier ns s1)"
      using Some by (auto simp: stop_tier_step s1_def simp del: stop_tier.simps(2) split: prod.split)
    show ?thesis
    proof (cases "n = m")
      case True
      then have "sup_get s1 m = Some p" using Cons.prems fst stop_tier_elsewhere[of m ns s1] by simp
      then show ?thesis using Some by (auto simp: s1_def stoppable_def split: if_splits)
    next
      case False
      then show ?thesis using Cons fst by simp
    qed
  qed
qed simp

lemma told_in_order:
  assumes "distinct (map fst deps)" "acyclic (dep_rel deps)" "d \<in> set (depends deps n)"
    and "(n, run) \<in> set (snd (stop_tier (concat (stop_tiers deps)) s))" "(d, run') \<in> set (snd (stop_tier (concat (stop_tiers deps)) s))"
  shows "\<exists>before after. snd (stop_tier (concat (stop_tiers deps)) s) = before @ after \<and> (n, run) \<in> set before \<and> (d, run') \<in> set after"
proof -
  have "deps \<noteq> []" using assms(3) by (auto simp: depends_def)
  from stop_order [OF rank_of_is_rank [OF assms(2)] rank_of_bound [OF assms(2) this] _ assms(3)] depends_known [OF assms(3)]
  obtain before after where tiers: "stop_tiers deps = before @ after" "n \<in> set (concat before)" "d \<in> set (concat after)" by blast
  define s1 where "s1 = fst (stop_tier (concat before) s)"
  let ?first = "snd (stop_tier (concat before) s)" and ?later = "snd (stop_tier (concat after) s1)"
  have split: "snd (stop_tier (concat (stop_tiers deps)) s) = ?first @ ?later"
    by (simp add: tiers(1) stop_tier_append s1_def split: prod.split)
  have "distinct (concat before)" "distinct (concat after)" "set (concat before) \<inter> set (concat after) = {}"
    using stop_tiers_distinct[OF assms(1)] by (simp_all add: tiers(1))
  note names = stop_tier_names[OF this(1), of s] stop_tier_names[OF this(2), of s1] and apart = this(3)
  have "n \<notin> fst ` set ?later" "d \<notin> fst ` set ?first" using names tiers(2,3) apart by blast+
  then have "(n, run) \<notin> set ?later" "(d, run') \<notin> set ?first" by (metis fst_conv image_eqI)+
  then have "(n, run) \<in> set ?first" "(d, run') \<in> set ?later" using assms(4,5) by (simp_all add: split)
  then show ?thesis using split by blast
qed


definition two_running :: sup where
  "two_running = sup_put ''api'' ((managed_new ((process_config_default ''api'' ''/api'')\<lparr>pc_depends_on := [''db'']\<rparr>))\<lparr>mp_state := Running, mp_kill_tx := Some 1\<rparr>)
     (sup_put ''db'' ((managed_new (process_config_default ''db'' ''/db''))\<lparr>mp_state := Running, mp_kill_tx := Some 2\<rparr>) sup_new)"


end
