(* ===== verification/UpdateRace.thy ===== *)
theory UpdateRace
  imports Updater
begin

text \<open>
  Two updates of one process at once: \<open>trigger_update\<close> is called by the API while \<open>poll_loop\<close> (or another
  request) runs \<open>do_update\<close> for the same process, and nothing of \<open>updater.rs\<close> excludes it. Both assemble
  into the same directory; here the pivots follow when both have assembled.
\<close>

section \<open>The halves of an update\<close>

definition update_pulls :: "'w up_env \<Rightarrow> string \<Rightarrow> string \<Rightarrow> 'w \<times> image_states \<Rightarrow> ('w \<times> (string + assembled)) \<times> image_states" where
  "update_pulls e name img = (\<lambda>(w, st).
     (pull_and_assemble e name img (ue_emit e UpdatePulling (Some name) (update_detail img ''pulling image'') w),
      set_status name Pulling st))"

definition update_pivots ::
    "'w up_env \<Rightarrow> bool \<Rightarrow> string \<Rightarrow> string \<Rightarrow> ('w \<times> (string + assembled)) \<times> image_states \<Rightarrow> ('w \<times> image_states) \<times> string option" where
  "update_pivots e cleaned name img = (\<lambda>((w, pulled), st).
     (case pulled of
        Inl err \<Rightarrow> update_fails e name img ''pull'' err (w, st)
      | Inr a \<Rightarrow>
          (let st' = set_status name Pivoting st;
               w' = ue_emit e UpdatePivoting (Some name) (update_detail img ''pivoting rootfs'') w
           in case pivot e cleaned name a w' of
                (w2, Some err) \<Rightarrow> update_fails e name img ''pivot'' err (w2, st')
              | (w2, None) \<Rightarrow> (update_done e name img a (w2, st'), None))))"

lemma do_update_halves: "do_update e cleaned name img s = update_pivots e cleaned name img (update_pulls e name img s)"
  by (simp add: do_update_def update_pulls_def update_pivots_def Let_def split: prod.split sum.split)

section \<open>The directories of a process\<close>

lemma path_join_suffix: "c \<noteq> [] \<Longrightarrow> hd c \<noteq> CHR ''/'' \<Longrightarrow> path_join a (b @ c) = path_join a b @ c"
  by (cases b; cases c) (auto simp: path_join_def starts_with_iff)

lemma dirs_apart: "rootfs_of e name \<noteq> rootfs_of e (name @ ''.new'')" "rootfs_of e name \<noteq> rootfs_of e (name @ ''.old'')"
  "rootfs_of e (name @ ''.new'') \<noteq> rootfs_of e (name @ ''.old'')"
  by (simp_all add: rootfs_of_def path_join_suffix)

lemma assembled_in: "pull_and_assemble e name img w = (w', Inr a) \<Longrightarrow> as_rootfs a = rootfs_of e (name @ ''.new'')"
proof -
  assume "pull_and_assemble e name img w = (w', Inr a)"
  then obtain w1 pulled where "assemble e name img pulled w1 = (w', Inr a)"
    unfolding pull_and_assemble_def try_Inr by blast
  then show ?thesis
    by (cases "ue_blob e (uc_data_dir (ue_config e)) w1 (pi_config_digest pulled)")
      (auto simp: assemble_def Let_def try_Inr split: sum.splits if_splits)
qed

text \<open>
  What is relied on: \<open>tree\<close> is what stands at a path, if anything; renaming and removing do what they say,
  a rename of what is not there fails and changes nothing, and a stop that was waited for leaves the process
  not running.
\<close>

definition tree_laws :: "'w up_env \<Rightarrow> ('w \<Rightarrow> string \<Rightarrow> 't option) \<Rightarrow> ('w \<Rightarrow> bool) \<Rightarrow> string \<Rightarrow> bool" where
  "tree_laws e tree running name \<longleftrightarrow>
     (\<forall>w p. path_exists (ue_os e) w p \<longleftrightarrow> tree w p \<noteq> None) \<and>
     (\<forall>w p. tree w p \<noteq> None \<longrightarrow> (\<exists>w'. os_remove_dir_all (ue_os e) p w = (w', None)
        \<and> tree w' = (tree w)(p := None) \<and> running w' = running w)) \<and>
     (\<forall>w a b. a \<noteq> b \<longrightarrow> tree w a \<noteq> None \<longrightarrow> (\<exists>w'. os_rename (ue_os e) a b w = (w', None)
        \<and> tree w' = (tree w)(a := None, b := tree w a) \<and> running w' = running w)) \<and>
     (\<forall>w a b. tree w a = None \<longrightarrow> (\<exists>w' err. os_rename (ue_os e) a b w = (w', Some err)
        \<and> tree w' = tree w \<and> running w' = running w)) \<and>
     (\<forall>w. tree (stop_and_wait e name w) = tree w \<and> \<not> running (stop_and_wait e name w)) \<and>
     (\<forall>w cfg. tree (fst (ue_update_config e name cfg w)) = tree w) \<and>
     (\<forall>w. tree (fst (ue_start e name w)) = tree w) \<and>
     (\<forall>w kind detail. tree (ue_emit e kind (Some name) detail w) = tree w)"

lemma tree_lawsD:
  assumes "tree_laws e tree running name"
  shows "path_exists (ue_os e) w p \<longleftrightarrow> tree w p \<noteq> None"
    and "tree w p \<noteq> None \<Longrightarrow> \<exists>w'. os_remove_dir_all (ue_os e) p w = (w', None) \<and> tree w' = (tree w)(p := None) \<and> running w' = running w"
    and "a \<noteq> b \<Longrightarrow> tree w a \<noteq> None \<Longrightarrow> \<exists>w'. os_rename (ue_os e) a b w = (w', None) \<and> tree w' = (tree w)(a := None, b := tree w a) \<and> running w' = running w"
    and "tree w a = None \<Longrightarrow> \<exists>w' err. os_rename (ue_os e) a b w = (w', Some err) \<and> tree w' = tree w \<and> running w' = running w"
    and "tree (stop_and_wait e name w) = tree w" "\<not> running (stop_and_wait e name w)"
    and "tree (fst (ue_update_config e name cfg w)) = tree w" "tree (fst (ue_start e name w)) = tree w"
    and "tree (ue_emit e kind (Some name) detail w) = tree w"
  using assms unfolding tree_laws_def by blast+

lemma start_keeps_tree: "tree_laws e tree running name \<Longrightarrow> tree (fst (start_from e name r cmd env wd w)) = tree w"
  using tree_lawsD(7,8)[of e tree running name]
  by (auto simp: start_from_def then_do_def split: sum.split prod.split option.split) (metis fst_conv)+

text \<open>A swap that succeeds has moved the new tree; without one it takes the current tree away and fails.\<close>

lemma swap_front:
  assumes "tree_laws e tree running name" "new \<noteq> current" "current \<noteq> old" "new \<noteq> old"
  shows "\<exists>w2. swap_dirs (ue_os e) new current old w = os_rename (ue_os e) new current w2
    \<and> tree w2 current = None \<and> tree w2 new = tree w new \<and> running w2 = running w"
proof -
  note laws = tree_lawsD[OF assms(1)]
  have "\<exists>w1. (if path_exists (ue_os e) w old then os_remove_dir_all (ue_os e) old w else (w, None)) = (w1, None)
      \<and> tree w1 = (tree w)(old := None) \<and> running w1 = running w"
  proof (cases "tree w old")
    case None
    then show ?thesis by (intro exI[of _ w]) (auto simp: laws(1))
  next
    case (Some t)
    then show ?thesis using laws(2)[of w old] by (simp add: laws(1))
  qed
  then obtain w1 where w1: "(if path_exists (ue_os e) w old then os_remove_dir_all (ue_os e) old w else (w, None)) = (w1, None)"
    "tree w1 = (tree w)(old := None)" "running w1 = running w" by blast
  obtain w2 where w2: "(if path_exists (ue_os e) w1 current then os_rename (ue_os e) current old w1 else (w1, None)) = (w2, None)"
    "tree w2 current = None" "tree w2 new = tree w1 new" "running w2 = running w1"
    using laws(3)[of current old w1] assms(2-4) by (cases "tree w1 current") (auto simp: laws(1))
  have "swap_dirs (ue_os e) new current old w = os_rename (ue_os e) new current w2"
    by (simp add: swap_dirs_def w1(1) w2(1))
  then show ?thesis using w1 w2 assms(4) by auto
qed

lemma swap_moves:
  assumes "tree_laws e tree running name" "new \<noteq> current" "current \<noteq> old" "new \<noteq> old"
    and "swap_dirs (ue_os e) new current old w = (w', None)"
  shows "tree w' new = None"
proof -
  note laws = tree_lawsD[OF assms(1)]
  obtain w2 where w2: "os_rename (ue_os e) new current w2 = (w', None)"
    using swap_front[OF assms(1-4), of w] assms(5) by auto
  show ?thesis
  proof (cases "tree w2 new")
    case None
    then show ?thesis using laws(4)[of w2 new current] w2 by auto
  next
    case (Some t)
    then show ?thesis using laws(3)[of new current w2] w2 assms(2) by auto
  qed
qed

lemma swap_without_new:
  assumes "tree_laws e tree running name" "new \<noteq> current" "current \<noteq> old" "new \<noteq> old"
    and "tree w new = None"
  shows "\<exists>w' err. swap_dirs (ue_os e) new current old w = (w', Some err) \<and> tree w' current = None \<and> running w' = running w"
proof -
  obtain w2 where w2: "swap_dirs (ue_os e) new current old w = os_rename (ue_os e) new current w2"
    "tree w2 current = None" "tree w2 new = None" "running w2 = running w"
    using swap_front[OF assms(1-4), of w] assms(5) by auto
  obtain w' err where "os_rename (ue_os e) new current w2 = (w', Some err)" "tree w' = tree w2" "running w' = running w2"
    using tree_lawsD(4)[OF assms(1) w2(3)] by blast
  then show ?thesis using w2 by auto
qed

lemma pivot_takes_new:
  assumes "tree_laws e tree running name" "as_rootfs a = rootfs_of e (name @ ''.new'')" "pivot e cleaned name a w = (w', None)"
  shows "tree w' (rootfs_of e (name @ ''.new'')) = None"
proof -
  let ?new = "rootfs_of e (name @ ''.new'')" and ?old = "rootfs_of e (name @ ''.old'')" and ?w = "stop_and_wait e name w"
  note laws = tree_lawsD[OF assms(1)] and dirs = dirs_apart[of e name]
  obtain w1 where w1: "swap_dirs (ue_os e) ?new (rootfs_of e name) ?old ?w = (w1, None)"
    using assms(3) by (auto simp: pivot_def Let_def assms(2) then_do_def split: prod.splits option.splits)
  then have "tree w1 ?new = None"
    using dirs by (intro swap_moves[OF assms(1)]) auto
  moreover obtain w2 where w2: "start_from e name (rootfs_of e name) (as_cmd a) (as_env a) (as_working_dir a) w1 = (w2, None)"
    using assms(3) by (auto simp: pivot_def Let_def assms(2) w1 then_do_def split: prod.splits option.splits)
  moreover have "tree w2 = tree w1"
    using start_keeps_tree[OF assms(1), of "rootfs_of e name" "as_cmd a" "as_env a" "as_working_dir a" w1] w2 by simp
  moreover have "w' = (if path_exists (ue_os e) w2 ?old \<and> cleaned then fst (os_remove_dir_all (ue_os e) ?old w2) else w2)"
    using assms(3) by (auto simp: pivot_def Let_def assms(2) w1 w2 split: if_splits)
  ultimately show ?thesis using laws(2)[of w2 ?old] dirs by (auto simp: laws(1) split: if_splits)
qed

lemma pivot_without_new:
  assumes "tree_laws e tree running name" "as_rootfs a = rootfs_of e (name @ ''.new'')"
    and "tree w (rootfs_of e (name @ ''.new'')) = None"
  shows "\<exists>w' err. pivot e cleaned name a w = (w', Some err) \<and> tree w' (rootfs_of e name) = None \<and> \<not> running w'"
proof -
  note dirs = dirs_apart[of e name]
  let ?w = "stop_and_wait e name w"
  have w: "tree ?w = tree w" "\<not> running ?w" using tree_lawsD(5,6)[OF assms(1)] by blast+
  obtain w' err where swap: "swap_dirs (ue_os e) (rootfs_of e (name @ ''.new'')) (rootfs_of e name) (rootfs_of e (name @ ''.old'')) ?w = (w', Some err)"
    "tree w' (rootfs_of e name) = None" "running w' = running ?w"
    using swap_without_new[OF assms(1), where w = ?w] dirs assms(3) w(1) by metis
  then have "pivot e cleaned name a w = (w', Some err)" by (simp add: pivot_def Let_def assms(2))
  then show ?thesis using swap w by auto
qed

lemma map_of_on_state: "map_of (on_state name f st) n = (if n = name then map_option f (map_of st n) else map_of st n)"
  by (induction st) (auto simp: on_state_def)

lemma installed_needs_nothing:
  assumes "new_digest e img w = (w', Some d)" "map_of st name \<noteq> None"
  shows "\<not> needs_update (set_status name v (snd (update_done e name img a (w, st)))) name d"
  using assms by (auto simp: needs_update_def set_status_def update_done_def map_of_on_state Let_def)

section \<open>Properties\<close>


section \<open>A host of two flags\<close>

record yard =
  yd_tree :: "string \<Rightarrow> unit option"
  yd_running :: bool

definition yard_os :: "yard os" where
  "yard_os = \<lparr>
     os_metadata = (\<lambda>w p. if yd_tree w p \<noteq> None then Inr \<lparr>md_is_dir = True, md_is_file = False, md_is_symlink = False, md_len = 0,
        md_mode = 0, md_modified = None, md_dev = 0, md_ino = 0, md_nlink = 1, md_uid = 0, md_gid = 0\<rparr> else Inl ''gone''),
     os_symlink_metadata = (\<lambda>w p. Inl ''gone''), os_read = (\<lambda>w p. Inl ''gone''), os_read_text = (\<lambda>w p. Inl ''gone''),
     os_read_dir = (\<lambda>w p. Inl ''gone''), os_read_link = (\<lambda>w p. Inl ''gone''), os_access = (\<lambda>w p op. True),
     os_current_dir = (\<lambda>w. Inr ''/''), os_open_write = (\<lambda>w p. None), os_write = (\<lambda>p t w. (w, None)),
     os_append = (\<lambda>p t w. (w, None)), os_copy = (\<lambda>p q w. (w, Inr 0)),
     os_rename = (\<lambda>p q w. if yd_tree w p = None then (w, Some ''gone'')
        else (w\<lparr>yd_tree := (yd_tree w)(p := None, q := yd_tree w p)\<rparr>, None)),
     os_remove_file = (\<lambda>p w. (w, None)),
     os_remove_dir_all = (\<lambda>p w. if yd_tree w p = None then (w, Some ''gone'') else (w\<lparr>yd_tree := (yd_tree w)(p := None)\<rparr>, None)),
     os_create_dir = (\<lambda>p w. (w, None)), os_create_dir_all = (\<lambda>p w. (w\<lparr>yd_tree := (yd_tree w)(p := Some ())\<rparr>, None)),
     os_chmod = (\<lambda>p m w. (w, None)), os_chown = (\<lambda>p u g w. (w, None)), os_symlink = (\<lambda>p q w. (w, None)),
     os_hard_link = (\<lambda>p q w. (w, None)), os_strftime = (\<lambda>f t. f)\<rparr>"

definition yard_up :: "yard up_env" where
  "yard_up = \<lparr>
     ue_config = updater_config_default,
     ue_processes = [(process_config_default ''app'' [])\<lparr>pc_image := Some ''r/app:1''\<rparr>],
     ue_os = yard_os,
     ue_http = (\<lambda>r w. (w, Inr \<lparr>an_status = 200, an_shown = ''200 OK'', an_text = Inr [], an_json = Inl [],
        an_headers = [(''docker-content-digest'', ''A'')]\<rparr>)),
     ue_parse_ref = (\<lambda>i. Inr demo_ref), ue_store_init = (\<lambda>d w. (w, None)),
     ue_pull = (\<lambda>d i w. (w, Inr \<lparr>pi_manifest_digest = ''A'', pi_config_digest = ''c'', pi_layer_digests = []\<rparr>)),
     ue_blob = (\<lambda>d w i. Inr []),
     ue_oci = (\<lambda>b. Inr (Some \<lparr>oc_entrypoint = Some [''/bin/app''], oc_cmd = None, oc_env = None, oc_working_dir = None\<rparr>)),
     ue_entries = (\<lambda>z b. Inr []), ue_unpack_in = (\<lambda>t p w. (w, None)), ue_type_error = (\<lambda>p. p),
     ue_parse = (\<lambda>t. None), ue_print = (\<lambda>j. ''record''), ue_named = (\<lambda>n. Inl []), ue_now = (\<lambda>w. 0),
     ue_stop = (\<lambda>n w. (w\<lparr>yd_running := False\<rparr>, None)), ue_wait_stopped = (\<lambda>n w. w),
     ue_update_config = (\<lambda>n c w. (w, None)), ue_start = (\<lambda>n w. (w\<lparr>yd_running := True\<rparr>, None)),
     ue_known = (\<lambda>w n. True), ue_register = (\<lambda>c w. w), ue_emit = (\<lambda>k p d w. w)\<rparr>"

lemma yard_laws: "tree_laws yard_up yd_tree yd_running ''app''"
  by (auto simp: tree_laws_def yard_up_def yard_os_def path_exists_def stop_and_wait_def)

definition yard_start :: yard where
  "yard_start = \<lparr>yd_tree = (\<lambda>p. None), yd_running = False\<rparr>"

definition yard_ready :: yard where
  "yard_ready = \<lparr>yd_tree = (\<lambda>p. None)(''/data/rootfs/app.new'' := Some ()), yd_running = False\<rparr>"

definition yard_first :: yard where
  "yard_first = \<lparr>yd_tree = (\<lambda>p. None)(''/data/rootfs/app'' := Some ()), yd_running = True\<rparr>"

lemma yard_dirs: "rootfs_of yard_up ''app'' = ''/data/rootfs/app''" "rootfs_of yard_up ''app.new'' = ''/data/rootfs/app.new''"
  "rootfs_of yard_up ''app.old'' = ''/data/rootfs/app.old''"
  by (simp_all add: rootfs_of_def yard_up_def updater_config_default_def path_join_def starts_with_def ends_with_def strip_suffix_def)

lemma yard_parts:
  "ue_store_init yard_up d w = (w, None)" "ue_os yard_up = yard_os" "ue_blob yard_up d w i = Inr []"
  "ue_pull yard_up d i w = (w, Inr \<lparr>pi_manifest_digest = ''A'', pi_config_digest = ''c'', pi_layer_digests = []\<rparr>)"
  "ue_oci yard_up b = Inr (Some \<lparr>oc_entrypoint = Some [''/bin/app''], oc_cmd = None, oc_env = None, oc_working_dir = None\<rparr>)"
  by (simp_all add: yard_up_def)

lemma yard_fresh: "yd_tree w = yd_tree yard_start \<or> yd_tree w = yd_tree yard_ready \<Longrightarrow> \<not> yd_running w \<Longrightarrow>
    fresh_dir yard_os ''/data/rootfs/app.new'' w = (yard_ready, None)"
  by (cases w) (auto simp: fresh_dir_def path_exists_def yard_os_def yard_start_def yard_ready_def)

lemma yard_pull: "yd_tree w = yd_tree yard_start \<or> yd_tree w = yd_tree yard_ready \<Longrightarrow> \<not> yd_running w \<Longrightarrow>
    pull_and_assemble yard_up ''app'' ''r/app:1'' w = (yard_ready, Inr demo_image)"
  using yard_fresh[of w]
  by (simp add: pull_and_assemble_def assemble_def yard_parts yard_dirs oci_command_def oci_env_def oci_working_dir_def
      demo_image_def Let_def)

lemma yard_pivot: "pivot yard_up True ''app'' demo_image yard_ready = (yard_first, None)"
proof -
  have "stop_and_wait yard_up ''app'' yard_ready = yard_ready" by (simp add: stop_and_wait_def yard_up_def yard_ready_def)
  moreover have "swap_dirs yard_os ''/data/rootfs/app.new'' ''/data/rootfs/app'' ''/data/rootfs/app.old'' yard_ready
      = (yard_first\<lparr>yd_running := False\<rparr>, None)"
    by (simp add: swap_dirs_def path_exists_def yard_os_def yard_ready_def yard_first_def fun_eq_iff)
  moreover have "start_from yard_up ''app'' ''/data/rootfs/app'' [''/bin/app''] [] None (yard_first\<lparr>yd_running := False\<rparr>) = (yard_first, None)"
    by (simp add: start_from_def image_process_config_def original_of_def yard_up_def process_config_default_def yard_first_def)
  moreover have "ue_os yard_up = yard_os" "\<not> path_exists yard_os yard_first ''/data/rootfs/app.old''"
    by (simp_all add: yard_up_def path_exists_def yard_os_def yard_first_def)
  ultimately show ?thesis by (simp add: pivot_def yard_dirs demo_image_def Let_def)
qed


end
