(* ===== verification/Spec2Isabelle.thy ===== *)
theory Spec2Isabelle
  imports Probes StormLog SupTraces Reaper Cron Auth ShellUse Goldens Updater Ssh CloudId Sftp
    Components Proxy Metrics WebSockets Api Backup Tls Daemon Stormsh Terminal ApiFiles Events Watchers Console LogPipeline Capture Entry
    ShutdownTime UpdateRace
begin

text \<open>
  Verification of \<open>stormd\<close>, the supervisor that runs as the first process of a container, with its log
  library \<open>stormlog\<close> and its console client \<open>stormsh\<close> (the three crates under \<open>src/crates\<close>).

  \<^bold>\<open>The program.\<close> \<open>main.rs\<close> reads and validates a TOML configuration, binds the API, and starts the parts:
  the supervisor forks the processes in the order of their dependencies, watches each run with probes,
  decides at each exit whether and when to restart, and stops everything in tiers when it shuts down; the
  updater keeps the root file systems of processes that are images current; goldens are volumes presented
  to a process before it starts; cron runs jobs; the reaper takes orphans; every line of output goes through
  one funnel of \<open>stormlog\<close> to a file, a multicast group, the followers, a screen and a tail. The API, the
  WebSockets, the SSH shell and its SFTP subsystem, and the console client show and control all of it; the
  authentication guards the API. The parts meet in the supervisor (processes, statuses, requests), in the
  event bus and in the log.

  \<^bold>\<open>Theories and sources.\<close> Names under \<open>src/crates/stormd/src\<close> unless said otherwise.
  \<^item> \<open>Prelude\<close>, \<open>RustStr\<close>, \<open>FileSys\<close>, \<open>Http\<close>: integers of Rust with their saturation, the string functions
    of its library, the calls of the file system and of an HTTP client as parameters; shared lemmas.
  \<^item> \<open>Probes\<close>, \<open>NodeVars\<close>, \<open>Config\<close>, \<open>K8sEvents\<close>, \<open>Events\<close>: \<open>probes.rs\<close>, \<open>nodevars.rs\<close>, \<open>config.rs\<close>,
    \<open>k8sevents.rs\<close>, \<open>events.rs\<close>. \<open>ApiHealth\<close> is the bookkeeping of \<open>apihealth.rs\<close>, \<open>ApiFiles\<close> its probe and files.
  \<^item> \<open>SupBase\<close> (a process and what is read of it), \<open>StopTiers\<close> (the order of stopping), \<open>SupOps\<close> (the
    operations, each as one locked section), \<open>Supervisor\<close> (the tasks of \<open>supervisor.rs\<close> as a step
    relation over them), \<open>Watchers\<close> (the loops that probe a run), \<open>ShutdownTime\<close> (how long its waits take, and who is told to stop), \<open>ExitRules\<close>, \<open>SupInvariants\<close> and
    \<open>SupTraces\<close> (what holds of it). A Rust task is a value of \<open>task\<close>; a step is what one task does between
    two points where another may run.
  \<^item> \<open>LogTypes\<close>, \<open>LogStore\<close>, \<open>LogFile\<close>, \<open>StormLog\<close>, \<open>Terminal\<close>: \<open>stormlog/src\<close>; \<open>LogPipeline\<close> is the way
    from a write to a query, against the segments a log promises to keep; \<open>Capture\<close> has the reader tasks of a
    run, taking turns, and the wait for them when the run is closed.
  \<^item> \<open>Reaper\<close>, \<open>Cron\<close>, \<open>Auth\<close>, \<open>Stats\<close>, \<open>Goldens\<close>, \<open>Updater\<close>, \<open>CloudId\<close>, \<open>Backup\<close>, \<open>Tls\<close>: the files of these
    names; \<open>Goldens\<close> also has \<open>swap_golden\<close> of the supervisor, \<open>UpdateRace\<close> two updates at once.
  \<^item> \<open>ShellBase\<close>, \<open>ShellText\<close>, \<open>ShellFile\<close>, \<open>ShellTree\<close>, \<open>ShellProc\<close>, \<open>ShellSys\<close>, \<open>ShellNet\<close>, \<open>Shell\<close>,
    \<open>ShellUse\<close>: \<open>shell/*.rs\<close>, the applets and the dispatch; \<open>Ssh\<close> and \<open>Sftp\<close>: the sessions.
  \<^item> \<open>Components\<close>, \<open>Proxy\<close>, \<open>Metrics\<close>, \<open>WebSockets\<close>, \<open>ApiBase\<close>, \<open>Api\<close>: \<open>components.rs\<close>, \<open>ws.rs\<close>, \<open>web.rs\<close>,
    \<open>debug.rs\<close> and the parts of \<open>api.rs\<close>: the proxy of plugins, \<open>/metrics\<close>, the routes, the handlers.
  \<^item> \<open>Daemon\<close>: \<open>main.rs\<close>; \<open>Entry\<close>: its first part, which program stormd is by its name and options. \<open>Stormsh\<close>: \<open>stormsh/src\<close>, and \<open>Console\<close> its \<open>ui.rs\<close>.

  \<^bold>\<open>How code is modelled.\<close> A struct is a record, an enum a datatype, an integer a word of its width (a
  count that only grows is a \<open>nat\<close> where a wrap needs more steps than a run can have), a map a partial
  function or, where its order is seen, an association list. A failure is a value of a sum or option
  type, a panic is \<open>None\<close>, \<open>Panics\<close> or an outcome of its own. Code that is not of this repository (the
  network, \<open>rustls\<close>, \<open>russh\<close>, \<open>tar\<close>, \<open>serde\<close>, the cron expressions, the clock, random ids) is a parameter;
  what is relied on is a named hypothesis (\<open>plain_values\<close>, \<open>engine_keeps\<close>, \<open>host_keeps\<close>, \<open>renames_whole\<close>, \<open>tree_laws\<close>),
  each with a witness that shows it can hold.

  \<^bold>\<open>What the lemmas show.\<close>
  \<^item> Supervision: when an exit restarts and how often; every live child has exactly one holder that ends
    it; nothing starts once the shutdown has begun; dependents stop first; one \<open>stop_all\<close> returns before the
    watchdog, two with a stuck process do not; a liveness probe stops a run
    exactly at its threshold; and three traces in which the code loses a stop, leaves a child or ends the
    start order.
  \<^item> Logs: what is written is what a query gives back, through rotations and the writes of others, and from
    all of it while it fits; queries return the newest, lines lost to a failing file are
    counted, pruning and reading by name take more than they should; readers keep the order of their lines in every
    interleaving, a close waits ten seconds at most, and a line still unread then goes to the next run.
  \<^item> Access: which requests get through with authentication on, which routes are open without, that no
    credential of stormd reaches a plugin, which certificate pair is served.
  \<^item> Goldens and images: the table of presented goldens against a ledger of what the engine holds, when
    presenting ends, that images come to rest, that a restart runs what the last update started, and that of two updates at
    once the second takes the tree away.
  \<^item> Encodings: varints, log lines, update records, base64 and the metrics text against the samples meant.
  \<^item> The console: the selected card is always on the screen, and opening the logs panics.
  \<^item> Validation, cron, reaping, events, API health: each against its own specification.
  \<^item> Interfaces are locales of the prelude, interpreted on the model: \<open>bounded_queue\<close> on the window of
    latencies and the tail of the log, \<open>delay_policy\<close> on the waits before a restart, \<open>codec\<close> on varints,
    the fields of a log line and update records, \<open>step_invariant\<close> on the supervisor, cron and the store of
    events, \<open>step_monotone\<close> on the shutdown flag.

  \<^bold>\<open>Bounds and fuel.\<close> The budget of \<open>depth\<close> is the code's own, the number of processes, which bounds every
  chain of dependencies without a cycle. \<open>find\<close> and \<open>du\<close> stop below 21 and 11 directories as the code does;
  \<open>dir_size\<close> has no bound in the code and takes fuel (\<open>ho_fuel\<close>), with \<open>None\<close> where it does not suffice.
  \<open>present_until\<close> is a partial function, as the code tries for ever, and is shown to return exactly when it
  should; so is the loop of \<open>grpc_serving_status\<close>, with an input on which it does not return and a bound
  under which it does. Loops that run as long as stormd does (polling, refreshing, probing, the console)
  are functions of the list of their turns.

  \<^bold>\<open>Not modelled.\<close> The handshakes and protocols of third-party crates; argument parsing and the reading of
  TOML and JSON into the records; the ioctls for interface addresses; what only goes to the trace; the
  layout, borders and wrapping of \<open>ratatui\<close>; scheduling between tasks beyond the supervisor's
  own (each other part is modelled with its locked sections in sequence); tests and their fixtures.
\<close>

end
